(* ===== verification/Prelude.thy ===== *)
theory Prelude
  imports Complex_Main "HOL-Library.Multiset" "HOL-Library.Char_ord" "HOL-Library.List_Lexorder"
begin

section \<open>Shared vocabulary\<close>

text \<open>
  What every component uses: the error values of the runtime and the sequencing of
  fallible steps, the string operations of the language that the sources call, and the
  generic facts on lists and results that the component proofs share.

  A JavaScript string is modelled by the bytes of its UTF-8 encoding (a \<open>char list\<close>), so
  \<open>length\<close> is \<open>Buffer.byteLength\<close>. Sorting is bytewise; it agrees with the code-unit order of
  \<open>Array.prototype.sort\<close> on every string without supplementary characters.
\<close>

named_theorems guard_simps "equations that open the guards of a fallible operation"
named_theorems inv_intros "introduction rules for component invariants"

subsection \<open>Error values\<close>

text \<open>
  One constructor per error class of the sources. The message is kept where the sources
  build it from data.
\<close>

datatype error =
    Err string
  | Corruption string             \<comment> \<open>\<open>PersistenceCorruptionError\<close>\<close>
  | IncompatibleRevision int      \<comment> \<open>\<open>IncompatibleContractRevisionError\<close>, the revision found\<close>
  | LeaseFenced string            \<comment> \<open>\<open>RunLeaseFencedError\<close>\<close>
  | LeaseUnavailable string       \<comment> \<open>\<open>RunLeaseUnavailableError\<close>\<close>
  | Enoent                        \<comment> \<open>a Node error whose code is \<open>ENOENT\<close>\<close>
  | PreflightErr string           \<comment> \<open>\<open>PreflightError\<close>\<close>
  | ArtifactErr string            \<comment> \<open>\<open>ArtifactStoreError\<close>\<close>
  | DiscoveryErr string           \<comment> \<open>\<open>AgentDiscoveryError\<close>\<close>
  | CapacityExhausted int int     \<comment> \<open>\<open>VmCapacityExhaustedError\<close>: slots, milliseconds waited\<close>
  | WriteBudgetErr int int int    \<comment> \<open>\<open>WorkspaceWriteBudgetError\<close>: requested, remaining, limit\<close>
  | RetryBackoffUntil int         \<comment> \<open>\<open>RetryBackoffError\<close>: the instant in milliseconds\<close>
  | WorktreeErr string            \<comment> \<open>\<open>WorktreeError\<close>\<close>
  | WorktreeNoChanges             \<comment> \<open>\<open>WorktreeNoChangesError\<close>\<close>
  | Aborted string                \<comment> \<open>an abort signal's reason\<close>

type_synonym 'a res = "error + 'a"

subsection \<open>Sequencing fallible steps\<close>

fun andThen :: "'e + 'a \<Rightarrow> ('a \<Rightarrow> 'e + 'b) \<Rightarrow> 'e + 'b" where
  "andThen (Inl e) f = Inl e"
| "andThen (Inr x) f = f x"

definition require :: "bool \<Rightarrow> 'e \<Rightarrow> 'e + unit" where
  "require b e = (if b then Inr () else Inl e)"

definition isOk :: "'e + 'a \<Rightarrow> bool" where
  "isOk r = (case r of Inl _ \<Rightarrow> False | Inr _ \<Rightarrow> True)"

text \<open>A loop over a list that threads a state and stops at the first error.\<close>

fun foldRes :: "('a \<Rightarrow> 's \<Rightarrow> 'e + 's) \<Rightarrow> 'a list \<Rightarrow> 's \<Rightarrow> 'e + 's" where
  "foldRes f [] s = Inr s"
| "foldRes f (x # xs) s = andThen (f x s) (foldRes f xs)"

fun mapRes :: "('a \<Rightarrow> 'e + 'b) \<Rightarrow> 'a list \<Rightarrow> 'e + 'b list" where
  "mapRes f [] = Inr []"
| "mapRes f (x # xs) = andThen (f x) (\<lambda>y. andThen (mapRes f xs) (\<lambda>ys. Inr (y # ys)))"

lemma andThen_eq_Inr [simp]:
  "andThen r f = Inr y \<longleftrightarrow> (\<exists>x. r = Inr x \<and> f x = Inr y)"
  by (cases r) auto

lemma andThen_eq_Inl:
  "andThen r f = Inl e \<longleftrightarrow> r = Inl e \<or> (\<exists>x. r = Inr x \<and> f x = Inl e)"
  by (cases r) auto

lemma require_eq_Inr [simp]: "require b e = Inr u \<longleftrightarrow> b"
  by (simp add: require_def)

lemma require_eq_Inl [simp]: "require b e = Inl e' \<longleftrightarrow> \<not> b \<and> e' = e"
  by (auto simp add: require_def)

lemma require_simps [simp]: "require True e = Inr ()" "require False e = Inl e"
  by (simp_all add: require_def)

lemma isOk_simps [simp]: "isOk (Inl e) = False" "isOk (Inr x) = True"
  by (simp_all add: isOk_def)

lemma isOk_iff: "isOk r \<longleftrightarrow> (\<exists>x. r = Inr x)"
  by (cases r) auto

lemma mapRes_Inr: "mapRes f xs = Inr ys \<longleftrightarrow> list_all2 (\<lambda>x y. f x = Inr y) xs ys"
proof (induction xs arbitrary: ys)
  case Nil
  then show ?case by auto
next
  case (Cons x xs)
  have "mapRes f (x # xs) = Inr ys \<longleftrightarrow> (\<exists>y zs. ys = y # zs \<and> f x = Inr y \<and> mapRes f xs = Inr zs)"
    by auto
  then show ?case by (simp add: Cons.IH list_all2_Cons1)
qed

lemma mapRes_map: "(\<And>x. x \<in> set xs \<Longrightarrow> f x = Inr (g x)) \<Longrightarrow> mapRes f xs = Inr (map g xs)"
  by (induction xs) auto

lemma foldRes_append:
  "foldRes f (xs @ ys) s = andThen (foldRes f xs s) (foldRes f ys)"
proof (induction xs arbitrary: s)
  case Nil
  then show ?case by simp
next
  case (Cons x xs)
  then show ?case by (cases "f x s") simp_all
qed

lemma foldRes_invariant:
  assumes "foldRes f xs s = Inr t" and "P s"
    and "\<And>x s s'. x \<in> set xs \<Longrightarrow> P s \<Longrightarrow> f x s = Inr s' \<Longrightarrow> P s'"
  shows "P t"
  using assms
proof (induction xs arbitrary: s)
  case Nil
  then show ?case by simp
next
  case (Cons x xs)
  from Cons.prems(1) obtain s' where "f x s = Inr s'" and "foldRes f xs s' = Inr t"
    by auto
  with Cons show ?case by (metis list.set_intros(1,2))
qed

lemma fold_invariant:
  "(\<And>x s. x \<in> set xs \<Longrightarrow> P s \<Longrightarrow> P (f x s)) \<Longrightarrow> P s \<Longrightarrow> P (fold f xs s)"
  by (induction xs arbitrary: s) auto

subsection \<open>Sequencing steps on a state\<close>

text \<open>
  A step of an asynchronous function reads and changes a state and may throw: \<open>bindS\<close> awaits a step and
  goes on with its value, \<open>checkS\<close> throws unless a condition holds, \<open>readS\<close> only reads. \<open>catchS\<close> is a
  \<open>catch\<close> clause.
\<close>

definition bindS :: "('s \<Rightarrow> ('e + 'a) \<times> 's) \<Rightarrow> ('a \<Rightarrow> 's \<Rightarrow> ('e + 'b) \<times> 's) \<Rightarrow> 's \<Rightarrow> ('e + 'b) \<times> 's" where
  "bindS m f s = (case m s of (Inl e, s') \<Rightarrow> (Inl e, s') | (Inr a, s') \<Rightarrow> f a s')"

definition okS :: "'a \<Rightarrow> 's \<Rightarrow> ('e + 'a) \<times> 's" where "okS a s = (Inr a, s)"
definition failS :: "'e \<Rightarrow> 's \<Rightarrow> ('e + 'a) \<times> 's" where "failS e s = (Inl e, s)"
definition readS :: "('s \<Rightarrow> 'e + 'a) \<Rightarrow> 's \<Rightarrow> ('e + 'a) \<times> 's" where "readS f s = (f s, s)"
definition checkS :: "bool \<Rightarrow> 'e \<Rightarrow> 's \<Rightarrow> ('e + unit) \<times> 's" where
  "checkS b e s = (if b then Inr () else Inl e, s)"

definition catchS :: "('s \<Rightarrow> ('e + 'a) \<times> 's) \<Rightarrow> ('e \<Rightarrow> 's \<Rightarrow> ('e + 'a) \<times> 's) \<Rightarrow> 's \<Rightarrow> ('e + 'a) \<times> 's" where
  "catchS m h s = (case m s of (Inl e, s') \<Rightarrow> h e s' | (Inr a, s') \<Rightarrow> (Inr a, s'))"

lemma bindS_Inr [simp]: "bindS m f s = (Inr b, t) \<longleftrightarrow> (\<exists>a s'. m s = (Inr a, s') \<and> f a s' = (Inr b, t))"
  by (auto simp: bindS_def split: sum.splits prod.splits)

lemma stepS_Inr [simp]:
  "okS a s = (Inr b, t) \<longleftrightarrow> b = a \<and> t = s" "failS e s \<noteq> (Inr b, t)"
  "readS f s = (Inr b, t) \<longleftrightarrow> f s = Inr b \<and> t = s" "checkS c e s = (Inr u, t) \<longleftrightarrow> c \<and> t = s"
  by (auto simp: okS_def failS_def readS_def checkS_def)

lemma catchS_Inr: "catchS m h s = (Inr b, t) \<longleftrightarrow> m s = (Inr b, t) \<or> (\<exists>e s'. m s = (Inl e, s') \<and> h e s' = (Inr b, t))"
  by (auto simp: catchS_def split: sum.splits prod.splits)

subsection \<open>Strings of the language\<close>

definition startsWith :: "string \<Rightarrow> string \<Rightarrow> bool" where
  "startsWith s p = (take (length p) s = p)"

definition endsWith :: "string \<Rightarrow> string \<Rightarrow> bool" where
  "endsWith s p = (length p \<le> length s \<and> drop (length s - length p) s = p)"

fun contains :: "string \<Rightarrow> string \<Rightarrow> bool" where
  "contains [] p = (p = [])"
| "contains (c # s) p = (startsWith (c # s) p \<or> contains s p)"

definition is_digit :: "char \<Rightarrow> bool" where
  "is_digit c = (48 \<le> (of_char c :: nat) \<and> (of_char c :: nat) \<le> 57)"

definition is_lower :: "char \<Rightarrow> bool" where
  "is_lower c = (97 \<le> (of_char c :: nat) \<and> (of_char c :: nat) \<le> 122)"

definition is_upper :: "char \<Rightarrow> bool" where
  "is_upper c = (65 \<le> (of_char c :: nat) \<and> (of_char c :: nat) \<le> 90)"

definition is_hex :: "char \<Rightarrow> bool" where
  "is_hex c = (is_digit c \<or> (97 \<le> (of_char c :: nat) \<and> (of_char c :: nat) \<le> 102))"

definition lowerChar :: "char \<Rightarrow> char" where
  "lowerChar c = (if is_upper c then char_of ((of_char c :: nat) + 32) else c)"

text \<open>\<open>toLowerCase\<close> on the ASCII letters, which are the only ones the sources match against.\<close>

definition toLowerCase :: "string \<Rightarrow> string" where
  "toLowerCase s = map lowerChar s"

definition is_space :: "char \<Rightarrow> bool" where
  "is_space c = (c = CHR '' '' \<or> (9 \<le> (of_char c :: nat) \<and> (of_char c :: nat) \<le> 13))"

definition trim :: "string \<Rightarrow> string" where
  "trim s = rev (dropWhile is_space (rev (dropWhile is_space s)))"

abbreviation newline :: char where
  "newline \<equiv> CHR 0x0A"

text \<open>\<open>String.prototype.split\<close> on one character: always at least one piece.\<close>

fun splitOn :: "char \<Rightarrow> string \<Rightarrow> string list" where
  "splitOn d [] = [[]]"
| "splitOn d (c # s) =
     (if c = d then [] # splitOn d s
      else (case splitOn d s of [] \<Rightarrow> [[c]] | w # ws \<Rightarrow> (c # w) # ws))"

lemma splitOn_nonempty [simp]: "splitOn d s \<noteq> []"
  by (cases s) (auto split: list.splits)

lemma splitOn_no_sep: "d \<notin> set s \<Longrightarrow> splitOn d s = [s]"
  by (induction s) auto

lemma splitOn_append_sep:
  "d \<notin> set w \<Longrightarrow> splitOn d (w @ d # s) = w # splitOn d s"
  by (induction w) auto

text \<open>\<open>Array.prototype.join\<close>.\<close>

fun joinWith :: "string \<Rightarrow> string list \<Rightarrow> string" where
  "joinWith sep [] = []"
| "joinWith sep [s] = s"
| "joinWith sep (s # t # ss) = s @ sep @ joinWith sep (t # ss)"

lemma splitOn_Cons: "\<exists>w ws. splitOn d s = w # ws"
  by (cases "splitOn d s") simp_all

lemma joinWith_Cons: "ss \<noteq> [] \<Longrightarrow> joinWith sep (s # ss) = s @ sep @ joinWith sep ss"
  by (cases ss) simp_all

lemma joinWith_splitOn: "joinWith [d] (splitOn d s) = s"
proof (induction s)
  case (Cons c s)
  obtain w ws where "splitOn d s = w # ws" using splitOn_Cons by blast
  then show ?case using Cons by (cases ws) auto
qed simp

lemma splitOn_joinWith: "ss \<noteq> [] \<Longrightarrow> \<forall>s \<in> set ss. d \<notin> set s \<Longrightarrow> splitOn d (joinWith [d] ss) = ss"
  by (induction "[d]" ss rule: joinWith.induct) (simp_all add: splitOn_no_sep splitOn_append_sep)

lemma splitOn_free: "w \<in> set (splitOn d s) \<Longrightarrow> d \<notin> set w"
proof (induction s arbitrary: w)
  case (Cons c s)
  obtain v vs where "splitOn d s = v # vs" using splitOn_Cons by blast
  then show ?case using Cons by (auto split: if_splits)
qed simp

lemma endsWith_append [simp]: "endsWith (s @ p) p"
  by (simp add: endsWith_def)

lemma startsWith_append [simp]: "startsWith (p @ s) p"
  by (simp add: startsWith_def)

lemma endsWith_singleton: "endsWith s [c] \<longleftrightarrow> (s \<noteq> [] \<and> last s = c)"
proof (cases s rule: rev_cases)
  case Nil
  then show ?thesis by (simp add: endsWith_def)
next
  case (snoc t x)
  then show ?thesis by (simp add: endsWith_def)
qed

subsection \<open>Lists\<close>

definition unique :: "'a list \<Rightarrow> 'a list" where
  "unique xs = rev (remdups (rev xs))"

text \<open>\<open>[...new Set(xs)]\<close>: each element once, in the order of first insertion.\<close>

lemma set_unique [simp]: "set (unique xs) = set xs"
  by (simp add: unique_def)

lemma distinct_unique [simp]: "distinct (unique xs)"
  by (simp add: unique_def)

text \<open>\<open>findLast\<close> and \<open>Array.prototype.at(-1)\<close>.\<close>

definition findLast :: "('a \<Rightarrow> bool) \<Rightarrow> 'a list \<Rightarrow> 'a option" where
  "findLast p xs = find p (rev xs)"

definition lastOpt :: "'a list \<Rightarrow> 'a option" where
  "lastOpt xs = (if xs = [] then None else Some (last xs))"

lemma findLast_Some: "findLast p xs = Some x \<Longrightarrow> p x \<and> x \<in> set xs"
  unfolding findLast_def find_Some_iff
  by (metis length_rev nth_mem set_rev)

lemma findLast_None: "findLast p xs = None \<longleftrightarrow> (\<forall>x \<in> set xs. \<not> p x)"
  by (auto simp add: findLast_def find_None_iff)

lemma findLast_snoc: "findLast p (xs @ [x]) = (if p x then Some x else findLast p xs)"
  by (simp add: findLast_def)

lemma lastOpt_simps [simp]: "lastOpt [] = None" "lastOpt (xs @ [x]) = Some x"
  by (simp_all add: lastOpt_def)

lemma lastOpt_Some: "lastOpt xs = Some x \<longleftrightarrow> (\<exists>ys. xs = ys @ [x])"
  by (cases xs rule: rev_cases) auto

text \<open>Sums over a list of bytes, as the accounting loops of the sources compute them.\<close>

lemma sum_list_nonneg_int: "(\<And>x. x \<in> set xs \<Longrightarrow> 0 \<le> f x) \<Longrightarrow> 0 \<le> (\<Sum>x\<leftarrow>xs. f x :: int)"
  by (induction xs) auto

lemma sum_list_filter_split:
  "(\<Sum>x\<leftarrow>xs. f x :: int) = (\<Sum>x\<leftarrow>filter p xs. f x) + (\<Sum>x\<leftarrow>filter (\<lambda>x. \<not> p x) xs. f x)"
  by (induction xs) auto

subsection \<open>Characters of a UTF-8 string\<close>

text \<open>
  \<open>for (const character of text)\<close> yields whole characters: a lead byte with its continuation bytes.
  \<open>utf8Text\<close> holds of the byte strings that encode some text.
\<close>

definition isCont :: "char \<Rightarrow> bool" where
  "isCont c = (128 \<le> (of_char c :: nat) \<and> (of_char c :: nat) < 192)"

definition utf8Len :: "char \<Rightarrow> nat" where
  "utf8Len c = (let n = (of_char c :: nat) in
     if n < 128 then 1 else if n < 224 then 2 else if n < 240 then 3 else 4)"

lemma dropWhile_shorter [simp]: "length (dropWhile P xs) < Suc (length xs)"
  by (simp add: length_dropWhile_le less_Suc_eq_le)

fun characters :: "string \<Rightarrow> string list" where
  "characters [] = []"
| "characters (c # s) = (c # takeWhile isCont s) # characters (dropWhile isCont s)"

definition utf8Text :: "string \<Rightarrow> bool" where
  "utf8Text s = ((s = [] \<or> \<not> isCont (hd s)) \<and>
     list_all (\<lambda>ch. length ch = utf8Len (hd ch)) (characters s))"

lemma concat_characters [simp]: "concat (characters s) = s"
  by (induction s rule: characters.induct) simp_all

lemma characters_nonempty: "ch \<in> set (characters s) \<Longrightarrow> ch \<noteq> []"
  by (induction s rule: characters.induct) auto

lemma characters_eq_Nil [simp]: "characters s = [] \<longleftrightarrow> s = []"
  by (cases s) simp_all

lemma utf8Len_bound: "1 \<le> utf8Len c" "utf8Len c \<le> 4"
  by (simp_all add: utf8Len_def Let_def)

text \<open>Cutting a string after some byte leaves whole characters and at most the start of one more.\<close>

lemma characters_take:
  "\<exists>k. characters (take n s) = take k (characters s)
     \<or> (k < length (characters s) \<and> (\<exists>j. characters (take n s)
          = take k (characters s) @ [take j (characters s ! k)]))"
proof (induction s arbitrary: n rule: characters.induct)
  case 1
  then show ?case by simp
next
  case (2 c s)
  show ?case
  proof (cases n)
    case 0
    then show ?thesis by (intro exI [of _ 0]) simp
  next
    case n: (Suc m)
    let ?tw = "takeWhile isCont s" and ?dw = "dropWhile isCont s"
    have split: "take m s = take m ?tw @ take (m - length ?tw) ?dw"
      by (metis take_append takeWhile_dropWhile_id)
    show ?thesis
    proof (cases "m \<le> length ?tw")
      case True
      then have "take m s = take m ?tw" using split by simp
      moreover have "\<forall>x \<in> set (take m ?tw). isCont x" by (meson in_set_takeD set_takeWhileD)
      ultimately have tw: "takeWhile isCont (take m s) = take m ?tw"
          and dw: "dropWhile isCont (take m s) = []"
        by (simp_all add: takeWhile_eq_all_conv dropWhile_eq_Nil_conv)
      have "characters (take n (c # s)) = [take (Suc m) (c # ?tw)]"
        unfolding n take_Suc_Cons characters.simps tw dw by simp
      then show ?thesis by (intro exI [of _ 0]) (auto simp del: take_Suc_Cons)
    next
      case False
      then have tk: "take m s = ?tw @ take (m - length ?tw) ?dw" using split by simp
      have "?dw = [] \<or> \<not> isCont (hd ?dw)" using hd_dropWhile by blast
      then have hd: "takeWhile isCont (take k ?dw) = []" for k
        by (metis hd_take takeWhile.simps takeWhile_eq_Nil_iff take_eq_Nil gr0I)
      have tw: "takeWhile isCont (take m s) = ?tw"
        unfolding tk using hd by (subst takeWhile_append2) (auto dest: set_takeWhileD)
      then have dw: "dropWhile isCont (take m s) = take (m - length ?tw) ?dw"
        using tk by (metis append_same_eq takeWhile_dropWhile_id same_append_eq)
      have "characters (take n (c # s)) = (c # ?tw) # characters (take (m - length ?tw) ?dw)"
        unfolding n take_Suc_Cons characters.simps tw dw ..
      moreover obtain k where "characters (take (m - length ?tw) ?dw) = take k (characters ?dw)
         \<or> (k < length (characters ?dw) \<and> (\<exists>j. characters (take (m - length ?tw) ?dw)
              = take k (characters ?dw) @ [take j (characters ?dw ! k)]))"
        using 2 [of "m - length ?tw"] by blast
      ultimately show ?thesis by (intro exI [of _ "Suc k"]) auto
    qed
  qed
qed

lemma utf8Text_chars: "utf8Text s \<Longrightarrow> ch \<in> set (characters s) \<Longrightarrow> length ch = utf8Len (hd ch)"
  by (simp add: utf8Text_def list_all_iff)

end
