(* ===== verification/Json.thy ===== *)
theory Json
  imports Prelude
begin

section \<open>JSON values and their text\<close>

text \<open>
  The value trees that the runtime persists and digests, with \<open>JSON.stringify\<close> and
  \<open>JSON.parse\<close> of the language on them.

  A number is modelled by the rational its decimal rendering denotes, so only finite decimals
  occur (\<open>wf_num\<close>); the exponent notation of very large and very small magnitudes is left out
  of the printer and the parser. A string is a byte string (see \<^verbatim>\<open>Prelude\<close>). An object is the
  list of its own members in enumeration order.
\<close>

datatype json =
    JNull
  | JBool bool
  | JNum rat
  | JStr string
  | JArr "json list"
  | JObj "(string \<times> json) list"

definition jget :: "json \<Rightarrow> string \<Rightarrow> json option" where
  "jget v k = (case v of JObj ms \<Rightarrow> map_of ms k | _ \<Rightarrow> None)"

subsection \<open>Numbers\<close>

definition digit :: "nat \<Rightarrow> char" where
  "digit d = char_of (48 + d)"

definition digitVal :: "char \<Rightarrow> nat" where
  "digitVal c = (of_char c :: nat) - 48"

fun showNat :: "nat \<Rightarrow> string" where
  "showNat n = (if n < 10 then [digit n] else showNat (n div 10) @ [digit (n mod 10)])"

declare showNat.simps [simp del]

definition readNat :: "string \<Rightarrow> nat" where
  "readNat s = foldl (\<lambda>n c. 10 * n + digitVal c) 0 s"

text \<open>Long division: the fraction digits of \<open>n / q\<close>, until the remainder is zero.\<close>

fun fracDigits :: "nat \<Rightarrow> nat \<Rightarrow> nat \<Rightarrow> string" where
  "fracDigits 0 n q = []"
| "fracDigits (Suc f) n q =
     (if n = 0 then [] else digit (10 * n div q) # fracDigits f (10 * n mod q) q)"

fun fracEnds :: "nat \<Rightarrow> nat \<Rightarrow> nat \<Rightarrow> bool" where
  "fracEnds 0 n q = (n = 0)"
| "fracEnds (Suc f) n q = (n = 0 \<or> fracEnds f (10 * n mod q) q)"

fun readFrac :: "string \<Rightarrow> rat" where
  "readFrac [] = 0"
| "readFrac (c # s) = (of_nat (digitVal c) + readFrac s) / 10"

definition showNum :: "rat \<Rightarrow> string" where
  "showNum r =
     (let (p, d) = quotient_of r; m = nat \<bar>p\<bar>; q = nat d
      in (if p < 0 then ''-'' else []) @ showNat (m div q) @
         (if m mod q = 0 then [] else CHR ''.'' # fracDigits q (m mod q) q))"

definition wf_num :: "rat \<Rightarrow> bool" where
  "wf_num r = (let (p, d) = quotient_of r in fracEnds (nat d) (nat \<bar>p\<bar> mod nat d) (nat d))"

definition readUnsigned :: "string \<Rightarrow> (rat \<times> string) option" where
  "readUnsigned s =
     (let ip = takeWhile is_digit s; r = dropWhile is_digit s
      in if ip = [] \<or> (hd ip = CHR ''0'' \<and> length ip > 1) then None
         else (case r of
                 c # t \<Rightarrow>
                   (if c = CHR ''.'' then
                      (let fp = takeWhile is_digit t
                       in if fp = [] then None
                          else Some (of_nat (readNat ip) + readFrac fp, dropWhile is_digit t))
                    else Some (of_nat (readNat ip), r))
               | [] \<Rightarrow> Some (of_nat (readNat ip), [])))"

definition readNum :: "string \<Rightarrow> (rat \<times> string) option" where
  "readNum s =
     (case s of
        [] \<Rightarrow> None
      | c # t \<Rightarrow> (if c = CHR ''-'' then map_option (\<lambda>(v, r). (- v, r)) (readUnsigned t)
                   else readUnsigned s))"

subsection \<open>Strings\<close>

definition hexDigit :: "nat \<Rightarrow> char" where
  "hexDigit d = (if d < 10 then char_of (48 + d) else char_of (87 + d))"

definition hexVal :: "char \<Rightarrow> nat option" where
  "hexVal c = (let n = (of_char c :: nat) in
     if 48 \<le> n \<and> n \<le> 57 then Some (n - 48)
     else if 97 \<le> n \<and> n \<le> 102 then Some (n - 87)
     else if 65 \<le> n \<and> n \<le> 70 then Some (n - 55) else None)"

definition escapeChar :: "char \<Rightarrow> string" where
  "escapeChar c = (let n = (of_char c :: nat) in
     if n = 34 then [CHR 92, CHR 34]
     else if n = 92 then [CHR 92, CHR 92]
     else if n = 8 then [CHR 92, CHR ''b'']
     else if n = 9 then [CHR 92, CHR ''t'']
     else if n = 10 then [CHR 92, CHR ''n'']
     else if n = 12 then [CHR 92, CHR ''f'']
     else if n = 13 then [CHR 92, CHR ''r'']
     else if n < 32 then [CHR 92, CHR ''u'', CHR ''0'', CHR ''0'', hexDigit (n div 16), hexDigit (n mod 16)]
     else [c])"

definition showStr :: "string \<Rightarrow> string" where
  "showStr s = CHR 34 # concat (map escapeChar s) @ [CHR 34]"

text \<open>The UTF-8 bytes of a code point written \<open>\uXXXX\<close>; a surrogate half has none.\<close>

definition utf8 :: "nat \<Rightarrow> string option" where
  "utf8 n =
     (if n < 128 then Some [char_of n]
      else if n < 2048 then Some [char_of (192 + n div 64), char_of (128 + n mod 64)]
      else if 55296 \<le> n \<and> n < 57344 then None
      else Some [char_of (224 + n div 4096), char_of (128 + n div 64 mod 64), char_of (128 + n mod 64)])"

definition hex4 :: "char \<Rightarrow> char \<Rightarrow> char \<Rightarrow> char \<Rightarrow> nat option" where
  "hex4 a b c d =
     (case (hexVal a, hexVal b, hexVal c, hexVal d) of
        (Some w, Some x, Some y, Some z) \<Rightarrow> Some (4096 * w + 256 * x + 16 * y + z)
      | _ \<Rightarrow> None)"

text \<open>After the backslash: the characters denoted and what follows.\<close>

fun readEscape :: "string \<Rightarrow> (string \<times> string) option" where
  "readEscape [] = None"
| "readEscape (c # s) =
     (if c = CHR 34 \<or> c = CHR 92 \<or> c = CHR ''/'' then Some ([c], s)
      else if c = CHR ''b'' then Some ([CHR 8], s)
      else if c = CHR ''t'' then Some ([CHR 9], s)
      else if c = CHR ''n'' then Some ([CHR 10], s)
      else if c = CHR ''f'' then Some ([CHR 12], s)
      else if c = CHR ''r'' then Some ([CHR 13], s)
      else if c = CHR ''u'' then
        (case s of
           h1 # h2 # h3 # h4 # t \<Rightarrow>
             (case hex4 h1 h2 h3 h4 of
                Some n \<Rightarrow> map_option (\<lambda>bs. (bs, t)) (utf8 n)
              | None \<Rightarrow> None)
         | _ \<Rightarrow> None)
      else None)"

lemma readEscape_length: "readEscape s = Some (bs, t) \<Longrightarrow> length t < length s"
  by (cases s) (auto split: if_splits list.splits option.splits)

function readStrBody :: "string \<Rightarrow> (string \<times> string) option" where
  "readStrBody [] = None"
| "readStrBody (c # s) =
     (if c = CHR 34 then Some ([], s)
      else if c = CHR 92 then
        (case readEscape s of
           None \<Rightarrow> None
         | Some (bs, t) \<Rightarrow> map_option (\<lambda>(w, r). (bs @ w, r)) (readStrBody t))
      else if (of_char c :: nat) < 32 then None
      else map_option (\<lambda>(w, r). (c # w, r)) (readStrBody s))"
  by pat_completeness auto
termination
  by (relation "measure length") (auto dest: readEscape_length)

definition readStr :: "string \<Rightarrow> (string \<times> string) option" where
  "readStr s = (case s of c # t \<Rightarrow> (if c = CHR 34 then readStrBody t else None) | [] \<Rightarrow> None)"

subsection \<open>Values: \<open>JSON.stringify\<close> without indentation\<close>

fun stringify :: "json \<Rightarrow> string"
and showElems :: "json list \<Rightarrow> string"
and showMembers :: "(string \<times> json) list \<Rightarrow> string" where
  "stringify JNull = ''null''"
| "stringify (JBool b) = (if b then ''true'' else ''false'')"
| "stringify (JNum r) = showNum r"
| "stringify (JStr s) = showStr s"
| "stringify (JArr vs) = CHR ''['' # showElems vs"
| "stringify (JObj ms) = CHR ''{'' # showMembers ms"
| "showElems [] = '']''"
| "showElems [v] = stringify v @ '']''"
| "showElems (v # w # vs) = stringify v @ CHR '','' # showElems (w # vs)"
| "showMembers [] = ''}''"
| "showMembers [(k, v)] = showStr k @ CHR '':'' # stringify v @ ''}''"
| "showMembers ((k, v) # m # ms) =
     showStr k @ CHR '':'' # stringify v @ CHR '','' # showMembers (m # ms)"

subsection \<open>\<open>JSON.parse\<close>\<close>

text \<open>
  A parser by recursive descent. The fuel bounds the nesting of calls; \<open>parse_stringify\<close> below
  shows that the fuel \<open>parse\<close> starts with is enough for every printed value. Of several members
  with one key the last value counts, at the position of the first.
\<close>

definition isWs :: "char \<Rightarrow> bool" where
  "isWs c = (c = CHR '' '' \<or> c = CHR 9 \<or> c = CHR 10 \<or> c = CHR 13)"

definition skipWs :: "string \<Rightarrow> string" where
  "skipWs s = dropWhile isWs s"

fun putMember :: "string \<Rightarrow> json \<Rightarrow> (string \<times> json) list \<Rightarrow> (string \<times> json) list" where
  "putMember k v [] = [(k, v)]"
| "putMember k v ((k', v') # ms) =
     (if k = k' then (k, v) # ms else (k', v') # putMember k v ms)"

definition objectOf :: "(string \<times> json) list \<Rightarrow> json" where
  "objectOf ms = JObj (foldl (\<lambda>acc (k, v). putMember k v acc) [] ms)"

definition literal :: "string \<Rightarrow> json \<Rightarrow> string \<Rightarrow> (json \<times> string) option" where
  "literal w v s = (if startsWith s w then Some (v, drop (length w) s) else None)"

fun parseValue :: "nat \<Rightarrow> string \<Rightarrow> (json \<times> string) option"
and parseElems :: "nat \<Rightarrow> string \<Rightarrow> (json list \<times> string) option"
and parseMembers :: "nat \<Rightarrow> string \<Rightarrow> ((string \<times> json) list \<times> string) option" where
  "parseValue 0 s = None"
| "parseValue (Suc f) s =
     (case skipWs s of
        [] \<Rightarrow> None
      | c # t \<Rightarrow>
          if c = CHR ''['' then
            (if startsWith (skipWs t) '']'' then Some (JArr [], tl (skipWs t))
             else map_option (\<lambda>(vs, r). (JArr vs, r)) (parseElems f t))
          else if c = CHR ''{'' then
            (if startsWith (skipWs t) ''}'' then Some (JObj [], tl (skipWs t))
             else map_option (\<lambda>(ms, r). (objectOf ms, r)) (parseMembers f t))
          else if c = CHR 34 then map_option (\<lambda>(w, r). (JStr w, r)) (readStrBody t)
          else if c = CHR ''n'' then literal ''null'' JNull (c # t)
          else if c = CHR ''t'' then literal ''true'' (JBool True) (c # t)
          else if c = CHR ''f'' then literal ''false'' (JBool False) (c # t)
          else map_option (\<lambda>(n, r). (JNum n, r)) (readNum (c # t)))"
| "parseElems 0 s = None"
| "parseElems (Suc f) s =
     (case parseValue f s of
        None \<Rightarrow> None
      | Some (v, r) \<Rightarrow>
          (case skipWs r of
             [] \<Rightarrow> None
           | c # t \<Rightarrow>
               if c = CHR '','' then map_option (\<lambda>(vs, r'). (v # vs, r')) (parseElems f t)
               else if c = CHR '']'' then Some ([v], t)
               else None))"
| "parseMembers 0 s = None"
| "parseMembers (Suc f) s =
     (case readStr (skipWs s) of
        None \<Rightarrow> None
      | Some (k, r) \<Rightarrow>
          (case skipWs r of
             [] \<Rightarrow> None
           | c # t \<Rightarrow>
               if c \<noteq> CHR '':'' then None
               else
                 (case parseValue f t of
                    None \<Rightarrow> None
                  | Some (v, r') \<Rightarrow>
                      (case skipWs r' of
                         [] \<Rightarrow> None
                       | c' # t' \<Rightarrow>
                           if c' = CHR '','' then
                             map_option (\<lambda>(ms, r''). ((k, v) # ms, r'')) (parseMembers f t')
                           else if c' = CHR ''}'' then Some ([(k, v)], t')
                           else None))))"

definition parse :: "string \<Rightarrow> json option" where
  "parse s =
     (case parseValue (length s) s of
        None \<Rightarrow> None
      | Some (v, r) \<Rightarrow> (if skipWs r = [] then Some v else None))"

subsection \<open>The text of a value parses back to it\<close>

lemma digit_simps [simp]:
  assumes "d < 10"
  shows "is_digit (digit d)" "digitVal (digit d) = d"
  using assms by (simp_all add: is_digit_def digit_def digitVal_def)

lemma digit_zero [simp]: "digit 0 = CHR ''0''"
  by code_simp

lemma digit_eq [simp]: "d < 10 \<Longrightarrow> digit d = CHR ''0'' \<longleftrightarrow> d = 0"
  using digit_simps(2) [of d] by (auto simp: digitVal_def)

lemma showNat_digits: "\<forall>c \<in> set (showNat n). is_digit c"
proof (induction n rule: showNat.induct)
  case (1 n)
  then show ?case by (subst showNat.simps) auto
qed

lemma showNat_ne [simp]: "showNat n \<noteq> []"
  by (subst showNat.simps) simp

lemma showNat_val: "readNat (showNat n) = n"
proof (induction n rule: showNat.induct)
  case (1 n)
  then show ?case by (subst showNat.simps) (auto simp: readNat_def)
qed

lemma showNat_hd: "0 < n \<Longrightarrow> hd (showNat n) \<noteq> CHR ''0''"
proof (induction n rule: showNat.induct)
  case (1 n)
  then show ?case by (subst showNat.simps) (auto simp: hd_append)
qed

lemma showNat_zero: "showNat 0 = ''0''"
  by (subst showNat.simps) simp

lemma fracDigits_digits:
  "n < q \<Longrightarrow> \<forall>c \<in> set (fracDigits f n q). is_digit c"
proof (induction f n q rule: fracDigits.induct)
  case (1 n q)
  then show ?case by simp
next
  case (2 f n q)
  then have "10 * n div q < 10" by (simp add: div_less_iff_less_mult)
  with 2 show ?case by auto
qed

lemma fracDigits_val:
  "n < q \<Longrightarrow> fracEnds f n q \<Longrightarrow> readFrac (fracDigits f n q) = of_nat n / of_nat q"
proof (induction f n q rule: fracDigits.induct)
  case (1 n q)
  then show ?case by simp
next
  case (2 f n q)
  show ?case
  proof (cases "n = 0")
    case True
    then show ?thesis by simp
  next
    case False
    have d: "10 * n div q < 10" using 2(2) by (simp add: div_less_iff_less_mult)
    have IH: "readFrac (fracDigits f (10 * n mod q) q) = of_nat (10 * n mod q) / of_nat q"
      using 2 False by auto
    have "10 * n = (10 * n div q) * q + 10 * n mod q" by simp
    then have "(of_nat (10 * n) :: rat) = of_nat (10 * n div q) * of_nat q + of_nat (10 * n mod q)"
      by (metis of_nat_add of_nat_mult)
    moreover have "(of_nat q :: rat) \<noteq> 0" using 2(2) by auto
    ultimately show ?thesis using False d IH by (simp add: field_simps)
  qed
qed

definition stops :: "string \<Rightarrow> bool" where
  "stops r = (r = [] \<or> (\<not> is_digit (hd r) \<and> hd r \<noteq> CHR ''.''))"

lemma takeWhile_stops:
  assumes "\<forall>c \<in> set ds. is_digit c" and "stops r \<or> (r \<noteq> [] \<and> hd r = CHR ''.'')"
  shows "takeWhile is_digit (ds @ r) = ds" "dropWhile is_digit (ds @ r) = r"
proof -
  have nd: "r = [] \<or> \<not> is_digit (hd r)"
    using assms(2) by (auto simp: stops_def is_digit_def)
  show "takeWhile is_digit (ds @ r) = ds" using assms(1) nd
    by (cases r) (auto simp: takeWhile_append2)
  show "dropWhile is_digit (ds @ r) = r" using assms(1) nd
    by (cases r) (auto simp: dropWhile_append2)
qed

lemma showNat_lead: "\<not> (hd (showNat n) = CHR ''0'' \<and> length (showNat n) > 1)"
  by (cases "n = 0") (auto simp: showNat_zero showNat_hd)

lemma readUnsigned_int:
  assumes "stops r"
  shows "readUnsigned (showNat n @ r) = Some (of_nat n, r)"
proof -
  have t: "takeWhile is_digit (showNat n @ r) = showNat n" "dropWhile is_digit (showNat n @ r) = r"
    using assms by (auto intro!: takeWhile_stops showNat_digits [rule_format])
  show ?thesis
    unfolding readUnsigned_def Let_def t using showNat_lead [of n] assms
    by (cases r) (auto simp: showNat_val stops_def)
qed

lemma fracDigits_ne: "n \<noteq> 0 \<Longrightarrow> fracEnds f n q \<Longrightarrow> fracDigits f n q \<noteq> []"
  by (cases f) auto

lemma readUnsigned_frac:
  assumes "stops r" "n < q" "n \<noteq> 0" "fracEnds f n q"
  shows "readUnsigned (showNat m @ CHR ''.'' # fracDigits f n q @ r)
         = Some (of_nat m + of_nat n / of_nat q, r)"
proof -
  have "takeWhile is_digit (showNat m @ CHR ''.'' # fracDigits f n q @ r) = showNat m"
       "dropWhile is_digit (showNat m @ CHR ''.'' # fracDigits f n q @ r) = CHR ''.'' # fracDigits f n q @ r"
    by (rule takeWhile_stops [OF showNat_digits], simp)+
  moreover have "takeWhile is_digit (fracDigits f n q @ r) = fracDigits f n q"
    "dropWhile is_digit (fracDigits f n q @ r) = r"
    using assms(1,2) by (auto intro!: takeWhile_stops fracDigits_digits [rule_format])
  ultimately show ?thesis
    using showNat_lead [of m] fracDigits_ne [OF assms(3,4)] fracDigits_val [OF assms(2,4)]
    by (auto simp: readUnsigned_def Let_def showNat_val)
qed

lemma showNat_hd_digit: "is_digit (hd (showNat n))"
  using showNat_digits [of n] showNat_ne [of n] by (simp add: list.set_sel(1))

lemma readNum_showNum:
  assumes "wf_num x" "stops r"
  shows "readNum (showNum x @ r) = Some (x, r)"
proof -
  obtain p d where pd: "quotient_of x = (p, d)" by (cases "quotient_of x")
  have d: "d > 0" using pd by (rule quotient_of_denom_pos)
  have x: "x = of_int p / of_int d" using pd by (rule quotient_of_div)
  let ?m = "nat \<bar>p\<bar>" and ?q = "nat d"
  have q: "0 < ?q" using d by simp
  have split: "(of_nat (?m div ?q) + of_nat (?m mod ?q) / of_nat ?q :: rat) = \<bar>of_int p\<bar> / of_int d"
  proof -
    have "(of_nat ?m :: rat) = of_nat (?m div ?q) * of_nat ?q + of_nat (?m mod ?q)"
      by (metis div_mult_mod_eq of_nat_add of_nat_mult)
    moreover have "(of_nat ?q :: rat) = of_int d" "(of_nat ?m :: rat) = \<bar>of_int p\<bar>"
      using d by auto
    ultimately show ?thesis using d by (simp add: field_simps)
  qed
  have U: "readUnsigned (showNat (?m div ?q) @ (if ?m mod ?q = 0 then [] else CHR ''.'' # fracDigits ?q (?m mod ?q) ?q) @ r)
        = Some (\<bar>of_int p\<bar> / of_int d, r)"
  proof (cases "?m mod ?q = 0")
    case True
    then show ?thesis using split readUnsigned_int [OF assms(2)] by simp
  next
    case False
    have "fracEnds ?q (?m mod ?q) ?q" using assms(1) pd by (simp add: wf_num_def)
    then show ?thesis using False split readUnsigned_frac [OF assms(2), of "?m mod ?q" ?q ?q "?m div ?q"] q
      by simp
  qed
  have hd: "\<And>t. showNat k @ t = c # u \<Longrightarrow> c \<noteq> CHR ''-''" for k c u
    using showNat_hd_digit [of k] showNat_ne [of k]
    by (cases "showNat k") (auto simp: is_digit_def)
  show ?thesis
  proof (cases "p < 0")
    case True
    then show ?thesis using U pd x by (simp add: showNum_def readNum_def Let_def)
  next
    case False
    then show ?thesis using U pd x hd
      by (auto simp: showNum_def readNum_def Let_def split: list.splits)
  qed
qed


lemma hexVal_hexDigit: "d < 16 \<Longrightarrow> hexVal (hexDigit d) = Some d"
  by (auto simp: hexVal_def hexDigit_def Let_def)

lemma hexVal_zero: "hexVal (CHR ''0'') = Some 0"
  by code_simp

lemma hex4_escape: "n < 32 \<Longrightarrow> hex4 (CHR ''0'') (CHR ''0'') (hexDigit (n div 16)) (hexDigit (n mod 16)) = Some n"
  by (simp add: hex4_def hexVal_zero hexVal_hexDigit)

lemma readStrBody_escape:
  "readStrBody (escapeChar c @ t) = map_option (\<lambda>(w, r). (c # w, r)) (readStrBody t)"
proof -
  let ?n = "of_char c :: nat"
  have eqI: "\<And>d. ?n = of_char d \<Longrightarrow> c = d" by simp
  consider "?n \<in> {34, 92, 8, 9, 10, 12, 13}" | "?n < 32" "?n \<notin> {34, 92, 8, 9, 10, 12, 13}"
    | "32 \<le> ?n" "?n \<noteq> 34" "?n \<noteq> 92" by force
  then show ?thesis
  proof cases
    case 1
    then have "c \<in> {CHR 34, CHR 92, CHR 8, CHR 9, CHR 10, CHR 12, CHR 13}"
      using eqI [of "CHR 34"] eqI [of "CHR 92"] eqI [of "CHR 8"] eqI [of "CHR 9"] eqI [of "CHR 10"]
        eqI [of "CHR 12"] eqI [of "CHR 13"] by (simp del: of_char_eq_iff) blast
    then show ?thesis
      by (elim insertE emptyE) (simp_all add: escapeChar_def)
  next
    case 2
    then have "escapeChar c = [CHR 92, CHR ''u'', CHR ''0'', CHR ''0'', hexDigit (?n div 16), hexDigit (?n mod 16)]"
      by (auto simp: escapeChar_def Let_def)
    then show ?thesis using 2 hex4_escape [of ?n]
      by (auto simp: utf8_def split: option.splits)
  next
    case 3
    then have "escapeChar c = [c]" by (auto simp: escapeChar_def Let_def)
    moreover have "c \<noteq> CHR 34" "c \<noteq> CHR 92" using 3 by auto
    ultimately show ?thesis using 3 by simp
  qed
qed

lemma readStrBody_show:
  "readStrBody (concat (map escapeChar s) @ CHR 34 # r) = Some (s, r)"
  by (induction s) (simp_all add: readStrBody_escape)

lemma readStr_show: "readStr (showStr s @ r) = Some (s, r)"
  by (simp add: readStr_def showStr_def readStrBody_show)

fun wf_json :: "json \<Rightarrow> bool"
and wf_elems :: "json list \<Rightarrow> bool"
and wf_members :: "(string \<times> json) list \<Rightarrow> bool" where
  "wf_json (JNum r) = wf_num r"
| "wf_json (JArr vs) = wf_elems vs"
| "wf_json (JObj ms) = (distinct (map fst ms) \<and> wf_members ms)"
| "wf_json _ = True"
| "wf_elems [] = True"
| "wf_elems (v # vs) = (wf_json v \<and> wf_elems vs)"
| "wf_members [] = True"
| "wf_members ((k, v) # ms) = (wf_json v \<and> wf_members ms)"

lemma putMember_new: "k \<notin> fst ` set ms \<Longrightarrow> putMember k v ms = ms @ [(k, v)]"
  by (induction k v ms rule: putMember.induct) auto

lemma objectOf_distinct:
  assumes "distinct (map fst ms)"
  shows "objectOf ms = JObj ms"
proof -
  have "distinct (map fst (acc @ ms)) \<Longrightarrow>
        foldl (\<lambda>acc (k, v). putMember k v acc) acc ms = acc @ ms" for acc
    by (induction ms arbitrary: acc) (auto simp: putMember_new)
  from this [of "[]"] show ?thesis using assms by (simp add: objectOf_def)
qed

lemma skipWs_Cons: "\<not> isWs c \<Longrightarrow> skipWs (c # s) = c # s"
  by (simp add: skipWs_def)

lemma skipWs_hd: "s \<noteq> [] \<Longrightarrow> \<not> isWs (hd s) \<Longrightarrow> skipWs (s @ r) = s @ r"
  by (cases s) (simp_all add: skipWs_def)

lemma digit_not_ws: "is_digit c \<Longrightarrow> \<not> isWs c"
  by (auto simp: isWs_def is_digit_def)

text \<open>The first character of a number's text is a digit or a minus sign.\<close>

lemma showNum_hd:
  obtains c t where "showNum x = c # t" "is_digit c \<or> c = CHR ''-''"
proof -
  obtain p d where pd: "quotient_of x = (p, d)" by (cases "quotient_of x")
  obtain c t where ct: "showNat (nat \<bar>p\<bar> div nat d) = c # t"
    using showNat_ne by (metis list.exhaust)
  then have "is_digit c" using showNat_hd_digit by (metis list.sel(1))
  then show thesis using that pd ct by (cases "p < 0") (auto simp: showNum_def Let_def)
qed

lemma stringify_hd:
  obtains c t where "stringify v = c # t" "\<not> isWs c" "c \<noteq> CHR '']''" "c \<noteq> CHR ''}''"
proof (cases v)
  case (JNum x)
  obtain c t where "showNum x = c # t" "is_digit c \<or> c = CHR ''-''" by (rule showNum_hd)
  moreover from this have "\<not> isWs c \<and> c \<noteq> CHR '']'' \<and> c \<noteq> CHR ''}''"
    by (auto simp: isWs_def is_digit_def)
  ultimately show thesis using that JNum by simp
next
  case (JBool b)
  then show thesis using that by (cases b) (auto simp: isWs_def)
qed (use that in \<open>auto simp: isWs_def showStr_def\<close>)

lemma stops_simps [simp]:
  "stops []" "stops (CHR '','' # r)" "stops (CHR '']'' # r)" "stops (CHR ''}'' # r)"
  by (simp_all add: stops_def is_digit_def)

lemma parse_roundtrip:
  "wf_json v \<Longrightarrow> stops r \<Longrightarrow> length (stringify v) \<le> f \<Longrightarrow>
     parseValue f (stringify v @ r) = Some (v, r)"
  "wf_elems vs \<Longrightarrow> vs \<noteq> [] \<Longrightarrow> length (showElems vs) \<le> f \<Longrightarrow>
     parseElems f (showElems vs @ r) = Some (vs, r)"
  "wf_members ms \<Longrightarrow> ms \<noteq> [] \<Longrightarrow> length (showMembers ms) \<le> f \<Longrightarrow>
     parseMembers f (showMembers ms @ r) = Some (ms, r)"
proof (induction v and vs and ms arbitrary: r f and r f and r f rule: stringify_showElems_showMembers.induct)
  case 1
  then show ?case by (cases f) (auto simp: skipWs_Cons isWs_def literal_def startsWith_def)
next
  case (2 b)
  then show ?case by (cases f; cases b) (auto simp: skipWs_Cons isWs_def literal_def startsWith_def)
next
  case (3 x)
  obtain c t where ct: "showNum x = c # t" "is_digit c \<or> c = CHR ''-''" by (rule showNum_hd)
  then obtain f' where f: "f = Suc f'" using 3 by (cases f) auto
  have "readNum (c # t @ r) = Some (x, r)" using readNum_showNum [of x r] 3 ct by simp
  moreover have "\<not> isWs c" "c \<notin> {CHR ''['', CHR ''{'', CHR 34, CHR ''n'', CHR ''t'', CHR ''f''}"
    using ct(2) by (auto simp: isWs_def is_digit_def)
  ultimately show ?case using ct f by (simp add: skipWs_Cons)
next
  case (4 s)
  then show ?case
    by (cases f) (auto simp: skipWs_Cons isWs_def showStr_def readStrBody_show)
next
  case (5 vs)
  obtain f' where f: "f = Suc f'" using 5 by (cases f) auto
  show ?case
  proof (cases vs)
    case Nil
    then show ?thesis using f by (simp add: skipWs_Cons isWs_def startsWith_def)
  next
    case (Cons v ws')
    obtain c t where ct: "stringify v = c # t" "\<not> isWs c" "c \<noteq> CHR '']''" by (rule stringify_hd)
    then obtain u where u: "showElems vs = c # u" using Cons by (cases ws') auto
    have "parseElems f' (showElems vs @ r) = Some (vs, r)" using 5 f Cons by simp
    then show ?thesis using f u ct by (simp add: skipWs_Cons isWs_def startsWith_def)
  qed
next
  case (6 ms)
  obtain f' where f: "f = Suc f'" using 6 by (cases f) auto
  show ?case
  proof (cases ms)
    case Nil
    then show ?thesis using f by (simp add: skipWs_Cons isWs_def startsWith_def)
  next
    case (Cons m ms')
    obtain u where u: "showMembers ms = CHR 34 # u"
      using Cons by (cases m; cases ms') (auto simp: showStr_def)
    have "parseMembers f' (showMembers ms @ r) = Some (ms, r)" using 6 f Cons by simp
    then show ?thesis using f u 6 by (simp add: skipWs_Cons isWs_def startsWith_def objectOf_distinct)
  qed
next
  case 7
  then show ?case by simp
next
  case (8 v)
  obtain f' where f: "f = Suc f'" using 8 by (cases f) auto
  have "parseValue f' (stringify v @ CHR '']'' # r) = Some (v, CHR '']'' # r)" using 8 f by simp
  then show ?case using f by (simp add: skipWs_Cons isWs_def)
next
  case (9 v w vs)
  obtain f' where f: "f = Suc f'" using 9 by (cases f) auto
  have "parseValue f' (stringify v @ CHR '','' # showElems (w # vs) @ r) = Some (v, CHR '','' # showElems (w # vs) @ r)"
    using 9 f by simp
  moreover have "parseElems f' (showElems (w # vs) @ r) = Some (w # vs, r)" using 9 f by simp
  ultimately show ?case using f by (simp add: skipWs_Cons isWs_def)
next
  case 10
  then show ?case by simp
next
  case (11 k v)
  obtain f' where f: "f = Suc f'" using 11 by (cases f) auto
  have "parseValue f' (stringify v @ CHR ''}'' # r) = Some (v, CHR ''}'' # r)" using 11 f by simp
  moreover have "skipWs (showStr k @ t) = showStr k @ t" for t
    by (simp add: showStr_def skipWs_Cons isWs_def)
  ultimately show ?case using f readStr_show by (simp add: skipWs_Cons isWs_def)
next
  case (12 k v m ms)
  obtain f' where f: "f = Suc f'" using 12 by (cases f) auto
  have "parseValue f' (stringify v @ CHR '','' # showMembers (m # ms) @ r) = Some (v, CHR '','' # showMembers (m # ms) @ r)"
    using 12 f by simp
  moreover have "parseMembers f' (showMembers (m # ms) @ r) = Some (m # ms, r)" using 12 f by simp
  moreover have "skipWs (showStr k @ t) = showStr k @ t" for t
    by (simp add: showStr_def skipWs_Cons isWs_def)
  ultimately show ?case using f readStr_show by (simp add: skipWs_Cons isWs_def)
qed

lemma parse_stringify: "wf_json v \<Longrightarrow> parse (stringify v) = Some v"
  using parse_roundtrip(1) [of v "[]" "length (stringify v)"]
  by (simp add: parse_def skipWs_def)

text \<open>Printed values hold no line break, which the journal's line framing rests on.\<close>

lemma digits_no_newline: "\<forall>c \<in> set s. is_digit c \<Longrightarrow> newline \<notin> set s"
  by (auto simp: is_digit_def)

lemma showNum_no_newline: "newline \<notin> set (showNum x)"
proof -
  obtain p d where pd: "quotient_of x = (p, d)" by (cases "quotient_of x")
  then have "0 < d" by (rule quotient_of_denom_pos)
  then have "newline \<notin> set (fracDigits (nat d) (nat \<bar>p\<bar> mod nat d) (nat d))"
    by (intro digits_no_newline fracDigits_digits) simp
  then show ?thesis using pd digits_no_newline [OF showNat_digits]
    by (auto simp: showNum_def Let_def)
qed

lemma hexDigit_no_newline: "d < 16 \<Longrightarrow> hexDigit d \<noteq> newline"
proof
  assume "d < 16" and h: "hexDigit d = newline"
  have "hexVal newline = None" by code_simp
  with h hexVal_hexDigit [OF \<open>d < 16\<close>] show False by simp
qed

lemma escapeChar_no_newline: "newline \<notin> set (escapeChar c)"
proof -
  have "(of_char c :: nat) div 16 < 16" using nat_of_char_less_256 [of c]
    by (simp add: div_less_iff_less_mult)
  then show ?thesis
    using hexDigit_no_newline [of "of_char c div 16"] hexDigit_no_newline [of "of_char c mod 16"]
    by (auto simp: escapeChar_def Let_def)
qed

lemma stringify_no_newline:
  "newline \<notin> set (stringify v)"
  "newline \<notin> set (showElems vs)"
  "newline \<notin> set (showMembers ms)"
  by (induction v and vs and ms rule: stringify_showElems_showMembers.induct)
    (auto simp: showNum_no_newline showStr_def escapeChar_no_newline)

end
