(* ===== verification/Contracts.thy ===== *)
theory Contracts
  imports Json
begin

section \<open>Contracts (\<open>src/contracts.ts\<close>)\<close>

text \<open>
  The status, failure and result types that every component exchanges, and the validity check
  \<open>isRunResult\<close> that guards every result read back from disk. A schema of the sources becomes
  the type of the values it describes together with a check of the bounds that the type does not
  express. Token counts and times are integers; costs are rationals (a currency amount with the
  rounding of floating point left out).
\<close>

definition CONTRACT_REVISION :: int where "CONTRACT_REVISION = 13"
definition MAX_SLOTS :: int where "MAX_SLOTS = 32"
definition DEFAULT_MAX_SLOTS :: int where "DEFAULT_MAX_SLOTS = 16"
definition MAX_SAFE_INTEGER :: int where "MAX_SAFE_INTEGER = 9007199254740991"

definition safeInteger :: "int \<Rightarrow> bool" where
  "safeInteger n = (\<bar>n\<bar> \<le> MAX_SAFE_INTEGER)"

text \<open>
  An integer in a template string, and the delay of a Node timer: a fraction is dropped, and a delay
  below 1 or above \<open>2\<^sup>31 - 1\<close> is replaced by 1.
\<close>

definition showInt :: "int \<Rightarrow> string" where
  "showInt n = (if n < 0 then CHR ''-'' # showNat (nat (- n)) else showNat (nat n))"

definition timerDelay :: "rat \<Rightarrow> int" where
  "timerDelay x = (if 1 \<le> x \<and> x \<le> 2147483647 then floor x else 1)"

lemma timerDelay_pos: "1 \<le> timerDelay x"
  by (simp add: timerDelay_def)

lemma showNat_length: "n < 10 ^ k \<Longrightarrow> 0 < k \<Longrightarrow> length (showNat n) \<le> k"
proof (induction n arbitrary: k rule: showNat.induct)
  case (1 n)
  show ?case
  proof (cases "n < 10")
    case True
    then show ?thesis using 1(3) by (simp add: showNat.simps [of n])
  next
    case False
    then obtain j where k: "k = Suc j" "0 < j" using 1(2) by (cases k; cases "k - 1") auto
    then have "n div 10 < 10 ^ j" using 1(2) by (simp add: less_mult_imp_div_less mult.commute)
    then show ?thesis using 1(1) [OF False] k False by (simp add: showNat.simps [of n])
  qed
qed

lemma showInt_length:
  assumes "\<bar>n\<bar> < 10 ^ k" "0 < k"
  shows "length (showInt n) \<le> Suc k"
proof -
  have "nat \<bar>n\<bar> < 10 ^ k" using assms(1) by (simp add: nat_less_iff)
  then show ?thesis using showNat_length [of "nat \<bar>n\<bar>" k] assms(2)
    by (cases "n < 0") (auto simp: showInt_def)
qed

subsection \<open>Revision gate\<close>

text \<open>
  A persisted value may be of this revision, of another one, or of none; only a number in the
  field \<open>contractRevision\<close> that differs from the running revision is refused.
\<close>

definition assertContractRevision :: "json \<Rightarrow> unit res" where
  "assertContractRevision v =
     (case jget v ''contractRevision'' of
        Some (JNum r) \<Rightarrow>
          (if r \<noteq> of_int CONTRACT_REVISION then Inl (IncompatibleRevision (floor r)) else Inr ())
      | _ \<Rightarrow> Inr ())"

text \<open>
  What reading a persisted file yields. \<open>decoded\<close> is what \<open>JSON.parse\<close>, the revision gate and the
  schema check make of its text: not JSON at all, or a value with the number in its field
  \<open>contractRevision\<close>, if any, and the record it is when it satisfies the schema.
\<close>

datatype 'a decoded =
    NotJson
  | Decoded "int option" "'a option"

definition readDecoded :: "string \<Rightarrow> string \<Rightarrow> 'a decoded \<Rightarrow> 'a res" where
  "readDecoded jsonMsg schemaMsg d =
     (case d of
        NotJson \<Rightarrow> Inl (Corruption jsonMsg)
      | Decoded revision v \<Rightarrow>
          (case revision of
             Some n \<Rightarrow> (if n \<noteq> CONTRACT_REVISION then Inl (IncompatibleRevision n)
                       else (case v of None \<Rightarrow> Inl (Corruption schemaMsg) | Some a \<Rightarrow> Inr a))
           | None \<Rightarrow> (case v of None \<Rightarrow> Inl (Corruption schemaMsg) | Some a \<Rightarrow> Inr a)))"

lemma readDecoded_Inr [simp]:
  "readDecoded jm sm d = Inr a \<longleftrightarrow>
     (d = Decoded (Some CONTRACT_REVISION) (Some a) \<or> d = Decoded None (Some a))"
  by (auto simp: readDecoded_def split: decoded.splits option.splits)

text \<open>A record this build writes carries its own revision.\<close>

definition encoded :: "'a \<Rightarrow> 'a decoded" where
  "encoded a = Decoded (Some CONTRACT_REVISION) (Some a)"

lemma readDecoded_encoded [simp]: "readDecoded jm sm (encoded a) = Inr a"
  by (simp add: encoded_def)

lemma encoded_eq [simp]: "encoded a = encoded b \<longleftrightarrow> a = b"
  by (simp add: encoded_def)

subsection \<open>Identifiers\<close>

definition lowerAlnum :: "char \<Rightarrow> bool" where
  "lowerAlnum c = (is_digit c \<or> is_lower c)"

definition checkRunId :: "string \<Rightarrow> bool" where
  "checkRunId s =
     (startsWith s ''run_'' \<and> drop 4 s \<noteq> [] \<and> list_all lowerAlnum (drop 4 s)
      \<and> 5 \<le> length s \<and> length s \<le> 128)"

definition checkAttemptId :: "string \<Rightarrow> bool" where
  "checkAttemptId s =
     (startsWith s ''attempt_'' \<and> drop 8 s \<noteq> [] \<and> list_all lowerAlnum (drop 8 s)
      \<and> 9 \<le> length s \<and> length s \<le> 128)"

definition checkSha256 :: "string \<Rightarrow> bool" where
  "checkSha256 s = (length s = 64 \<and> list_all is_hex s)"

definition checkCommitId :: "string \<Rightarrow> bool" where
  "checkCommitId s = (40 \<le> length s \<and> length s \<le> 64 \<and> list_all is_hex s)"

subsection \<open>Statuses\<close>

datatype RunStatus =
    Queued | Active | Stopping | Completed | Failed | Cancelled | Abandoned | Interrupted
  | CleanupBlocked

datatype AttemptStatus =
    APreparing | ARunning | ASettling | ACompleted | AFailed | ACancelled | AInterrupted

datatype CleanupOutcome = Proved | NotNeeded | Retained | Blocked | CleanupUnknown

datatype FailureCode =
    Authentication | Capacity | Cancellation | OperatorAbandoned | LeaseLoss | ModelOutput
  | MountPolicy | NetworkPolicy | PersistenceFailure | ProviderTransient | ResourceDrift
  | SandboxCapability | SandboxCleanup | SandboxLaunch | SeatInterruption | Timeout | ToolFailure
  | Trust | UnknownFailure | Validation | WorkspaceFailure | WorkspaceBudget

datatype FailureOrigin =
    OModel | OOperator | OPersistence | OProvider | OSandbox | OService | OTool | OWorkspace

datatype RetryClass = RetryNever | RetryManual | RetryBackoff | RetryResume | RetryReconcile

subsection \<open>Usage, artifacts, failures and results\<close>

record Usage =
  usageInput :: int
  usageOutput :: int
  cacheRead :: int
  cacheWrite :: int
  usageTotalTokens :: int
  usageCost :: rat

definition checkUsage :: "Usage \<Rightarrow> bool" where
  "checkUsage u = (0 \<le> usageInput u \<and> 0 \<le> usageOutput u \<and> 0 \<le> cacheRead u \<and> 0 \<le> cacheWrite u
     \<and> 0 \<le> usageTotalTokens u \<and> 0 \<le> usageCost u)"

definition emptyUsage :: Usage where
  "emptyUsage = \<lparr>usageInput = 0, usageOutput = 0, cacheRead = 0, cacheWrite = 0,
     usageTotalTokens = 0, usageCost = 0\<rparr>"

record ArtifactRef =
  artifactId :: string
  artifactSha256 :: string
  artifactBytes :: int
  mediaType :: string

definition mediaChar :: "char \<Rightarrow> bool" where
  "mediaChar c = (is_digit c \<or> is_lower c \<or> is_upper c \<or> c \<in> set ''!#$&^_.+-'')"

definition mediaPart :: "string \<Rightarrow> bool" where
  "mediaPart s = (case s of [] \<Rightarrow> False
     | c # t \<Rightarrow> (is_digit c \<or> is_lower c \<or> is_upper c) \<and> list_all mediaChar t)"

definition checkMediaType :: "string \<Rightarrow> bool" where
  "checkMediaType s = (length s \<le> 256 \<and>
     (case splitOn (CHR ''/'') s of [a, b] \<Rightarrow> mediaPart a \<and> mediaPart b | _ \<Rightarrow> False))"

definition checkArtifactRef :: "ArtifactRef \<Rightarrow> bool" where
  "checkArtifactRef r =
     (startsWith (artifactId r) ''artifact_'' \<and> checkSha256 (drop 9 (artifactId r))
      \<and> checkSha256 (artifactSha256 r) \<and> 0 \<le> artifactBytes r \<and> checkMediaType (mediaType r))"

record ClassifiedFailure =
  failureCode :: FailureCode
  failureOrigin :: FailureOrigin
  failureRetry :: RetryClass
  failureMessage :: string
  guidance :: string
  retryAfterMs :: "int option"

definition checkFailure :: "ClassifiedFailure \<Rightarrow> bool" where
  "checkFailure f =
     (1 \<le> length (failureMessage f) \<and> length (failureMessage f) \<le> 4096
      \<and> 1 \<le> length (guidance f) \<and> length (guidance f) \<le> 1024
      \<and> (case retryAfterMs f of None \<Rightarrow> True | Some ms \<Rightarrow> 1000 \<le> ms \<and> ms \<le> 300000))"

record RunResult =
  resultRunId :: string
  resultStatus :: RunStatus
  resultOutput :: "ArtifactRef option"
  structuredOutput :: "json option"
  usage :: Usage
  usageComplete :: bool
  runtimeMs :: int
  failure :: "ClassifiedFailure option"
  sandboxCleanup :: CleanupOutcome
  workspaceCleanup :: CleanupOutcome
  truncated :: bool

definition outcomeProved :: "CleanupOutcome \<Rightarrow> bool" where
  "outcomeProved c = (c = Proved \<or> c = NotNeeded)"

definition cleanupIsProved :: "RunResult \<Rightarrow> bool" where
  "cleanupIsProved r =
     ((sandboxCleanup r = Proved \<or> sandboxCleanup r = NotNeeded)
      \<and> (workspaceCleanup r = Proved \<or> workspaceCleanup r = NotNeeded))"

text \<open>\<open>Value.Check(RunResultSchema, value)\<close>.\<close>

definition checkRunResult :: "RunResult \<Rightarrow> bool" where
  "checkRunResult r =
     (checkRunId (resultRunId r)
      \<and> resultStatus r \<in> {Completed, Failed, Cancelled, Abandoned, Interrupted, CleanupBlocked}
      \<and> (case resultOutput r of None \<Rightarrow> True | Some a \<Rightarrow> checkArtifactRef a)
      \<and> checkUsage (usage r)
      \<and> 0 \<le> runtimeMs r \<and> runtimeMs r \<le> MAX_SAFE_INTEGER
      \<and> (case failure r of None \<Rightarrow> True | Some f \<Rightarrow> checkFailure f))"

definition isRunResult :: "RunResult \<Rightarrow> bool" where
  "isRunResult r =
     (if \<not> checkRunResult r then False
      else let proved = cleanupIsProved r in
        if resultStatus r = Completed then proved \<and> failure r = None
        else (case failure r of
                None \<Rightarrow> False
              | Some f \<Rightarrow>
                  if resultStatus r = CleanupBlocked then \<not> proved
                  else if resultStatus r = Abandoned then
                    proved \<and> failureCode f = OperatorAbandoned \<and> failureOrigin f = OOperator
                    \<and> failureRetry f = RetryNever \<and> resultOutput r = None
                    \<and> structuredOutput r = None
                  else True))"

lemma isRunResult_Completed:
  "isRunResult r \<Longrightarrow> resultStatus r = Completed \<Longrightarrow> cleanupIsProved r \<and> failure r = None"
  by (auto simp: isRunResult_def Let_def split: if_splits)

lemma isRunResult_check: "isRunResult r \<Longrightarrow> checkRunResult r"
  by (auto simp: isRunResult_def split: if_splits)

lemma isRunResult_failure:
  "isRunResult r \<Longrightarrow> resultStatus r \<noteq> Completed \<Longrightarrow> \<exists>f. failure r = Some f \<and> checkFailure f"
  by (auto simp: isRunResult_def Let_def checkRunResult_def split: if_splits option.splits)

lemma cleanupIsProved_iff:
  "cleanupIsProved r \<longleftrightarrow> outcomeProved (sandboxCleanup r) \<and> outcomeProved (workspaceCleanup r)"
  by (simp add: cleanupIsProved_def outcomeProved_def)

end
