(* ===== verification/Files.thy ===== *)
theory Files
  imports Contracts
begin

section \<open>Directories and exclusive creation\<close>

text \<open>
  The part of \<open>node:fs/promises\<close> the stores rest on, one directory at a time: a directory maps
  the names of its entries to their contents. \<open>linkFile\<close> is \<open>link\<close> of a finished temporary file to its
  final name, the step by which a store publishes a record at most once: it fails with \<open>EEXIST\<close>
  when the name is taken. Renaming a temporary file over a name replaces it.
\<close>

text \<open>A stored record: the size and kind of its file and what its text decodes to.\<close>

record 'a storedFile =
  fileSize :: int
  fileIsFile :: bool
  fileValue :: "'a decoded"

type_synonym 'v dir = "string \<Rightarrow> 'v option"

definition linkFile :: "string \<Rightarrow> 'v \<Rightarrow> 'v dir \<Rightarrow> bool \<times> 'v dir" where
  "linkFile name v d = (case d name of Some _ \<Rightarrow> (False, d) | None \<Rightarrow> (True, d(name \<mapsto> v)))"

definition renameOver :: "string \<Rightarrow> 'v \<Rightarrow> 'v dir \<Rightarrow> 'v dir" where
  "renameOver name v d = d(name \<mapsto> v)"

definition readEntry :: "string \<Rightarrow> 'v dir \<Rightarrow> 'v res" where
  "readEntry name d = (case d name of None \<Rightarrow> Inl Enoent | Some v \<Rightarrow> Inr v)"

definition unlinkEntry :: "string \<Rightarrow> 'v dir \<Rightarrow> 'v dir" where
  "unlinkEntry name d = d(name := None)"

lemma readEntry_simps [simp]:
  "readEntry name d = Inr v \<longleftrightarrow> d name = Some v"
  "readEntry name d = Inl e \<longleftrightarrow> d name = None \<and> e = Enoent"
  by (auto simp: readEntry_def split: option.splits)

lemma renameOver_simps [simp]:
  "renameOver name v d name = Some v"
  "name' \<noteq> name \<Longrightarrow> renameOver name v d name' = d name'"
  by (simp_all add: renameOver_def)

lemma unlinkEntry_simps [simp]:
  "unlinkEntry name d name = None"
  "name' \<noteq> name \<Longrightarrow> unlinkEntry name d name' = d name'"
  by (simp_all add: unlinkEntry_def)

subsection \<open>The contract of exclusive creation\<close>

text \<open>
  What a store may rely on when it publishes with \<open>link\<close>. The clients are the operation index, the
  run and attempt records and the capacity policy.
\<close>

locale exclusive_create =
  fixes lookup :: "'s \<Rightarrow> 'k \<Rightarrow> 'v option"
    and create :: "'k \<Rightarrow> 'v \<Rightarrow> 's \<Rightarrow> bool \<times> 's"
  assumes create_fresh: "lookup s k = None \<Longrightarrow> fst (create k v s) \<and> lookup (snd (create k v s)) k = Some v"
    and create_taken: "lookup s k = Some u \<Longrightarrow> create k v s = (False, s)"
    and create_frame: "k' \<noteq> k \<Longrightarrow> lookup (snd (create k v s)) k' = lookup s k'"
begin

text \<open>The first value published under a name stays, whatever is created later.\<close>

lemma create_keeps:
  assumes "lookup s k = Some v"
  shows "lookup (snd (create k' w s)) k = Some v"
  using assms by (cases "k' = k") (simp_all add: create_taken create_frame)

definition createAll :: "('k \<times> 'v) list \<Rightarrow> 's \<Rightarrow> 's" where
  "createAll cs s = fold (\<lambda>(k, v) s. snd (create k v s)) cs s"

lemma createAll_keeps: "lookup s k = Some v \<Longrightarrow> lookup (createAll cs s) k = Some v"
  unfolding createAll_def by (induction cs arbitrary: s) (auto simp: create_keeps)

lemma create_present: "\<exists>u. lookup (snd (create k v s)) k = Some u"
proof (cases "lookup s k")
  case None
  then show ?thesis using create_fresh [of s k v] by blast
next
  case (Some u)
  then show ?thesis by (simp add: create_taken)
qed

lemma created_iff: "fst (create k v s) \<longleftrightarrow> lookup s k = None"
proof (cases "lookup s k")
  case None
  then show ?thesis using create_fresh [of s k v] by simp
next
  case (Some u)
  then show ?thesis by (simp add: create_taken)
qed

lemma create_value:
  "lookup (snd (create k v s)) k = (case lookup s k of None \<Rightarrow> Some v | Some u \<Rightarrow> Some u)"
  by (cases "lookup s k") (simp_all add: create_fresh create_taken)

text \<open>Publishing the same name twice reports success once.\<close>

lemma create_twice: "\<not> fst (create k w (snd (create k v s)))"
  using create_present [of k v s] created_iff by auto

end

interpretation fs: exclusive_create "\<lambda>d name. d name" linkFile
  by unfold_locales (auto simp: linkFile_def split: option.splits)

text \<open>
  A directory whose entries are also listed is an association list; a new entry goes to its end.
\<close>

type_synonym 'v listing = "(string \<times> 'v) list"

definition linkEntry :: "string \<Rightarrow> 'v \<Rightarrow> 'v listing \<Rightarrow> bool \<times> 'v listing" where
  "linkEntry name v d = (case map_of d name of Some _ \<Rightarrow> (False, d) | None \<Rightarrow> (True, d @ [(name, v)]))"

interpretation ls: exclusive_create map_of linkEntry
  by unfold_locales (auto simp: linkEntry_def map_add_def split: option.splits)

lemma linkEntry_distinct: "distinct (map fst d) \<Longrightarrow> distinct (map fst (snd (linkEntry name v d)))"
  by (auto simp: linkEntry_def map_of_eq_None_iff split: option.splits)

end
