(* ===== verification/RunLease.thy ===== *)
theory RunLease
  imports Files "HOL-Library.Word"
begin

section \<open>Run leases (\<open>src/persistence/run-lease.ts\<close>)\<close>

text \<open>
  A run is owned by whoever holds the exclusive listener on the port derived from its id and wrote
  the newest lease record. The world holds the bound ports, each with the lease that bound it, and
  the lease records by run. A lease record that can be read is one of this revision; the size of
  the file and what its text decodes to are kept.
\<close>

definition LEASE_MAX_RECORD_BYTES :: int where "LEASE_MAX_RECORD_BYTES = 16384"

record RunLeaseRecord =
  lrRunId :: string
  lrLeaseId :: string
  lrGeneration :: int
  lrPort :: int

record LeaseWorld =
  leasePorts :: "int \<Rightarrow> string option"
  leaseFiles :: "RunLeaseRecord storedFile dir"

text \<open>\<open>digest32\<close> is the first 32 bits of the SHA-256 of the root, a zero byte and the run id.\<close>

definition leasePort :: "(string \<Rightarrow> string \<Rightarrow> 32 word) \<Rightarrow> string \<Rightarrow> string \<Rightarrow> int" where
  "leasePort digest32 storeRoot runId = 20000 + uint (digest32 storeRoot runId) mod 20000"

definition readLeaseRecord :: "string \<Rightarrow> LeaseWorld \<Rightarrow> RunLeaseRecord option res" where
  "readLeaseRecord runId w =
     (case leaseFiles w runId of
        None \<Rightarrow> Inr None
      | Some f \<Rightarrow>
          if fileSize f > LEASE_MAX_RECORD_BYTES
          then Inl (Corruption ''run lease record exceeds size limit'')
          else andThen (readDecoded ''invalid run lease record JSON'' ''invalid run lease record schema''
                 (fileValue f)) (\<lambda>r. Inr (Some r)))"

text \<open>\<open>lid\<close> is the new lease id, \<open>bytes\<close> the size of the record as written.\<close>

definition acquireRunLease ::
  "(string \<Rightarrow> string \<Rightarrow> 32 word) \<Rightarrow> string \<Rightarrow> string \<Rightarrow> string \<Rightarrow> int \<Rightarrow> LeaseWorld
     \<Rightarrow> RunLeaseRecord res \<times> LeaseWorld" where
  "acquireRunLease digest32 storeRoot runId lid bytes w =
     (if \<not> checkRunId runId then (Inl (Err ''invalid run ID''), w)
      else let port = leasePort digest32 storeRoot runId in
        (case leasePorts w port of
           Some _ \<Rightarrow> (Inl (LeaseUnavailable runId), w)
         | None \<Rightarrow>
             (case readLeaseRecord runId w of
                Inl e \<Rightarrow> (Inl e, w)     \<comment> \<open>the listener is closed again\<close>
              | Inr existing \<Rightarrow>
                  (let r = \<lparr>lrRunId = runId, lrLeaseId = lid,
                        lrGeneration = (case existing of None \<Rightarrow> 0 | Some e \<Rightarrow> lrGeneration e) + 1,
                        lrPort = port\<rparr>
                   in (Inr r, w\<lparr>leasePorts := (leasePorts w)(port \<mapsto> lid),
                        leaseFiles := renameOver runId
                          \<lparr>fileSize = bytes, fileIsFile = True, fileValue = encoded r\<rparr> (leaseFiles w)\<rparr>)))))"

text \<open>\<open>assertCurrent\<close>; the listener of the lease listens exactly while the lease holds its port.\<close>

definition assertCurrent :: "RunLeaseRecord \<Rightarrow> LeaseWorld \<Rightarrow> unit res" where
  "assertCurrent r w =
     andThen (readLeaseRecord (lrRunId r) w) (\<lambda>current.
       if leasePorts w (lrPort r) \<noteq> Some (lrLeaseId r)
          \<or> (case current of None \<Rightarrow> True
              | Some c \<Rightarrow> lrLeaseId c \<noteq> lrLeaseId r \<or> lrGeneration c \<noteq> lrGeneration r)
       then Inl (LeaseFenced (lrRunId r)) else Inr ())"

text \<open>\<open>release\<close>, and the death of the holding process: the listener is closed.\<close>

definition releaseRunLease :: "RunLeaseRecord \<Rightarrow> LeaseWorld \<Rightarrow> LeaseWorld" where
  "releaseRunLease r w =
     (if leasePorts w (lrPort r) = Some (lrLeaseId r)
      then w\<lparr>leasePorts := (leasePorts w)(lrPort r := None)\<rparr> else w)"

definition leaseCurrent :: "RunLeaseRecord \<Rightarrow> LeaseWorld \<Rightarrow> bool" where
  "leaseCurrent r w = isOk (assertCurrent r w)"

subsection \<open>The contract of a lease holder\<close>

text \<open>
  What every store promises that is written under a lease: a mutation under a lease that is not
  current fails and changes nothing. The journal, the artifact store and the attempt records
  provide it.
\<close>

locale fenced_store =
  fixes current :: "'l \<Rightarrow> 's \<Rightarrow> bool"
    and mutate :: "'l \<Rightarrow> 'a \<Rightarrow> 's \<Rightarrow> 'r res \<times> 's"
  assumes fenced: "\<not> current l s \<Longrightarrow> \<exists>e. mutate l a s = (Inl e, s)"
begin

definition mutateAll :: "'l \<Rightarrow> 'a list \<Rightarrow> 's \<Rightarrow> 's" where
  "mutateAll l as s = fold (\<lambda>a s. snd (mutate l a s)) as s"

lemma fenced_run: "\<not> current l s \<Longrightarrow> mutateAll l as s = s"
  unfolding mutateAll_def
proof (induction as)
  case Nil
  then show ?case by simp
next
  case (Cons a as)
  then obtain e where "mutate l a s = (Inl e, s)" using fenced by blast
  then show ?case using Cons by simp
qed

lemma changed_current: "snd (mutate l a s) \<noteq> s \<Longrightarrow> current l s"
  using fenced [of l s a] by (cases "current l s") auto

lemma ok_current: "mutate l a s = (Inr r, s') \<Longrightarrow> current l s"
  using fenced [of l s a] by (cases "current l s") auto

end

subsection \<open>Leases over time\<close>

text \<open>
  The processes that share a store: leases are acquired under fresh ids, released, lost with their
  process, and the record of a run may be removed by the retention sweep.
\<close>

record LeaseSystem =
  leaseWorld :: LeaseWorld
  issued :: "RunLeaseRecord list"     \<comment> \<open>newest first\<close>

datatype leaseEvent =
    AcquireLease string string int
  | ReleaseLease RunLeaseRecord
  | DropRecord string

definition leaseStep ::
  "(string \<Rightarrow> string \<Rightarrow> 32 word) \<Rightarrow> string \<Rightarrow> leaseEvent \<Rightarrow> LeaseSystem \<Rightarrow> LeaseSystem" where
  "leaseStep digest32 storeRoot ev s =
     (case ev of
        AcquireLease runId lid bytes \<Rightarrow>
          (if lid \<in> lrLeaseId ` set (issued s) then s
           else (case acquireRunLease digest32 storeRoot runId lid bytes (leaseWorld s) of
                   (Inl _, w) \<Rightarrow> s\<lparr>leaseWorld := w\<rparr>
                 | (Inr r, w) \<Rightarrow> \<lparr>leaseWorld = w, issued = r # issued s\<rparr>))
      | ReleaseLease r \<Rightarrow> s\<lparr>leaseWorld := releaseRunLease r (leaseWorld s)\<rparr>
      | DropRecord runId \<Rightarrow>
          s\<lparr>leaseWorld := (leaseWorld s)\<lparr>leaseFiles := unlinkEntry runId (leaseFiles (leaseWorld s))\<rparr>\<rparr>)"

definition newestLease :: "string \<Rightarrow> LeaseSystem \<Rightarrow> RunLeaseRecord option" where
  "newestLease runId s = find (\<lambda>r. lrRunId r = runId) (issued s)"

definition emptyLeases :: LeaseSystem where
  "emptyLeases = \<lparr>leaseWorld = \<lparr>leasePorts = (\<lambda>_. None), leaseFiles = (\<lambda>_. None)\<rparr>, issued = []\<rparr>"

definition leaseInv :: "(string \<Rightarrow> string \<Rightarrow> 32 word) \<Rightarrow> string \<Rightarrow> LeaseSystem \<Rightarrow> bool" where
  "leaseInv digest32 storeRoot s =
     (distinct (map lrLeaseId (issued s))
      \<and> (\<forall>runId f. leaseFiles (leaseWorld s) runId = Some f \<longrightarrow>
           (\<exists>r. newestLease runId s = Some r \<and> fileValue f = encoded r))
      \<and> (\<forall>r \<in> set (issued s). lrPort r = leasePort digest32 storeRoot (lrRunId r)))"

lemma acquire_ok:
  assumes "acquireRunLease dg rt runId lid bytes w = (Inr r, w')"
  shows "lrRunId r = runId" "lrLeaseId r = lid" "lrPort r = leasePort dg rt runId"
    "leasePorts w (lrPort r) = None"
    "leaseFiles w' = renameOver runId \<lparr>fileSize = bytes, fileIsFile = True, fileValue = encoded r\<rparr> (leaseFiles w)"
    "leasePorts w' = (leasePorts w)(lrPort r \<mapsto> lid)"
    "lrGeneration r = (case readLeaseRecord runId w of Inr (Some e) \<Rightarrow> lrGeneration e | _ \<Rightarrow> 0) + 1"
  using assms by (auto simp: acquireRunLease_def Let_def split: if_splits option.splits sum.splits)

lemma acquire_error: "acquireRunLease dg rt runId lid bytes w = (Inl e, w') \<Longrightarrow> w' = w"
  by (auto simp: acquireRunLease_def Let_def split: if_splits option.splits sum.splits)

lemma leaseInv_step: "leaseInv dg rt s \<Longrightarrow> leaseInv dg rt (leaseStep dg rt ev s)"
proof (cases ev)
  case (AcquireLease runId lid bytes)
  assume inv: "leaseInv dg rt s"
  show ?thesis
  proof (cases "lid \<in> lrLeaseId ` set (issued s)")
    case True
    then show ?thesis using inv AcquireLease by (simp add: leaseStep_def)
  next
    case False
    obtain res w where a: "acquireRunLease dg rt runId lid bytes (leaseWorld s) = (res, w)" by fastforce
    show ?thesis
    proof (cases res)
      case (Inl e)
      then have "w = leaseWorld s" using a acquire_error by blast
      then show ?thesis using inv AcquireLease False a Inl by (simp add: leaseStep_def)
    next
      case (Inr r)
      note ok = acquire_ok [OF a [unfolded Inr]]
      have step: "leaseStep dg rt ev s = \<lparr>leaseWorld = w, issued = r # issued s\<rparr>"
        using AcquireLease False a Inr by (simp add: leaseStep_def)
      show ?thesis using inv False ok unfolding step
        by (auto simp: leaseInv_def newestLease_def renameOver_def split: if_splits)
    qed
  qed
next
  case (ReleaseLease r)
  assume "leaseInv dg rt s"
  then show ?thesis using ReleaseLease
    by (simp add: leaseInv_def leaseStep_def releaseRunLease_def newestLease_def)
next
  case (DropRecord runId)
  assume "leaseInv dg rt s"
  then show ?thesis using DropRecord
    by (auto simp: leaseInv_def leaseStep_def newestLease_def unlinkEntry_def split: if_splits)
qed

lemma leaseInv_run: "leaseInv dg rt (fold (leaseStep dg rt) evs emptyLeases)"
  by (rule fold_invariant)
    (simp_all add: leaseInv_step, simp add: leaseInv_def emptyLeases_def newestLease_def)

lemma current_is_newest:
  assumes "leaseInv dg rt s" "r \<in> set (issued s)" "leaseCurrent r (leaseWorld s)"
  shows "newestLease (lrRunId r) s = Some r"
proof -
  from assms(3) obtain f c where f: "leaseFiles (leaseWorld s) (lrRunId r) = Some f"
      and c: "readLeaseRecord (lrRunId r) (leaseWorld s) = Inr (Some c)" "lrLeaseId c = lrLeaseId r"
    by (auto simp: leaseCurrent_def isOk_iff assertCurrent_def readLeaseRecord_def
        split: if_splits option.splits)
  from assms(1) f obtain n where n: "newestLease (lrRunId r) s = Some n" "fileValue f = encoded n"
    unfolding leaseInv_def by blast
  have "c = n" using c(1) f n(2) by (auto simp: readLeaseRecord_def encoded_def split: if_splits)
  moreover have "n \<in> set (issued s)" using n(1) by (auto simp: newestLease_def find_Some_iff)
  moreover have "distinct (map lrLeaseId (issued s))" using assms(1) by (simp add: leaseInv_def)
  ultimately have "n = r" using c(2) assms(2) by (metis distinct_map inj_onD)
  then show ?thesis using n(1) by simp
qed

text \<open>
  C4: A run has one owner at a time: whatever order processes acquire, release, lose or drop the
  leases of a store in, a lease passes \<open>assertCurrent\<close> only if it is the newest one issued for its
  run, so two leases of one run are never current together and an older one never becomes current
  again.
\<close>

theorem lease_is_exclusive:
  assumes "s = fold (leaseStep digest32 storeRoot) evs emptyLeases"
    and "r \<in> set (issued s)" and "leaseCurrent r (leaseWorld s)"
  shows "newestLease (lrRunId r) s = Some r
    \<and> (\<forall>q \<in> set (issued s). lrRunId q = lrRunId r \<longrightarrow> leaseCurrent q (leaseWorld s) \<longrightarrow> q = r)"
  using current_is_newest [OF leaseInv_run] assms by (metis option.inject)

text \<open>A newly acquired lease is current, with a generation above the record it replaces.\<close>

lemma acquire_current:
  assumes "acquireRunLease dg rt runId lid bytes w = (Inr r, w')" "bytes \<le> LEASE_MAX_RECORD_BYTES"
  shows "leaseCurrent r w'"
    "readLeaseRecord runId w = Inr (Some e) \<Longrightarrow> lrGeneration e < lrGeneration r"
  using acquire_ok [OF assms(1)] assms(2)
  by (simp_all add: leaseCurrent_def isOk_iff assertCurrent_def readLeaseRecord_def)

definition demoLease :: RunLeaseRecord where
  "demoLease = \<lparr>lrRunId = ''run_1'', lrLeaseId = ''l2'', lrGeneration = 2, lrPort = 20000\<rparr>"

definition demoLeaseEvents :: "leaseEvent list" where
  "demoLeaseEvents = [AcquireLease ''run_1'' ''l1'' 100,
     ReleaseLease \<lparr>lrRunId = ''run_1'', lrLeaseId = ''l1'', lrGeneration = 1, lrPort = 20000\<rparr>,
     AcquireLease ''run_1'' ''l2'' 100]"

lemma demo_lease_issued:
  "demoLease \<in> set (issued (fold (leaseStep (\<lambda>_ _. 0) ''root'') demoLeaseEvents emptyLeases))
   \<and> leaseCurrent demoLease (leaseWorld (fold (leaseStep (\<lambda>_ _. 0) ''root'') demoLeaseEvents emptyLeases))"
  by (simp add: demoLeaseEvents_def leaseStep_def emptyLeases_def acquireRunLease_def checkRunId_def
      startsWith_def lowerAlnum_def is_digit_def leasePort_def readLeaseRecord_def releaseRunLease_def
      renameOver_def demoLease_def leaseCurrent_def assertCurrent_def Let_def LEASE_MAX_RECORD_BYTES_def
      encoded_def readDecoded_def CONTRACT_REVISION_def)

theorem lease_is_exclusive_witness:
  "newestLease ''run_1'' (fold (leaseStep (\<lambda>_ _. 0) ''root'') demoLeaseEvents emptyLeases) = Some demoLease"
  using lease_is_exclusive [OF refl, of demoLease "\<lambda>_ _. 0" "''root''" demoLeaseEvents] demo_lease_issued
  by (simp add: demoLease_def)

end
