(* ===== verification/Canonical.thy ===== *)
theory Canonical
  imports Json
begin

section \<open>The canonical form (\<open>src/preflight/canonical.ts\<close>)\<close>

text \<open>
  \<open>canonicalJson\<close> is what every identity digest of the runtime is computed from: run and
  attempt identities, launch plan identities, request and control digests. The theory models it
  over all values of the language and shows that two values have the same canonical text exactly
  when they agree up to the order of object members. Cyclic values do not exist in the model, so
  the check of \<open>normalize\<close> that refuses them has no counterpart.
\<close>

text \<open>
  What \<open>canonicalJson\<close> is given: any value of the language. Not a number, the infinities,
  \<open>undefined\<close> and the values of the other types are refused.
\<close>

datatype jsval =
    VNull
  | VBool bool
  | VNum rat
  | VNonFinite
  | VStr string
  | VArr "jsval list"
  | VObj "(string \<times> jsval) list"
  | VUndefined
  | VOther string     \<comment> \<open>a function, symbol or big integer, with its \<open>typeof\<close>\<close>

text \<open>
  An object enumerates the keys that are array indices first, in numeric order, and the others
  in the order they were assigned. An assignment to \<open>__proto__\<close> sets the prototype and creates
  no own member.
\<close>

definition indexKey :: "string \<Rightarrow> bool" where
  "indexKey k =
     (k \<noteq> [] \<and> list_all is_digit k \<and> (k = ''0'' \<or> hd k \<noteq> CHR ''0'') \<and> readNat k < 4294967295)"

definition assigned :: "(string \<times> json) list \<Rightarrow> (string \<times> json) list" where
  "assigned ms =
     (let own = filter (\<lambda>m. fst m \<noteq> ''__proto__'') ms
      in sort_key (readNat \<circ> fst) (filter (indexKey \<circ> fst) own)
         @ filter (Not \<circ> indexKey \<circ> fst) own)"

fun seqRes :: "(error + 'a) list \<Rightarrow> error + 'a list" where
  "seqRes [] = Inr []"
| "seqRes (r # rs) = andThen r (\<lambda>x. andThen (seqRes rs) (\<lambda>xs. Inr (x # xs)))"

fun seqMembers :: "(string \<times> (error + 'a)) list \<Rightarrow> error + (string \<times> 'a) list" where
  "seqMembers [] = Inr []"
| "seqMembers ((k, r) # rs) = andThen r (\<lambda>x. andThen (seqMembers rs) (\<lambda>xs. Inr ((k, x) # xs)))"

fun normalize :: "jsval \<Rightarrow> error + json"
and normElems :: "jsval list \<Rightarrow> (error + json) list"
and normMembers :: "(string \<times> jsval) list \<Rightarrow> (string \<times> (error + json)) list" where
  "normalize VNull = Inr JNull"
| "normalize (VBool b) = Inr (JBool b)"
| "normalize (VStr s) = Inr (JStr s)"
| "normalize (VNum r) = Inr (JNum r)"
| "normalize VNonFinite = Inl (Err ''non-finite canonical number'')"
| "normalize (VArr vs) = andThen (seqRes (normElems vs)) (\<lambda>js. Inr (JArr js))"
| "normalize VUndefined = Inl (Err ''non-serializable canonical value: undefined'')"
| "normalize (VOther t) = Inl (Err (''non-serializable canonical value: '' @ t))"
| "normalize (VObj ms) =
     andThen (seqMembers (sort_key fst (normMembers ms))) (\<lambda>js. Inr (JObj (assigned js)))"
| "normElems [] = []"
| "normElems (v # vs) = normalize v # normElems vs"
| "normMembers [] = []"
| "normMembers ((k, v) # ms) =
     (k, if v = VUndefined then Inl (Err (''undefined canonical field: '' @ k)) else normalize v)
       # normMembers ms"

definition canonicalJson :: "jsval \<Rightarrow> error + string" where
  "canonicalJson v = andThen (normalize v) (\<lambda>j. Inr (stringify j))"

text \<open>\<open>sha\<close> is the hex SHA-256 of \<open>node:crypto\<close>, a parameter of the model.\<close>

definition canonicalSha256 :: "(string \<Rightarrow> string) \<Rightarrow> jsval \<Rightarrow> error + string" where
  "canonicalSha256 sha v = andThen (canonicalJson v) (\<lambda>s. Inr (sha s))"

subsection \<open>Agreement up to the order of members\<close>

inductive same :: "jsval \<Rightarrow> jsval \<Rightarrow> bool" where
  same_refl: "same v v"
| same_arr: "list_all2 same vs us \<Longrightarrow> same (VArr vs) (VArr us)"
| same_obj: "list_all2 (\<lambda>m n. fst m = fst n \<and> same (snd m) (snd n)) ms ms' \<Longrightarrow>
     mset ms' = mset ns \<Longrightarrow> distinct (map fst ns) \<Longrightarrow> same (VObj ms) (VObj ns)"

fun wf_js :: "jsval \<Rightarrow> bool"
and wf_jss :: "jsval list \<Rightarrow> bool"
and wf_jsms :: "(string \<times> jsval) list \<Rightarrow> bool" where
  "wf_js (VNum r) = wf_num r"
| "wf_js (VArr vs) = wf_jss vs"
| "wf_js (VObj ms) = (distinct (map fst ms) \<and> ''__proto__'' \<notin> fst ` set ms \<and> wf_jsms ms)"
| "wf_js _ = True"
| "wf_jss [] = True"
| "wf_jss (v # vs) = (wf_js v \<and> wf_jss vs)"
| "wf_jsms [] = True"
| "wf_jsms ((k, v) # ms) = (wf_js v \<and> wf_jsms ms)"

definition witnessA :: jsval where
  "witnessA = VObj [(''b'', VNum (1/4)), (''a'', VArr [VStr ''x'', VNull])]"
definition witnessB :: jsval where
  "witnessB = VObj [(''a'', VArr [VStr ''x'', VNull]), (''b'', VNum (1/4))]"

lemma normElems_eq: "normElems vs = map normalize vs"
  by (induction vs) auto

definition normMember :: "string \<times> jsval \<Rightarrow> string \<times> (error + json)" where
  "normMember m = (fst m, if snd m = VUndefined then Inl (Err (''undefined canonical field: '' @ fst m))
     else normalize (snd m))"

lemma normMembers_eq: "normMembers ms = map normMember ms"
  by (induction ms) (auto simp: normMember_def)

lemma fst_normMember [simp]: "fst (normMember m) = fst m"
  by (simp add: normMember_def)

lemma sort_key_mset_eq:
  assumes "mset xs = mset ys" "distinct (map f ys)"
  shows "sort_key f xs = sort_key f ys"
proof (rule sort_key_inj_key_eq)
  show "mset xs = mset (sort_key f ys)" using assms(1) by simp
  have "set xs = set ys" using assms(1) by (metis set_mset_mset)
  then show "inj_on f (set xs)" using assms(2) by (simp add: distinct_map)
  show "sorted (map f (sort_key f ys))" by simp
qed

lemma same_undefined: "same v w \<Longrightarrow> v = VUndefined \<longleftrightarrow> w = VUndefined"
  by (induction rule: same.induct) auto

lemma same_normalize: "same v w \<Longrightarrow> normalize v = normalize w"
proof (induction rule: same.induct)
  case (same_refl v)
  then show ?case by simp
next
  case (same_arr vs us)
  then have "map normalize vs = map normalize us"
    by (induction rule: list_all2_induct) auto
  then show ?case by (simp add: normElems_eq)
next
  case (same_obj ms ms' ns)
  from same_obj(1) have "map normMember ms = map normMember ms'"
    by (induction rule: list_all2_induct) (auto simp: normMember_def dest: same_undefined)
  moreover have "sort_key fst (map normMember ms') = sort_key fst (map normMember ns)"
    using same_obj by (intro sort_key_mset_eq) (auto simp: comp_def)
  ultimately show ?case by (simp add: normMembers_eq)
qed

lemma seqRes_Inr: "seqRes rs = Inr xs \<longleftrightarrow> rs = map Inr xs"
  by (induction rs arbitrary: xs) (auto simp: Cons_eq_map_conv)

lemma seqMembers_Inr: "seqMembers rs = Inr xs \<longleftrightarrow> rs = map (\<lambda>(k, x). (k, Inr x)) xs"
  by (induction rs arbitrary: xs rule: seqMembers.induct) (auto simp: Cons_eq_map_conv)

lemma mset_partition: "mset (filter P ms) + mset (filter (\<lambda>m. \<not> P m) ms) = mset ms"
  by (induction ms) auto

lemma mset_assigned: "mset (assigned js) = mset (filter (\<lambda>m. fst m \<noteq> ''__proto__'') js)"
  using mset_partition [of "\<lambda>m. indexKey (fst m)" "filter (\<lambda>m. fst m \<noteq> ''__proto__'') js"]
  by (simp add: assigned_def Let_def comp_def del: filter_filter mset_filter)

lemma normalize_VObj:
  assumes "normalize (VObj ms) = Inr j"
  obtains js where "sort_key fst (map normMember ms) = map (\<lambda>(k, x). (k, Inr x)) js"
    "j = JObj (assigned js)"
  using assms by (auto simp: normMembers_eq seqMembers_Inr)

lemma wf_jss_iff: "wf_jss vs \<longleftrightarrow> (\<forall>v \<in> set vs. wf_js v)"
  by (induction vs) auto

lemma wf_jsms_iff: "wf_jsms ms \<longleftrightarrow> (\<forall>m \<in> set ms. wf_js (snd m))"
  by (induction ms) auto

lemma wf_elems_iff: "wf_elems vs \<longleftrightarrow> (\<forall>v \<in> set vs. wf_json v)"
  by (induction vs) auto

lemma wf_members_iff: "wf_members ms \<longleftrightarrow> (\<forall>m \<in> set ms. wf_json (snd m))"
  by (induction ms) auto

lemma sorted_members_keys:
  assumes "sort_key fst (map normMember ms) = map (\<lambda>(k, x). (k, Inr x)) js"
  shows "mset (map fst js) = mset (map fst ms)" "sorted (map fst js)"
    "\<And>k x. (k, x) \<in> set js \<Longrightarrow> \<exists>v. (k, v) \<in> set ms \<and> v \<noteq> VUndefined \<and> normalize v = Inr x"
proof -
  have "map fst (sort_key fst (map normMember ms)) = map fst js"
    unfolding assms by (simp add: comp_def case_prod_unfold)
  moreover have "mset (map fst (sort_key fst (map normMember ms))) = mset (map fst ms)"
    by (simp add: multiset.map_comp comp_def)
  moreover have "sorted (map fst (sort_key fst (map normMember ms)))" by simp
  ultimately show "mset (map fst js) = mset (map fst ms)" "sorted (map fst js)" by metis+
  fix k x assume "(k, x) \<in> set js"
  then have "(k, Inr x) \<in> set (sort_key fst (map normMember ms))" unfolding assms by force
  then show "\<exists>v. (k, v) \<in> set ms \<and> v \<noteq> VUndefined \<and> normalize v = Inr x"
    by (force simp: normMember_def split: if_splits)
qed

lemma normalize_wf: "wf_js v \<Longrightarrow> normalize v = Inr j \<Longrightarrow> wf_json j"
proof (induction v arbitrary: j)
  case (VArr vs)
  then obtain js where js: "map normalize vs = map Inr js" "j = JArr js"
    by (auto simp: normElems_eq seqRes_Inr)
  have "wf_json x" if "x \<in> set js" for x
  proof -
    have "Inr x \<in> set (map normalize vs)" unfolding js(1) using that by simp
    then obtain v where "v \<in> set vs" "normalize v = Inr x" by auto
    then show ?thesis using VArr by (simp add: wf_jss_iff)
  qed
  then show ?case using js(2) by (simp add: wf_elems_iff)
next
  case (VObj ms)
  then obtain js where js: "sort_key fst (map normMember ms) = map (\<lambda>(k, x). (k, Inr x)) js"
    "j = JObj (assigned js)" by (metis normalize_VObj)
  note keys = sorted_members_keys [OF js(1)]
  have "distinct (map fst js)" using keys(1) VObj.prems(1)
    by (metis mset_eq_imp_distinct_iff wf_js.simps(3))
  moreover have "wf_json x" if "(k, x) \<in> set js" for k x
  proof -
    from keys(3) [OF that] obtain v where "(k, v) \<in> set ms" "normalize v = Inr x" by blast
    then show ?thesis using VObj.IH [of "(k, v)" v x] VObj.prems(1) by (auto simp: wf_jsms_iff)
  qed
  moreover have "mset (map fst (assigned js)) = mset (map fst (filter (\<lambda>m. fst m \<noteq> ''__proto__'') js))"
    by (simp add: mset_assigned del: mset_filter)
  then have "distinct (map fst (assigned js)) = distinct (map fst (filter (\<lambda>m. fst m \<noteq> ''__proto__'') js))"
    by (rule mset_eq_imp_distinct_iff)
  moreover have "set (assigned js) \<subseteq> set js"
    by (metis mset_assigned filter_is_subset set_mset_mset)
  ultimately show ?case using js(2) by (auto simp: wf_members_iff distinct_map_filter)
qed auto

lemma proto_free_js:
  assumes "normalize (VObj ms) = Inr (JObj (assigned js))" "''__proto__'' \<notin> fst ` set ms"
    "sort_key fst (map normMember ms) = map (\<lambda>(k, x). (k, Inr x)) js"
  shows "mset (assigned js) = mset js"
proof -
  have "fst ` set js = fst ` set ms"
    using sorted_members_keys(1) [OF assms(3)] by (metis list.set_map set_mset_mset)
  then have "filter (\<lambda>m. fst m \<noteq> ''__proto__'') js = js" using assms(2)
    by (intro filter_True) force
  then show ?thesis by (simp add: mset_assigned del: mset_filter)
qed

lemma sorted_keys_unique:
  assumes "mset js = mset js'" "sorted (map fst js)" "sorted (map fst js')" "distinct (map fst js)"
  shows "js = js'"
proof -
  have "distinct (map fst js')" using assms by (metis mset_eq_imp_distinct_iff mset_map)
  then have "sort_key fst js = sort_key fst js'" using assms by (intro sort_key_mset_eq)
  then show ?thesis using assms by (simp add: sort_key_id_if_sorted)
qed

lemma normalize_atoms:
  "normalize w = Inr JNull \<longleftrightarrow> w = VNull"
  "normalize w = Inr (JBool b) \<longleftrightarrow> w = VBool b"
  "normalize w = Inr (JNum x) \<longleftrightarrow> w = VNum x"
  "normalize w = Inr (JStr s) \<longleftrightarrow> w = VStr s"
  by (cases w; auto)+

lemma normalize_same: "wf_js v \<Longrightarrow> wf_js w \<Longrightarrow> normalize v = Inr j \<Longrightarrow> normalize w = Inr j \<Longrightarrow> same v w"
proof (induction v arbitrary: w j)
  case (VArr vs)
  then obtain js where js: "map normalize vs = map Inr js" "j = JArr js"
    by (auto simp: normElems_eq seqRes_Inr)
  then obtain us where us: "w = VArr us" "map normalize us = map Inr js"
    using VArr.prems(4) by (cases w) (auto simp: normElems_eq seqRes_Inr)
  have len: "length vs = length js" "length us = length js" using js us by (metis length_map)+
  have "same (vs ! i) (us ! i)" if "i < length vs" for i
  proof -
    have "normalize (vs ! i) = Inr (js ! i)" "normalize (us ! i) = Inr (js ! i)"
      using js(1) us(2) that len by (metis nth_map)+
    then show ?thesis using VArr that len us by (auto simp: wf_jss_iff)
  qed
  then show ?case unfolding us using len by (intro same_arr) (simp add: list_all2_conv_all_nth)
next
  case (VObj ms)
  obtain js where js: "sort_key fst (map normMember ms) = map (\<lambda>(k, x). (k, Inr x)) js"
    "j = JObj (assigned js)" using VObj.prems by (metis normalize_VObj)
  obtain ns where w: "w = VObj ns" using VObj.prems(4) js(2) by (cases w) (auto split: if_splits)
  obtain js' where js': "sort_key fst (map normMember ns) = map (\<lambda>(k, x). (k, Inr x)) js'"
    "j = JObj (assigned js')" using VObj.prems w by (metis normalize_VObj)
  note K = sorted_members_keys [OF js(1)] and K' = sorted_members_keys [OF js'(1)]
  have dms: "distinct (map fst ms)" and dns: "distinct (map fst ns)" using VObj.prems w by auto
  have djs: "distinct (map fst js)" using K(1) dms by (metis mset_eq_imp_distinct_iff)
  have "mset js = mset js'"
    using js js' VObj.prems w proto_free_js [of ms js] proto_free_js [of ns js'] by auto
  then have eq: "js' = js" using sorted_keys_unique [OF _ K(2) K'(2) djs] by simp
  let ?ms' = "map (\<lambda>m. (fst m, the (map_of ns (fst m)))) ms"
  have keys: "fst ` set ms = fst ` set ns"
    using K(1) K'(1) eq by (metis list.set_map set_mset_mset)
  have "same v (the (map_of ns k))" if "(k, v) \<in> set ms" for k v
  proof -
    have "k \<in> fst ` set js" using that K(1) by (metis fst_conv image_eqI list.set_map set_mset_mset)
    then obtain x where x: "(k, x) \<in> set js" by force
    obtain v1 where v1: "(k, v1) \<in> set ms" "normalize v1 = Inr x" using K(3) x by blast
    obtain v2 where v2: "(k, v2) \<in> set ns" "normalize v2 = Inr x" using K'(3) x eq by blast
    have "v1 = v" using v1 that dms by (metis eq_key_imp_eq_value)
    moreover have "map_of ns k = Some v2" using v2 dns by simp
    moreover have "wf_js v" "wf_js v2" using VObj.prems(1,2) that v2(1) w
      by (metis wf_js.simps(3) wf_jsms_iff snd_conv)+
    ultimately show ?thesis using VObj.IH [of "(k, v)" v v2 x] that v1 v2 by simp
  qed
  then have al: "list_all2 (\<lambda>m n. fst m = fst n \<and> same (snd m) (snd n)) ms ?ms'"
    by (auto simp: list_all2_conv_all_nth)
  have "set ?ms' = set ns"
  proof (intro set_eqI iffI; clarsimp)
    fix k v assume "(k, v) \<in> set ms"
    then have "k \<in> fst ` set ns" using keys by force
    then show "(k, the (map_of ns k)) \<in> set ns" by (metis domD dom_map_of_conv_image_fst map_of_SomeD option.sel)
  next
    fix k v assume kv: "(k, v) \<in> set ns"
    then have "k \<in> fst ` set ms" using keys by force
    then show "(k, v) \<in> (\<lambda>m. (fst m, the (map_of ns (fst m)))) ` set ms"
      using kv dns by force
  qed
  moreover have "distinct ?ms'" using dms by (simp add: distinct_map inj_on_def)
  moreover have "distinct ns" using dns by (simp add: distinct_map)
  ultimately have "mset ?ms' = mset ns" by (metis set_eq_iff_mset_eq_distinct)
  then show ?case unfolding w using same_obj [OF al _ dns] by blast
qed (auto intro: same_refl simp: normalize_atoms)


lemma canonicalJson_same:
  assumes "wf_js v" "wf_js w" "canonicalJson v = Inr s" "canonicalJson w = Inr s"
  shows "same v w"
proof -
  obtain j j' where j: "normalize v = Inr j" "normalize w = Inr j'" "stringify j = stringify j'"
    using assms(3,4) by (auto simp: canonicalJson_def)
  then have "Some j = Some j'"
    using normalize_wf assms(1,2) by (metis parse_stringify)
  then show ?thesis using normalize_same assms(1,2) j by simp
qed

lemma same_canonicalJson: "same v w \<Longrightarrow> canonicalJson w = canonicalJson v"
  using same_normalize by (simp add: canonicalJson_def)

text \<open>
  C40: The canonical text identifies a value up to the order of object members: for values with
  finite decimals, distinct keys and no member named \<open>__proto__\<close>, a second value has the same
  canonical JSON text as the first exactly when the two agree at every level except for the order
  in which members are listed.
\<close>

theorem canonicalJson_iff_same:
  assumes "wf_js v" "wf_js w" "canonicalJson v = Inr s"
  shows "canonicalJson w = Inr s \<longleftrightarrow> same v w"
  using canonicalJson_same [OF assms] same_canonicalJson assms(3) by metis

theorem canonicalJson_iff_same_witness:
  "canonicalJson witnessA = canonicalJson witnessB"
proof -
  have "wf_num (1/4)" by code_simp
  then have w: "wf_js witnessA" "wf_js witnessB" by (simp_all add: witnessA_def witnessB_def)
  obtain s where s: "canonicalJson witnessA = Inr s"
    by (auto simp: canonicalJson_def witnessA_def)
  have "same witnessA witnessB" unfolding witnessA_def witnessB_def
    by (rule same_obj [where ms' = "[(''b'', VNum (1/4)), (''a'', VArr [VStr ''x'', VNull])]"])
      (auto intro: same_refl)
  then show ?thesis using canonicalJson_iff_same [OF w s] s by simp
qed

text \<open>
  A member named \<open>__proto__\<close> does not reach the canonical text: the object that has only this
  member, with any serializable value, has the canonical JSON text of the empty object, so the two
  get the same digest.
\<close>

theorem canonicalJson_drops_proto:
  assumes "normalize x = Inr j" "x \<noteq> VUndefined"
  shows "canonicalJson (VObj [(''__proto__'', x)]) = canonicalJson (VObj [])"
  using assms by (simp add: canonicalJson_def assigned_def)

theorem canonicalJson_drops_proto_witness:
  "canonicalJson (VObj [(''__proto__'', VBool True)]) = canonicalJson (VObj [])"
  using canonicalJson_drops_proto [of "VBool True" "JBool True"] by simp

end
