(* ===== verification/Launch.thy ===== *)
theory Launch
  imports Contracts Canonical
begin

section \<open>Launch contracts (\<open>src/launch-contracts.ts\<close>)\<close>

text \<open>
  The request a caller makes, the agent launch plan that preflight compiles from it, and the
  checks of their schemas. A literal field of a schema (the plan's \<open>schema\<close>, \<open>cwd\<close>, the network
  policy) is not a field of the record; the encoders add it. Lengths of strings are in bytes.
\<close>

subsection \<open>Identifiers and tasks\<close>

definition checkIdentity :: "string \<Rightarrow> bool" where
  "checkIdentity s = (1 \<le> length s \<and> length s \<le> 256)"

definition isAlnum :: "char \<Rightarrow> bool" where
  "isAlnum c = (is_digit c \<or> is_lower c \<or> is_upper c)"

definition checkResourceName :: "string \<Rightarrow> bool" where
  "checkResourceName s = (case s of [] \<Rightarrow> False
     | c # t \<Rightarrow> isAlnum c \<and> list_all (\<lambda>c. isAlnum c \<or> c \<in> set ''._-'') t \<and> length s \<le> 128)"

record DelegatedTask =
  goal :: string
  taskContext :: "string list"
  instructions :: "string list"

definition checkTask :: "DelegatedTask \<Rightarrow> bool" where
  "checkTask t = (1 \<le> length (goal t) \<and> length (goal t) \<le> 16384
     \<and> list_all (\<lambda>s. length s \<le> 16384) (taskContext t) \<and> length (taskContext t) \<le> 64
     \<and> list_all (\<lambda>s. length s \<le> 16384) (instructions t)
     \<and> 1 \<le> length (instructions t) \<and> length (instructions t) \<le> 64)"

subsection \<open>Models\<close>

datatype Thinking = ThinkOff | ThinkMinimal | ThinkLow | ThinkMedium | ThinkHigh | ThinkXhigh

fun thinkingText :: "Thinking \<Rightarrow> string" where
  "thinkingText ThinkOff = ''off''"
| "thinkingText ThinkMinimal = ''minimal''"
| "thinkingText ThinkLow = ''low''"
| "thinkingText ThinkMedium = ''medium''"
| "thinkingText ThinkHigh = ''high''"
| "thinkingText ThinkXhigh = ''xhigh''"

record ExactModelRequest =
  provider :: string
  modelId :: string
  thinking :: Thinking

definition checkModel :: "ExactModelRequest \<Rightarrow> bool" where
  "checkModel m = (checkResourceName (provider m) \<and> 1 \<le> length (modelId m) \<and> length (modelId m) \<le> 256)"

datatype ModelRequest = ExactModel ExactModelRequest | InheritModel

definition INHERIT_MODEL :: string where "INHERIT_MODEL = ''inherit''"
definition HOST_MODEL :: string where "HOST_MODEL = ''host''"

datatype ModelSource = SourceRequest | SourceTemplate | SourceInherited

fun modelSourceText :: "ModelSource \<Rightarrow> string" where
  "modelSourceText SourceRequest = ''request''"
| "modelSourceText SourceTemplate = ''template''"
| "modelSourceText SourceInherited = ''inherited''"

datatype ModelAdmission = AdmitExact | AdmitInherit | AdmitHost

fun modelAdmissionText :: "ModelAdmission \<Rightarrow> string" where
  "modelAdmissionText AdmitExact = ''exact''"
| "modelAdmissionText AdmitInherit = ''inherit''"
| "modelAdmissionText AdmitHost = ''host''"

subsection \<open>Workspaces, ceilings and limits\<close>

datatype WorkspaceMode = ReadOnly | Worktree

fun modeText :: "WorkspaceMode \<Rightarrow> string" where
  "modeText ReadOnly = ''read-only''"
| "modeText Worktree = ''worktree''"

record WorkspaceRequest =
  requestMode :: WorkspaceMode
  requestCwd :: string
  requestStartAt :: "string option"

definition checkStartAt :: "string option \<Rightarrow> bool" where
  "checkStartAt s = (case s of None \<Rightarrow> True | Some c \<Rightarrow> checkCommitId c)"

definition checkWorkspaceRequest :: "WorkspaceRequest \<Rightarrow> bool" where
  "checkWorkspaceRequest w = (1 \<le> length (requestCwd w) \<and> length (requestCwd w) \<le> 4096
     \<and> checkStartAt (requestStartAt w))"

definition checkNames :: "string list \<Rightarrow> bool" where
  "checkNames names = (list_all checkResourceName names \<and> length names \<le> 64 \<and> distinct names)"

record DelegationCeiling =
  ceilingModes :: "WorkspaceMode list option"
  ceilingTools :: "string list option"

definition checkCeiling :: "DelegationCeiling \<Rightarrow> bool" where
  "checkCeiling c =
     ((case ceilingModes c of None \<Rightarrow> True
         | Some ms \<Rightarrow> 1 \<le> length ms \<and> length ms \<le> 2 \<and> distinct ms)
      \<and> (case ceilingTools c of None \<Rightarrow> True | Some ts \<Rightarrow> checkNames ts))"

definition MIN_MEMORY_BYTES :: int where "MIN_MEMORY_BYTES = 1024 * 1024 * 1024"
definition MAX_MEMORY_BYTES :: int where "MAX_MEMORY_BYTES = 4 * 1024 * 1024 * 1024"
definition MEMORY_GRANULARITY_BYTES :: int where "MEMORY_GRANULARITY_BYTES = 64 * 1024 * 1024"

definition checkMemoryBytes :: "int \<Rightarrow> bool" where
  "checkMemoryBytes n = (MIN_MEMORY_BYTES \<le> n \<and> n \<le> MAX_MEMORY_BYTES
     \<and> n mod MEMORY_GRANULARITY_BYTES = 0)"

record RunLimits =
  cumulativeRuntimeMs :: int
  attemptTimeoutMs :: int
  limitTotalTokens :: "int option"
  limitCost :: rat
  outputBytes :: int
  workspaceWriteBytes :: int
  retries :: int
  resumes :: int

definition checkLimits :: "RunLimits \<Rightarrow> bool" where
  "checkLimits l =
     (1000 \<le> cumulativeRuntimeMs l \<and> cumulativeRuntimeMs l \<le> 3600000
      \<and> 1000 \<le> attemptTimeoutMs l \<and> attemptTimeoutMs l \<le> 3600000
      \<and> (case limitTotalTokens l of None \<Rightarrow> True | Some n \<Rightarrow> 1 \<le> n \<and> n \<le> 10000000)
      \<and> 0 \<le> limitCost l \<and> limitCost l \<le> of_int MAX_SAFE_INTEGER
      \<and> 1 \<le> outputBytes l \<and> outputBytes l \<le> 16777216
      \<and> 0 \<le> workspaceWriteBytes l \<and> workspaceWriteBytes l \<le> 17179869184
      \<and> 0 \<le> retries l \<and> retries l \<le> 10 \<and> 0 \<le> resumes l \<and> resumes l \<le> 10)"

datatype ContextScope = ScopeGlobal | ScopeProject

fun scopeText :: "ContextScope \<Rightarrow> string" where
  "scopeText ScopeGlobal = ''global''"
| "scopeText ScopeProject = ''project''"

datatype ContextMode = FreshContext | ForkContext

fun contextModeText :: "ContextMode \<Rightarrow> string" where
  "contextModeText FreshContext = ''fresh''"
| "contextModeText ForkContext = ''fork''"

subsection \<open>Requests\<close>

record SubagentRequest =
  requestOperationId :: string
  requestAgent :: string
  agentRoots :: "string list option"
  requestTask :: DelegatedTask
  requestContextMode :: ContextMode
  requestModel :: "ModelRequest option"
  requestTools :: "string list"
  requestSkills :: "string list"
  requestScopes :: "ContextScope list"
  requestWorkspace :: WorkspaceRequest
  requestCeiling :: "DelegationCeiling option"
  requestMemoryBytes :: "int option"
  requestOutputSchema :: "jsval option"
  requestLimits :: RunLimits

definition MAX_REQUEST_AGENT_ROOTS :: nat where "MAX_REQUEST_AGENT_ROOTS = 8"

definition checkRequest :: "SubagentRequest \<Rightarrow> bool" where
  "checkRequest r =
     (checkIdentity (requestOperationId r) \<and> checkResourceName (requestAgent r)
      \<and> (case agentRoots r of None \<Rightarrow> True
           | Some rs \<Rightarrow> list_all (\<lambda>s. 1 \<le> length s \<and> length s \<le> 4096) rs
               \<and> length rs \<le> MAX_REQUEST_AGENT_ROOTS \<and> distinct rs)
      \<and> checkTask (requestTask r)
      \<and> (case requestModel r of Some (ExactModel m) \<Rightarrow> checkModel m | _ \<Rightarrow> True)
      \<and> checkNames (requestTools r) \<and> checkNames (requestSkills r)
      \<and> length (requestScopes r) \<le> 2 \<and> distinct (requestScopes r)
      \<and> checkWorkspaceRequest (requestWorkspace r)
      \<and> (case requestCeiling r of None \<Rightarrow> True | Some c \<Rightarrow> checkCeiling c)
      \<and> (case requestMemoryBytes r of None \<Rightarrow> True | Some n \<Rightarrow> checkMemoryBytes n)
      \<and> checkLimits (requestLimits r))"

subsection \<open>Launch plans\<close>

datatype ResourceKind = KindAgent | KindTool | KindSkill | KindContext

fun kindText :: "ResourceKind \<Rightarrow> string" where
  "kindText KindAgent = ''agent''"
| "kindText KindTool = ''tool''"
| "kindText KindSkill = ''skill''"
| "kindText KindContext = ''context''"

record ResourceGrant =
  resourceKind :: ResourceKind
  resourceName :: string
  resourceSource :: string
  resourceSha256 :: string

definition checkGrant :: "ResourceGrant \<Rightarrow> bool" where
  "checkGrant g = (checkResourceName (resourceName g) \<and> 1 \<le> length (resourceSource g)
     \<and> length (resourceSource g) \<le> 4096 \<and> checkSha256 (resourceSha256 g))"

datatype AgentScope = AgentBuiltin | AgentPackage | AgentGlobal | AgentProject

fun agentScopeText :: "AgentScope \<Rightarrow> string" where
  "agentScopeText AgentBuiltin = ''builtin''"
| "agentScopeText AgentPackage = ''package''"
| "agentScopeText AgentGlobal = ''global''"
| "agentScopeText AgentProject = ''project''"

record ForkContextGrant =
  parentSessionId :: string
  parentSessionSha256 :: string
  messageIds :: "string list"
  projectionSha256 :: string

definition checkForkContext :: "ForkContextGrant \<Rightarrow> bool" where
  "checkForkContext f = (1 \<le> length (parentSessionId f) \<and> length (parentSessionId f) \<le> 128
     \<and> checkSha256 (parentSessionSha256 f)
     \<and> list_all (\<lambda>s. 1 \<le> length s \<and> length s \<le> 128) (messageIds f) \<and> length (messageIds f) \<le> 100
     \<and> checkSha256 (projectionSha256 f))"

record ResolvedWorkspace =
  workspaceMode :: WorkspaceMode
  hostPathSha256 :: string
  baselineSha256 :: string
  workspaceStartAt :: "string option"

record ResolvedSandbox =
  packageVersion :: string
  imageSha256 :: string
  mountPolicySha256 :: string
  networkPolicySha256 :: string
  capacityPolicySha256 :: string
  rootfsPolicySha256 :: string
  guestDiskBytes :: int

record AgentLaunchPlan =
  planOperationId :: string
  planOwnerId :: string
  planRunId :: string
  planAttemptId :: string
  planAgent :: string
  planAgentDisplayName :: string
  planAgentPrompt :: string
  planAgentSource :: string
  planAgentSha256 :: string
  planAgentScope :: AgentScope
  planTask :: DelegatedTask
  planContextMode :: ContextMode
  planForkContext :: "ForkContextGrant option"
  planModel :: ExactModelRequest
  planModelSource :: ModelSource
  planModelAdmission :: ModelAdmission
  planTools :: "string list"
  planSkills :: "string list"
  planScopes :: "ContextScope list"
  planResources :: "ResourceGrant list"
  planWorkspace :: ResolvedWorkspace
  planCeiling :: "DelegationCeiling option"
  planSandbox :: ResolvedSandbox
  planMemoryBytes :: int
  planSandboxWriteBytes :: int
  planOutputSchema :: "jsval option"
  planLimits :: RunLimits
  planIdentity :: string

definition checkPlan :: "AgentLaunchPlan \<Rightarrow> bool" where
  "checkPlan p =
     (checkIdentity (planOperationId p) \<and> checkIdentity (planOwnerId p)
      \<and> checkRunId (planRunId p) \<and> checkAttemptId (planAttemptId p)
      \<and> checkResourceName (planAgent p)
      \<and> 1 \<le> length (planAgentDisplayName p) \<and> length (planAgentDisplayName p) \<le> 128
      \<and> 1 \<le> length (planAgentPrompt p) \<and> length (planAgentPrompt p) \<le> 65536
      \<and> 1 \<le> length (planAgentSource p) \<and> length (planAgentSource p) \<le> 4096
      \<and> checkSha256 (planAgentSha256 p) \<and> checkTask (planTask p)
      \<and> (case planForkContext p of None \<Rightarrow> True | Some f \<Rightarrow> checkForkContext f)
      \<and> checkModel (planModel p) \<and> checkNames (planTools p) \<and> checkNames (planSkills p)
      \<and> length (planScopes p) \<le> 2 \<and> distinct (planScopes p)
      \<and> list_all checkGrant (planResources p)
      \<and> 1 \<le> length (planResources p) \<and> length (planResources p) \<le> 256
      \<and> checkSha256 (hostPathSha256 (planWorkspace p)) \<and> checkSha256 (baselineSha256 (planWorkspace p))
      \<and> checkStartAt (workspaceStartAt (planWorkspace p))
      \<and> (case planCeiling p of None \<Rightarrow> True | Some c \<Rightarrow> checkCeiling c)
      \<and> 1 \<le> length (packageVersion (planSandbox p)) \<and> length (packageVersion (planSandbox p)) \<le> 64
      \<and> checkSha256 (imageSha256 (planSandbox p)) \<and> checkSha256 (mountPolicySha256 (planSandbox p))
      \<and> checkSha256 (networkPolicySha256 (planSandbox p)) \<and> checkSha256 (capacityPolicySha256 (planSandbox p))
      \<and> checkSha256 (rootfsPolicySha256 (planSandbox p))
      \<and> checkMemoryBytes (planMemoryBytes p) \<and> 1 \<le> guestDiskBytes (planSandbox p)
      \<and> 0 \<le> planSandboxWriteBytes p \<and> checkLimits (planLimits p) \<and> checkSha256 (planIdentity p))"

end
