(* ===== verification/Identity.thy ===== *)
theory Identity
  imports Launch
begin

section \<open>Identities of launch plans and resources\<close>

text \<open>
  The JavaScript values that the code digests, built from the records, and what equal digests
  of two of them mean: \<open>verifyLaunchPlanIdentity\<close> of \<open>src/preflight/compile.ts\<close> and the checks of
  the projections against the plan compare canonical digests of these values.
\<close>

subsection \<open>Values\<close>

text \<open>An object literal whose optional members are spread in only when they are present.\<close>

definition vobj :: "(string \<times> jsval option) list \<Rightarrow> jsval" where
  "vobj ms = VObj (List.map_filter (\<lambda>(k, v). map_option (Pair k) v) ms)"

definition vint :: "int \<Rightarrow> jsval" where
  "vint n = VNum (of_int n)"

definition vstrs :: "string list \<Rightarrow> jsval" where
  "vstrs ss = VArr (map VStr ss)"

definition taskJs :: "DelegatedTask \<Rightarrow> jsval" where
  "taskJs t = vobj [(''goal'', Some (VStr (goal t))), (''context'', Some (vstrs (taskContext t))),
     (''instructions'', Some (vstrs (instructions t)))]"

definition modelJs :: "ExactModelRequest \<Rightarrow> jsval" where
  "modelJs m = vobj [(''provider'', Some (VStr (provider m))), (''id'', Some (VStr (modelId m))),
     (''thinking'', Some (VStr (thinkingText (thinking m))))]"

definition forkJs :: "ForkContextGrant \<Rightarrow> jsval" where
  "forkJs f = vobj [(''parentSessionId'', Some (VStr (parentSessionId f))),
     (''parentSessionSha256'', Some (VStr (parentSessionSha256 f))),
     (''messageIds'', Some (vstrs (messageIds f))),
     (''projectionSha256'', Some (VStr (projectionSha256 f)))]"

definition grantJs :: "ResourceGrant \<Rightarrow> jsval" where
  "grantJs g = vobj [(''kind'', Some (VStr (kindText (resourceKind g)))),
     (''name'', Some (VStr (resourceName g))), (''source'', Some (VStr (resourceSource g))),
     (''sha256'', Some (VStr (resourceSha256 g)))]"

definition grantsJs :: "ResourceGrant list \<Rightarrow> jsval" where
  "grantsJs gs = VArr (map grantJs gs)"

definition workspaceJs :: "ResolvedWorkspace \<Rightarrow> jsval" where
  "workspaceJs w = vobj [(''mode'', Some (VStr (modeText (workspaceMode w)))),
     (''hostPathSha256'', Some (VStr (hostPathSha256 w))),
     (''baselineSha256'', Some (VStr (baselineSha256 w))),
     (''startAt'', map_option VStr (workspaceStartAt w))]"

definition ceilingJs :: "DelegationCeiling \<Rightarrow> jsval" where
  "ceilingJs c = vobj
     [(''workspaceModes'', map_option (\<lambda>ms. vstrs (map modeText ms)) (ceilingModes c)),
      (''tools'', map_option vstrs (ceilingTools c))]"

definition limitsJs :: "RunLimits \<Rightarrow> jsval" where
  "limitsJs l = vobj
     [(''cumulativeRuntimeMs'', Some (vint (cumulativeRuntimeMs l))),
      (''attemptTimeoutMs'', Some (vint (attemptTimeoutMs l))),
      (''totalTokens'', map_option vint (limitTotalTokens l)),
      (''cost'', Some (VNum (limitCost l))),
      (''outputBytes'', Some (vint (outputBytes l))),
      (''workspaceWriteBytes'', Some (vint (workspaceWriteBytes l))),
      (''retries'', Some (vint (retries l))), (''resumes'', Some (vint (resumes l)))]"

definition sandboxJs :: "ResolvedSandbox \<Rightarrow> int \<Rightarrow> int \<Rightarrow> jsval" where
  "sandboxJs s memory writeBytes = vobj
     [(''backend'', Some (VStr ''gondolin'')), (''packageVersion'', Some (VStr (packageVersion s))),
      (''imageSha256'', Some (VStr (imageSha256 s))),
      (''mountPolicySha256'', Some (VStr (mountPolicySha256 s))),
      (''networkPolicySha256'', Some (VStr (networkPolicySha256 s))),
      (''capacityPolicySha256'', Some (VStr (capacityPolicySha256 s))),
      (''rootfsPolicySha256'', Some (VStr (rootfsPolicySha256 s))),
      (''guestDiskBytes'', Some (vint (guestDiskBytes s))),
      (''memoryBytes'', Some (vint memory)), (''workspaceWriteBytes'', Some (vint writeBytes))]"

definition draftMembers :: "AgentLaunchPlan \<Rightarrow> (string \<times> jsval option) list" where
  "draftMembers p =
     [(''schema'', Some (VStr ''pi-subagent-launch'')),
      (''contractRevision'', Some (vint CONTRACT_REVISION)),
      (''operationId'', Some (VStr (planOperationId p))), (''ownerId'', Some (VStr (planOwnerId p))),
      (''runId'', Some (VStr (planRunId p))), (''attemptId'', Some (VStr (planAttemptId p))),
      (''agent'', Some (VStr (planAgent p))),
      (''agentDisplayName'', Some (VStr (planAgentDisplayName p))),
      (''agentPrompt'', Some (VStr (planAgentPrompt p))),
      (''agentSource'', Some (VStr (planAgentSource p))),
      (''agentSha256'', Some (VStr (planAgentSha256 p))),
      (''agentScope'', Some (VStr (agentScopeText (planAgentScope p)))),
      (''task'', Some (taskJs (planTask p))),
      (''contextMode'', Some (VStr (contextModeText (planContextMode p)))),
      (''forkContext'', map_option forkJs (planForkContext p)),
      (''model'', Some (modelJs (planModel p))),
      (''modelSource'', Some (VStr (modelSourceText (planModelSource p)))),
      (''modelAdmission'', Some (VStr (modelAdmissionText (planModelAdmission p)))),
      (''cwd'', Some (VStr ''/workspace'')),
      (''tools'', Some (vstrs (planTools p))), (''preloadSkills'', Some (vstrs (planSkills p))),
      (''contextScopes'', Some (vstrs (map scopeText (planScopes p)))),
      (''resources'', Some (grantsJs (planResources p))),
      (''workspace'', Some (workspaceJs (planWorkspace p))),
      (''ceiling'', map_option ceilingJs (planCeiling p)),
      (''sandbox'', Some (sandboxJs (planSandbox p) (planMemoryBytes p) (planSandboxWriteBytes p))),
      (''network'', Some (vobj [(''mode'', Some (VStr ''public-egress'')),
                               (''blockInternalRanges'', Some (VBool True))])),
      (''outputSchema'', planOutputSchema p),
      (''limits'', Some (limitsJs (planLimits p)))]"

definition draftJs :: "AgentLaunchPlan \<Rightarrow> jsval" where
  "draftJs p = vobj (draftMembers p)"

definition planJs :: "AgentLaunchPlan \<Rightarrow> jsval" where
  "planJs p = vobj (draftMembers p @ [(''identitySha256'', Some (VStr (planIdentity p)))])"

text \<open>\<open>verifyLaunchPlanIdentity\<close>: an error is an exception of the canonical form.\<close>

definition verifyLaunchPlanIdentity :: "(string \<Rightarrow> string) \<Rightarrow> AgentLaunchPlan \<Rightarrow> bool res" where
  "verifyLaunchPlanIdentity sha p =
     andThen (canonicalSha256 sha (draftJs p)) (\<lambda>d. Inr (d = planIdentity p))"

subsection \<open>Equal canonical texts\<close>

inductive_simps same_VStr [simp]: "same (VStr s) w"
inductive_simps same_VNum [simp]: "same (VNum x) w"
inductive_simps same_VBool [simp]: "same (VBool b) w"
inductive_simps same_VArr: "same (VArr vs) w"
inductive_simps same_VObj: "same (VObj ms) (VObj ns)"

lemma list_all2_eq_sym: "list_all2 (\<lambda>x y. y = x) xs ys \<longleftrightarrow> ys = xs"
  by (induction xs arbitrary: ys) (auto simp: list_all2_Cons1)

lemma same_vstrs [simp]: "same (vstrs xs) (vstrs ys) \<longleftrightarrow> ys = xs"
proof -
  have "map VStr ys = map VStr xs \<Longrightarrow> ys = xs" by (rule map_injective) (auto intro: injI)
  then show ?thesis
    by (auto simp: vstrs_def same_VArr list.rel_map list_all2_eq_sym)
qed

lemma same_vint [simp]: "same (vint a) (vint b) \<longleftrightarrow> b = a"
  by (simp add: vint_def)

lemma same_members:
  assumes "same (VObj ms) (VObj ns)" and "distinct (map fst ms)"
  shows "rel_option same (map_of ms k) (map_of ns k)"
proof -
  from assms(1) consider "ns = ms"
    | ms' where "list_all2 (\<lambda>m n. fst m = fst n \<and> same (snd m) (snd n)) ms ms'" "mset ms' = mset ns"
        "distinct (map fst ns)"
    by (auto simp: same_VObj)
  then show ?thesis
  proof cases
    case 1
    then show ?thesis by (cases "map_of ms k") (auto intro: same_refl)
  next
    case 2
    have "rel_option same (map_of ms k) (map_of ms' k)"
      using 2(1) by (induction rule: list_all2_induct) auto
    moreover have "map_of ms' = map_of ns"
      using 2(2,3) by (subst map_of_inject_set) (metis mset_eq_imp_distinct_iff mset_map, simp, metis mset_eq_setD)
    ultimately show ?thesis by simp
  qed
qed

lemma map_of_present:
  "distinct (map fst ms) \<Longrightarrow> map_of (List.map_filter (\<lambda>(k, v). map_option (Pair k) v) ms) k
     = (case map_of ms k of Some (Some v) \<Rightarrow> Some v | _ \<Rightarrow> None)"
proof (induction ms)
  case Nil
  then show ?case by (simp add: map_filter_simps)
next
  case (Cons m ms)
  obtain k' v where m: "m = (k', v)" by (cases m)
  have "k' \<notin> set (map fst ms)" using Cons.prems m by simp
  then have "map_of ms k' = None" by (simp add: map_of_eq_None_iff)
  then show ?case using Cons m by (cases v) (auto simp: map_filter_simps)
qed

lemma distinct_present:
  "distinct (map fst ms) \<Longrightarrow> distinct (map fst (List.map_filter (\<lambda>(k, v). map_option (Pair k) v) ms))
     \<and> fst ` set (List.map_filter (\<lambda>(k, v). map_option (Pair k) v) ms) \<subseteq> fst ` set ms"
  by (induction ms) (force simp: map_filter_simps split: option.splits)+

text \<open>Two object literals over the same keys agree exactly when their members do.\<close>

lemma vobj_same:
  assumes "same (vobj ms) (vobj ns)" and keys: "map fst ns = map fst ms" and d: "distinct (map fst ms)"
  shows "list_all2 (rel_option same) (map snd ms) (map snd ns)"
proof (rule list_all2_all_nthI)
  show len: "length (map snd ms) = length (map snd ns)" using keys by (metis length_map)
  fix i assume i: "i < length (map snd ms)"
  have l: "length ns = length ms" using len by simp
  have k: "fst (ns ! i) = fst (ms ! i)" using i keys l by (metis length_map nth_map)
  have dn: "distinct (map fst ns)" using d keys by simp
  have m: "map_of ms (fst (ms ! i)) = Some (snd (ms ! i))" "map_of ns (fst (ms ! i)) = Some (snd (ns ! i))"
    using i d keys k l by (metis length_map map_of_is_SomeI nth_mem prod.collapse)+
  have "rel_option same (map_of (List.map_filter (\<lambda>(k, v). map_option (Pair k) v) ms) (fst (ms ! i)))
      (map_of (List.map_filter (\<lambda>(k, v). map_option (Pair k) v) ns) (fst (ms ! i)))"
    by (rule same_members) (use assms(1) distinct_present [OF d] in \<open>auto simp: vobj_def\<close>)
  then have "rel_option same (snd (ms ! i)) (snd (ns ! i))"
    unfolding map_of_present [OF d] map_of_present [OF dn] m
    by (cases "snd (ms ! i)"; cases "snd (ns ! i)") simp_all
  then show "rel_option same (map snd ms ! i) (map snd ns ! i)" using i l by simp
qed

lemma rel_same_str [simp]: "rel_option same (map_option VStr a) (map_option VStr b) \<longleftrightarrow> a = b"
  by (cases a; cases b) auto

lemma rel_same_int [simp]: "rel_option same (map_option vint a) (map_option vint b) \<longleftrightarrow> a = b"
  by (cases a; cases b) auto

lemma rel_same_strs [simp]: "rel_option same (map_option vstrs a) (map_option vstrs b) \<longleftrightarrow> a = b"
  by (cases a; cases b) auto

text \<open>The texts of the enumerations are different.\<close>

lemma text_inj [simp]:
  "thinkingText a = thinkingText b \<longleftrightarrow> a = b"
  "modelSourceText c = modelSourceText d \<longleftrightarrow> c = d"
  "modelAdmissionText e = modelAdmissionText f \<longleftrightarrow> e = f"
  "modeText g = modeText h \<longleftrightarrow> g = h"
  "scopeText i = scopeText j \<longleftrightarrow> i = j"
  "contextModeText k = contextModeText l \<longleftrightarrow> k = l"
  "kindText m = kindText n \<longleftrightarrow> m = n"
  "agentScopeText p = agentScopeText q \<longleftrightarrow> p = q"
         apply (cases a; cases b; simp)
        apply (cases c; cases d; simp)
       apply (cases e; cases f; simp)
      apply (cases g; cases h; simp)
     apply (cases i; cases j; simp)
    apply (cases k; cases l; simp)
   apply (cases m; cases n; simp)
  apply (cases p; cases q; simp)
  done

lemma same_taskJs: "same (taskJs a) (taskJs b) \<Longrightarrow> a = b"
  unfolding taskJs_def by (drule vobj_same, simp, simp) (cases a, cases b, simp)

lemma same_modelJs: "same (modelJs a) (modelJs b) \<Longrightarrow> a = b"
  unfolding modelJs_def by (drule vobj_same, simp, simp) (cases a, cases b, simp)

lemma same_forkJs: "same (forkJs a) (forkJs b) \<Longrightarrow> a = b"
  unfolding forkJs_def by (drule vobj_same, simp, simp) (cases a, cases b, simp)

lemma same_grantJs: "same (grantJs a) (grantJs b) \<Longrightarrow> a = b"
  unfolding grantJs_def by (drule vobj_same, simp, simp) (cases a, cases b, simp)

lemma same_workspaceJs: "same (workspaceJs a) (workspaceJs b) \<Longrightarrow> a = b"
  unfolding workspaceJs_def by (drule vobj_same, simp, simp) (cases a, cases b, simp)

lemma same_limitsJs: "same (limitsJs a) (limitsJs b) \<Longrightarrow> a = b"
  unfolding limitsJs_def by (drule vobj_same, simp, simp) (cases a, cases b, simp)

lemma map_text_inj [simp]:
  "map modeText xs = map modeText ys \<longleftrightarrow> xs = ys"
  "map scopeText us = map scopeText vs \<longleftrightarrow> us = vs"
  by (auto dest!: map_injective intro!: injI)

lemma same_modes [simp]:
  "rel_option same (map_option (\<lambda>ms. vstrs (map modeText ms)) a)
     (map_option (\<lambda>ms. vstrs (map modeText ms)) b) \<longleftrightarrow> a = b"
  by (cases a; cases b) auto

lemma same_ceilingJs: "same (ceilingJs a) (ceilingJs b) \<Longrightarrow> a = b"
  unfolding ceilingJs_def by (drule vobj_same, simp, simp) (cases a, cases b, simp)

lemma same_sandboxJs: "same (sandboxJs a m w) (sandboxJs b m' w') \<Longrightarrow> a = b \<and> m = m' \<and> w = w'"
  unfolding sandboxJs_def by (drule vobj_same, simp, simp) (cases a, cases b, simp)

lemma same_grantsJs: "same (grantsJs a) (grantsJs b) \<Longrightarrow> a = b"
proof -
  have inj: "inj grantJs" by (rule injI) (metis same_grantJs same_refl)
  assume "same (grantsJs a) (grantsJs b)"
  then have "map grantJs b = map grantJs a \<or> list_all2 same (map grantJs a) (map grantJs b)"
    by (simp add: grantsJs_def same_VArr)
  then show ?thesis
  proof
    assume "map grantJs b = map grantJs a"
    then show ?thesis using inj by (metis map_injective)
  next
    assume "list_all2 same (map grantJs a) (map grantJs b)"
    then show ?thesis
      by (induction a arbitrary: b) (auto simp: list_all2_Cons1 Cons_eq_map_conv map_eq_Cons_conv dest: same_grantJs)
  qed
qed

subsection \<open>Plans\<close>

lemma wf_num_int [simp]: "wf_num (of_int n)"
proof -
  have "quotient_of (of_int n) = (n, 1)" by (metis Rat.of_int_def quotient_of_int)
  then show ?thesis by (simp add: wf_num_def)
qed

lemma wf_vint [simp]: "wf_js (vint n)"
  by (simp add: vint_def)

lemma wf_vstrs [simp]: "wf_js (vstrs ss)"
  by (simp add: vstrs_def wf_jss_iff)

lemma Some_eq_map_option [simp]: "Some v = map_option f x \<longleftrightarrow> (\<exists>z. x = Some z \<and> v = f z)"
  by (cases x) auto

lemma wf_vobj:
  assumes "distinct (map fst ms)" and "''__proto__'' \<notin> set (map fst ms)"
    and "\<And>k v. (k, Some v) \<in> set ms \<Longrightarrow> wf_js v"
  shows "wf_js (vobj ms)"
proof -
  let ?xs = "List.map_filter (\<lambda>(k, v). map_option (Pair k) v) ms"
  have "(k, v) \<in> set ?xs \<Longrightarrow> (k, Some v) \<in> set ms" for k v
    by (induction ms) (auto simp: map_filter_simps split: option.splits)
  then have "\<forall>m \<in> set ?xs. wf_js (snd m)" using assms(3) by fastforce
  moreover have "distinct (map fst ?xs)" "''__proto__'' \<notin> fst ` set ?xs"
    using distinct_present [OF assms(1)] assms(2) by auto
  ultimately show ?thesis unfolding vobj_def by (simp add: wf_jsms_iff)
qed

lemma wf_records [simp]:
  "wf_js (taskJs t)" "wf_js (modelJs m)" "wf_js (forkJs f)" "wf_js (grantJs g)" "wf_js (workspaceJs w)"
  "wf_js (ceilingJs c)" "wf_js (sandboxJs s a b)"
  unfolding taskJs_def modelJs_def forkJs_def grantJs_def workspaceJs_def ceilingJs_def sandboxJs_def
  by (rule wf_vobj; auto)+

lemma wf_limitsJs: "wf_num (limitCost l) \<Longrightarrow> wf_js (limitsJs l)"
  unfolding limitsJs_def by (rule wf_vobj; auto)

lemma wf_grantsJs [simp]: "wf_js (grantsJs gs)"
  by (simp add: grantsJs_def wf_jss_iff)

text \<open>The parts of a plan that are not of bounded shape: finite decimals and a JSON schema.\<close>

definition wf_plan :: "AgentLaunchPlan \<Rightarrow> bool" where
  "wf_plan p = (wf_num (limitCost (planLimits p)) \<and>
     (case planOutputSchema p of None \<Rightarrow> True | Some v \<Rightarrow> wf_js v))"

lemma draft_keys: "distinct (map fst (draftMembers p)) \<and> ''__proto__'' \<notin> set (map fst (draftMembers p))"
  by (simp add: draftMembers_def)

lemma wf_draftJs: "wf_plan p \<Longrightarrow> wf_js (draftJs p)"
  unfolding draftJs_def
  by (rule wf_vobj)
    (use draft_keys in \<open>auto simp: draftMembers_def wf_plan_def wf_limitsJs intro!: wf_vobj split: option.splits\<close>)

lemma same_draftJs:
  assumes "same (draftJs p) (draftJs q)"
  shows "planIdentity p = planIdentity q \<Longrightarrow> rel_option same (planOutputSchema p) (planOutputSchema q)
     \<and> q = p\<lparr>planOutputSchema := planOutputSchema q\<rparr>"
proof -
  assume id: "planIdentity p = planIdentity q"
  have "list_all2 (rel_option same) (map snd (draftMembers p)) (map snd (draftMembers q))"
    using assms unfolding draftJs_def
    by (rule vobj_same) (use draft_keys in \<open>simp_all add: draftMembers_def\<close>)
  then have r: "list_all2 (rel_option same) (map snd (draftMembers p)) (map snd (draftMembers q))" .
  have fork: "rel_option same (map_option forkJs a) (map_option forkJs b) \<Longrightarrow> a = b" for a b
    by (cases a; cases b) (auto dest: same_forkJs)
  have ceil: "rel_option same (map_option ceilingJs a) (map_option ceilingJs b) \<Longrightarrow> a = b" for a b
    by (cases a; cases b) (auto dest: same_ceilingJs)
  show ?thesis
    using r id unfolding draftMembers_def
    by (cases p; cases q)
      (auto dest!: same_taskJs same_modelJs same_workspaceJs same_sandboxJs same_limitsJs same_grantsJs fork ceil)
qed

text \<open>Values without undefined or non-finite parts have a canonical text.\<close>

fun plain_js :: "jsval \<Rightarrow> bool"
and plain_jss :: "jsval list \<Rightarrow> bool"
and plain_jsms :: "(string \<times> jsval) list \<Rightarrow> bool" where
  "plain_js (VArr vs) = plain_jss vs"
| "plain_js (VObj ms) = plain_jsms ms"
| "plain_js VNonFinite = False"
| "plain_js VUndefined = False"
| "plain_js (VOther t) = False"
| "plain_js _ = True"
| "plain_jss [] = True"
| "plain_jss (v # vs) = (plain_js v \<and> plain_jss vs)"
| "plain_jsms [] = True"
| "plain_jsms ((k, v) # ms) = (plain_js v \<and> plain_jsms ms)"

lemma plain_jss_iff: "plain_jss vs \<longleftrightarrow> (\<forall>v \<in> set vs. plain_js v)"
  by (induction vs) auto

lemma plain_jsms_iff: "plain_jsms ms \<longleftrightarrow> (\<forall>m \<in> set ms. plain_js (snd m))"
  by (induction ms) auto

lemma seqRes_ok: "\<forall>r \<in> set rs. isOk r \<Longrightarrow> isOk (seqRes rs)"
  by (induction rs) (auto simp: isOk_iff)

lemma seqMembers_ok: "\<forall>r \<in> set rs. isOk (snd r) \<Longrightarrow> isOk (seqMembers rs)"
  by (induction rs rule: seqMembers.induct) (auto simp: isOk_iff)

lemma normalize_plain: "plain_js v \<Longrightarrow> isOk (normalize v) \<and> v \<noteq> VUndefined"
proof (induction v)
  case (VArr vs)
  then have "isOk (seqRes (normElems vs))" by (intro seqRes_ok) (auto simp: normElems_eq plain_jss_iff)
  then show ?case by (auto simp: isOk_iff)
next
  case (VObj ms)
  have "isOk (snd (normMember m))" if "m \<in> set ms" for m
    using VObj that by (cases m) (fastforce simp: normMember_def plain_jsms_iff)
  then have "isOk (seqMembers (sort_key fst (normMembers ms)))"
    by (intro seqMembers_ok) (auto simp: normMembers_eq)
  then show ?case by (auto simp: isOk_iff)
qed simp_all

lemma canonicalJson_plain: "plain_js v \<Longrightarrow> isOk (canonicalJson v)"
  using normalize_plain [of v] by (auto simp: canonicalJson_def isOk_iff)

lemma plain_vobj:
  assumes "\<And>k v. (k, Some v) \<in> set ms \<Longrightarrow> plain_js v"
  shows "plain_js (vobj ms)"
proof -
  have "(k, v) \<in> set (List.map_filter (\<lambda>(k, v). map_option (Pair k) v) ms) \<Longrightarrow> (k, Some v) \<in> set ms" for k v
    by (induction ms) (auto simp: map_filter_simps split: option.splits)
  then show ?thesis using assms by (fastforce simp: vobj_def plain_jsms_iff)
qed

lemma plain_atoms [simp]: "plain_js (vint n)" "plain_js (vstrs ss)"
  by (simp_all add: vint_def vstrs_def plain_jss_iff)

lemma plain_records [simp]:
  "plain_js (taskJs t)" "plain_js (modelJs m)" "plain_js (forkJs f)" "plain_js (grantJs g)"
  "plain_js (workspaceJs w)" "plain_js (ceilingJs c)" "plain_js (sandboxJs s a b)" "plain_js (limitsJs l)"
  unfolding taskJs_def modelJs_def forkJs_def grantJs_def workspaceJs_def ceilingJs_def sandboxJs_def limitsJs_def
  by (rule plain_vobj; auto)+

lemma plain_grantsJs [simp]: "plain_js (grantsJs gs)"
  by (simp add: grantsJs_def plain_jss_iff)

lemma plain_draftJs:
  "(case planOutputSchema p of None \<Rightarrow> True | Some v \<Rightarrow> plain_js v) \<Longrightarrow> plain_js (draftJs p)"
  unfolding draftJs_def
  by (rule plain_vobj) (auto simp: draftMembers_def intro!: plain_vobj split: option.splits)


subsection \<open>The length of a canonical text\<close>

fun jsLen :: "jsval \<Rightarrow> nat"
and jssLen :: "jsval list \<Rightarrow> nat"
and jsmsLen :: "(string \<times> jsval) list \<Rightarrow> nat" where
  "jsLen VNull = 4"
| "jsLen (VBool b) = 5"
| "jsLen (VNum r) = length (showNum r)"
| "jsLen (VStr s) = 6 * length s + 2"
| "jsLen (VArr vs) = 2 + jssLen vs"
| "jsLen (VObj ms) = 2 + jsmsLen ms"
| "jsLen _ = 0"
| "jssLen [] = 0"
| "jssLen (v # vs) = jsLen v + 1 + jssLen vs"
| "jsmsLen [] = 0"
| "jsmsLen ((k, v) # ms) = 6 * length k + 4 + jsLen v + jsmsLen ms"

lemma escapeChar_len: "length (escapeChar c) \<le> 6"
  by (simp add: escapeChar_def Let_def)

lemma showStr_len: "length (showStr s) \<le> 6 * length s + 2"
proof -
  have "length (concat (map escapeChar s)) \<le> 6 * length s"
    by (induction s) (use escapeChar_len in \<open>auto intro: add_mono\<close>)
  then show ?thesis by (simp add: showStr_def)
qed

lemma showElems_len: "length (showElems vs) \<le> 1 + (\<Sum>v\<leftarrow>vs. length (stringify v) + 1)"
  by (induction vs rule: induct_list012) auto

lemma showMembers_len:
  "length (showMembers ms) \<le> 1 + (\<Sum>m\<leftarrow>ms. 6 * length (fst m) + 4 + length (stringify (snd m)))"
proof (induction ms rule: induct_list012)
  case (2 m)
  then show ?case using showStr_len [of "fst m"] by (cases m) simp
next
  case (3 m n ms)
  then show ?case using showStr_len [of "fst m"] by (cases m) simp
qed simp

lemma sum_list_mset: "mset xs = mset ys \<Longrightarrow> sum_list (map f xs) = (sum_list (map f ys) :: nat)"
  by (metis mset_map sum_mset_sum_list)

lemma elems_len:
  "map normalize vs = map Inr js \<Longrightarrow>
     (\<And>v j. v \<in> set vs \<Longrightarrow> normalize v = Inr j \<Longrightarrow> length (stringify j) \<le> jsLen v) \<Longrightarrow>
     (\<Sum>v\<leftarrow>js. length (stringify v) + 1) \<le> jssLen vs"
proof (induction vs arbitrary: js)
  case (Cons v vs)
  then obtain x xs where js: "js = x # xs" "normalize v = Inr x" "map normalize vs = map Inr xs"
    by (cases js) auto
  have "(\<Sum>v\<leftarrow>xs. length (stringify v) + 1) \<le> jssLen vs" using Cons js by simp
  moreover have "length (stringify x) \<le> jsLen v" using Cons.prems(2) js(2) by simp
  ultimately show ?case using js(1) by simp
qed simp

lemma members_len:
  "(\<And>v j. v \<in> snd ` set ms \<Longrightarrow> normalize v = Inr j \<Longrightarrow> length (stringify j) \<le> jsLen v) \<Longrightarrow>
     (\<Sum>m\<leftarrow>map normMember ms. 6 * length (fst m) + 4
        + (case snd m of Inl _ \<Rightarrow> 0 | Inr x \<Rightarrow> length (stringify x))) \<le> jsmsLen ms"
proof (induction ms)
  case (Cons m ms)
  obtain k v where m: "m = (k, v)" by (cases m)
  have "(case snd (normMember m) of Inl _ \<Rightarrow> 0 | Inr x \<Rightarrow> length (stringify x)) \<le> jsLen v"
    using Cons.prems m by (auto simp: normMember_def split: sum.splits)
  then show ?case using Cons m by (simp add: add_mono)
qed simp

lemma stringify_len: "normalize v = Inr j \<Longrightarrow> length (stringify j) \<le> jsLen v"
proof (induction v arbitrary: j)
  case (VArr vs)
  then obtain js where js: "map normalize vs = map Inr js" "j = JArr js"
    by (auto simp: normElems_eq seqRes_Inr)
  then show ?case using elems_len [OF js(1)] VArr.IH showElems_len [of js] by fastforce
next
  case (VObj ms)
  obtain js where js: "sort_key fst (map normMember ms) = map (\<lambda>(k, x). (k, Inr x)) js"
      and j: "j = JObj (assigned js)"
    using normalize_VObj [OF VObj.prems] by blast
  define h where "h m = 6 * length (fst m) + 4 + length (stringify (snd m))" for m :: "string \<times> json"
  then have h_eq: "h = (\<lambda>m. 6 * length (fst m) + 4 + length (stringify (snd m)))" by (rule ext)
  let ?g = "\<lambda>m :: string \<times> (error + json). 6 * length (fst m) + 4 + (case snd m of Inl _ \<Rightarrow> 0 | Inr x \<Rightarrow> length (stringify x))"
  have sum: "sum_list (map h xs) = sum_mset (image_mset h (mset xs))" for xs
    by (metis mset_map sum_mset_sum_list)
  have "sum_list (map h (assigned js)) = sum_mset (image_mset h (filter_mset (\<lambda>m. fst m \<noteq> ''__proto__'') (mset js)))"
    by (simp add: sum mset_assigned)
  also have "\<dots> \<le> sum_mset (image_mset h (mset js))"
  proof -
    have "image_mset h {#m \<in># mset js. fst m \<noteq> ''__proto__''#} \<subseteq># image_mset h (mset js)"
      by (intro image_mset_subseteq_mono multiset_filter_subset)
    then obtain rest where "image_mset h (mset js) = image_mset h {#m \<in># mset js. fst m \<noteq> ''__proto__''#} + rest"
      unfolding mset_subset_eq_exists_conv by blast
    then show ?thesis by simp
  qed
  also have "\<dots> = sum_list (map h js)" by (simp add: sum)
  also have "\<dots> = sum_list (map ?g (map (\<lambda>(k, x). (k, Inr x)) js))"
    by (simp add: comp_def case_prod_unfold h_eq)
  also have "\<dots> = sum_list (map ?g (sort_key fst (map normMember ms)))" by (simp add: js)
  also have "\<dots> = sum_list (map ?g (map normMember ms))"
    by (rule sum_list_mset) simp
  also have "\<dots> \<le> jsmsLen ms" 
  proof (rule members_len)
    fix v j assume "v \<in> snd ` set ms" and n: "normalize v = Inr j"
    then obtain m where "m \<in> set ms" "v \<in> Basic_BNFs.snds m" by (metis imageE snds.intros)
    then show "length (stringify j) \<le> jsLen v" using VObj.IH n by blast
  qed
  finally show ?case using showMembers_len [of "assigned js"] j by (simp add: h_eq)
qed (use showStr_len in auto)

lemma canonicalJson_length: "canonicalJson v = Inr s \<Longrightarrow> length s \<le> jsLen v"
  using stringify_len by (auto simp: canonicalJson_def)

lemma showNum_int: "showNum (of_int n) = showInt n"
proof -
  have "quotient_of (of_int n) = (n, 1)" by (metis Rat.of_int_def quotient_of_int)
  then show ?thesis by (simp add: showNum_def showInt_def Let_def)
qed

lemma vint_len: "jsLen (vint n) = length (showInt n)"
  by (simp add: vint_def showNum_int)

subsection \<open>An example\<close>

definition demoPlan :: AgentLaunchPlan where
  "demoPlan = \<lparr>planOperationId = ''op-1'', planOwnerId = ''owner'', planRunId = ''run_1'',
     planAttemptId = ''attempt_1'', planAgent = ''reviewer'', planAgentDisplayName = ''reviewer'',
     planAgentPrompt = ''Review.'', planAgentSource = ''/agents/reviewer.md'',
     planAgentSha256 = replicate 64 CHR ''a'', planAgentScope = AgentBuiltin,
     planTask = \<lparr>goal = ''g'', taskContext = [], instructions = [''i'']\<rparr>,
     planContextMode = FreshContext, planForkContext = None,
     planModel = \<lparr>provider = ''p'', modelId = ''m'', thinking = ThinkHigh\<rparr>,
     planModelSource = SourceRequest, planModelAdmission = AdmitExact, planTools = [''read''],
     planSkills = [], planScopes = [], planResources = [],
     planWorkspace = \<lparr>workspaceMode = ReadOnly, hostPathSha256 = replicate 64 CHR ''b'',
       baselineSha256 = replicate 64 CHR ''c'', workspaceStartAt = None\<rparr>,
     planCeiling = None,
     planSandbox = \<lparr>packageVersion = ''1'', imageSha256 = replicate 64 CHR ''d'',
       mountPolicySha256 = replicate 64 CHR ''d'', networkPolicySha256 = replicate 64 CHR ''d'',
       capacityPolicySha256 = replicate 64 CHR ''d'', rootfsPolicySha256 = replicate 64 CHR ''d'',
       guestDiskBytes = 1\<rparr>,
     planMemoryBytes = 1073741824, planSandboxWriteBytes = 0, planOutputSchema = None,
     planLimits = \<lparr>cumulativeRuntimeMs = 60000, attemptTimeoutMs = 30000, limitTotalTokens = None,
       limitCost = 1, outputBytes = 1024, workspaceWriteBytes = 0, retries = 1, resumes = 1\<rparr>,
     planIdentity = []\<rparr>"

text \<open>A plan that verifies, for the hash that is the identity.\<close>

definition sealedPlan :: AgentLaunchPlan where
  "sealedPlan = demoPlan\<lparr>planIdentity := projr (canonicalJson (draftJs demoPlan))\<rparr>"

lemma sealedPlan_verifies: "verifyLaunchPlanIdentity (\<lambda>s. s) sealedPlan = Inr True" "wf_plan sealedPlan"
proof -
  have "isOk (canonicalJson (draftJs demoPlan))"
    by (rule canonicalJson_plain, rule plain_draftJs) (simp add: demoPlan_def)
  moreover have "draftJs sealedPlan = draftJs demoPlan"
    by (simp add: sealedPlan_def draftJs_def draftMembers_def)
  ultimately show "verifyLaunchPlanIdentity (\<lambda>s. s) sealedPlan = Inr True"
    by (auto simp: verifyLaunchPlanIdentity_def canonicalSha256_def isOk_iff sealedPlan_def)
  show "wf_plan sealedPlan" using wf_num_int [of 1] by (simp add: wf_plan_def sealedPlan_def demoPlan_def)
qed


end
