(* ===== verification/Compile.thy ===== *)
theory Compile
  imports Identity
begin

section \<open>Compiling a launch plan (\<open>src/preflight/compile.ts\<close>)\<close>

text \<open>
  From a request, an agent definition and the resolved resources, workspace and sandbox to the
  launch plan that records what the run may do. Every refusal of the source is an error value. The
  host's answers (the session model to inherit, the admission of a routed model, the model
  resolver) and the collation of \<open>localeCompare\<close> are parameters.
\<close>

record AgentDefinition =
  agentName :: string
  agentDisplay :: string
  agentPrompt :: string
  agentScope :: AgentScope
  agentSource :: string
  agentSha256 :: string
  defaultModel :: "ExactModelRequest option"
  allowedModels :: "string list"
  agentTools :: "string list"
  agentSkills :: "string list"
  agentScopes :: "ContextScope list"
  agentModes :: "WorkspaceMode list"
  limitCeiling :: RunLimits
  memoryCeilingBytes :: int

subsection \<open>The model\<close>

definition modelKey :: "ExactModelRequest \<Rightarrow> string" where
  "modelKey m = provider m @ ''/'' @ modelId m @ '':'' @ thinkingText (thinking m)"

definition resolveRequestedModel ::
  "SubagentRequest \<Rightarrow> AgentDefinition \<Rightarrow> ExactModelRequest option
     \<Rightarrow> (ExactModelRequest \<times> ModelSource) res" where
  "resolveRequestedModel request agent inherited =
     (case requestModel request of
        Some InheritModel \<Rightarrow>
          (case inherited of
             None \<Rightarrow> Inl (PreflightErr ''model inherit: no session model to inherit'')
           | Some m \<Rightarrow> Inr (m, SourceInherited))
      | Some (ExactModel m) \<Rightarrow> Inr (m, SourceRequest)
      | None \<Rightarrow>
          (case defaultModel agent of
             None \<Rightarrow> Inl (PreflightErr
               ''model required: definition names no default model; the request must name one'')
           | Some m \<Rightarrow> Inr (m, SourceTemplate)))"

text \<open>The host's answer is \<open>None\<close> when no host answered.\<close>

definition assertModelAdmitted ::
  "AgentDefinition \<Rightarrow> ExactModelRequest \<Rightarrow> ModelSource \<Rightarrow> (ExactModelRequest \<Rightarrow> bool option)
     \<Rightarrow> ModelAdmission res" where
  "assertModelAdmitted agent m source admitHost =
     (if source = SourceInherited then
        (if INHERIT_MODEL \<in> set (allowedModels agent) then Inr AdmitInherit
         else Inl (PreflightErr (''model exceeds ceiling: '' @ modelKey m)))
      else if modelKey m \<in> set (allowedModels agent) then Inr AdmitExact
      else if HOST_MODEL \<notin> set (allowedModels agent)
      then Inl (PreflightErr (''model exceeds ceiling: '' @ modelKey m))
      else (case admitHost m of
              None \<Rightarrow> Inl (PreflightErr (''model exceeds ceiling: '' @ modelKey m
                @ '' (template admits host, no host model admission provider answered)''))
            | Some False \<Rightarrow> Inl (PreflightErr (''model exceeds ceiling: '' @ modelKey m
                @ '' (template admits host, host does not admit it)''))
            | Some True \<Rightarrow> Inr AdmitHost))"

subsection \<open>Ceilings\<close>

fun assertSubset :: "string \<Rightarrow> string list \<Rightarrow> string list \<Rightarrow> unit res" where
  "assertSubset kind [] allowed = Inr ()"
| "assertSubset kind (n # ns) allowed =
     andThen (require (n \<in> set allowed) (PreflightErr (kind @ '' exceeds ceiling: '' @ n)))
       (\<lambda>_. assertSubset kind ns allowed)"

fun assertHostTools :: "string list \<Rightarrow> string list \<Rightarrow> unit res" where
  "assertHostTools [] allowed = Inr ()"
| "assertHostTools (n # ns) allowed =
     andThen (require (n \<in> set allowed) (PreflightErr (''tool exceeds host ceiling: '' @ n)))
       (\<lambda>_. assertHostTools ns allowed)"

definition assertHostCeiling :: "SubagentRequest \<Rightarrow> unit res" where
  "assertHostCeiling request =
     (case requestCeiling request of
        None \<Rightarrow> Inr ()
      | Some c \<Rightarrow>
          andThen
            (case ceilingModes c of
               None \<Rightarrow> Inr ()
             | Some ms \<Rightarrow> require (requestMode (requestWorkspace request) \<in> set ms)
                 (PreflightErr (''workspace mode exceeds host ceiling: ''
                    @ modeText (requestMode (requestWorkspace request)))))
            (\<lambda>_. case ceilingTools c of
                   None \<Rightarrow> Inr ()
                 | Some ts \<Rightarrow> assertHostTools (requestTools request) ts))"

definition recordedCeiling :: "DelegationCeiling \<Rightarrow> DelegationCeiling" where
  "recordedCeiling c =
     \<lparr>ceilingModes = map_option (sort_key modeText) (ceilingModes c),
      ceilingTools = map_option sort (ceilingTools c)\<rparr>"

text \<open>
  The loop of \<open>assertLimits\<close> over the fields of the request, in order. A field is compared when
  both the request and the ceiling state it, so an absent \<open>totalTokens\<close> is not bounded.
\<close>

definition limitEntries :: "RunLimits \<Rightarrow> (string \<times> rat option) list" where
  "limitEntries l =
     [(''cumulativeRuntimeMs'', Some (of_int (cumulativeRuntimeMs l))),
      (''attemptTimeoutMs'', Some (of_int (attemptTimeoutMs l))),
      (''totalTokens'', map_option of_int (limitTotalTokens l)),
      (''cost'', Some (limitCost l)), (''outputBytes'', Some (of_int (outputBytes l))),
      (''workspaceWriteBytes'', Some (of_int (workspaceWriteBytes l))),
      (''retries'', Some (of_int (retries l))), (''resumes'', Some (of_int (resumes l)))]"

fun withinLimits :: "(string \<times> rat option) list \<Rightarrow> (string \<times> rat option) list \<Rightarrow> unit res" where
  "withinLimits ((key, Some v) # rest) ((_, Some maximum) # maxima) =
     andThen (require (v \<le> maximum) (PreflightErr (''limit exceeds ceiling: '' @ key)))
       (\<lambda>_. withinLimits rest maxima)"
| "withinLimits (_ # rest) (_ # maxima) = withinLimits rest maxima"
| "withinLimits _ _ = Inr ()"

definition assertLimits :: "RunLimits \<Rightarrow> RunLimits \<Rightarrow> unit res" where
  "assertLimits requested ceil =
     andThen (require (attemptTimeoutMs requested \<le> cumulativeRuntimeMs requested)
         (PreflightErr ''attempt timeout exceeds cumulative runtime''))
       (\<lambda>_. withinLimits (limitEntries requested) (limitEntries ceil))"

subsection \<open>Resources\<close>

definition resourceKey :: "ResourceKind \<Rightarrow> string \<Rightarrow> string" where
  "resourceKey kind name = kindText kind @ '':'' @ name"

definition grantKey :: "ResourceGrant \<Rightarrow> string" where
  "grantKey g = resourceKey (resourceKind g) (resourceName g)"

fun indexResources :: "string list \<Rightarrow> ResourceGrant list \<Rightarrow> unit res" where
  "indexResources seen [] = Inr ()"
| "indexResources seen (g # gs) =
     andThen (require (grantKey g \<notin> set seen) (PreflightErr (''duplicate resource: '' @ grantKey g)))
       (\<lambda>_. indexResources (grantKey g # seen) gs)"

fun requireKeys :: "string list \<Rightarrow> string list \<Rightarrow> unit res" where
  "requireKeys [] present = Inr ()"
| "requireKeys (k # ks) present =
     andThen (require (k \<in> set present) (PreflightErr (''missing resource: '' @ k)))
       (\<lambda>_. requireKeys ks present)"

fun refuseUnrequested :: "ResourceGrant list \<Rightarrow> string list \<Rightarrow> unit res" where
  "refuseUnrequested [] required = Inr ()"
| "refuseUnrequested (g # gs) required =
     andThen (require (\<not> (resourceKind g = KindTool \<and> grantKey g \<notin> set required))
         (PreflightErr (''unrequested resource: '' @ grantKey g)))
       (\<lambda>_. refuseUnrequested gs required)"

definition validateResources ::
  "AgentDefinition \<Rightarrow> SubagentRequest \<Rightarrow> string list \<Rightarrow> ResourceGrant list \<Rightarrow> ResourceGrant list \<Rightarrow> unit res" where
  "validateResources agent request preload contextResources resources =
     (let required = resourceKey KindAgent (agentName agent)
            # map (resourceKey KindTool) (requestTools request)
            @ map (resourceKey KindSkill) preload
            @ map (\<lambda>g. resourceKey KindContext (resourceName g)) contextResources
      in andThen (indexResources [] resources) (\<lambda>_.
         andThen (requireKeys required (map grantKey resources)) (\<lambda>_.
         andThen (refuseUnrequested resources required) (\<lambda>_.
           (case find (\<lambda>g. grantKey g = resourceKey KindAgent (agentName agent)) resources of
              None \<Rightarrow> Inl (PreflightErr ''agent provenance mismatch'')
            | Some g \<Rightarrow> require (resourceSource g = agentSource agent \<and> resourceSha256 g = agentSha256 agent)
                (PreflightErr ''agent provenance mismatch''))))))"

subsection \<open>The plan\<close>

record CompileInput =
  inputOwnerId :: string
  inputRunId :: string
  inputAttemptId :: string
  inputRequest :: SubagentRequest
  inputAgent :: AgentDefinition
  inputResources :: "ResourceGrant list"
  inputContextResources :: "ResourceGrant list"
  inputWorkspace :: ResolvedWorkspace
  inputSandbox :: ResolvedSandbox
  inputForkContext :: "ForkContextGrant option"

record CompileHost =
  resolveModel :: "ExactModelRequest \<Rightarrow> ExactModelRequest res"
  inheritSessionModel :: "ExactModelRequest option"
  admitHostModel :: "ExactModelRequest \<Rightarrow> bool option"

definition grantOrder :: "ResourceGrant \<Rightarrow> string" where
  "grantOrder g = kindText (resourceKind g) @ '':'' @ resourceName g @ '':'' @ resourceSource g"

definition draftPlan ::
  "CompileInput \<Rightarrow> ExactModelRequest \<Rightarrow> ModelSource \<Rightarrow> ModelAdmission \<Rightarrow> string list
     \<Rightarrow> ContextScope list \<Rightarrow> int \<Rightarrow> AgentLaunchPlan" where
  "draftPlan i model source admission preload scopes memory =
     (let request = inputRequest i; agent = inputAgent i in
      \<lparr>planOperationId = requestOperationId request, planOwnerId = inputOwnerId i,
       planRunId = inputRunId i, planAttemptId = inputAttemptId i,
       planAgent = agentName agent, planAgentDisplayName = agentDisplay agent,
       planAgentPrompt = agentPrompt agent, planAgentSource = agentSource agent,
       planAgentSha256 = agentSha256 agent, planAgentScope = agentScope agent,
       planTask = requestTask request, planContextMode = requestContextMode request,
       planForkContext = inputForkContext i, planModel = model, planModelSource = source,
       planModelAdmission = admission, planTools = sort (requestTools request),
       planSkills = preload, planScopes = scopes,
       planResources = sort_key grantOrder (inputResources i),
       planWorkspace = inputWorkspace i,
       planCeiling = map_option recordedCeiling (requestCeiling request),
       planSandbox = inputSandbox i, planMemoryBytes = memory,
       planSandboxWriteBytes = workspaceWriteBytes (requestLimits request),
       planOutputSchema = requestOutputSchema request, planLimits = requestLimits request,
       planIdentity = []\<rparr>)"

text \<open>\<open>localeKey\<close> is the collation key of \<open>localeCompare\<close>, \<open>sha\<close> the hex SHA-256.\<close>

definition compileLaunchPlan ::
  "(string \<Rightarrow> string) \<Rightarrow> (string \<Rightarrow> string) \<Rightarrow> CompileHost \<Rightarrow> CompileInput \<Rightarrow> AgentLaunchPlan res" where
  "compileLaunchPlan sha localeKey host i =
     (let request = inputRequest i; agent = inputAgent i;
          preload = sort (unique (agentSkills agent @ requestSkills request));
          memory = (case requestMemoryBytes request of None \<Rightarrow> memoryCeilingBytes agent | Some n \<Rightarrow> n);
          scopes = sort_key scopeText (unique (agentScopes agent @ requestScopes request));
          contexts = sort_key (localeKey \<circ> resourceName) (inputContextResources i);
          resourceContexts = sort_key (localeKey \<circ> resourceName)
            (filter (\<lambda>g. resourceKind g = KindContext) (inputResources i))
      in
      andThen (require (checkRequest request) (PreflightErr ''request violates schema'')) (\<lambda>_.
      andThen (require (\<not> ((requestContextMode request = ForkContext \<and> inputForkContext i = None)
                       \<or> (requestContextMode request = FreshContext \<and> inputForkContext i \<noteq> None)))
          (PreflightErr ''context projection mismatch'')) (\<lambda>_.
      andThen (require (requestAgent request = agentName agent)
          (PreflightErr ''agent resolution mismatch'')) (\<lambda>_.
      andThen (assertSubset ''tool'' (requestTools request) (agentTools agent)) (\<lambda>_.
      andThen (require (requestMode (requestWorkspace request) \<in> set (agentModes agent))
          (PreflightErr ''workspace mode exceeds ceiling'')) (\<lambda>_.
      andThen (require (workspaceMode (inputWorkspace i) = requestMode (requestWorkspace request)
                       \<and> workspaceStartAt (inputWorkspace i) = requestStartAt (requestWorkspace request))
          (PreflightErr ''workspace resolution mismatch'')) (\<lambda>_.
      andThen (assertHostCeiling request) (\<lambda>_.
      andThen (assertLimits (requestLimits request) (limitCeiling agent)) (\<lambda>_.
      andThen (require (checkMemoryBytes (memoryCeilingBytes agent))
          (PreflightErr ''agent memory ceiling is invalid'')) (\<lambda>_.
      andThen (require (memory \<le> memoryCeilingBytes agent)
          (PreflightErr ''memory request exceeds agent ceiling'')) (\<lambda>_.
      andThen (require (list_all (\<lambda>g. resourceKind g = KindContext) (inputContextResources i))
          (PreflightErr ''invalid context resource kind'')) (\<lambda>_.
      andThen (canonicalSha256 sha (grantsJs resourceContexts)) (\<lambda>d1.
      andThen (canonicalSha256 sha (grantsJs contexts)) (\<lambda>d2.
      andThen (require (d1 = d2) (PreflightErr ''context resource projection mismatch'')) (\<lambda>_.
      andThen (validateResources agent request preload contexts (inputResources i)) (\<lambda>_.
      andThen (resolveRequestedModel request agent (inheritSessionModel host)) (\<lambda>(requested, source).
      andThen (assertModelAdmitted agent requested source (admitHostModel host)) (\<lambda>admission.
      andThen (resolveModel host requested) (\<lambda>model.
      andThen (require (model = requested) (PreflightErr ''model resolver changed exact selection'')) (\<lambda>_.
      let draft = draftPlan i model source admission preload scopes memory in
      andThen (canonicalSha256 sha (draftJs draft)) (\<lambda>identity.
      let plan = draft\<lparr>planIdentity := identity\<rparr> in
      andThen (canonicalJson (planJs plan)) (\<lambda>text.
      andThen (require (length text \<le> 786432)
          (PreflightErr ''compiled launch plan exceeds byte limit'')) (\<lambda>_.
      andThen (require (checkPlan plan) (PreflightErr ''compiled launch plan violates schema'')) (\<lambda>_.
        Inr plan))))))))))))))))))))))))"

subsection \<open>What the checks establish\<close>

lemma assertSubset_Inr [simp]: "assertSubset kind ns allowed = Inr u \<longleftrightarrow> set ns \<subseteq> set allowed"
  by (induction ns) auto

lemma assertHostTools_Inr [simp]: "assertHostTools ns allowed = Inr u \<longleftrightarrow> set ns \<subseteq> set allowed"
  by (induction ns) auto

definition withinHostCeiling :: "DelegationCeiling option \<Rightarrow> WorkspaceMode \<Rightarrow> string list \<Rightarrow> bool" where
  "withinHostCeiling ceil mode tools =
     (case ceil of None \<Rightarrow> True
      | Some c \<Rightarrow> (case ceilingModes c of None \<Rightarrow> True | Some ms \<Rightarrow> mode \<in> set ms)
          \<and> (case ceilingTools c of None \<Rightarrow> True | Some ts \<Rightarrow> set tools \<subseteq> set ts))"

lemma assertHostCeiling_Inr [simp]:
  "assertHostCeiling r = Inr u \<longleftrightarrow>
     withinHostCeiling (requestCeiling r) (requestMode (requestWorkspace r)) (requestTools r)"
  by (auto simp: assertHostCeiling_def withinHostCeiling_def split: option.splits)

definition withinLimitCeiling :: "RunLimits \<Rightarrow> RunLimits \<Rightarrow> bool" where
  "withinLimitCeiling l c =
     (cumulativeRuntimeMs l \<le> cumulativeRuntimeMs c \<and> attemptTimeoutMs l \<le> attemptTimeoutMs c
      \<and> (case (limitTotalTokens l, limitTotalTokens c) of (Some n, Some m) \<Rightarrow> n \<le> m | _ \<Rightarrow> True)
      \<and> limitCost l \<le> limitCost c \<and> outputBytes l \<le> outputBytes c
      \<and> workspaceWriteBytes l \<le> workspaceWriteBytes c \<and> retries l \<le> retries c \<and> resumes l \<le> resumes c)"

lemma assertLimits_Inr [simp]:
  "assertLimits l c = Inr u \<longleftrightarrow> attemptTimeoutMs l \<le> cumulativeRuntimeMs l \<and> withinLimitCeiling l c"
  by (cases "limitTotalTokens l"; cases "limitTotalTokens c")
    (auto simp: assertLimits_def limitEntries_def withinLimitCeiling_def)

lemma indexResources_Inr [simp]:
  "indexResources seen gs = Inr u \<longleftrightarrow> distinct (map grantKey gs) \<and> set (map grantKey gs) \<inter> set seen = {}"
  by (induction gs arbitrary: seen) auto

lemma requireKeys_Inr [simp]: "requireKeys ks present = Inr u \<longleftrightarrow> set ks \<subseteq> set present"
  by (induction ks) auto

lemma refuseUnrequested_Inr [simp]:
  "refuseUnrequested gs required = Inr u \<longleftrightarrow>
     (\<forall>g \<in> set gs. resourceKind g = KindTool \<longrightarrow> grantKey g \<in> set required)"
  by (induction gs) auto

lemma append_sep_inj:
  "c \<notin> set a \<Longrightarrow> c \<notin> set b \<Longrightarrow> a @ c # x = b @ c # y \<Longrightarrow> a = b \<and> x = y"
  by (induction a arbitrary: b) (auto simp: Cons_eq_append_conv)

lemma resourceKey_inj: "resourceKey k n = resourceKey k' n' \<longleftrightarrow> k = k' \<and> n = n'"
proof -
  have "CHR '':'' \<notin> set (kindText k)" for k by (cases k) simp_all
  then show ?thesis
    using append_sep_inj [of "CHR '':''" "kindText k" "kindText k'" n n']
    by (auto simp: resourceKey_def)
qed

lemma resourceName_chars: "checkResourceName s \<Longrightarrow> c \<in> set s \<Longrightarrow> isAlnum c \<or> c \<in> set ''._-''"
  by (auto simp: checkResourceName_def list_all_iff split: list.splits)

lemma modelKey_inj:
  assumes "checkModel m" "checkModel n" "modelKey m = modelKey n"
  shows "m = n"
proof -
  have slash: "CHR ''/'' \<notin> set (provider k)" if "checkModel k" for k
    using that resourceName_chars [of "provider k" "CHR ''/''"]
    by (auto simp: checkModel_def isAlnum_def is_digit_def is_lower_def is_upper_def)
  have colon: "CHR '':'' \<notin> set (rev (thinkingText t))" for t by (cases t) simp_all
  have "provider m = provider n"
    and rest: "modelId m @ '':'' @ thinkingText (thinking m) = modelId n @ '':'' @ thinkingText (thinking n)"
    using append_sep_inj [of "CHR ''/''" "provider m" "provider n"] slash assms
    by (simp_all add: modelKey_def)
  moreover have "rev (thinkingText (thinking m)) @ CHR '':'' # rev (modelId m)
      = rev (thinkingText (thinking n)) @ CHR '':'' # rev (modelId n)"
    using arg_cong [OF rest, of rev] by simp
  then have "thinking m = thinking n \<and> modelId m = modelId n"
    using append_sep_inj [OF colon colon] by fastforce
  ultimately show ?thesis by (cases m; cases n) simp
qed

text \<open>Everything a compiled plan went through.\<close>

definition planFor :: "CompileInput \<Rightarrow> ExactModelRequest \<Rightarrow> ModelSource \<Rightarrow> ModelAdmission \<Rightarrow> AgentLaunchPlan" where
  "planFor i model source admission =
     draftPlan i model source admission
       (sort (unique (agentSkills (inputAgent i) @ requestSkills (inputRequest i))))
       (sort_key scopeText (unique (agentScopes (inputAgent i) @ requestScopes (inputRequest i))))
       (case requestMemoryBytes (inputRequest i) of None \<Rightarrow> memoryCeilingBytes (inputAgent i) | Some n \<Rightarrow> n)"

lemma compile_facts:
  assumes "compileLaunchPlan sha lk host i = Inr plan"
  obtains source admission where
    "resolveRequestedModel (inputRequest i) (inputAgent i) (inheritSessionModel host)
       = Inr (planModel plan, source)"
    "assertModelAdmitted (inputAgent i) (planModel plan) source (admitHostModel host) = Inr admission"
    "canonicalSha256 sha (draftJs (planFor i (planModel plan) source admission)) = Inr (planIdentity plan)"
    "plan = (planFor i (planModel plan) source admission)\<lparr>planIdentity := planIdentity plan\<rparr>"
    "checkRequest (inputRequest i)" "checkPlan plan"
    "set (requestTools (inputRequest i)) \<subseteq> set (agentTools (inputAgent i))"
    "requestMode (requestWorkspace (inputRequest i)) \<in> set (agentModes (inputAgent i))"
    "workspaceMode (inputWorkspace i) = requestMode (requestWorkspace (inputRequest i))"
    "workspaceStartAt (inputWorkspace i) = requestStartAt (requestWorkspace (inputRequest i))"
    "withinHostCeiling (requestCeiling (inputRequest i))
       (requestMode (requestWorkspace (inputRequest i))) (requestTools (inputRequest i))"
    "attemptTimeoutMs (requestLimits (inputRequest i)) \<le> cumulativeRuntimeMs (requestLimits (inputRequest i))"
    "withinLimitCeiling (requestLimits (inputRequest i)) (limitCeiling (inputAgent i))"
    "planMemoryBytes plan \<le> memoryCeilingBytes (inputAgent i)"
    "validateResources (inputAgent i) (inputRequest i) (planSkills plan)
       (sort_key (lk \<circ> resourceName) (inputContextResources i)) (inputResources i) = Inr ()"
  using assms
  unfolding compileLaunchPlan_def Let_def
  by (auto simp: planFor_def draftPlan_def Let_def intro!: that)

definition demoAgent :: AgentDefinition where
  "demoAgent = \<lparr>agentName = ''a'', agentDisplay = ''a'', agentPrompt = ''P'', agentScope = AgentBuiltin,
     agentSource = ''/a.md'', agentSha256 = replicate 64 CHR ''a'', defaultModel = None,
     allowedModels = [''p/m:high''], agentTools = [''read''], agentSkills = [], agentScopes = [],
     agentModes = [ReadOnly], limitCeiling = planLimits demoPlan, memoryCeilingBytes = 1073741824\<rparr>"

definition demoGrant :: "ResourceKind \<Rightarrow> string \<Rightarrow> ResourceGrant" where
  "demoGrant k n = \<lparr>resourceKind = k, resourceName = n, resourceSource = ''/a.md'',
     resourceSha256 = replicate 64 CHR ''a''\<rparr>"

definition demoInput :: CompileInput where
  "demoInput = \<lparr>inputOwnerId = ''owner'', inputRunId = ''run_1'', inputAttemptId = ''attempt_1'',
     inputRequest = \<lparr>requestOperationId = ''op'', requestAgent = ''a'', agentRoots = None,
       requestTask = planTask demoPlan, requestContextMode = FreshContext,
       requestModel = Some (ExactModel (planModel demoPlan)), requestTools = [''read''],
       requestSkills = [], requestScopes = [],
       requestWorkspace = \<lparr>requestMode = ReadOnly, requestCwd = ''/w'', requestStartAt = None\<rparr>,
       requestCeiling = None, requestMemoryBytes = None, requestOutputSchema = None,
       requestLimits = planLimits demoPlan\<rparr>,
     inputAgent = demoAgent,
     inputResources = [demoGrant KindAgent ''a'', demoGrant KindTool ''read''],
     inputContextResources = [], inputWorkspace = planWorkspace demoPlan,
     inputSandbox = planSandbox demoPlan, inputForkContext = None\<rparr>"

definition demoHost :: CompileHost where
  "demoHost = \<lparr>resolveModel = Inr, inheritSessionModel = None, admitHostModel = (\<lambda>_. None)\<rparr>"

definition demoSha :: "string \<Rightarrow> string" where
  "demoSha s = replicate 64 CHR ''f''"

definition compiledPlan :: AgentLaunchPlan where
  "compiledPlan = (planFor demoInput (planModel demoPlan) SourceRequest AdmitExact)
     \<lparr>planIdentity := replicate 64 CHR ''f''\<rparr>"

lemma demoSha_plain: "plain_js v \<Longrightarrow> canonicalSha256 demoSha v = Inr (replicate 64 CHR ''f'')"
  using canonicalJson_plain [of v] by (auto simp: canonicalSha256_def demoSha_def isOk_iff)

lemma list_all_rep: "list_all P (replicate n x) \<longleftrightarrow> n = 0 \<or> P x"
  by (induction n) auto

lemma sha_demo [simp]: "checkSha256 (replicate 64 CHR ''a'')" "checkSha256 (replicate 64 CHR ''b'')"
  "checkSha256 (replicate 64 CHR ''c'')" "checkSha256 (replicate 64 CHR ''d'')"
  "checkSha256 (replicate 64 CHR ''f'')"
  by (simp_all add: checkSha256_def list_all_rep is_hex_def is_digit_def)

lemma demo_limits: "checkLimits (planLimits demoPlan)"
  by (simp add: checkLimits_def demoPlan_def MAX_SAFE_INTEGER_def)

lemma demo_names: "checkResourceName ''a''" "checkResourceName ''read''" "checkResourceName ''p''"
  by (simp_all add: checkResourceName_def isAlnum_def is_lower_def is_digit_def is_upper_def)

lemma demo_request: "checkRequest (inputRequest demoInput)"
  by (simp add: checkRequest_def demoInput_def demo_limits demo_names checkTask_def checkIdentity_def
      demoPlan_def checkModel_def checkNames_def checkWorkspaceRequest_def checkStartAt_def
      demo_limits [unfolded demoPlan_def, simplified])

lemma demo_resources:
  "validateResources demoAgent (inputRequest demoInput) [] [] (inputResources demoInput) = Inr ()"
  by (simp add: validateResources_def Let_def demoInput_def demoAgent_def demoGrant_def grantKey_def
      resourceKey_inj require_def)

lemma compiledPlan_valid: "checkPlan compiledPlan"
  by (simp add: checkPlan_def compiledPlan_def planFor_def draftPlan_def Let_def demoInput_def demoAgent_def
      demoGrant_def demo_names demo_limits checkIdentity_def checkRunId_def checkAttemptId_def
      lowerAlnum_def is_digit_def is_lower_def startsWith_def checkTask_def checkModel_def
      checkNames_def checkGrant_def checkStartAt_def checkMemoryBytes_def MIN_MEMORY_BYTES_def
      MAX_MEMORY_BYTES_def MEMORY_GRANULARITY_BYTES_def unique_def grantOrder_def
      demoPlan_def demo_limits [unfolded demoPlan_def, simplified])

lemma planJs_plain:
  "(case planOutputSchema p of None \<Rightarrow> True | Some v \<Rightarrow> plain_js v) \<Longrightarrow> plain_js (planJs p)"
  unfolding planJs_def
  by (rule plain_vobj) (auto simp: draftMembers_def intro!: plain_vobj split: option.splits)

lemma compiledPlan_length: "jsLen (planJs compiledPlan) \<le> 786432"
proof -
  have n: "length (showInt n) \<le> 18" if "\<bar>n\<bar> < 10 ^ 17" for n
    using showInt_length [OF that] by simp
  have c: "length (showNum 1) = 1" using showNum_int [of 1] by (simp add: showInt_def showNat.simps)
  show ?thesis
    using n [of 13] n [of 1073741824] n [of 60000] n [of 30000] n [of 1024] n [of 0] n [of 1] c
    by (simp add: planJs_def draftMembers_def vobj_def map_filter_simps compiledPlan_def planFor_def
        draftPlan_def Let_def demoInput_def demoAgent_def demoGrant_def demoPlan_def unique_def
        grantOrder_def taskJs_def modelJs_def workspaceJs_def sandboxJs_def limitsJs_def grantsJs_def
        grantJs_def vstrs_def vint_len CONTRACT_REVISION_def)
qed

lemma compile_demo: "compileLaunchPlan demoSha (\<lambda>s. s) demoHost demoInput = Inr compiledPlan"
proof -
  let ?draft = "planFor demoInput (planModel demoPlan) SourceRequest AdmitExact"
  have schema: "planOutputSchema ?draft = None"
    by (simp add: planFor_def draftPlan_def Let_def demoInput_def)
  have draft: "canonicalSha256 demoSha (draftJs ?draft) = Inr (replicate 64 CHR ''f'')"
    by (rule demoSha_plain, rule plain_draftJs) (simp add: schema)
  have "isOk (canonicalJson (planJs compiledPlan))"
    by (rule canonicalJson_plain, rule planJs_plain) (simp add: compiledPlan_def schema)
  then obtain s where s: "canonicalJson (planJs compiledPlan) = Inr s" by (auto simp: isOk_iff)
  have len: "length s \<le> 786432" using canonicalJson_length [OF s] compiledPlan_length by simp
  have req: "requestModel (inputRequest demoInput) = Some (ExactModel (planModel demoPlan))"
    "requestLimits (inputRequest demoInput) = planLimits demoPlan"
    "requestTools (inputRequest demoInput) = [''read'']" "requestSkills (inputRequest demoInput) = []"
    "requestScopes (inputRequest demoInput) = []" "requestCeiling (inputRequest demoInput) = None"
    "requestMemoryBytes (inputRequest demoInput) = None" "requestAgent (inputRequest demoInput) = ''a''"
    "requestContextMode (inputRequest demoInput) = FreshContext" "inputForkContext demoInput = None"
    "requestMode (requestWorkspace (inputRequest demoInput)) = ReadOnly"
    "requestStartAt (requestWorkspace (inputRequest demoInput)) = None"
    "inputWorkspace demoInput = planWorkspace demoPlan" "inputContextResources demoInput = []"
    "inputAgent demoInput = demoAgent"
    "workspaceMode (planWorkspace demoPlan) = ReadOnly" "workspaceStartAt (planWorkspace demoPlan) = None"
    "filter (\<lambda>g. resourceKind g = KindContext) (inputResources demoInput) = []"
    by (simp_all add: demoInput_def demoPlan_def demoGrant_def)
  have agent: "agentTools demoAgent = [''read'']" "agentName demoAgent = ''a''" "agentModes demoAgent = [ReadOnly]"
    "limitCeiling demoAgent = planLimits demoPlan" "memoryCeilingBytes demoAgent = 1073741824"
    "agentSkills demoAgent = []" "agentScopes demoAgent = []" "allowedModels demoAgent = [''p/m:high'']"
    by (simp_all add: demoAgent_def)
  have host: "resolveModel demoHost = Inr" "inheritSessionModel demoHost = None" by (simp_all add: demoHost_def)
  have model: "resolveRequestedModel (inputRequest demoInput) demoAgent None = Inr (planModel demoPlan, SourceRequest)"
    "assertModelAdmitted demoAgent (planModel demoPlan) SourceRequest x = Inr AdmitExact" for x
    by (simp_all add: resolveRequestedModel_def req assertModelAdmitted_def modelKey_def agent demoPlan_def)
  have limits: "assertLimits (planLimits demoPlan) (planLimits demoPlan) = Inr ()"
    "assertHostCeiling (inputRequest demoInput) = Inr ()" "assertSubset ''tool'' [''read''] [''read''] = Inr ()"
    by (simp_all add: withinLimitCeiling_def withinHostCeiling_def req demoPlan_def)
  have memory: "checkMemoryBytes 1073741824"
    by (simp add: checkMemoryBytes_def MIN_MEMORY_BYTES_def MAX_MEMORY_BYTES_def MEMORY_GRANULARITY_BYTES_def)
  have empty: "canonicalSha256 demoSha (grantsJs []) = Inr (replicate 64 CHR ''f'')"
    by (rule demoSha_plain) simp
  have draft_eq: "draftPlan demoInput (planModel demoPlan) SourceRequest AdmitExact [] [] 1073741824 = ?draft"
    by (simp add: planFor_def req agent unique_def)
  show ?thesis
    unfolding compileLaunchPlan_def Let_def req agent host
    using demo_request demo_resources compiledPlan_valid
    by (simp add: model limits memory empty draft draft_eq unique_def require_def
        compiledPlan_def [symmetric] s len del: assertLimits_Inr)
qed

subsection \<open>The properties\<close>

lemma planFor_fields:
  "planTools (planFor i m src adm) = sort (requestTools (inputRequest i))"
  "planLimits (planFor i m src adm) = requestLimits (inputRequest i)"
  "planWorkspace (planFor i m src adm) = inputWorkspace i"
  "planModelSource (planFor i m src adm) = src" "planModelAdmission (planFor i m src adm) = adm"
  "planResources (planFor i m src adm) = sort_key grantOrder (inputResources i)"
  "planAgent (planFor i m src adm) = agentName (inputAgent i)"
  "planModel (planFor i m src adm) = m"
  by (simp_all add: planFor_def draftPlan_def Let_def)



text \<open>
  The model fence holds: a plan's model is the one the request names, the definition's default
  when the request names none, or the session's when the request inherits it, as \<open>modelSource\<close>
  records; and it was admitted by exactly what \<open>modelAdmission\<close> records, the definition's entry
  \<open>inherit\<close> for an inherited model, an exact entry, which names this model and no other, or the
  host's positive answer under the entry \<open>host\<close>.
\<close>

theorem plan_model_is_admitted:
  assumes "compileLaunchPlan sha lk host i = Inr plan"
  shows "(case planModelSource plan of
       SourceRequest \<Rightarrow> requestModel (inputRequest i) = Some (ExactModel (planModel plan))
     | SourceTemplate \<Rightarrow> requestModel (inputRequest i) = None
         \<and> defaultModel (inputAgent i) = Some (planModel plan)
     | SourceInherited \<Rightarrow> requestModel (inputRequest i) = Some InheritModel
         \<and> inheritSessionModel host = Some (planModel plan))
   \<and> (case planModelAdmission plan of
       AdmitInherit \<Rightarrow> planModelSource plan = SourceInherited
         \<and> INHERIT_MODEL \<in> set (allowedModels (inputAgent i))
     | AdmitExact \<Rightarrow> planModelSource plan \<noteq> SourceInherited
         \<and> modelKey (planModel plan) \<in> set (allowedModels (inputAgent i))
         \<and> (\<forall>m. checkModel m \<longrightarrow> modelKey m = modelKey (planModel plan) \<longrightarrow> m = planModel plan)
     | AdmitHost \<Rightarrow> planModelSource plan \<noteq> SourceInherited
         \<and> HOST_MODEL \<in> set (allowedModels (inputAgent i))
         \<and> admitHostModel host (planModel plan) = Some True)"
  using assms
proof (rule compile_facts, goal_cases)
  case (1 source admission)
  have plan: "planModelSource plan = source" "planModelAdmission plan = admission"
    by (subst 1(4), simp add: planFor_fields)+
  have "checkModel (planModel plan)" using 1(6) by (simp add: checkPlan_def)
  then have key: "checkModel m \<Longrightarrow> modelKey m = modelKey (planModel plan) \<Longrightarrow> m = planModel plan" for m
    by (rule modelKey_inj [rotated])
  show ?case
    using 1(1,2) key unfolding plan resolveRequestedModel_def assertModelAdmitted_def
    by (auto split: option.splits ModelRequest.splits if_splits bool.splits)
qed

theorem plan_model_is_admitted_witness:
  "modelKey (planModel demoPlan) \<in> set (allowedModels (inputAgent demoInput))"
  using plan_model_is_admitted [OF compile_demo] by (simp add: compiledPlan_def planFor_fields)

text \<open>
  A compiled plan is sealed and its grants are exact: it verifies against its own identity
  digest, no resource is granted twice, the tools granted are exactly the tools requested, and the
  grant of the agent carries the source and the digest of the definition that was compiled.
\<close>

theorem plan_is_sealed_and_exact:
  assumes "compileLaunchPlan sha lk host i = Inr plan"
  shows "verifyLaunchPlanIdentity sha plan = Inr True
    \<and> distinct (map grantKey (planResources plan))
    \<and> {resourceName g | g. g \<in> set (planResources plan) \<and> resourceKind g = KindTool} = set (planTools plan)
    \<and> (\<exists>g \<in> set (planResources plan). resourceKind g = KindAgent \<and> resourceName g = planAgent plan
         \<and> resourceSource g = agentSource (inputAgent i) \<and> resourceSha256 g = agentSha256 (inputAgent i))"
  using assms
proof (rule compile_facts, goal_cases)
  case (1 source admission)
  let ?plan = "planFor i (planModel plan) source admission"
  have plan: "planTools plan = sort (requestTools (inputRequest i))"
      "planResources plan = sort_key grantOrder (inputResources i)" "planAgent plan = agentName (inputAgent i)"
    by (subst 1(4), simp add: planFor_fields)+
  have "draftJs plan = draftJs ?plan"
    by (subst 1(4)) (simp add: draftJs_def draftMembers_def)
  then have v: "verifyLaunchPlanIdentity sha plan = Inr True"
    using 1(3) by (simp add: verifyLaunchPlanIdentity_def)
  note r = 1(15) [unfolded validateResources_def Let_def, simplified]
  have d: "distinct (map grantKey (planResources plan))"
    unfolding plan using r by (metis distinct_map distinct_sort set_sort mset_sort mset_eq_imp_distinct_iff)
  have tools: "{resourceName g | g. g \<in> set (inputResources i) \<and> resourceKind g = KindTool}
      = set (requestTools (inputRequest i))"
  proof -
    have "resourceName g \<in> set (requestTools (inputRequest i))"
      if "g \<in> set (inputResources i)" "resourceKind g = KindTool" for g
      using r that by (fastforce simp: grantKey_def resourceKey_inj)
    moreover have "\<exists>g \<in> set (inputResources i). resourceKind g = KindTool \<and> resourceName g = n"
      if "n \<in> set (requestTools (inputRequest i))" for n
    proof -
      have "resourceKey KindTool n \<in> grantKey ` set (inputResources i)" using r that by auto
      then show ?thesis by (force simp: grantKey_def resourceKey_inj)
    qed
    ultimately show ?thesis by blast
  qed
  obtain g where "find (\<lambda>g. grantKey g = resourceKey KindAgent (agentName (inputAgent i))) (inputResources i) = Some g"
      and g: "resourceSource g = agentSource (inputAgent i)" "resourceSha256 g = agentSha256 (inputAgent i)"
    using r by (auto split: option.splits)
  then have "g \<in> set (inputResources i)" "resourceKind g = KindAgent" "resourceName g = agentName (inputAgent i)"
    by (auto simp: find_Some_iff grantKey_def resourceKey_inj)
  then show ?case using v d tools g unfolding plan by auto
qed

theorem plan_is_sealed_and_exact_witness:
  "verifyLaunchPlanIdentity demoSha compiledPlan = Inr True"
  using plan_is_sealed_and_exact [OF compile_demo] by simp

end
