(* ===== verification/Records.thy ===== *)
theory Records
  imports RunLease Compile "HOL-Library.List_Lexorder" "HOL-Library.Char_ord"
begin

section \<open>Operation and run records (\<open>src/persistence\<close>)\<close>

text \<open>
  Two stores that publish a record under a name at most once: the operation index
  (\<open>operation-index.ts\<close>) that makes a launch idempotent and the run records (\<open>run-record.ts\<close>). Both
  rest on exclusive creation; a directory that is listed is a list of entries. The schema of a
  record is checked, except for the date-time format of a time that the store itself writes.
\<close>

subsection \<open>The operation index\<close>

definition OPERATION_MAX_RECORD_BYTES :: int where "OPERATION_MAX_RECORD_BYTES = 16384"

record OperationRecord =
  opOwnerId :: string
  opOperationId :: string
  opRequestSha256 :: string
  opRunId :: string
  opCreatedAt :: string

definition checkOperation :: "OperationRecord \<Rightarrow> bool" where
  "checkOperation r = (checkIdentity (opOwnerId r) \<and> checkIdentity (opOperationId r)
     \<and> checkSha256 (opRequestSha256 r) \<and> checkRunId (opRunId r))"

datatype claimError = ClaimFailed error | OperationConflict OperationRecord

definition readOperation :: "string \<Rightarrow> OperationRecord storedFile dir \<Rightarrow> OperationRecord res" where
  "readOperation name d =
     andThen (readEntry name d) (\<lambda>f.
       if fileSize f > OPERATION_MAX_RECORD_BYTES
       then Inl (Corruption ''operation record exceeds size limit'')
       else readDecoded ''invalid operation record JSON'' ''invalid operation record schema'' (fileValue f))"

text \<open>\<open>key\<close> is the digest of the owner and operation ids that names the record's file.\<close>

definition findOperation ::
  "(string \<Rightarrow> string \<Rightarrow> string) \<Rightarrow> string \<Rightarrow> string \<Rightarrow> OperationRecord storedFile dir
     \<Rightarrow> OperationRecord option res" where
  "findOperation key owner operation d =
     (if \<not> checkIdentity owner \<or> \<not> checkIdentity operation then Inl (Err ''invalid operation lookup'')
      else (case readOperation (key owner operation) d of
              Inl Enoent \<Rightarrow> Inr None
            | Inl e \<Rightarrow> Inl e
            | Inr r \<Rightarrow> if opOwnerId r \<noteq> owner \<or> opOperationId r \<noteq> operation
                then Inl (Corruption ''operation record key mismatch'') else Inr (Some r)))"

definition claimOperation ::
  "(string \<Rightarrow> string \<Rightarrow> string) \<Rightarrow> OperationRecord \<Rightarrow> int \<Rightarrow> OperationRecord storedFile dir
     \<Rightarrow> (claimError + OperationRecord \<times> bool) \<times> OperationRecord storedFile dir" where
  "claimOperation key r bytes d =
     (if \<not> checkOperation r then (Inl (ClaimFailed (Err ''invalid operation claim'')), d)
      else let name = key (opOwnerId r) (opOperationId r);
               (created, d') = linkFile name \<lparr>fileSize = bytes, fileIsFile = True, fileValue = encoded r\<rparr> d
        in if created then (Inr (r, True), d')
           else (case readOperation name d' of
                   Inl e \<Rightarrow> (Inl (ClaimFailed e), d')
                 | Inr existing \<Rightarrow>
                     if opOwnerId existing \<noteq> opOwnerId r \<or> opOperationId existing \<noteq> opOperationId r
                     then (Inl (ClaimFailed (Corruption ''operation record key mismatch'')), d')
                     else if opRequestSha256 existing \<noteq> opRequestSha256 r \<or> opRunId existing \<noteq> opRunId r
                     then (Inl (OperationConflict existing), d')
                     else (Inr (existing, False), d')))"

fun claimAll ::
  "(string \<Rightarrow> string \<Rightarrow> string) \<Rightarrow> (OperationRecord \<times> int) list \<Rightarrow> OperationRecord storedFile dir
     \<Rightarrow> (OperationRecord \<times> bool) list" where
  "claimAll key [] d = []"
| "claimAll key ((r, bytes) # cs) d =
     (let (res, d') = claimOperation key r bytes d
      in (case res of Inl _ \<Rightarrow> [] | Inr x \<Rightarrow> [x]) @ claimAll key cs d')"

lemma claim_dir:
  "snd (claimOperation key r bytes d) = (if checkOperation r
     then snd (linkFile (key (opOwnerId r) (opOperationId r))
       \<lparr>fileSize = bytes, fileIsFile = True, fileValue = encoded r\<rparr> d) else d)"
  by (auto simp: claimOperation_def Let_def split: sum.splits prod.splits)

lemma claim_result:
  assumes "claimOperation key r bytes d = (Inr (x, created), d')"
  shows "\<exists>f. d' (key (opOwnerId x) (opOperationId x)) = Some f
      \<and> readDecoded ''invalid operation record JSON'' ''invalid operation record schema'' (fileValue f) = Inr x"
    "created \<longleftrightarrow> d (key (opOwnerId x) (opOperationId x)) = None"
    "opOwnerId x = opOwnerId r \<and> opOperationId x = opOperationId r \<and> opRunId x = opRunId r
       \<and> opRequestSha256 x = opRequestSha256 r"
  using assms
  by (auto simp: claimOperation_def Let_def linkFile_def readOperation_def encoded_def
      split: if_splits option.splits sum.splits)

lemma claimAll_agrees:
  assumes "d (key (opOwnerId x) (opOperationId x)) = Some f"
    and "readDecoded ''invalid operation record JSON'' ''invalid operation record schema'' (fileValue f) = Inr x"
    and "(y, c) \<in> set (claimAll key cs d)" and "opOwnerId y = opOwnerId x" "opOperationId y = opOperationId x"
  shows "y = x \<and> \<not> c"
  using assms
proof (induction cs arbitrary: d)
  case Nil
  then show ?case by simp
next
  case (Cons rb cs)
  obtain r bytes where rb: "rb = (r, bytes)" by (cases rb)
  obtain res d' where cl: "claimOperation key r bytes d = (res, d')" by fastforce
  have keep: "d' (key (opOwnerId x) (opOperationId x)) = Some f"
    using Cons.prems(1) claim_dir [of key r bytes d] cl fs.create_keeps by (auto split: if_splits)
  show ?case
  proof (cases "res = Inr (y, c)")
    case True
    note r = claim_result [OF cl [unfolded True]]
    have "d (key (opOwnerId y) (opOperationId y)) = Some f" using Cons.prems(1,4,5) by simp
    moreover have "d' (key (opOwnerId y) (opOperationId y)) = Some f" using keep Cons.prems(4,5) by simp
    ultimately show ?thesis using r(1,2) Cons.prems(2) by (auto simp: encoded_def readDecoded_def)
  next
    case False
    then have "(y, c) \<in> set (claimAll key cs d')"
      using Cons.prems(3) rb cl by (auto split: sum.splits)
    then show ?thesis using Cons.IH [of d'] keep Cons.prems(2,4,5) by blast
  qed
qed

text \<open>
  An operation id is claimed once: of all the claims that succeed on an index, in whatever order
  callers make them and also when record keys collide, two for the same owner and operation return
  the same record, hence the same run and the same request, and at most one of them reports that it
  created it.
\<close>

theorem operation_claimed_once:
  assumes "i < j" and "j < length (claimAll key cs (\<lambda>_. None))"
    and "claimAll key cs (\<lambda>_. None) ! i = (x, c)" and "claimAll key cs (\<lambda>_. None) ! j = (y, c')"
    and "opOwnerId x = opOwnerId y" and "opOperationId x = opOperationId y"
  shows "x = y \<and> \<not> c'"
proof -
  have "i < j \<Longrightarrow> j < length (claimAll key cs d) \<Longrightarrow> claimAll key cs d ! i = (x, c)
      \<Longrightarrow> claimAll key cs d ! j = (y, c') \<Longrightarrow> x = y \<and> \<not> c'" for d i j
  proof (induction cs arbitrary: d i j)
    case Nil
    then show ?case by simp
  next
    case (Cons rb cs)
    obtain r bytes where rb: "rb = (r, bytes)" by (cases rb)
    obtain res d' where cl: "claimOperation key r bytes d = (res, d')" by fastforce
    show ?case
    proof (cases res)
      case (Inl e)
      then show ?thesis using Cons rb cl by auto
    next
      case (Inr z)
      show ?thesis
      proof (cases i)
        case 0
        then have z: "z = (x, c)" and "claimAll key cs d' ! (j - 1) = (y, c')"
          "j - 1 < length (claimAll key cs d')"
          using Cons.prems rb cl Inr by (auto simp: nth_Cons')
        then have "(y, c') \<in> set (claimAll key cs d')" by (metis nth_mem)
        then show ?thesis
          using claim_result(1) [OF cl [unfolded Inr z]] claimAll_agrees [of d' key x _ y c' cs] assms(5,6)
          by metis
      next
        case (Suc k)
        then show ?thesis using Cons.IH [of k "j - 1" d'] Cons.prems rb cl Inr
          by (auto simp: nth_Cons')
      qed
    qed
  qed
  then show ?thesis using assms(1-4) by blast
qed

definition demoOperation :: OperationRecord where
  "demoOperation = \<lparr>opOwnerId = ''o'', opOperationId = ''p'', opRequestSha256 = replicate 64 CHR ''a'',
     opRunId = ''run_1'', opCreatedAt = ''t''\<rparr>"

lemma demo_claims:
  "claimAll (\<lambda>a b. a @ b) [(demoOperation, 200), (demoOperation, 200)] (\<lambda>_. None)
     = [(demoOperation, True), (demoOperation, False)]"
proof -
  have ok: "checkOperation demoOperation"
    by (simp add: checkOperation_def demoOperation_def checkIdentity_def checkSha256_def checkRunId_def
        startsWith_def lowerAlnum_def is_digit_def is_hex_def list_all_iff)
  then show ?thesis
    by (simp add: claimOperation_def linkFile_def readOperation_def OPERATION_MAX_RECORD_BYTES_def Let_def
        readEntry_def encoded_def readDecoded_def)
qed

theorem operation_claimed_once_witness:
  "fst (claimAll (\<lambda>a b. a @ b) [(demoOperation, 200), (demoOperation, 200)] (\<lambda>_. None) ! 0)
     = fst (claimAll (\<lambda>a b. a @ b) [(demoOperation, 200), (demoOperation, 200)] (\<lambda>_. None) ! 1)"
  using operation_claimed_once [of 0 1 "\<lambda>a b. a @ b" "[(demoOperation, 200), (demoOperation, 200)]"
      demoOperation True demoOperation False] demo_claims by simp

subsection \<open>Run records\<close>

definition MAX_RUN_RECORD_BYTES :: int where "MAX_RUN_RECORD_BYTES = 1024 * 1024"

record RunWorkspace =
  rwMode :: WorkspaceMode
  rwRepositoryRoot :: string
  rwCwd :: string
  rwRelativeCwd :: string
  rwHead :: string
  rwDirty :: bool
  rwHostPath :: string
  rwBaseline :: string
  rwStartAt :: "string option"

record RunRecord =
  rrOwnerId :: string
  rrPlan :: AgentLaunchPlan
  rrWorkspace :: RunWorkspace
  rrCreatedAt :: string

definition checkPath :: "string \<Rightarrow> bool" where
  "checkPath s = (1 \<le> length s \<and> length s \<le> 4096)"

definition checkRunRecord :: "RunRecord \<Rightarrow> bool" where
  "checkRunRecord r =
     (checkIdentity (rrOwnerId r) \<and> checkPlan (rrPlan r)
      \<and> checkPath (rwRepositoryRoot (rrWorkspace r)) \<and> checkPath (rwCwd (rrWorkspace r))
      \<and> checkPath (rwRelativeCwd (rrWorkspace r)) \<and> checkCommitId (rwHead (rrWorkspace r))
      \<and> checkSha256 (rwHostPath (rrWorkspace r)) \<and> checkSha256 (rwBaseline (rrWorkspace r))
      \<and> checkStartAt (rwStartAt (rrWorkspace r)))"

text \<open>\<open>read\<close>: the directory lists its entries by the run id, the name without \<open>.json\<close>.\<close>

definition runRecordMatches :: "string \<Rightarrow> RunRecord \<Rightarrow> bool" where
  "runRecordMatches runId r =
     (planRunId (rrPlan r) = runId \<and> rrOwnerId r = planOwnerId (rrPlan r)
      \<and> rwMode (rrWorkspace r) = workspaceMode (planWorkspace (rrPlan r))
      \<and> rwHostPath (rrWorkspace r) = hostPathSha256 (planWorkspace (rrPlan r))
      \<and> rwBaseline (rrWorkspace r) = baselineSha256 (planWorkspace (rrPlan r))
      \<and> rwStartAt (rrWorkspace r) = workspaceStartAt (planWorkspace (rrPlan r)))"

definition readRunRecord ::
  "(string \<Rightarrow> string) \<Rightarrow> string \<Rightarrow> RunRecord storedFile listing \<Rightarrow> RunRecord res" where
  "readRunRecord sha runId d =
     (if \<not> checkRunId runId then Inl (Err ''invalid run ID'')
      else andThen (readEntry runId (map_of d)) (\<lambda>f.
        if \<not> fileIsFile f \<or> fileSize f > MAX_RUN_RECORD_BYTES
        then Inl (Corruption ''invalid run record file'')
        else andThen (readDecoded ''invalid run record JSON'' ''invalid run record schema'' (fileValue f)) (\<lambda>r.
          if \<not> runRecordMatches runId r then Inl (Corruption ''run record identity mismatch'')
          else andThen (verifyLaunchPlanIdentity sha (rrPlan r)) (\<lambda>ok.
            if ok then Inr r else Inl (Corruption ''run record identity mismatch'')))))"

text \<open>\<open>bytes\<close> is the size of the record's text and \<open>now\<close> the time written into it.\<close>

definition createRunRecord ::
  "(string \<Rightarrow> string) \<Rightarrow> string \<Rightarrow> AgentLaunchPlan \<Rightarrow> RunWorkspace \<Rightarrow> string \<Rightarrow> int
     \<Rightarrow> RunRecord storedFile listing \<Rightarrow> RunRecord res \<times> RunRecord storedFile listing" where
  "createRunRecord sha owner plan workspace now bytes d =
     (if owner \<noteq> planOwnerId plan then (Inl (Err ''invalid run record identity''), d)
      else (case verifyLaunchPlanIdentity sha plan of
        Inl e \<Rightarrow> (Inl e, d)
      | Inr False \<Rightarrow> (Inl (Err ''invalid run record identity''), d)
      | Inr True \<Rightarrow>
          (let r = \<lparr>rrOwnerId = owner, rrPlan = plan, rrWorkspace = workspace, rrCreatedAt = now\<rparr> in
           if \<not> checkRunRecord r then (Inl (Err ''invalid run record''), d)
           else if bytes > MAX_RUN_RECORD_BYTES then (Inl (Err ''run record exceeds byte limit''), d)
           else if \<not> checkRunId (planRunId plan) then (Inl (Err ''invalid run ID''), d)
           else
             (let (created, d') = linkEntry (planRunId plan)
                    \<lparr>fileSize = bytes, fileIsFile = True, fileValue = encoded r\<rparr> d
              in if created then (Inr r, d')
                 else (case readRunRecord sha (planRunId plan) d' of
                         Inl e \<Rightarrow> (Inl e, d')
                       | Inr existing \<Rightarrow>
                           if rrOwnerId existing \<noteq> owner
                              \<or> planIdentity (rrPlan existing) \<noteq> planIdentity plan
                              \<or> rwBaseline (rrWorkspace existing) \<noteq> rwBaseline workspace
                           then (Inl (Err ''run record conflicts with existing identity''), d')
                           else (Inr existing, d'))))))"

text \<open>\<open>list\<close> reads every record, in the order of the sorted names; one bad record fails it.\<close>

definition listRunRecords ::
  "(string \<Rightarrow> string) \<Rightarrow> RunRecord storedFile listing \<Rightarrow> RunRecord list res" where
  "listRunRecords sha d = mapRes (\<lambda>runId. readRunRecord sha runId d)
     (sort_key (\<lambda>runId. runId @ ''.json'') (map fst d))"

record RunCreation =
  rcOwner :: string
  rcPlan :: AgentLaunchPlan
  rcWorkspace :: RunWorkspace
  rcNow :: string
  rcBytes :: int

definition createRun :: "(string \<Rightarrow> string) \<Rightarrow> RunCreation \<Rightarrow> RunRecord storedFile listing
     \<Rightarrow> RunRecord res \<times> RunRecord storedFile listing" where
  "createRun sha c = createRunRecord sha (rcOwner c) (rcPlan c) (rcWorkspace c) (rcNow c) (rcBytes c)"

definition runRecords :: "(string \<Rightarrow> string) \<Rightarrow> RunCreation list \<Rightarrow> RunRecord storedFile listing" where
  "runRecords sha cs = fold (\<lambda>c d. snd (createRun sha c d)) cs []"

lemma createRun_dir:
  "snd (createRun sha c d) = d \<or>
     (\<exists>r. createRun sha c d = (Inr r, d @ [(planRunId (rcPlan c),
        \<lparr>fileSize = rcBytes c, fileIsFile = True, fileValue = encoded r\<rparr>)])
      \<and> map_of d (planRunId (rcPlan c)) = None \<and> checkRunRecord r \<and> rcBytes c \<le> MAX_RUN_RECORD_BYTES
      \<and> rrPlan r = rcPlan c \<and> rrOwnerId r = planOwnerId (rcPlan c) \<and> rrOwnerId r = rcOwner c
      \<and> rrWorkspace r = rcWorkspace c \<and> checkRunId (planRunId (rcPlan c))
      \<and> verifyLaunchPlanIdentity sha (rcPlan c) = Inr True)"
  by (auto simp: createRun_def createRunRecord_def linkEntry_def Let_def
      split: if_splits option.splits sum.splits bool.splits)

lemma createRun_keeps: "map_of d k = Some f \<Longrightarrow> map_of (snd (createRun sha c d)) k = Some f"
  using createRun_dir [of sha c d] by (auto simp: map_add_def split: option.splits)

lemma runRecords_keep: "map_of d k = Some f \<Longrightarrow> map_of (fold (\<lambda>c d. snd (createRun sha c d)) cs d) k = Some f"
  by (induction cs arbitrary: d) (auto simp: createRun_keeps)

text \<open>What every file of the store holds.\<close>

definition runFileOk :: "(string \<Rightarrow> string) \<Rightarrow> string \<times> RunRecord storedFile \<Rightarrow> bool" where
  "runFileOk sha e = (\<exists>r. fileValue (snd e) = encoded r \<and> fileIsFile (snd e) \<and> checkRunId (fst e)
     \<and> fileSize (snd e) \<le> MAX_RUN_RECORD_BYTES \<and> planRunId (rrPlan r) = fst e \<and> checkRunRecord r
     \<and> rrOwnerId r = planOwnerId (rrPlan r) \<and> verifyLaunchPlanIdentity sha (rrPlan r) = Inr True)"

lemma runRecords_ok: "list_all (runFileOk sha) (runRecords sha cs) \<and> distinct (map fst (runRecords sha cs))"
  unfolding runRecords_def
proof (rule fold_invariant)
  fix c d
  assume "list_all (runFileOk sha) d \<and> distinct (map fst d)"
  then show "list_all (runFileOk sha) (snd (createRun sha c d)) \<and> distinct (map fst (snd (createRun sha c d)))"
    using createRun_dir [of sha c d] by (auto simp: runFileOk_def map_of_eq_None_iff intro!: exI)
qed simp

lemma readRunRecord_stored:
  assumes "map_of (runRecords sha cs) runId = Some f"
  shows "\<exists>r. fileValue f = encoded r \<and> checkRunRecord r \<and> planRunId (rrPlan r) = runId
     \<and> rrOwnerId r = planOwnerId (rrPlan r) \<and> verifyLaunchPlanIdentity sha (rrPlan r) = Inr True
     \<and> readRunRecord sha runId (runRecords sha cs)
         = (if runRecordMatches runId r then Inr r else Inl (Corruption ''run record identity mismatch''))"
proof -
  have "runFileOk sha (runId, f)"
    using assms runRecords_ok [of sha cs] map_of_SomeD by (fastforce simp: list_all_iff)
  then obtain r where r: "fileValue f = encoded r" "fileIsFile f" "checkRunId runId"
     "fileSize f \<le> MAX_RUN_RECORD_BYTES" "planRunId (rrPlan r) = runId" "checkRunRecord r"
     "rrOwnerId r = planOwnerId (rrPlan r)" "verifyLaunchPlanIdentity sha (rrPlan r) = Inr True"
    by (auto simp: runFileOk_def)
  then have "readRunRecord sha runId (runRecords sha cs)
      = (if runRecordMatches runId r then Inr r else Inl (Corruption ''run record identity mismatch''))"
    using assms by (simp add: readRunRecord_def readEntry_def)
  then show ?thesis using r by blast
qed

lemma createRun_reads:
  assumes "createRun sha c (runRecords sha cs) = (Inr r, d)"
  shows "\<exists>f. map_of d (planRunId (rcPlan c)) = Some f \<and> fileValue f = encoded r"
    "rrOwnerId r = rcOwner c \<and> planIdentity (rrPlan r) = planIdentity (rcPlan c)
       \<and> rwBaseline (rrWorkspace r) = rwBaseline (rcWorkspace c)"
proof -
  show 1: "rrOwnerId r = rcOwner c \<and> planIdentity (rrPlan r) = planIdentity (rcPlan c)
       \<and> rwBaseline (rrWorkspace r) = rwBaseline (rcWorkspace c)"
    using assms
    by (auto simp: createRun_def createRunRecord_def Let_def
        split: if_splits option.splits sum.splits bool.splits prod.splits)
  show "\<exists>f. map_of d (planRunId (rcPlan c)) = Some f \<and> fileValue f = encoded r"
  proof (cases "map_of (runRecords sha cs) (planRunId (rcPlan c))")
    case None
    then show ?thesis using assms
      by (auto simp: createRun_def createRunRecord_def Let_def linkEntry_def map_add_def
          split: if_splits sum.splits bool.splits)
  next
    case (Some f)
    then have "readRunRecord sha (planRunId (rcPlan c)) (runRecords sha cs) = Inr r" "d = runRecords sha cs"
      using assms by (auto simp: createRun_def createRunRecord_def Let_def linkEntry_def
          split: if_splits sum.splits bool.splits)
    then show ?thesis using readRunRecord_stored [OF Some] Some by (auto split: if_splits)
  qed
qed
text \<open>
  A run's record is written once. Whatever records are created before and after it, a creation
  that succeeds leaves a record of the same owner, plan identity and baseline as asked for, and from
  then on reading the run returns exactly that record, except that a record whose workspace is not
  that of its own plan is refused; and every later creation for the run that succeeds returns this
  same record.
\<close>

theorem run_record_written_once:
  assumes "createRun sha c (runRecords sha before) = (Inr r, d)"
    and "d' = fold (\<lambda>c d. snd (createRun sha c d)) after d" and "runId = planRunId (rcPlan c)"
  shows "rrOwnerId r = rcOwner c \<and> planIdentity (rrPlan r) = planIdentity (rcPlan c)
      \<and> rwBaseline (rrWorkspace r) = rwBaseline (rcWorkspace c)
    \<and> readRunRecord sha runId d' = (if runRecordMatches runId r then Inr r
        else Inl (Corruption ''run record identity mismatch''))
    \<and> (\<forall>c' r' d''. createRun sha c' d' = (Inr r', d'') \<longrightarrow> planRunId (rcPlan c') = runId \<longrightarrow> r' = r \<and> d'' = d')"
proof -
  have d: "d = runRecords sha (before @ [c])" using assms(1) by (simp add: runRecords_def)
  have d': "d' = runRecords sha (before @ c # after)" using assms(2) d by (simp add: runRecords_def)
  obtain f where f: "map_of d' runId = Some f" "fileValue f = encoded r"
    using createRun_reads(1) [OF assms(1)] runRecords_keep assms(2,3) by metis
  have rd: "readRunRecord sha runId d' = (if runRecordMatches runId r then Inr r
        else Inl (Corruption ''run record identity mismatch''))"
    using readRunRecord_stored [of sha "before @ c # after" runId f] f d' by (auto simp: encoded_def)
  have "r' = r \<and> d'' = d'" if a: "createRun sha c' d' = (Inr r', d'')" "planRunId (rcPlan c') = runId" for c' r' d''
  proof -
    have "d'' = d'" using createRun_dir [of sha c' d'] a f(1) by auto
    moreover obtain g where "map_of d'' runId = Some g" "fileValue g = encoded r'"
      using createRun_reads(1) [of sha c' "before @ c # after" r' d''] a d' by auto
    ultimately show ?thesis using f by (auto simp: encoded_def)
  qed
  then show ?thesis using createRun_reads(2) [OF assms(1)] rd by blast
qed

definition demoRunWorkspace :: RunWorkspace where
  "demoRunWorkspace = \<lparr>rwMode = workspaceMode (planWorkspace compiledPlan), rwRepositoryRoot = ''/r'', rwCwd = ''/r'',
     rwRelativeCwd = ''.'', rwHead = replicate 40 CHR ''a'', rwDirty = False,
     rwHostPath = hostPathSha256 (planWorkspace compiledPlan),
     rwBaseline = baselineSha256 (planWorkspace compiledPlan),
     rwStartAt = workspaceStartAt (planWorkspace compiledPlan)\<rparr>"

definition demoRunRecord :: RunRecord where
  "demoRunRecord = \<lparr>rrOwnerId = planOwnerId compiledPlan, rrPlan = compiledPlan, rrWorkspace = demoRunWorkspace,
     rrCreatedAt = ''t''\<rparr>"

definition demoCreation :: RunCreation where
  "demoCreation = \<lparr>rcOwner = planOwnerId compiledPlan, rcPlan = compiledPlan, rcWorkspace = demoRunWorkspace,
     rcNow = ''t'', rcBytes = 4000\<rparr>"

lemma compiledPlan_verifies: "verifyLaunchPlanIdentity demoSha compiledPlan = Inr True"
proof -
  have "planOutputSchema compiledPlan = None" "planIdentity compiledPlan = replicate 64 CHR ''f''"
    by (simp_all add: compiledPlan_def planFor_def draftPlan_def Let_def demoInput_def)
  then show ?thesis
    using demoSha_plain [OF plain_draftJs [of compiledPlan]] by (simp add: verifyLaunchPlanIdentity_def)
qed

lemma demo_run_created: "createRun demoSha demoCreation (runRecords demoSha [])
   = (Inr demoRunRecord, [(planRunId compiledPlan, \<lparr>fileSize = 4000, fileIsFile = True, fileValue = encoded demoRunRecord\<rparr>)])"
proof -
  have ok: "checkRunRecord demoRunRecord"
    using compiledPlan_valid
    by (simp add: checkRunRecord_def demoRunRecord_def demoRunWorkspace_def checkPlan_def checkPath_def
      checkCommitId_def list_all_rep is_hex_def is_digit_def)
  have "checkRunId (planRunId compiledPlan)" using compiledPlan_valid by (simp add: checkPlan_def)
  then show ?thesis using compiledPlan_verifies ok
    by (simp add: createRun_def createRunRecord_def runRecords_def demoCreation_def MAX_RUN_RECORD_BYTES_def
      linkEntry_def flip: demoRunRecord_def)
qed

theorem run_record_written_once_witness:
  "readRunRecord demoSha (planRunId compiledPlan)
     (snd (createRun demoSha demoCreation (runRecords demoSha []))) = Inr demoRunRecord"
proof -
  have "runRecordMatches (planRunId compiledPlan) demoRunRecord"
    by (simp add: runRecordMatches_def demoRunRecord_def demoRunWorkspace_def) 
  then show ?thesis
    using run_record_written_once [OF demo_run_created refl refl, of "[]"] demo_run_created
    by (simp add: demoCreation_def)
qed
end
