(* ===== verification/Worktrees.thy ===== *)
theory Worktrees
  imports Records
begin

section \<open>Worktrees and hand-offs (\<open>src/workspace/worktree.ts\<close>)\<close>

text \<open>
  The records of attempt worktrees and snapshots and the operations on them. Git and the file system
  below a worktree are a host that the operations are given: its state, the answers to the questions
  the code asks of it and the commands the code runs. A command that fails throws. The records are part
  of the world; a record is found by its path. The lease of the run is asked through the host.
\<close>

definition MAX_HANDOFF_EXPORT_BYTES :: int where "MAX_HANDOFF_EXPORT_BYTES = 64 * 1024 * 1024"
definition HANDOFF_REF_PREFIX :: string where "HANDOFF_REF_PREFIX = ''refs/pi-subagent/handoffs/''"

definition handoffRefName :: "string \<Rightarrow> string \<Rightarrow> string" where
  "handoffRefName runId attemptId = HANDOFF_REF_PREFIX @ runId @ ''/'' @ attemptId"

record WorktreeRecord =
  wtRunId :: string
  wtAttemptId :: string
  wtRepositoryRoot :: string
  wtPath :: string
  wtRecordPath :: string
  wtBranch :: string
  wtBaselineHead :: string
  wtStartCommit :: "string option"
  wtCreatedAt :: string
  wtHandoffCommit :: "string option"
  wtHandoffRef :: "string option"
  wtReleasedAt :: "string option"

text \<open>The pattern of a hand-off ref: the prefix, a run id, a slash, an attempt id.\<close>

definition checkHandoffRef :: "string \<Rightarrow> bool" where
  "checkHandoffRef s =
     (startsWith s HANDOFF_REF_PREFIX
      \<and> (case splitOn CHR ''/'' (drop (length HANDOFF_REF_PREFIX) s) of
           [r, a] \<Rightarrow> startsWith r ''run_'' \<and> drop 4 r \<noteq> [] \<and> list_all lowerAlnum (drop 4 r)
             \<and> startsWith a ''attempt_'' \<and> drop 8 a \<noteq> [] \<and> list_all lowerAlnum (drop 8 a)
         | _ \<Rightarrow> False)
      \<and> length s \<le> 1024)"

definition checkOptional :: "(string \<Rightarrow> bool) \<Rightarrow> string option \<Rightarrow> bool" where
  "checkOptional c x = (case x of None \<Rightarrow> True | Some s \<Rightarrow> c s)"

definition checkWorktreeRecord :: "WorktreeRecord \<Rightarrow> bool" where
  "checkWorktreeRecord r =
     (checkRunId (wtRunId r) \<and> checkAttemptId (wtAttemptId r) \<and> checkPath (wtRepositoryRoot r)
      \<and> checkPath (wtPath r) \<and> checkPath (wtRecordPath r)
      \<and> 1 \<le> length (wtBranch r) \<and> length (wtBranch r) \<le> 1024 \<and> checkCommitId (wtBaselineHead r)
      \<and> checkOptional checkCommitId (wtStartCommit r) \<and> checkOptional checkCommitId (wtHandoffCommit r)
      \<and> checkOptional checkHandoffRef (wtHandoffRef r))"

record SnapshotRecord =
  snRunId :: string
  snAttemptId :: string
  snRepositoryRoot :: string
  snPath :: string
  snRecordPath :: string
  snCommit :: string
  snCreatedAt :: string

definition checkSnapshotRecord :: "SnapshotRecord \<Rightarrow> bool" where
  "checkSnapshotRecord r =
     (checkRunId (snRunId r) \<and> checkAttemptId (snAttemptId r) \<and> checkPath (snRepositoryRoot r)
      \<and> checkPath (snPath r) \<and> checkPath (snRecordPath r) \<and> checkCommitId (snCommit r))"

subsection \<open>The host\<close>

datatype pathKind = PathAbsent | PathDirectory | PathOther | PathFailed

text \<open>
  \<open>rev-parse --verify --quiet\<close> prints the commit, exits with 1 and prints nothing for a missing ref, or
  fails otherwise; \<open>format-patch\<close> runs with a bound on its output.
\<close>

datatype refLookup = RefAt string | RefMissing | LookupFailed

datatype patchOutcome = PatchBytes string | PatchExceeded | PatchFailed

text \<open>Questions are functions of the state, commands change it. A directory comes first, or the repository.\<close>

record 'g GitHost =
  ghLease :: "'g \<Rightarrow> unit res"
  ghStat :: "string \<Rightarrow> 'g \<Rightarrow> pathKind"
  ghRealpath :: "string \<Rightarrow> 'g \<Rightarrow> string res"
  ghToplevel :: "string \<Rightarrow> 'g \<Rightarrow> string res"
  ghBranch :: "string \<Rightarrow> 'g \<Rightarrow> string res"
  ghRevParse :: "string \<Rightarrow> string \<Rightarrow> 'g \<Rightarrow> string res"
  ghRef :: "string \<Rightarrow> string \<Rightarrow> 'g \<Rightarrow> refLookup"
  ghStatusBytes :: "string \<Rightarrow> 'g \<Rightarrow> nat res"
  ghUnstaged :: "string \<Rightarrow> 'g \<Rightarrow> bool"                          \<comment> \<open>\<open>diff --cached --quiet\<close> succeeds\<close>
  ghTreeOf :: "string \<Rightarrow> string \<Rightarrow> 'g \<Rightarrow> string res"
  ghParents :: "string \<Rightarrow> string \<Rightarrow> 'g \<Rightarrow> string list res"       \<comment> \<open>the commit and its parents\<close>
  ghCount :: "string \<Rightarrow> string \<Rightarrow> string \<Rightarrow> 'g \<Rightarrow> string res"
  ghPatch :: "string \<Rightarrow> string \<Rightarrow> string \<Rightarrow> int \<Rightarrow> 'g \<Rightarrow> patchOutcome"
  ghBranchList :: "string \<Rightarrow> string \<Rightarrow> 'g \<Rightarrow> string res"
  ghRegistered :: "string \<Rightarrow> string \<Rightarrow> 'g \<Rightarrow> bool res"
  ghAddAll :: "string \<Rightarrow> 'g \<Rightarrow> unit res \<times> 'g"
  ghWriteTree :: "string \<Rightarrow> 'g \<Rightarrow> string res \<times> 'g"
  ghCommitTree :: "string \<Rightarrow> string \<Rightarrow> string \<Rightarrow> string \<Rightarrow> 'g \<Rightarrow> string res \<times> 'g"
  ghUpdateRef :: "string \<Rightarrow> string \<Rightarrow> string \<Rightarrow> string \<Rightarrow> 'g \<Rightarrow> unit res \<times> 'g"
  ghDeleteRef :: "string \<Rightarrow> string \<Rightarrow> string option \<Rightarrow> 'g \<Rightarrow> unit res \<times> 'g"
  ghAddWorktree :: "string \<Rightarrow> string option \<Rightarrow> string \<Rightarrow> string \<Rightarrow> 'g \<Rightarrow> unit res \<times> 'g"
  ghRemoveWorktree :: "string \<Rightarrow> bool \<Rightarrow> string \<Rightarrow> 'g \<Rightarrow> unit res \<times> 'g"
  ghDeleteBranch :: "string \<Rightarrow> string \<Rightarrow> 'g \<Rightarrow> unit res \<times> 'g"

record 'g WtWorld =
  wwGit :: 'g
  wwRecords :: "WorktreeRecord decoded dir"
  wwSnapshots :: "SnapshotRecord decoded listing"

definition askGit :: "('g \<Rightarrow> 'a res) \<Rightarrow> 'g WtWorld \<Rightarrow> 'a res \<times> 'g WtWorld" where
  "askGit q = readS (\<lambda>w. q (wwGit w))"

definition runGit :: "('g \<Rightarrow> 'a res \<times> 'g) \<Rightarrow> 'g WtWorld \<Rightarrow> 'a res \<times> 'g WtWorld" where
  "runGit c w = (case c (wwGit w) of (r, g) \<Rightarrow> (r, w\<lparr>wwGit := g\<rparr>))"

lemma git_Inr [simp]:
  "askGit q w = (Inr a, w') \<longleftrightarrow> q (wwGit w) = Inr a \<and> w' = w"
  "runGit c w = (Inr a, w') \<longleftrightarrow> (\<exists>g. c (wwGit w) = (Inr a, g) \<and> w' = w\<lparr>wwGit := g\<rparr>)"
  by (auto simp: askGit_def runGit_def split: prod.splits)

subsection \<open>Records\<close>

text \<open>Reading through \<open>JSON.parse\<close>, the revision gate and a check that throws \<open>WorktreeError\<close>.\<close>

definition readChecked :: "('a \<Rightarrow> bool) \<Rightarrow> string \<Rightarrow> 'a decoded \<Rightarrow> 'a res" where
  "readChecked ok m d =
     (case readDecoded [] [] d of
        Inr r \<Rightarrow> if ok r then Inr r else Inl (WorktreeErr m)
      | Inl (Corruption _) \<Rightarrow> Inl (case d of NotJson \<Rightarrow> Err ''SyntaxError'' | _ \<Rightarrow> WorktreeErr m)
      | Inl e \<Rightarrow> Inl e)"

definition readWorktreeRecord :: "string \<Rightarrow> 'g WtWorld \<Rightarrow> WorktreeRecord res" where
  "readWorktreeRecord path w =
     andThen (readEntry path (wwRecords w)) (readChecked checkWorktreeRecord ''invalid worktree record'')"

definition writeRecord :: "string \<Rightarrow> WorktreeRecord \<Rightarrow> 'g WtWorld \<Rightarrow> unit res \<times> 'g WtWorld" where
  "writeRecord path r w =
     (if \<not> checkWorktreeRecord r then (Inl (WorktreeErr ''invalid worktree record''), w)
      else (Inr (), w\<lparr>wwRecords := renameOver path (encoded r) (wwRecords w)\<rparr>))"

lemma writeRecord_Inr [simp]:
  "writeRecord path r w = (Inr u, w') \<longleftrightarrow>
     checkWorktreeRecord r \<and> w' = w\<lparr>wwRecords := renameOver path (encoded r) (wwRecords w)\<rparr>"
  by (auto simp: writeRecord_def)

definition startCommit :: "WorktreeRecord \<Rightarrow> string" where
  "startCommit r = (case wtStartCommit r of None \<Rightarrow> wtBaselineHead r | Some c \<Rightarrow> c)"

definition expectedHead :: "WorktreeRecord \<Rightarrow> string" where
  "expectedHead r = (case wtHandoffCommit r of None \<Rightarrow> startCommit r | Some c \<Rightarrow> c)"

subsection \<open>Hand-off refs\<close>

definition resolveHandoffRef :: "'g GitHost \<Rightarrow> string \<Rightarrow> string \<Rightarrow> 'g \<Rightarrow> string option res" where
  "resolveHandoffRef g repo ref s =
     (case ghRef g repo ref s of
        RefAt c \<Rightarrow> Inr (Some c)
      | RefMissing \<Rightarrow> Inr None
      | LookupFailed \<Rightarrow> Inl (WorktreeErr ''handoff ref lookup failed''))"

definition assertHandoffReachable :: "'g GitHost \<Rightarrow> WorktreeRecord \<Rightarrow> 'g \<Rightarrow> unit res" where
  "assertHandoffReachable g r s =
     (case wtHandoffCommit r of
        None \<Rightarrow> Inr ()
      | Some c \<Rightarrow>
          (case wtHandoffRef r of
             None \<Rightarrow> Inl (WorktreeErr ''handoff commit has no durable handoff ref'')
           | Some ref \<Rightarrow>
               andThen (resolveHandoffRef g (wtRepositoryRoot r) ref s) (\<lambda>current.
                 if current \<noteq> Some c
                 then Inl (WorktreeErr ''handoff commit is not reachable from its durable handoff ref'')
                 else Inr ())))"

datatype HandoffRefState = RefPresent | RefAbsent | RepositoryMissing

definition handoffRefTarget :: "WorktreeRecord \<Rightarrow> string \<times> string \<times> string \<times> string option" where
  "handoffRefTarget r = (wtRunId r, wtRepositoryRoot r,
     (case wtHandoffRef r of None \<Rightarrow> handoffRefName (wtRunId r) (wtAttemptId r) | Some ref \<Rightarrow> ref), wtHandoffCommit r)"

definition inspectHandoffRef ::
  "'g GitHost \<Rightarrow> string \<times> string \<times> string \<times> string option \<Rightarrow> 'g \<Rightarrow> HandoffRefState res" where
  "inspectHandoffRef g target s =
     (case target of (runId, repo, ref, commit) \<Rightarrow>
        (case ghStat g repo s of
           PathAbsent \<Rightarrow> Inr RepositoryMissing
         | PathOther \<Rightarrow> Inl (WorktreeErr ''handoff repository root is not a directory'')
         | PathFailed \<Rightarrow> Inl (Err ''stat failed'')
         | PathDirectory \<Rightarrow>
             andThen (resolveHandoffRef g repo ref s) (\<lambda>current.
               case current of
                 None \<Rightarrow> Inr RefAbsent
               | Some c \<Rightarrow> if commit \<noteq> None \<and> commit \<noteq> Some c then Inl (WorktreeErr ''handoff ref identity mismatch'')
                           else Inr RefPresent)))"

definition removeHandoffRef ::
  "'g GitHost \<Rightarrow> string \<Rightarrow> string \<times> string \<times> string \<times> string option \<Rightarrow> 'g WtWorld \<Rightarrow> HandoffRefState res \<times> 'g WtWorld" where
  "removeHandoffRef g leaseRun target =
     (case target of (runId, repo, ref, commit) \<Rightarrow>
        bindS (checkS (leaseRun = runId) (WorktreeErr ''handoff ref run lease identity mismatch'')) (\<lambda>_.
        bindS (askGit (ghLease g)) (\<lambda>_.
        bindS (askGit (inspectHandoffRef g target)) (\<lambda>state.
          if state \<noteq> RefPresent then okS state
          else bindS (askGit (ghLease g)) (\<lambda>_.
               bindS (runGit (ghDeleteRef g repo ref commit)) (\<lambda>_. okS RefPresent))))))"

subsection \<open>Creating a worktree\<close>

definition continuedStartCommit :: "'g GitHost \<Rightarrow> string \<Rightarrow> RunWorkspace \<Rightarrow> WorktreeRecord \<Rightarrow> 'g \<Rightarrow> string res" where
  "continuedStartCommit g runId workspace h s =
     (case wtHandoffCommit h of
        None \<Rightarrow> Inl (WorktreeErr ''continued hand-off does not belong to this run'')
      | Some c \<Rightarrow>
          if wtRunId h \<noteq> runId then Inl (WorktreeErr ''continued hand-off does not belong to this run'')
          else if wtBaselineHead h \<noteq> rwHead workspace
          then Inl (WorktreeErr ''repository HEAD is not the baseline of the hand-off being continued'')
          else andThen (assertHandoffReachable g h s) (\<lambda>_. Inr c))"

record WorktreeOptions =
  woRoot :: string
  woRunId :: string
  woAttemptId :: string
  woWorkspace :: RunWorkspace
  woLeaseRun :: string
  woContinueFrom :: "WorktreeRecord option"
  woNow :: string

text \<open>\<open>sha\<close> names the branch. The record's file is reserved, empty, before the worktree is added.\<close>

definition worktreeRecordOf :: "(string \<Rightarrow> string) \<Rightarrow> WorktreeOptions \<Rightarrow> string option \<Rightarrow> WorktreeRecord" where
  "worktreeRecordOf sha opts start =
     \<lparr>wtRunId = woRunId opts, wtAttemptId = woAttemptId opts,
      wtRepositoryRoot = rwRepositoryRoot (woWorkspace opts),
      wtPath = woRoot opts @ ''/worktrees/'' @ woAttemptId opts,
      wtRecordPath = woRoot opts @ ''/records/'' @ woAttemptId opts @ ''.json'',
      wtBranch = ''pi-subagent/'' @ take 16 (sha (woRunId opts)) @ ''/'' @ take 32 (sha (woAttemptId opts)),
      wtBaselineHead = rwHead (woWorkspace opts), wtStartCommit = start, wtCreatedAt = woNow opts,
      wtHandoffCommit = None, wtHandoffRef = None, wtReleasedAt = None\<rparr>"

definition reserveRecord :: "string \<Rightarrow> 'g WtWorld \<Rightarrow> unit res \<times> 'g WtWorld" where
  "reserveRecord path w =
     (case linkFile path NotJson (wwRecords w) of
        (False, _) \<Rightarrow> (Inl (WorktreeErr ''worktree attempt is already reserved''), w)
      | (True, d) \<Rightarrow> (Inr (), w\<lparr>wwRecords := d\<rparr>))"

definition createAttemptWorktree ::
  "'g GitHost \<Rightarrow> (string \<Rightarrow> string) \<Rightarrow> WorktreeOptions \<Rightarrow> 'g WtWorld \<Rightarrow> WorktreeRecord res \<times> 'g WtWorld" where
  "createAttemptWorktree g sha opts =
     bindS (checkS (woLeaseRun opts = woRunId opts) (WorktreeErr ''worktree run lease identity mismatch'')) (\<lambda>_.
     bindS (askGit (ghLease g)) (\<lambda>_.
     bindS (checkS (rwMode (woWorkspace opts) = Worktree \<and> \<not> rwDirty (woWorkspace opts))
              (WorktreeErr ''writing worktree requires a clean worktree preflight'')) (\<lambda>_.
     bindS (case woContinueFrom opts of
              None \<Rightarrow> okS (rwStartAt (woWorkspace opts))
            | Some h \<Rightarrow> askGit (\<lambda>s. andThen (continuedStartCommit g (woRunId opts) (woWorkspace opts) h s) (\<lambda>c. Inr (Some c))))
      (\<lambda>start.
       let r = worktreeRecordOf sha opts start in
       bindS (reserveRecord (wtRecordPath r)) (\<lambda>_.
       catchS
         (bindS (askGit (ghLease g)) (\<lambda>_.
          bindS (runGit (ghAddWorktree g (wtRepositoryRoot r) (Some (wtBranch r)) (wtPath r) (startCommit r))) (\<lambda>_.
          bindS (askGit (ghLease g)) (\<lambda>_.
          bindS (writeRecord (wtRecordPath r) r) (\<lambda>_. okS r)))))
         (\<lambda>e. failS (WorktreeErr ''worktree creation requires reconciliation'')))))))"

subsection \<open>Capturing the hand-off\<close>

text \<open>Three questions are asked of a checkout before they are compared with what the record expects.\<close>

definition assertCheckout :: "'g GitHost \<Rightarrow> string \<Rightarrow> string \<Rightarrow> string \<Rightarrow> string \<Rightarrow> 'g \<Rightarrow> unit res" where
  "assertCheckout g path branch commit m s =
     andThen (ghToplevel g path s) (\<lambda>top.
     andThen (ghBranch g path s) (\<lambda>b.
     andThen (ghRevParse g path ''HEAD'' s) (\<lambda>h.
       require (top = path \<and> b = branch \<and> h = commit) (WorktreeErr m))))"

lemma assertCheckout_Inr [simp]:
  "assertCheckout g path branch commit m s = Inr u \<longleftrightarrow>
     ghToplevel g path s = Inr path \<and> ghBranch g path s = Inr branch \<and> ghRevParse g path ''HEAD'' s = Inr commit"
  by (auto simp: assertCheckout_def)

definition assertRealpath :: "'g GitHost \<Rightarrow> string \<Rightarrow> string \<Rightarrow> 'g \<Rightarrow> unit res" where
  "assertRealpath g path m s = andThen (ghRealpath g path s) (\<lambda>c. require (c = path) (WorktreeErr m))"

text \<open>Pinning the commit: a ref that already resolves to it is accepted.\<close>

definition pinHandoff :: "'g GitHost \<Rightarrow> string \<Rightarrow> string \<Rightarrow> string \<Rightarrow> 'g WtWorld \<Rightarrow> unit res \<times> 'g WtWorld" where
  "pinHandoff g repo ref c =
     catchS (runGit (ghUpdateRef g repo ref c []))
       (\<lambda>e. bindS (askGit (resolveHandoffRef g repo ref)) (\<lambda>current.
              checkS (current = Some c) (WorktreeErr ''handoff ref identity mismatch'')))"

definition branchRef :: "WorktreeRecord \<Rightarrow> string" where
  "branchRef r = ''refs/heads/'' @ wtBranch r"

text \<open>The commit is squashed onto the baseline whatever commit the worktree started at.\<close>

definition commitHandoff :: "'g GitHost \<Rightarrow> WorktreeRecord \<Rightarrow> string \<Rightarrow> 'g WtWorld \<Rightarrow> string res \<times> 'g WtWorld" where
  "commitHandoff g r message =
     bindS (runGit (ghAddAll g (wtPath r))) (\<lambda>_.
     bindS (askGit (\<lambda>s. require (\<not> ghUnstaged g (wtPath r) s) WorktreeNoChanges)) (\<lambda>_.
     bindS (runGit (ghWriteTree g (wtPath r))) (\<lambda>tree.
     bindS (askGit (ghTreeOf g (wtPath r) (wtBaselineHead r))) (\<lambda>baselineTree.
     bindS (checkS (tree \<noteq> baselineTree)
              (WorktreeErr ''worktree reverted the hand-off it started at; its final tree equals the baseline'')) (\<lambda>_.
     runGit (ghCommitTree g (wtPath r) tree (wtBaselineHead r) message))))))"

definition captureWorktreeHandoff ::
  "'g GitHost \<Rightarrow> string \<Rightarrow> WorktreeRecord \<Rightarrow> string \<Rightarrow> 'g WtWorld \<Rightarrow> WorktreeRecord res \<times> 'g WtWorld" where
  "captureWorktreeHandoff g leaseRun r message =
     bindS (checkS (leaseRun = wtRunId r) (WorktreeErr ''worktree run lease identity mismatch'')) (\<lambda>_.
     bindS (askGit (ghLease g)) (\<lambda>_.
     bindS (checkS (trim message \<noteq> [] \<and> length message \<le> 512)
              (WorktreeErr ''handoff commit message must contain 1-512 characters'')) (\<lambda>_.
     bindS (checkS (wtHandoffCommit r = None) (WorktreeErr ''worktree handoff already captured'')) (\<lambda>_.
     bindS (askGit (assertRealpath g (wtPath r) ''worktree path identity mismatch'')) (\<lambda>_.
     bindS (askGit (assertCheckout g (wtPath r) (wtBranch r) (startCommit r) ''worktree baseline identity mismatch'')) (\<lambda>_.
     let ref = handoffRefName (wtRunId r) (wtAttemptId r) in
     bindS (askGit (resolveHandoffRef g (wtRepositoryRoot r) ref)) (\<lambda>current.
     bindS (checkS (current = None) (WorktreeErr ''handoff ref already exists'')) (\<lambda>_.
     bindS (commitHandoff g r message) (\<lambda>c.
     bindS (runGit (ghUpdateRef g (wtPath r) (branchRef r) c (startCommit r))) (\<lambda>_.
     bindS (askGit (ghLease g)) (\<lambda>_.
     bindS (pinHandoff g (wtRepositoryRoot r) ref c) (\<lambda>_.
     let updated = r\<lparr>wtHandoffCommit := Some c, wtHandoffRef := Some ref\<rparr> in
     bindS (askGit (ghLease g)) (\<lambda>_.
     bindS (writeRecord (wtRecordPath r) updated) (\<lambda>_. okS updated))))))))))))))"

subsection \<open>Exporting the hand-off\<close>

record HandoffRef =
  hrRunId :: string
  hrAttemptId :: string
  hrBaselineHead :: string
  hrHandoffCommit :: string
  hrSha256 :: string
  hrBytes :: nat

definition checkHandoffExport :: "HandoffRef \<Rightarrow> bool" where
  "checkHandoffExport r =
     (checkRunId (hrRunId r) \<and> checkAttemptId (hrAttemptId r) \<and> checkCommitId (hrBaselineHead r)
      \<and> checkCommitId (hrHandoffCommit r) \<and> checkSha256 (hrSha256 r) \<and> 1 \<le> hrBytes r)"

definition assertOneCommit :: "'g GitHost \<Rightarrow> WorktreeRecord \<Rightarrow> string \<Rightarrow> 'g \<Rightarrow> unit res" where
  "assertOneCommit g r c s =
     andThen (ghParents g (wtRepositoryRoot r) c s) (\<lambda>ps.
     andThen (require (ps = [c, wtBaselineHead r])
       (WorktreeErr ''handoff commit must have exactly one parent, the recorded baseline'')) (\<lambda>_.
     andThen (ghCount g (wtRepositoryRoot r) (wtBaselineHead r) c s) (\<lambda>n.
     require (n = ''1'') (WorktreeErr ''handoff must be exactly one commit on top of its baseline''))))"

definition exportWorktreeHandoff ::
  "'g GitHost \<Rightarrow> (string \<Rightarrow> string) \<Rightarrow> string \<Rightarrow> int \<Rightarrow> WorktreeRecord \<Rightarrow> 'g \<Rightarrow> (HandoffRef \<times> string) res" where
  "exportWorktreeHandoff g sha leaseRun maxBytes r s =
     andThen (require (leaseRun = wtRunId r) (WorktreeErr ''worktree run lease identity mismatch'')) (\<lambda>_.
     andThen (ghLease g s) (\<lambda>_.
     andThen (require (1 \<le> maxBytes \<and> maxBytes \<le> MAX_HANDOFF_EXPORT_BYTES) (WorktreeErr ''handoff export limit'')) (\<lambda>_.
     case wtHandoffCommit r of
       None \<Rightarrow> Inl (WorktreeErr ''worktree has no handoff commit to export'')
     | Some c \<Rightarrow>
         andThen (require (c \<noteq> wtBaselineHead r)
           (WorktreeErr ''handoff commit equals its baseline; there is no handoff to export'')) (\<lambda>_.
         andThen (assertHandoffReachable g r s) (\<lambda>_.
         andThen (assertOneCommit g r c s) (\<lambda>_.
         andThen (ghLease g s) (\<lambda>_.
         case ghPatch g (wtRepositoryRoot r) (wtBaselineHead r) c maxBytes s of
           PatchFailed \<Rightarrow> Inl (WorktreeErr ''git worktree operation failed'')
         | PatchExceeded \<Rightarrow> Inl (WorktreeErr ''handoff export exceeds byte limit'')
         | PatchBytes content \<Rightarrow>
             if int (length content) > maxBytes then Inl (WorktreeErr ''handoff export exceeds byte limit'')
             else if content = [] then Inl (WorktreeErr ''handoff export produced no patch content'')
             else (let ref = \<lparr>hrRunId = wtRunId r, hrAttemptId = wtAttemptId r, hrBaselineHead = wtBaselineHead r,
                       hrHandoffCommit = c, hrSha256 = sha content, hrBytes = length content\<rparr>
                   in if \<not> checkHandoffExport ref then Inl (WorktreeErr ''invalid handoff export metadata'')
                      else Inr (ref, content)))))))))"

subsection \<open>Removing and releasing worktrees\<close>

definition assertDirectory :: "'g GitHost \<Rightarrow> string \<Rightarrow> string \<Rightarrow> 'g \<Rightarrow> unit res" where
  "assertDirectory g path m s =
     (case ghStat g path s of
        PathAbsent \<Rightarrow> Inl Enoent
      | PathFailed \<Rightarrow> Inl (Err ''stat failed'')
      | PathOther \<Rightarrow> Inl (WorktreeErr m)
      | PathDirectory \<Rightarrow> Inr ())"

definition assertCleanStatus :: "'g GitHost \<Rightarrow> string \<Rightarrow> string \<Rightarrow> 'g \<Rightarrow> unit res" where
  "assertCleanStatus g path m s = andThen (ghStatusBytes g path s) (\<lambda>n. require (n = 0) (WorktreeErr m))"

definition removeCleanWorktree ::
  "'g GitHost \<Rightarrow> string \<Rightarrow> WorktreeRecord \<Rightarrow> 'g WtWorld \<Rightarrow> unit res \<times> 'g WtWorld" where
  "removeCleanWorktree g leaseRun r =
     bindS (checkS (leaseRun = wtRunId r) (WorktreeErr ''worktree run lease identity mismatch'')) (\<lambda>_.
     bindS (askGit (ghLease g)) (\<lambda>_.
     bindS (askGit (assertDirectory g (wtPath r) ''worktree path is not a directory'')) (\<lambda>_.
     bindS (askGit (assertRealpath g (wtPath r) ''worktree path identity mismatch'')) (\<lambda>_.
     bindS (askGit (assertCleanStatus g (wtPath r) ''dirty worktree is retained'')) (\<lambda>_.
     bindS (askGit (assertCheckout g (wtPath r) (wtBranch r) (expectedHead r) ''worktree cleanup identity mismatch'')) (\<lambda>_.
     bindS (askGit (ghLease g)) (\<lambda>_.
     runGit (ghRemoveWorktree g (wtRepositoryRoot r) False (wtPath r)))))))))"

definition finalizeWorktreeHandoff ::
  "'g GitHost \<Rightarrow> string \<Rightarrow> WorktreeRecord \<Rightarrow> string \<Rightarrow> 'g WtWorld \<Rightarrow> WorktreeRecord option res \<times> 'g WtWorld" where
  "finalizeWorktreeHandoff g leaseRun r message =
     bindS (catchS (bindS (captureWorktreeHandoff g leaseRun r message) (\<lambda>h. okS (Some h)))
              (\<lambda>e. if e = WorktreeNoChanges then okS None else failS e)) (\<lambda>h.
     bindS (removeCleanWorktree g leaseRun (case h of None \<Rightarrow> r | Some h \<Rightarrow> h)) (\<lambda>_. okS h))"

definition releaseWorktreeBranch ::
  "'g GitHost \<Rightarrow> string \<Rightarrow> string \<Rightarrow> WorktreeRecord \<Rightarrow> 'g WtWorld \<Rightarrow> WorktreeRecord res \<times> 'g WtWorld" where
  "releaseWorktreeBranch g leaseRun now r =
     bindS (checkS (leaseRun = wtRunId r) (WorktreeErr ''worktree run lease identity mismatch'')) (\<lambda>_.
     bindS (askGit (ghLease g)) (\<lambda>_.
     bindS (askGit (\<lambda>s. case ghStat g (wtPath r) s of
               PathAbsent \<Rightarrow> Inr ()
             | PathFailed \<Rightarrow> Inl (Err ''stat failed'')
             | _ \<Rightarrow> Inl (WorktreeErr ''worktree must be removed before branch release''))) (\<lambda>_.
     bindS (askGit (assertHandoffReachable g r)) (\<lambda>_.
     bindS (askGit (ghBranchList g (wtRepositoryRoot r) (wtBranch r))) (\<lambda>listed.
     bindS (if listed = [] then okS ()
            else bindS (askGit (ghRevParse g (wtRepositoryRoot r) (wtBranch r))) (\<lambda>c.
                 bindS (checkS (c = expectedHead r) (WorktreeErr ''handoff branch identity mismatch'')) (\<lambda>_.
                 bindS (askGit (ghLease g)) (\<lambda>_.
                 runGit (ghDeleteBranch g (wtRepositoryRoot r) (wtBranch r)))))) (\<lambda>_.
     let released = r\<lparr>wtReleasedAt := Some now\<rparr> in
     bindS (askGit (ghLease g)) (\<lambda>_.
     bindS (writeRecord (wtRecordPath r) released) (\<lambda>_. okS released))))))))"

subsection \<open>Observing a worktree\<close>

datatype WorktreeObservation =
  ObservedAbsent | ObservedClean | ObservedDirty | BranchRetained | ObservedUnknown string

definition observeBranch :: "'g GitHost \<Rightarrow> WorktreeRecord \<Rightarrow> 'g \<Rightarrow> WorktreeObservation" where
  "observeBranch g r s =
     (case ghBranchList g (wtRepositoryRoot r) (wtBranch r) s of
        Inl _ \<Rightarrow> ObservedUnknown ''retained branch observation failed''
      | Inr listed \<Rightarrow>
          if listed = [] then
            (if wtReleasedAt r \<noteq> None then ObservedAbsent else ObservedUnknown ''branch disappeared without release'')
          else (case ghRevParse g (wtRepositoryRoot r) (wtBranch r) s of
                  Inl _ \<Rightarrow> ObservedUnknown ''retained branch observation failed''
                | Inr c \<Rightarrow> if c = expectedHead r then BranchRetained
                           else ObservedUnknown ''retained branch identity mismatch''))"

definition observeCheckout :: "'g GitHost \<Rightarrow> WorktreeRecord \<Rightarrow> 'g \<Rightarrow> WorktreeObservation" where
  "observeCheckout g r s =
     (case andThen (ghRealpath g (wtPath r) s) (\<lambda>p.
           andThen (ghToplevel g (wtPath r) s) (\<lambda>top.
           andThen (ghBranch g (wtPath r) s) (\<lambda>b.
           andThen (ghRevParse g (wtPath r) ''HEAD'' s) (\<lambda>h.
             if p \<noteq> wtPath r \<or> top \<noteq> wtPath r \<or> b \<noteq> wtBranch r \<or> h \<noteq> expectedHead r
             then Inr (ObservedUnknown ''worktree identity mismatch'')
             else andThen (ghStatusBytes g (wtPath r) s) (\<lambda>n. Inr (if n > 0 then ObservedDirty else ObservedClean)))))) of
        Inl _ \<Rightarrow> ObservedUnknown ''worktree inspection failed''
      | Inr v \<Rightarrow> v)"

definition observeWorktree :: "'g GitHost \<Rightarrow> WorktreeRecord \<Rightarrow> 'g \<Rightarrow> WorktreeObservation" where
  "observeWorktree g r s =
     (case ghStat g (wtPath r) s of
        PathOther \<Rightarrow> ObservedUnknown ''worktree path is not a directory''
      | PathFailed \<Rightarrow> ObservedUnknown ''worktree path observation failed''
      | PathAbsent \<Rightarrow> observeBranch g r s
      | PathDirectory \<Rightarrow> observeCheckout g r s)"

subsection \<open>Read-only snapshots\<close>

record SnapshotOptions =
  soTrees :: string
  soRecords :: string
  soRunId :: string
  soAttemptId :: string
  soWorkspace :: RunWorkspace
  soLeaseRun :: string
  soNow :: string

definition snapshotRecordOf :: "SnapshotOptions \<Rightarrow> string \<Rightarrow> SnapshotRecord" where
  "snapshotRecordOf opts commit =
     \<lparr>snRunId = soRunId opts, snAttemptId = soAttemptId opts,
      snRepositoryRoot = rwRepositoryRoot (soWorkspace opts),
      snPath = soTrees opts @ ''/'' @ soAttemptId opts,
      snRecordPath = soRecords opts @ ''/'' @ soAttemptId opts @ ''.json'',
      snCommit = commit, snCreatedAt = soNow opts\<rparr>"

definition openSnapshotRecord :: "SnapshotRecord \<Rightarrow> 'g WtWorld \<Rightarrow> unit res \<times> 'g WtWorld" where
  "openSnapshotRecord r w =
     (case linkEntry (snRecordPath r) (encoded r) (wwSnapshots w) of
        (False, _) \<Rightarrow> (Inl (WorktreeErr ''snapshot attempt is already reserved''), w)
      | (True, l) \<Rightarrow> (Inr (), w\<lparr>wwSnapshots := l\<rparr>))"

text \<open>The record is durable before the checkout exists.\<close>

definition createReadOnlySnapshot ::
  "'g GitHost \<Rightarrow> SnapshotOptions \<Rightarrow> 'g WtWorld \<Rightarrow> SnapshotRecord res \<times> 'g WtWorld" where
  "createReadOnlySnapshot g opts =
     bindS (checkS (soLeaseRun opts = soRunId opts) (WorktreeErr ''snapshot run lease identity mismatch'')) (\<lambda>_.
     bindS (askGit (ghLease g)) (\<lambda>_.
       case rwStartAt (soWorkspace opts) of
         None \<Rightarrow> failS (WorktreeErr ''read-only snapshot requires a read-only preflight with startAt'')
       | Some commit \<Rightarrow>
           bindS (checkS (rwMode (soWorkspace opts) = ReadOnly)
                    (WorktreeErr ''read-only snapshot requires a read-only preflight with startAt'')) (\<lambda>_.
           let r = snapshotRecordOf opts commit in
           bindS (checkS (checkSnapshotRecord r) (WorktreeErr ''invalid snapshot record'')) (\<lambda>_.
           bindS (openSnapshotRecord r) (\<lambda>_.
           bindS (catchS (bindS (askGit (ghLease g)) (\<lambda>_.
                          runGit (ghAddWorktree g (snRepositoryRoot r) None (snPath r) (snCommit r))))
                    (\<lambda>e. failS (WorktreeErr ''snapshot creation requires reconciliation''))) (\<lambda>_.
           okS r))))))"

definition unlinkSnapshotRecord :: "SnapshotRecord \<Rightarrow> 'g WtWorld \<Rightarrow> unit res \<times> 'g WtWorld" where
  "unlinkSnapshotRecord r w =
     (Inr (), w\<lparr>wwSnapshots := filter (\<lambda>e. fst e \<noteq> snRecordPath r) (wwSnapshots w)\<rparr>)"

definition snapshotPresent :: "'g GitHost \<Rightarrow> SnapshotRecord \<Rightarrow> 'g \<Rightarrow> bool res" where
  "snapshotPresent g r s =
     (case ghStat g (snPath r) s of
        PathAbsent \<Rightarrow> Inr False
      | PathDirectory \<Rightarrow> Inr True
      | PathFailed \<Rightarrow> Inl (Err ''stat failed'')
      | PathOther \<Rightarrow> Inl (WorktreeErr ''snapshot path is not a directory''))"

definition removeReadOnlySnapshot ::
  "'g GitHost \<Rightarrow> string \<Rightarrow> SnapshotRecord \<Rightarrow> 'g WtWorld \<Rightarrow> unit res \<times> 'g WtWorld" where
  "removeReadOnlySnapshot g leaseRun r =
     bindS (checkS (leaseRun = snRunId r) (WorktreeErr ''snapshot run lease identity mismatch'')) (\<lambda>_.
     bindS (askGit (ghLease g)) (\<lambda>_.
     bindS (askGit (snapshotPresent g r)) (\<lambda>present.
     bindS (if present then
              bindS (askGit (assertRealpath g (snPath r) ''snapshot path identity mismatch'')) (\<lambda>_.
              bindS (askGit (assertCheckout g (snPath r) [] (snCommit r) ''snapshot identity mismatch'')) (\<lambda>_.
              bindS (askGit (assertCleanStatus g (snPath r) ''modified snapshot is retained'')) (\<lambda>_.
              bindS (askGit (ghLease g)) (\<lambda>_.
              runGit (ghRemoveWorktree g (snRepositoryRoot r) False (snPath r))))))
            else
              bindS (askGit (ghRegistered g (snRepositoryRoot r) (snPath r))) (\<lambda>registered.
              if registered then
                bindS (askGit (ghLease g)) (\<lambda>_.
                runGit (ghRemoveWorktree g (snRepositoryRoot r) True (snPath r)))
              else okS ())) (\<lambda>_.
     unlinkSnapshotRecord r))))"

definition readSnapshotRecord :: "string \<Rightarrow> SnapshotRecord decoded \<Rightarrow> SnapshotRecord res" where
  "readSnapshotRecord path f =
     andThen (readChecked checkSnapshotRecord ''invalid snapshot record'' f) (\<lambda>r.
       if snRecordPath r \<noteq> path then Inl (WorktreeErr ''snapshot record path identity mismatch'') else Inr r)"

definition listRunSnapshots :: "string \<Rightarrow> 'g WtWorld \<Rightarrow> SnapshotRecord list res" where
  "listRunSnapshots runId w =
     andThen (mapRes (\<lambda>e. readSnapshotRecord (fst e) (snd e))
        (filter (\<lambda>e. endsWith (fst e) ''.json'') (sort_key fst (wwSnapshots w)))) (\<lambda>rs.
       Inr (filter (\<lambda>r. snRunId r = runId) rs))"

subsection \<open>The hand-off is one commit on the baseline\<close>

text \<open>
  What the code relies on in Git: a commit just written names its tree and its one parent and is the
  only commit beyond that parent; a reference just written resolves; writing a reference changes no
  commit.
\<close>

definition sameCommits :: "'g GitHost \<Rightarrow> string \<Rightarrow> 'g \<Rightarrow> 'g \<Rightarrow> bool" where
  "sameCommits g repo s t \<longleftrightarrow>
     (\<forall>c. (isOk (ghParents g repo c s) \<longrightarrow> ghParents g repo c t = ghParents g repo c s)
        \<and> (isOk (ghTreeOf g repo c s) \<longrightarrow> ghTreeOf g repo c t = ghTreeOf g repo c s)
        \<and> (\<forall>b. isOk (ghCount g repo b c s) \<longrightarrow> ghCount g repo b c t = ghCount g repo b c s))"

definition gitDocumented :: "'g GitHost \<Rightarrow> string \<Rightarrow> bool" where
  "gitDocumented g repo \<longleftrightarrow>
     (\<forall>d tree parent m s c t. ghCommitTree g d tree parent m s = (Inr c, t) \<longrightarrow>
        c \<noteq> parent \<and> ghParents g repo c t = Inr [c, parent] \<and> ghTreeOf g repo c t = Inr tree
        \<and> ghCount g repo parent c t = Inr ''1'')
     \<and> (\<forall>d ref c old s. sameCommits g repo s (snd (ghUpdateRef g d ref c old s)))
     \<and> (\<forall>ref c old s t. ghUpdateRef g repo ref c old s = (Inr (), t) \<longrightarrow> ghRef g repo ref t = RefAt c)"

definition oneCommit :: "'g GitHost \<Rightarrow> string \<Rightarrow> string \<Rightarrow> string \<Rightarrow> string \<Rightarrow> 'g \<Rightarrow> bool" where
  "oneCommit g repo baseline tree c s \<longleftrightarrow>
     ghParents g repo c s = Inr [c, baseline] \<and> ghTreeOf g repo c s = Inr tree \<and> ghCount g repo baseline c s = Inr ''1''"

lemma sameCommits_one: "sameCommits g repo s t \<Longrightarrow> oneCommit g repo b tree c s \<Longrightarrow> oneCommit g repo b tree c t"
  by (simp add: sameCommits_def oneCommit_def isOk_def)

lemma documented_update:
  "gitDocumented g repo \<Longrightarrow> ghUpdateRef g d ref c old s = (r, t) \<Longrightarrow> sameCommits g repo s t"
  unfolding gitDocumented_def by (metis snd_conv)

lemma askGit_Inl [simp]: "askGit q w = (Inl e, w') \<longleftrightarrow> q (wwGit w) = Inl e \<and> w' = w"
  by (auto simp: askGit_def readS_def)

lemma runGit_Inl [simp]: "runGit c w = (Inl e, w') \<longleftrightarrow> (\<exists>s. c (wwGit w) = (Inl e, s) \<and> w' = w\<lparr>wwGit := s\<rparr>)"
  by (auto simp: runGit_def split: prod.splits)

lemma resolve_Some [simp]: "resolveHandoffRef g repo ref s = Inr (Some c) \<longleftrightarrow> ghRef g repo ref s = RefAt c"
  by (auto simp: resolveHandoffRef_def split: refLookup.splits)

text \<open>The commit written: its tree differs from the baseline's.\<close>

lemma commitHandoff_one:
  assumes "gitDocumented g (wtRepositoryRoot r)" and "commitHandoff g r message w = (Inr c, w')"
  shows "\<exists>tree u b. oneCommit g (wtRepositoryRoot r) (wtBaselineHead r) tree c (wwGit w') \<and> c \<noteq> wtBaselineHead r
           \<and> ghTreeOf g (wtPath r) (wtBaselineHead r) u = Inr b \<and> tree \<noteq> b"
  using assms unfolding commitHandoff_def gitDocumented_def oneCommit_def
  by (simp add: require_def split: if_splits) fastforce

lemma pinHandoff_pins:
  assumes "gitDocumented g repo" and "pinHandoff g repo ref c w = (Inr u, w')"
  shows "ghRef g repo ref (wwGit w') = RefAt c \<and> sameCommits g repo (wwGit w) (wwGit w')"
proof -
  have "ghRef g repo ref t = RefAt c" if "ghUpdateRef g repo ref c [] s = (Inr (), t)" for s t
    using assms(1) that unfolding gitDocumented_def by blast
  then show ?thesis using assms(2) documented_update [OF assms(1)]
    unfolding pinHandoff_def by (auto simp: catchS_Inr)
qed

lemma export_of_one_commit:
  assumes "oneCommit g (wtRepositoryRoot h) (wtBaselineHead h) tree c s" and "c \<noteq> wtBaselineHead h"
    and "wtHandoffCommit h = Some c" and "wtHandoffRef h = Some ref" and "ghRef g (wtRepositoryRoot h) ref s = RefAt c"
    and "ghLease g s = Inr ()" and "checkWorktreeRecord h"
    and "ghPatch g (wtRepositoryRoot h) (wtBaselineHead h) c n s = PatchBytes content" and "content \<noteq> []"
    and "int (length content) \<le> n" and "n \<le> MAX_HANDOFF_EXPORT_BYTES" and "checkSha256 (sha content)"
  shows "exportWorktreeHandoff g sha (wtRunId h) n h s =
     Inr (\<lparr>hrRunId = wtRunId h, hrAttemptId = wtAttemptId h, hrBaselineHead = wtBaselineHead h,
           hrHandoffCommit = c, hrSha256 = sha content, hrBytes = length content\<rparr>, content)"
proof -
  have n: "1 \<le> n" using assms(9,10) by (cases content) simp_all
  have reach: "assertHandoffReachable g h s = Inr ()"
    using assms(3-5) by (simp add: assertHandoffReachable_def resolveHandoffRef_def)
  have one: "assertOneCommit g h c s = Inr ()"
    using assms(1) by (simp add: assertOneCommit_def oneCommit_def require_def)
  have "1 \<le> length content" using assms(9) by (cases content) simp_all
  then show ?thesis
    using assms n reach one
    by (simp add: exportWorktreeHandoff_def require_def Let_def checkHandoffExport_def checkWorktreeRecord_def
        checkOptional_def)
qed


text \<open>The witness's Git: commits as identifiers with a tree and a parent, references, and one checkout.\<close>

record demoGitState =
  dgCommits :: "(string \<times> string \<times> string) list"
  dgRefs :: "(string \<times> string) list"
  dgHead :: string

definition demoCommit :: "string \<Rightarrow> string" where
  "demoCommit parent = map (\<lambda>c. if c = CHR ''a'' then CHR ''b'' else CHR ''a'') parent"

definition demoLookup :: "string \<Rightarrow> demoGitState \<Rightarrow> (string \<times> string) res" where
  "demoLookup c s = (case map_of (dgCommits s) c of None \<Rightarrow> Inl (Err ''bad object'') | Some x \<Rightarrow> Inr x)"

definition demoGit :: "demoGitState GitHost" where
  "demoGit =
     \<lparr>ghLease = \<lambda>s. Inr (), ghStat = \<lambda>p s. PathDirectory, ghRealpath = \<lambda>p s. Inr p,
      ghToplevel = \<lambda>d s. Inr d, ghBranch = \<lambda>d s. Inr ''b'', ghRevParse = \<lambda>d x s. Inr (dgHead s),
      ghRef = \<lambda>d ref s. (case map_of (dgRefs s) ref of None \<Rightarrow> RefMissing | Some c \<Rightarrow> RefAt c),
      ghStatusBytes = \<lambda>d s. Inr 0, ghUnstaged = \<lambda>d s. False,
      ghTreeOf = \<lambda>d c s. andThen (demoLookup c s) (\<lambda>x. Inr (fst x)),
      ghParents = \<lambda>d c s. andThen (demoLookup c s) (\<lambda>x. Inr [c, snd x]),
      ghCount = \<lambda>d b c s. andThen (demoLookup c s) (\<lambda>x. if snd x = b then Inr ''1'' else Inl (Err ''count'')),
      ghPatch = \<lambda>d b c n s. PatchBytes ''From'', ghBranchList = \<lambda>d b s. Inr b,
      ghRegistered = \<lambda>d p s. Inr False, ghAddAll = \<lambda>d s. (Inr (), s), ghWriteTree = \<lambda>d s. (Inr ''new'', s),
      ghCommitTree = \<lambda>d tree parent m s.
        (if demoCommit parent = parent then (Inl (Err ''empty id''), s)
         else (Inr (demoCommit parent), s\<lparr>dgCommits := (demoCommit parent, tree, parent) # dgCommits s\<rparr>)),
      ghUpdateRef = \<lambda>d ref c old s. (Inr (), s\<lparr>dgRefs := (ref, c) # dgRefs s\<rparr>),
      ghDeleteRef = \<lambda>d ref c s. (Inr (), s), ghAddWorktree = \<lambda>d b p c s. (Inr (), s),
      ghRemoveWorktree = \<lambda>d f p s. (Inr (), s), ghDeleteBranch = \<lambda>d b s. (Inr (), s)\<rparr>"

lemma demoGit_documented: "gitDocumented demoGit repo"
  unfolding gitDocumented_def sameCommits_def
  by (auto simp: demoGit_def demoLookup_def isOk_def split: if_splits)

definition demoWorktree :: WorktreeRecord where
  "demoWorktree = \<lparr>wtRunId = ''run_1'', wtAttemptId = ''attempt_1'', wtRepositoryRoot = ''/r'', wtPath = ''/w'',
     wtRecordPath = ''/s/a.json'', wtBranch = ''b'', wtBaselineHead = replicate 40 CHR ''a'', wtStartCommit = None,
     wtCreatedAt = ''now'', wtHandoffCommit = None, wtHandoffRef = None, wtReleasedAt = None\<rparr>"

definition demoWtWorld :: "demoGitState WtWorld" where
  "demoWtWorld = \<lparr>wwGit = \<lparr>dgCommits = [(replicate 40 CHR ''a'', ''old'', [])], dgRefs = [], dgHead = replicate 40 CHR ''a''\<rparr>,
     wwRecords = Map.empty, wwSnapshots = []\<rparr>"

definition demoCapture :: "WorktreeRecord res \<times> demoGitState WtWorld" where
  "demoCapture = captureWorktreeHandoff demoGit ''run_1'' demoWorktree ''message'' demoWtWorld"

lemma demoCapture_ok: "isOk (fst demoCapture)" by code_simp

lemma demoCapture_eq: "\<exists>h w'. captureWorktreeHandoff demoGit ''run_1'' demoWorktree ''message'' demoWtWorld = (Inr h, w')"
  using demoCapture_ok unfolding demoCapture_def isOk_def
  by (cases "captureWorktreeHandoff demoGit ''run_1'' demoWorktree ''message'' demoWtWorld") (auto split: sum.splits)


subsection \<open>Work is never removed\<close>

text \<open>What has to hold of a checkout for the code to remove it.\<close>

definition removable :: "'g GitHost \<Rightarrow> string \<Rightarrow> string \<Rightarrow> string \<Rightarrow> 'g \<Rightarrow> bool" where
  "removable g path branch head s \<longleftrightarrow>
     ghLease g s = Inr () \<and> ghStat g path s = PathDirectory \<and> ghRealpath g path s = Inr path
     \<and> ghStatusBytes g path s = Inr 0 \<and> ghToplevel g path s = Inr path \<and> ghBranch g path s = Inr branch
     \<and> ghRevParse g path ''HEAD'' s = Inr head"

lemma bindS_snd: "snd (bindS m f w) = (case m w of (Inl e, v) \<Rightarrow> v | (Inr a, v) \<Rightarrow> snd (f a v))"
  by (simp add: bindS_def split: prod.splits sum.splits)

lemma bindS_askGit: "bindS (askGit q) f w = (case q (wwGit w) of Inl e \<Rightarrow> (Inl e, w) | Inr a \<Rightarrow> f a w)"
  by (simp add: bindS_def askGit_def readS_def split: sum.splits)

lemma bindS_checkS: "bindS (checkS c e) f w = (if c then f () w else (Inl e, w))"
  by (simp add: bindS_def checkS_def)

lemma assertions_Inr [simp]:
  "assertDirectory g p m s = Inr u \<longleftrightarrow> ghStat g p s = PathDirectory"
  "assertRealpath g p m s = Inr u \<longleftrightarrow> ghRealpath g p s = Inr p"
  "assertCleanStatus g p m s = Inr u \<longleftrightarrow> ghStatusBytes g p s = Inr 0"
  by (auto simp: assertDirectory_def assertRealpath_def assertCleanStatus_def split: pathKind.splits)

lemma assertions_hold:
  assumes "removable g path branch head s"
  shows "ghLease g s = Inr ()" "assertDirectory g path m s = Inr ()" "assertRealpath g path m s = Inr ()"
    "assertCleanStatus g path m s = Inr ()" "assertCheckout g path branch head m s = Inr ()"
  using assms by (simp_all add: removable_def)

lemma removeCleanWorktree_removable:
  assumes "leaseRun = wtRunId r" and "removable g (wtPath r) (wtBranch r) (expectedHead r) (wwGit w)"
  shows "removeCleanWorktree g leaseRun r w = runGit (ghRemoveWorktree g (wtRepositoryRoot r) False (wtPath r)) w"
  unfolding removeCleanWorktree_def bindS_askGit bindS_checkS
  by (simp add: assertions_hold [OF assms(2)] assms(1))

lemma removeCleanWorktree_refused:
  assumes "\<not> (leaseRun = wtRunId r \<and> removable g (wtPath r) (wtBranch r) (expectedHead r) (wwGit w))"
  shows "\<exists>e. removeCleanWorktree g leaseRun r w = (Inl e, w)"
  using assms unfolding removeCleanWorktree_def removable_def bindS_askGit bindS_checkS
  by (auto split: sum.splits)

definition snapshotRemovable :: "'g GitHost \<Rightarrow> SnapshotRecord \<Rightarrow> 'g \<Rightarrow> bool" where
  "snapshotRemovable g r s \<longleftrightarrow>
     ghStat g (snPath r) s = PathAbsent \<or> removable g (snPath r) [] (snCommit r) s"

lemma removeReadOnlySnapshot_refused:
  assumes "\<not> (leaseRun = snRunId r \<and> snapshotRemovable g r (wwGit w))"
  shows "\<exists>e. removeReadOnlySnapshot g leaseRun r w = (Inl e, w)"
proof (cases "leaseRun = snRunId r \<and> ghLease g (wwGit w) = Inr ()")
  case True
  then have nr: "ghStat g (snPath r) (wwGit w) \<noteq> PathAbsent"
      "\<not> removable g (snPath r) [] (snCommit r) (wwGit w)"
    using assms by (auto simp: snapshotRemovable_def)
  show ?thesis
  proof (cases "snapshotPresent g r (wwGit w)")
    case (Inl e)
    then show ?thesis using True by (simp add: removeReadOnlySnapshot_def bindS_askGit bindS_checkS)
  next
    case (Inr b)
    then have b: b and dir: "ghStat g (snPath r) (wwGit w) = PathDirectory"
      using nr(1) by (auto simp: snapshotPresent_def split: pathKind.splits)
    have "\<exists>e. bindS (askGit (assertRealpath g (snPath r) ''snapshot path identity mismatch'')) (\<lambda>_.
              bindS (askGit (assertCheckout g (snPath r) [] (snCommit r) ''snapshot identity mismatch'')) (\<lambda>_.
              bindS (askGit (assertCleanStatus g (snPath r) ''modified snapshot is retained'')) (\<lambda>_.
              bindS (askGit (ghLease g)) (\<lambda>_.
              runGit (ghRemoveWorktree g (snRepositoryRoot r) False (snPath r)))))) w = (Inl e, w)"
      using nr(2) dir True unfolding removable_def bindS_askGit by (auto split: sum.splits)
    then show ?thesis using True Inr b
      by (auto simp: removeReadOnlySnapshot_def bindS_askGit bindS_checkS bindS_def [of "bindS _ _"])
  qed
next
  case False
  then show ?thesis
    unfolding removeReadOnlySnapshot_def bindS_askGit bindS_checkS by (auto split: sum.splits)
qed

text \<open>
  C17: Neither a worktree with changes nor a modified snapshot is ever removed. Whatever else fails, Git's
  state is touched by \<open>removeCleanWorktree\<close> only for the directory of the record, when Git reports no
  change in it, when it is on the recorded branch and when its head is the commit the record expects (the
  hand-off once captured, its start otherwise), under the run's current lease; and a snapshot's checkout
  and record are touched only when the checkout is gone or is the recorded commit, detached and unmodified.
\<close>

theorem only_clean_checkouts_removed:
  "(snd (removeCleanWorktree g leaseRun r w) = w
     \<or> (leaseRun = wtRunId r \<and> removable g (wtPath r) (wtBranch r) (expectedHead r) (wwGit w)
        \<and> wwGit (snd (removeCleanWorktree g leaseRun r w))
            = snd (ghRemoveWorktree g (wtRepositoryRoot r) False (wtPath r) (wwGit w))))
   \<and> (snd (removeReadOnlySnapshot g leaseRun sn w) = w
     \<or> (leaseRun = snRunId sn \<and> snapshotRemovable g sn (wwGit w)))"
proof -
  have "wwGit (snd (runGit (ghRemoveWorktree g (wtRepositoryRoot r) False (wtPath r)) w))
      = snd (ghRemoveWorktree g (wtRepositoryRoot r) False (wtPath r) (wwGit w))"
    by (simp add: runGit_def split: prod.splits)
  then show ?thesis
    using removeCleanWorktree_removable [of leaseRun r g w] removeCleanWorktree_refused [of leaseRun r g w]
      removeReadOnlySnapshot_refused [of leaseRun sn g w] by (metis snd_conv)
qed

text \<open>The record a capture returns differs from the attempt's in the hand-off alone.\<close>

lemma captured_same:
  assumes "captureWorktreeHandoff g leaseRun r message w = (Inr h, v)"
  shows "wtPath h = wtPath r \<and> wtBranch h = wtBranch r \<and> wtRepositoryRoot h = wtRepositoryRoot r"
  using assms unfolding captureWorktreeHandoff_def Let_def by auto

lemma finalize_parts:
  assumes "finalizeWorktreeHandoff g leaseRun r message w = (Inr h, w')"
  obtains v where "captureWorktreeHandoff g leaseRun r message w
         = (case h of None \<Rightarrow> Inl WorktreeNoChanges | Some k \<Rightarrow> Inr k, v)"
    and "removeCleanWorktree g leaseRun (case h of None \<Rightarrow> r | Some k \<Rightarrow> k) v = (Inr (), w')"
proof -
  obtain x v where c: "captureWorktreeHandoff g leaseRun r message w = (x, v)" by fastforce
  show ?thesis
    using assms that unfolding finalizeWorktreeHandoff_def
    by (cases x) (auto simp: catchS_def okS_def failS_def bindS_def c split: if_splits prod.splits sum.splits)
qed


definition demoGitAtRef :: "demoGitState GitHost" where
  "demoGitAtRef = demoGit\<lparr>ghRevParse := \<lambda>d x s. Inr (case dgRefs s of [] \<Rightarrow> dgHead s | e # _ \<Rightarrow> snd e)\<rparr>"

lemma demoFinalize_ok:
  "case fst (finalizeWorktreeHandoff demoGitAtRef ''run_1'' demoWorktree ''message'' demoWtWorld) of
     Inr (Some k) \<Rightarrow> wtHandoffCommit k = Some (demoCommit (replicate 40 CHR ''a'')) | _ \<Rightarrow> False"
  by code_simp


end
