(* ===== verification/Budget.thy ===== *)
theory Budget
  imports Contracts
begin

section \<open>Budgets and deadlines (\<open>src/runtime/budget.ts\<close>, \<open>src/runtime/deadline.ts\<close>)\<close>

text \<open>
  The accounting of one attempt: how much of a token, cost or time budget is used, when the
  session is told to converge, the attempt deadline that can be paused, and the byte bound on
  the attempt's output (\<open>src/runtime/attempt.ts\<close>). Time is a rational number of milliseconds.
\<close>

subsection \<open>Usage\<close>

definition remainingTotalTokens :: "int option \<Rightarrow> Usage \<Rightarrow> int option" where
  "remainingTotalTokens limit u = map_option (\<lambda>l. l - usageTotalTokens u) limit"

text \<open>\<open>usage(session)\<close> of the attempt: the sum over the assistant messages of the session.\<close>

datatype sessionMessage = AssistantMessage Usage | OtherMessage

definition addUsage :: "Usage \<Rightarrow> Usage \<Rightarrow> Usage" where
  "addUsage t u = \<lparr>usageInput = usageInput t + usageInput u, usageOutput = usageOutput t + usageOutput u,
     cacheRead = cacheRead t + cacheRead u, cacheWrite = cacheWrite t + cacheWrite u,
     usageTotalTokens = usageTotalTokens t + usageTotalTokens u, usageCost = usageCost t + usageCost u\<rparr>"

fun addMessage :: "Usage \<Rightarrow> sessionMessage \<Rightarrow> Usage" where
  "addMessage t (AssistantMessage u) = addUsage t u"
| "addMessage t OtherMessage = t"

definition sessionUsage :: "sessionMessage list \<Rightarrow> Usage" where
  "sessionUsage ms = foldl addMessage emptyUsage ms"

definition subtractUsage :: "Usage \<Rightarrow> Usage \<Rightarrow> Usage" where
  "subtractUsage t b = \<lparr>usageInput = max 0 (usageInput t - usageInput b),
     usageOutput = max 0 (usageOutput t - usageOutput b),
     cacheRead = max 0 (cacheRead t - cacheRead b), cacheWrite = max 0 (cacheWrite t - cacheWrite b),
     usageTotalTokens = max 0 (usageTotalTokens t - usageTotalTokens b),
     usageCost = max 0 (usageCost t - usageCost b)\<rparr>"

lemma addUsage_check: "checkUsage t \<Longrightarrow> checkUsage u \<Longrightarrow> checkUsage (addUsage t u)"
  by (simp add: checkUsage_def addUsage_def)

lemma checkUsage_empty [simp]: "checkUsage emptyUsage"
  by (simp add: checkUsage_def emptyUsage_def)

lemma checkUsage_subtract [simp]: "checkUsage (subtractUsage t b)"
  by (simp add: checkUsage_def subtractUsage_def)

lemma addUsage_assoc: "addUsage (addUsage a b) c = addUsage a (addUsage b c)"
  by (simp add: addUsage_def)

lemma addUsage_empty [simp]: "addUsage emptyUsage u = u" "addUsage u emptyUsage = u"
  by (simp_all add: addUsage_def emptyUsage_def)

lemma foldl_addMessage: "foldl addMessage a ns = addUsage a (foldl addMessage emptyUsage ns)"
proof (induction ns arbitrary: a)
  case Nil
  then show ?case by simp
next
  case (Cons m ns)
  have "foldl addMessage (addMessage a m) ns = addUsage (addMessage a m) (foldl addMessage emptyUsage ns)"
    by (rule Cons.IH)
  moreover have "foldl addMessage (addMessage emptyUsage m) ns
      = addUsage (addMessage emptyUsage m) (foldl addMessage emptyUsage ns)"
    by (rule Cons.IH)
  moreover have "addMessage a m = addUsage a (addMessage emptyUsage m)" by (cases m) simp_all
  ultimately show ?case by (simp add: addUsage_assoc)
qed

lemma sessionUsage_append: "sessionUsage (ms @ ns) = addUsage (sessionUsage ms) (sessionUsage ns)"
  unfolding sessionUsage_def foldl_append by (rule foldl_addMessage)

lemma sessionUsage_check:
  "(\<And>u. AssistantMessage u \<in> set ms \<Longrightarrow> checkUsage u) \<Longrightarrow> checkUsage (sessionUsage ms)"
proof (induction ms rule: rev_induct)
  case Nil
  then show ?case by (simp add: sessionUsage_def)
next
  case (snoc m ms)
  then show ?case by (cases m) (simp_all add: sessionUsage_def addUsage_check)
qed

text \<open>
  C38: The usage an attempt reports is exactly what its own messages cost: subtracting the usage
  the session had when the attempt took it over from the usage of the whole session leaves the
  sum over the messages added since, whatever the session held before.
\<close>

theorem attempt_usage_is_own:
  assumes "\<And>u. AssistantMessage u \<in> set own \<Longrightarrow> checkUsage u"
  shows "subtractUsage (sessionUsage (before @ own)) (sessionUsage before) = sessionUsage own"
proof -
  have "checkUsage (sessionUsage own)" using assms by (rule sessionUsage_check)
  then show ?thesis
    by (simp add: sessionUsage_append subtractUsage_def addUsage_def checkUsage_def)
qed

theorem attempt_usage_is_own_witness:
  "subtractUsage
     (sessionUsage ([AssistantMessage \<lparr>usageInput = 5, usageOutput = 2, cacheRead = 0, cacheWrite = 0,
        usageTotalTokens = 7, usageCost = 1/2\<rparr>] @ [OtherMessage]))
     (sessionUsage [AssistantMessage \<lparr>usageInput = 5, usageOutput = 2, cacheRead = 0, cacheWrite = 0,
        usageTotalTokens = 7, usageCost = 1/2\<rparr>]) = sessionUsage [OtherMessage]"
  by (rule attempt_usage_is_own) simp

subsection \<open>Budget pressure and steering\<close>

datatype BudgetTrigger = TriggerTokens | TriggerCost | TriggerRuntime | TriggerTimeout

definition BUDGET_STEERING_STAGES :: "rat list" where
  "BUDGET_STEERING_STAGES = [7/10, 9/10]"

definition usageBudgetPressures ::
  "Usage \<Rightarrow> Usage \<Rightarrow> rat \<Rightarrow> int option \<Rightarrow> (BudgetTrigger \<times> rat \<times> rat) list" where
  "usageBudgetPressures prior current costLimit tokenLimit =
     (case tokenLimit of
        None \<Rightarrow> []
      | Some l \<Rightarrow> [(TriggerTokens, of_int (usageTotalTokens prior + usageTotalTokens current), of_int l)])
     @ [(TriggerCost, usageCost prior + usageCost current, costLimit)]"

definition budgetStagesForPressure :: "rat \<Rightarrow> rat list" where
  "budgetStagesForPressure pressure = filter (\<lambda>stage. pressure \<ge> stage) BUDGET_STEERING_STAGES"

text \<open>
  \<open>queueBudgetSteering\<close> of the attempt: the highest stage announced so far and the notices
  queued, oldest first.
\<close>

record Steering =
  highestStage :: rat
  notices :: "(rat \<times> BudgetTrigger) list"

definition queueBudgetSteering :: "bool \<Rightarrow> rat \<Rightarrow> BudgetTrigger \<Rightarrow> Steering \<Rightarrow> Steering" where
  "queueBudgetSteering aborted stage trigger s =
     (if stage \<le> highestStage s \<or> aborted then s
      else s\<lparr>highestStage := stage, notices := notices s @ [(stage, trigger)]\<rparr>)"

text \<open>The turn-end handler: every stage of every pressure, in order.\<close>

definition steerPressures :: "bool \<Rightarrow> (BudgetTrigger \<times> rat \<times> rat) list \<Rightarrow> Steering \<Rightarrow> Steering" where
  "steerPressures aborted ps s =
     fold (\<lambda>(trigger, used, limit) s.
       fold (\<lambda>stage. queueBudgetSteering aborted stage trigger) (budgetStagesForPressure (used / limit)) s)
     ps s"

text \<open>A timer or a turn end of the attempt.\<close>

datatype steerEvent =
    StageTimer bool rat BudgetTrigger
  | TurnEnd bool "(BudgetTrigger \<times> rat \<times> rat) list"

fun steerStep :: "steerEvent \<Rightarrow> Steering \<Rightarrow> Steering" where
  "steerStep (StageTimer aborted stage trigger) s = queueBudgetSteering aborted stage trigger s"
| "steerStep (TurnEnd aborted ps) s = steerPressures aborted ps s"

definition steeringOk :: "Steering \<Rightarrow> bool" where
  "steeringOk s = (sorted_wrt (<) (map fst (notices s)) \<and>
     (\<forall>n \<in> set (notices s). fst n \<in> {7/10, 9/10} \<and> fst n \<le> highestStage s) \<and> 0 \<le> highestStage s)"

lemma queue_ok:
  "steeringOk s \<Longrightarrow> stage \<in> {7/10, 9/10} \<Longrightarrow> steeringOk (queueBudgetSteering ab stage tr s)"
  by (fastforce simp: steeringOk_def queueBudgetSteering_def sorted_wrt_append)

lemma stages_known: "stage \<in> set (budgetStagesForPressure p) \<Longrightarrow> stage \<in> {7/10, 9/10}"
  unfolding budgetStagesForPressure_def BUDGET_STEERING_STAGES_def by (auto split: if_splits)

lemma stages_fold_ok:
  "steeringOk s \<Longrightarrow>
     steeringOk (fold (\<lambda>stage. queueBudgetSteering ab stage tr) (budgetStagesForPressure p) s)"
proof (rule fold_invariant)
  show "steeringOk (queueBudgetSteering ab stage tr s)"
    if "stage \<in> set (budgetStagesForPressure p)" "steeringOk s" for stage s
    using that(2) stages_known [OF that(1)] by (rule queue_ok)
qed

lemma steerPressures_ok: "steeringOk s \<Longrightarrow> steeringOk (steerPressures ab ps s)"
  unfolding steerPressures_def
  by (rule fold_invariant) (simp_all add: stages_fold_ok split: prod.splits)

fun knownTimer :: "steerEvent \<Rightarrow> bool" where
  "knownTimer (StageTimer aborted stage trigger) = (stage \<in> set BUDGET_STEERING_STAGES)"
| "knownTimer (TurnEnd aborted ps) = True"

lemma steerStep_ok: "knownTimer e \<Longrightarrow> steeringOk s \<Longrightarrow> steeringOk (steerStep e s)"
  by (cases e) (auto simp: BUDGET_STEERING_STAGES_def intro: queue_ok steerPressures_ok)

lemma strict_sorted_two:
  "sorted_wrt (<) (xs :: rat list) \<Longrightarrow> set xs \<subseteq> {a, b} \<Longrightarrow> length xs \<le> 2"
  using strict_sorted_iff [of xs] card_mono [of "{a, b}" "set xs"] distinct_card [of xs]
    card_insert_le_m1 [of 2 "{b}" a] by (auto intro: order_trans)

text \<open>
  Whatever the order of turn ends and stage timers, an attempt's session gets at most two
  budget notices, never the same or a lower stage after a higher one: the announced stages are
  strictly increasing values of 0.7 and 0.9.
\<close>

theorem steering_notices_increase:
  assumes "\<forall>e \<in> set es. knownTimer e"
  shows "sorted_wrt (<) (map fst (notices (fold steerStep es \<lparr>highestStage = 0, notices = []\<rparr>)))
    \<and> length (notices (fold steerStep es \<lparr>highestStage = 0, notices = []\<rparr>)) \<le> 2"
proof -
  let ?s = "fold steerStep es \<lparr>highestStage = 0, notices = []\<rparr>"
  have ok: "steeringOk ?s"
    by (rule fold_invariant) (use assms steerStep_ok in \<open>auto simp: steeringOk_def\<close>)
  then have "set (map fst (notices ?s)) \<subseteq> {7/10, 9/10}" by (auto simp: steeringOk_def)
  with ok strict_sorted_two [of "map fst (notices ?s)" "7/10" "9/10"] show ?thesis
    by (simp add: steeringOk_def)
qed

theorem steering_notices_increase_witness:
  "length (notices (fold steerStep [TurnEnd False [(TriggerCost, 95, 100)], StageTimer False (7/10) TriggerRuntime]
     \<lparr>highestStage = 0, notices = []\<rparr>)) \<le> 2"
  using steering_notices_increase
    [of "[TurnEnd False [(TriggerCost, 95, 100)], StageTimer False (7/10) TriggerRuntime]"]
  by (simp add: BUDGET_STEERING_STAGES_def)

subsection \<open>The attempt deadline\<close>

text \<open>
  \<open>createAttemptDeadline\<close>: the time charged so far, the instant since which the clock runs, the
  instant at which the pending timer is due and the state of the abort signal.
\<close>

record Deadline =
  charged :: rat
  runningSince :: "rat option"
  timerDue :: "rat option"
  deadlineAborted :: bool

definition deadlineStop :: "rat \<Rightarrow> Deadline \<Rightarrow> Deadline" where
  "deadlineStop now d =
     d\<lparr>timerDue := None,
       charged := (case runningSince d of None \<Rightarrow> charged d | Some since \<Rightarrow> charged d + (now - since)),
       runningSince := None\<rparr>"

definition deadlineStart :: "int \<Rightarrow> rat \<Rightarrow> Deadline \<Rightarrow> Deadline" where
  "deadlineStart timeoutMs now d =
     (if runningSince d \<noteq> None \<or> deadlineAborted d then d
      else d\<lparr>runningSince := Some now,
             timerDue := Some (now + of_int (timerDelay (max 0 (of_int timeoutMs - charged d))))\<rparr>)"

definition chargedMs :: "rat \<Rightarrow> Deadline \<Rightarrow> int" where
  "chargedMs now d =
     max 0 (ceiling (charged d + (case runningSince d of None \<Rightarrow> 0 | Some since \<Rightarrow> now - since)))"

definition createAttemptDeadline :: "int \<Rightarrow> rat \<Rightarrow> Deadline" where
  "createAttemptDeadline timeoutMs now =
     deadlineStart timeoutMs now
       \<lparr>charged = 0, runningSince = None, timerDue = None, deadlineAborted = False\<rparr>"

text \<open>
  What can happen to a deadline at an instant. The timer callback runs only while a timer is
  pending and not before it is due; \<open>dispose\<close> is \<open>pause\<close>.
\<close>

datatype deadlineEvent = Pause | Resume | TimerFires

definition deadlineStep :: "int \<Rightarrow> rat \<times> deadlineEvent \<Rightarrow> Deadline \<Rightarrow> Deadline" where
  "deadlineStep timeoutMs ev d =
     (case ev of
        (now, Pause) \<Rightarrow> deadlineStop now d
      | (now, Resume) \<Rightarrow> deadlineStart timeoutMs now d
      | (now, TimerFires) \<Rightarrow>
          (case timerDue d of
             None \<Rightarrow> d
           | Some due \<Rightarrow> (if now < due then d else (deadlineStop now d)\<lparr>deadlineAborted := True\<rparr>)))"

definition deadlineRun :: "int \<Rightarrow> rat \<Rightarrow> (rat \<times> deadlineEvent) list \<Rightarrow> Deadline" where
  "deadlineRun timeoutMs t0 evs = fold (deadlineStep timeoutMs) evs (createAttemptDeadline timeoutMs t0)"

text \<open>
  The specification: the length of the intervals in which the deadline runs, read off the
  history: it runs from the start, a pause stops it and a resume starts it again.
\<close>

fun unpaused :: "bool \<Rightarrow> rat \<Rightarrow> (rat \<times> deadlineEvent) list \<Rightarrow> rat" where
  "unpaused running prev [] = 0"
| "unpaused running prev ((now, Pause) # evs) =
     (if running then now - prev else 0) + unpaused False now evs"
| "unpaused running prev ((now, Resume) # evs) =
     (if running then now - prev else 0) + unpaused True now evs"
| "unpaused running prev ((now, TimerFires) # evs) =
     (if running then now - prev else 0) + unpaused running now evs"

definition totalCharge :: "rat \<Rightarrow> Deadline \<Rightarrow> rat" where
  "totalCharge now d = charged d + (case runningSince d of None \<Rightarrow> 0 | Some since \<Rightarrow> now - since)"

definition deadlineOk :: "int \<Rightarrow> rat \<Rightarrow> Deadline \<Rightarrow> bool" where
  "deadlineOk timeoutMs t d =
     (0 \<le> charged d \<and>
      (deadlineAborted d \<longrightarrow> runningSince d = None \<and> of_int timeoutMs - 1 < charged d) \<and>
      (case runningSince d of
         None \<Rightarrow> timerDue d = None
       | Some since \<Rightarrow> since \<le> t \<and>
           timerDue d = Some (since + of_int (timerDelay (max 0 (of_int timeoutMs - charged d))))))"

lemma timerDelay_covers:
  assumes "timeoutMs \<le> 2147483647" and "0 \<le> c"
  shows "of_int timeoutMs - 1 < c + of_int (timerDelay (max 0 (of_int timeoutMs - c)))"
proof (cases "1 \<le> of_int timeoutMs - c")
  case True
  have "of_int timeoutMs \<le> (2147483647 :: rat)" using assms(1) by linarith
  then have "timerDelay (max 0 (of_int timeoutMs - c)) = floor (of_int timeoutMs - c)"
    using True assms(2) by (simp add: timerDelay_def max_def)
  then show ?thesis by linarith
next
  case False
  then have "timerDelay (max 0 (of_int timeoutMs - c)) = 1"
    by (simp add: timerDelay_def max_def)
  then show ?thesis using False by simp
qed

lemma deadlineStep_ok:
  assumes "deadlineOk timeoutMs t d" and "t \<le> now" and "timeoutMs \<le> 2147483647"
  shows "deadlineOk timeoutMs now (deadlineStep timeoutMs (now, e) d)"
proof (cases e)
  case Pause
  then show ?thesis using assms
    by (auto simp: deadlineOk_def deadlineStep_def deadlineStop_def split: option.splits)
next
  case Resume
  then show ?thesis using assms
    by (auto simp: deadlineOk_def deadlineStep_def deadlineStart_def split: option.splits)
next
  case TimerFires
  show ?thesis
  proof (cases "runningSince d")
    case None
    then show ?thesis using assms TimerFires
      by (simp add: deadlineOk_def deadlineStep_def)
  next
    case (Some since)
    then show ?thesis using assms TimerFires timerDelay_covers [of timeoutMs "charged d"]
      by (auto simp: deadlineOk_def deadlineStep_def deadlineStop_def)
  qed
qed

lemma deadlineRun_ok:
  "deadlineOk timeoutMs t d \<Longrightarrow> sorted (t # map fst evs) \<Longrightarrow> timeoutMs \<le> 2147483647 \<Longrightarrow>
     \<exists>t'. deadlineOk timeoutMs t' (fold (deadlineStep timeoutMs) evs d)"
proof (induction evs arbitrary: t d)
  case Nil
  then show ?case by auto
next
  case (Cons ev evs)
  obtain now e where ev: "ev = (now, e)" by (cases ev)
  have "deadlineOk timeoutMs now (deadlineStep timeoutMs ev d)"
    using Cons.prems ev deadlineStep_ok by simp
  moreover have "sorted (now # map fst evs)" using Cons.prems(2) ev by simp
  ultimately show ?case using Cons.IH Cons.prems(3) by simp
qed

lemma aborted_stays:
  "deadlineAborted d \<Longrightarrow> deadlineAborted (fold (deadlineStep timeoutMs) evs d)"
proof (induction evs arbitrary: d)
  case (Cons ev evs)
  then show ?case
    by (cases ev; cases "snd ev")
      (auto simp: deadlineStep_def deadlineStop_def deadlineStart_def split: option.splits)
qed simp

lemma step_charge:
  assumes "\<not> deadlineAborted (deadlineStep timeoutMs (now, e) d)"
  shows "totalCharge now (deadlineStep timeoutMs (now, e) d)
      = totalCharge prev d + (if runningSince d = None then 0 else now - prev)"
    and "(runningSince (deadlineStep timeoutMs (now, e) d) \<noteq> None)
      = (case e of Pause \<Rightarrow> False | Resume \<Rightarrow> True | TimerFires \<Rightarrow> runningSince d \<noteq> None)"
  using assms
  by (cases e; auto simp: totalCharge_def deadlineStep_def deadlineStop_def deadlineStart_def
      split: option.splits if_splits)+

lemma run_charge:
  "\<not> deadlineAborted (fold (deadlineStep timeoutMs) evs d) \<Longrightarrow>
     totalCharge now (fold (deadlineStep timeoutMs) evs d)
       = totalCharge prev d + unpaused (runningSince d \<noteq> None) prev (evs @ [(now, Pause)])"
proof (induction evs arbitrary: d prev)
  case Nil
  then show ?case by (auto simp: totalCharge_def split: option.splits)
next
  case (Cons ev evs)
  obtain t e where ev: "ev = (t, e)" by (cases ev)
  let ?d = "deadlineStep timeoutMs (t, e) d"
  have na: "\<not> deadlineAborted ?d" using Cons.prems ev aborted_stays by fastforce
  have "totalCharge now (fold (deadlineStep timeoutMs) (ev # evs) d)
      = totalCharge t ?d + unpaused (runningSince ?d \<noteq> None) t (evs @ [(now, Pause)])"
    using Cons.IH [of ?d t] Cons.prems ev by simp
  then show ?case
    unfolding step_charge(1) [OF na, of prev] step_charge(2) [OF na] ev
    by (cases e) auto
qed

text \<open>
  The attempt deadline charges exactly the time it is not paused, and never times out early:
  for every history of pauses, resumes and timer callbacks in time order, \<open>chargedMs\<close> of a deadline
  that has not fired is the unpaused time rounded up, and once the signal aborts at least
  \<open>attemptTimeoutMs\<close> whole milliseconds are charged, although timers drop fractions.
\<close>

theorem deadline_charges_unpaused_time:
  assumes "sorted (t0 # map fst evs)" and "1000 \<le> timeoutMs" and "timeoutMs \<le> 3600000"
  shows "if deadlineAborted (deadlineRun timeoutMs t0 evs)
     then timeoutMs \<le> chargedMs now (deadlineRun timeoutMs t0 evs)
     else chargedMs now (deadlineRun timeoutMs t0 evs)
       = max 0 (ceiling (unpaused True t0 (evs @ [(now, Pause)])))"
proof -
  let ?d0 = "createAttemptDeadline timeoutMs t0"
  have "deadlineOk timeoutMs t0 ?d0"
    by (simp add: deadlineOk_def createAttemptDeadline_def deadlineStart_def)
  with assms obtain t' where ok: "deadlineOk timeoutMs t' (deadlineRun timeoutMs t0 evs)"
    using deadlineRun_ok [of timeoutMs t0 ?d0 evs] by (auto simp: deadlineRun_def)
  have d0: "totalCharge t0 ?d0 = 0" "runningSince ?d0 = Some t0"
    by (simp_all add: totalCharge_def createAttemptDeadline_def deadlineStart_def)
  have eq: "chargedMs now d = max 0 (ceiling (totalCharge now d))" for d
    by (simp add: chargedMs_def totalCharge_def)
  show ?thesis
  proof (cases "deadlineAborted (deadlineRun timeoutMs t0 evs)")
    case True
    with ok have "of_int timeoutMs - 1 < totalCharge now (deadlineRun timeoutMs t0 evs)"
      by (simp add: deadlineOk_def totalCharge_def)
    then have "timeoutMs \<le> ceiling (totalCharge now (deadlineRun timeoutMs t0 evs))" by linarith
    then show ?thesis using True by (simp add: eq)
  next
    case False
    then show ?thesis using run_charge [of timeoutMs evs ?d0 now t0] d0
      by (simp add: eq deadlineRun_def)
  qed
qed

theorem deadline_charges_unpaused_time_witness:
  "chargedMs 50000 (deadlineRun 60000 0 [(1000, Pause), (41000, Resume)]) = 10000"
  using deadline_charges_unpaused_time [of 0 "[(1000, Pause), (41000, Resume)]" 60000 50000]
  by (simp add: deadlineRun_def createAttemptDeadline_def deadlineStart_def deadlineStep_def
      deadlineStop_def)

end
