(* ===== verification/Capacity.thy ===== *)
theory Capacity
  imports Files "HOL-Library.Word"
begin

section \<open>VM slots (\<open>src/sandbox/capacity.ts\<close>)\<close>

text \<open>
  Host VM capacity is counted in slots. A slot is held by an exclusive listener on a localhost
  port, so the operating system arbitrates between seats; the lease record beside it is
  information only. The world is what all seats share: the bound ports, the slot records, the
  recorded policy, the clock and the abort signal of the waiting call.
\<close>

definition MIN_DERIVED_PORT :: int where "MIN_DERIVED_PORT = 42000"
definition DERIVED_PORT_SPAN :: int where "DERIVED_PORT_SPAN = 20000"
definition INITIAL_POLL_MS :: int where "INITIAL_POLL_MS = 250"
definition MAX_POLL_MS :: int where "MAX_POLL_MS = 2000"

text \<open>\<open>Math.round\<close>.\<close>

definition mathRound :: "rat \<Rightarrow> int" where
  "mathRound x = floor (x + 1 / 2)"

definition vmCapacityExhaustedMessage :: "int \<Rightarrow> int \<Rightarrow> string" where
  "vmCapacityExhaustedMessage maxSlots waitedMs =
     ''VM capacity exhausted: '' @ showInt maxSlots @ '' slots busy for ''
       @ showInt (mathRound (of_int waitedMs / 1000)) @ '' s''"

definition validateMaxSlots :: "int \<Rightarrow> unit res" where
  "validateMaxSlots maxSlots =
     require (safeInteger maxSlots \<and> 1 \<le> maxSlots \<and> maxSlots \<le> MAX_SLOTS)
       (Err ''maxSlots must be an integer from 1 to 32'')"

definition validateWaitMs :: "int \<Rightarrow> unit res" where
  "validateWaitMs waitMs = require (safeInteger waitMs \<and> 0 \<le> waitMs)
     (Err ''capacity wait must be a non-negative safe integer'')"

definition validateOwner :: "string \<Rightarrow> unit res" where
  "validateOwner owner = require (trim owner \<noteq> [] \<and> length owner \<le> 256)
     (Err ''capacity owner must contain 1-256 UTF-8 bytes'')"

text \<open>\<open>digest32\<close> is the first four bytes of the SHA-256 of the root, read as a big-endian number.\<close>

definition deriveBasePort :: "(string \<Rightarrow> 32 word) \<Rightarrow> string \<Rightarrow> int" where
  "deriveBasePort digest32 storeRoot =
     MIN_DERIVED_PORT + uint (digest32 storeRoot) mod (DERIVED_PORT_SPAN - MAX_SLOTS + 1)"

definition validateBasePort :: "int \<Rightarrow> int \<Rightarrow> unit res" where
  "validateBasePort basePort maxSlots =
     require (safeInteger basePort \<and> 1024 \<le> basePort \<and> basePort + maxSlots - 1 \<le> 65535)
       (Err ''basePort does not provide a valid unprivileged slot range'')"

record VmCapacityPolicy =
  policyMaxSlots :: int
  policyBasePort :: int

record VmCapacityLeaseRecord =
  leaseId :: string
  leaseOwner :: string
  leaseSlot :: int
  leasePort :: int
  releaseRequested :: bool

record World =
  bound :: "int \<Rightarrow> string option"
  slotRecords :: "int \<Rightarrow> VmCapacityLeaseRecord option"
  policyFile :: "VmCapacityPolicy dir"
  worldNow :: rat
  abortReason :: "string option"

definition policyName :: string where "policyName = ''policy.json''"

text \<open>
  \<open>ensurePolicy\<close>: publish the policy if there is none, then compare with what is recorded.
\<close>

definition ensurePolicy :: "VmCapacityPolicy \<Rightarrow> World \<Rightarrow> unit res \<times> World" where
  "ensurePolicy policy w =
     (let w' = w\<lparr>policyFile := snd (linkFile policyName policy (policyFile w))\<rparr>
      in (andThen (readEntry policyName (policyFile w')) (\<lambda>current.
            require (policyMaxSlots current = policyMaxSlots policy
                     \<and> policyBasePort current = policyBasePort policy)
              (Err ''VM capacity policy mismatch'')), w'))"

record VmCapacityManager =
  maxSlots :: int
  basePort :: int
  capacityWaitMs :: int

definition createVmCapacityManager ::
  "(string \<Rightarrow> 32 word) \<Rightarrow> string \<Rightarrow> int \<Rightarrow> int option \<Rightarrow> int option \<Rightarrow> World
     \<Rightarrow> VmCapacityManager res \<times> World" where
  "createVmCapacityManager digest32 storeRoot slots basePortOption waitOption w =
     (let wait = (case waitOption of None \<Rightarrow> 600000 | Some ms \<Rightarrow> ms);
          base = (case basePortOption of None \<Rightarrow> deriveBasePort digest32 storeRoot | Some p \<Rightarrow> p)
      in case andThen (validateMaxSlots slots) (\<lambda>_. andThen (validateWaitMs wait) (\<lambda>_. validateBasePort base slots)) of
           Inl e \<Rightarrow> (Inl e, w)
         | Inr _ \<Rightarrow>
             (case ensurePolicy \<lparr>policyMaxSlots = slots, policyBasePort = base\<rparr> w of
                (Inl e, w') \<Rightarrow> (Inl e, w')
              | (Inr _, w') \<Rightarrow> (Inr \<lparr>maxSlots = slots, basePort = base, capacityWaitMs = wait\<rparr>, w')))"

subsection \<open>Taking and releasing a slot\<close>

text \<open>\<open>listen\<close>: an exclusive bind; \<open>None\<close> when the port is taken (\<open>EADDRINUSE\<close>).\<close>

definition listenPort :: "string \<Rightarrow> int \<Rightarrow> World \<Rightarrow> World option" where
  "listenPort holder port w =
     (case bound w port of
        Some _ \<Rightarrow> None
      | None \<Rightarrow> Some (w\<lparr>bound := (bound w)(port \<mapsto> holder)\<rparr>))"

definition closePort :: "string \<Rightarrow> int \<Rightarrow> World \<Rightarrow> World" where
  "closePort holder port w =
     (if bound w port = Some holder then w\<lparr>bound := (bound w)(port := None)\<rparr> else w)"

text \<open>
  The loop of \<open>tryAcquire\<close> over the slots from \<open>slot\<close> up; \<open>writeFails\<close> says whether writing the
  record of a slot fails.
\<close>

fun tryAcquire ::
  "nat \<Rightarrow> int \<Rightarrow> VmCapacityManager \<Rightarrow> (int \<Rightarrow> bool) \<Rightarrow> string \<Rightarrow> string \<Rightarrow> World
     \<Rightarrow> VmCapacityLeaseRecord option res \<times> World" where
  "tryAcquire 0 slot m writeFails lid owner w = (Inr None, w)"
| "tryAcquire (Suc n) slot m writeFails lid owner w =
     (case listenPort lid (basePort m + slot) w of
        None \<Rightarrow> tryAcquire n (slot + 1) m writeFails lid owner w
      | Some w' \<Rightarrow>
          (let r = \<lparr>leaseId = lid, leaseOwner = owner, leaseSlot = slot, leasePort = basePort m + slot,
                    releaseRequested = False\<rparr>
           in if writeFails slot
              then (Inl (Err ''slot record write failed''), closePort lid (basePort m + slot) w')
              else (Inr (Some r), w'\<lparr>slotRecords := (slotRecords w')(slot \<mapsto> r)\<rparr>)))"

text \<open>
  \<open>release\<close>: the first call records the request and closes the listener whatever the write does;
  later calls return the first call's promise. \<open>released\<close> says whether there was a call before.
\<close>

definition releaseLease ::
  "bool \<Rightarrow> bool \<Rightarrow> VmCapacityLeaseRecord \<Rightarrow> World \<Rightarrow> unit res \<times> World" where
  "releaseLease released writeFails r w =
     (if released then (Inr (), w)
      else let w' = (if writeFails then w
                     else w\<lparr>slotRecords := (slotRecords w)(leaseSlot r \<mapsto> r\<lparr>releaseRequested := True\<rparr>)\<rparr>);
               w'' = closePort (leaseId r) (leasePort r) w'
           in (if writeFails then Inl (Err ''slot record write failed'') else Inr (), w''))"

subsection \<open>Waiting for a slot\<close>

text \<open>
  The polling loop of \<open>acquire\<close>. \<open>rest ms w\<close> is the world after a sleep of \<open>ms\<close> milliseconds that
  started in \<open>w\<close>: what the other seats did meanwhile, and the clock. Two more cases come from the
  signal: a wait that is aborted ends with the signal's reason at the next check. \<open>startedAt\<close> is the
  clock at the call. \<open>fuel\<close> bounds the number of polls.
\<close>

fun acquireLoop ::
  "nat \<Rightarrow> (int \<Rightarrow> World \<Rightarrow> World) \<Rightarrow> VmCapacityManager \<Rightarrow> (int \<Rightarrow> bool) \<Rightarrow> string \<Rightarrow> string
     \<Rightarrow> int \<Rightarrow> rat \<Rightarrow> int \<Rightarrow> World \<Rightarrow> (VmCapacityLeaseRecord res \<times> World) option" where
  "acquireLoop 0 rest m writeFails lid owner waitMs startedAt pollMs w = None"
| "acquireLoop (Suc fuel) rest m writeFails lid owner waitMs startedAt pollMs w =
     (case abortReason w of
        Some reason \<Rightarrow> Some (Inl (Aborted reason), w)
      | None \<Rightarrow>
          (case tryAcquire (nat (maxSlots m)) 0 m writeFails lid owner w of
             (Inl e, w') \<Rightarrow> Some (Inl e, w')
           | (Inr (Some r), w') \<Rightarrow> Some (Inr r, w')
           | (Inr None, w') \<Rightarrow>
               (let waited = worldNow w' - startedAt; remaining = of_int waitMs - waited
                in if remaining \<le> 0
                   then Some (Inl (CapacityExhausted (maxSlots m) (mathRound waited)), w')
                   else acquireLoop fuel rest m writeFails lid owner waitMs startedAt
                          (min MAX_POLL_MS (pollMs * 2))
                          (rest (timerDelay (min (of_int pollMs) remaining)) w'))))"

definition acquire ::
  "nat \<Rightarrow> (int \<Rightarrow> World \<Rightarrow> World) \<Rightarrow> VmCapacityManager \<Rightarrow> (int \<Rightarrow> bool) \<Rightarrow> string \<Rightarrow> string
     \<Rightarrow> int option \<Rightarrow> World \<Rightarrow> (VmCapacityLeaseRecord res \<times> World) option" where
  "acquire fuel rest m writeFails lid owner waitOption w =
     (let waitMs = (case waitOption of None \<Rightarrow> capacityWaitMs m | Some ms \<Rightarrow> ms) in
      case andThen (validateOwner owner) (\<lambda>_. validateWaitMs waitMs) of
        Inl e \<Rightarrow> Some (Inl e, w)
      | Inr _ \<Rightarrow> acquireLoop fuel rest m writeFails lid owner waitMs (worldNow w) INITIAL_POLL_MS w)"

subsection \<open>What an acquisition yields\<close>

lemma tryAcquire_taken:
  "bound w (basePort m + slot) = Some h \<Longrightarrow>
     tryAcquire (Suc n) slot m fails lid owner w = tryAcquire n (slot + 1) m fails lid owner w"
  by (simp add: listenPort_def)

lemma tryAcquire_free:
  assumes "bound w (basePort m + slot) = None"
  shows "\<exists>r w'. tryAcquire (Suc n) slot m fails lid owner w = (r, w') \<and> policyFile w' = policyFile w
    \<and> (if fails slot then r = Inl (Err ''slot record write failed'') \<and> bound w' = bound w
       else bound w' = (bound w)(basePort m + slot \<mapsto> lid) \<and>
         (\<exists>lease. r = Inr (Some lease) \<and> leaseSlot lease = slot \<and> leaseId lease = lid
           \<and> leasePort lease = basePort m + slot))"
  using assms by (auto simp: listenPort_def closePort_def Let_def fun_upd_idem)

lemma tryAcquire_cases:
  "tryAcquire n slot m fails lid owner w = (t, w') \<Longrightarrow>
     policyFile w' = policyFile w \<and>
     (case t of
        Inl e \<Rightarrow> e = Err ''slot record write failed'' \<and> bound w' = bound w
      | Inr None \<Rightarrow> w' = w \<and> (\<forall>i. slot \<le> i \<and> i < slot + int n \<longrightarrow> bound w (basePort m + i) \<noteq> None)
      | Inr (Some r) \<Rightarrow> slot \<le> leaseSlot r \<and> leaseSlot r < slot + int n
          \<and> leasePort r = basePort m + leaseSlot r \<and> leaseId r = lid
          \<and> bound w (leasePort r) = None \<and> bound w' = (bound w)(leasePort r \<mapsto> lid))"
proof (induction n arbitrary: slot)
  case 0
  then show ?case by auto
next
  case (Suc n)
  show ?case
  proof (cases "bound w (basePort m + slot)")
    case None
    then show ?thesis
      using tryAcquire_free [of w m slot n fails lid owner] Suc.prems by (auto split: if_splits)
  next
    case (Some h)
    have here: "slot \<le> i \<Longrightarrow> i = slot \<or> slot + 1 \<le> i" for i by linarith
    have "tryAcquire n (slot + 1) m fails lid owner w = (t, w')"
      using Suc.prems Some by (simp only: tryAcquire_taken)
    from Suc.IH [OF this] Some show ?thesis
      by (cases t; cases "projr t") (auto dest: here)
  qed
qed

lemmas tryAcquire_lease = tryAcquire_cases [where t = "Inr (Some r)" for r, simplified]
lemmas tryAcquire_busy = tryAcquire_cases [where t = "Inr None", simplified]
lemmas tryAcquire_error = tryAcquire_cases [where t = "Inl e" for e, simplified]

definition acquireOutcome :: "VmCapacityManager \<Rightarrow> string \<Rightarrow> int \<Rightarrow> VmCapacityLeaseRecord res \<Rightarrow> World \<Rightarrow> bool" where
  "acquireOutcome m lid waitMs r w =
     (case r of
        Inr lease \<Rightarrow> 0 \<le> leaseSlot lease \<and> leaseSlot lease < maxSlots m
          \<and> leasePort lease = basePort m + leaseSlot lease \<and> bound w (leasePort lease) = Some lid
      | Inl (CapacityExhausted slots waited) \<Rightarrow> slots = maxSlots m \<and> waitMs \<le> waited
          \<and> (\<forall>slot \<in> {0..<maxSlots m}. bound w (basePort m + slot) \<noteq> None)
      | Inl _ \<Rightarrow> True)"

lemma acquireLoop_returns:
  assumes rest: "\<And>n w. worldNow w + of_int n \<le> worldNow (rest n w)" and pos: "0 \<le> maxSlots m"
  shows "1 \<le> fuel \<Longrightarrow> of_int waitMs - (worldNow w - startedAt) + 1 \<le> of_nat fuel \<Longrightarrow>
    \<exists>r w'. acquireLoop fuel rest m fails lid owner waitMs startedAt pollMs w = Some (r, w')
      \<and> acquireOutcome m lid waitMs r w'"
proof (induction fuel arbitrary: w pollMs)
  case 0
  then show ?case by simp
next
  case (Suc fuel)
  show ?case
  proof (cases "abortReason w")
    case (Some reason)
    then show ?thesis by (simp add: acquireOutcome_def)
  next
    case None
    obtain t w' where tryeq: "tryAcquire (nat (maxSlots m)) 0 m fails lid owner w = (t, w')" by fastforce
    show ?thesis
    proof (cases t)
      case (Inl e)
      then have "e = Err ''slot record write failed''" using tryeq tryAcquire_error by blast
      then show ?thesis using None tryeq Inl by (simp add: acquireOutcome_def)
    next
      case (Inr lo)
      show ?thesis
      proof (cases lo)
        case (Some r)
        then show ?thesis using None tryeq Inr tryAcquire_lease [of "nat (maxSlots m)" 0 m fails lid owner w r w'] pos
          by (auto simp: acquireOutcome_def)
      next
        case none: None
        then have busy: "w' = w" "\<forall>i \<in> {0..<maxSlots m}. bound w (basePort m + i) \<noteq> None"
          using tryeq Inr tryAcquire_busy [of "nat (maxSlots m)" 0 m fails lid owner w w'] pos by auto
        let ?waited = "worldNow w - startedAt"
        show ?thesis
        proof (cases "of_int waitMs - ?waited \<le> 0")
          case True
          then have "waitMs \<le> mathRound ?waited" by (simp add: mathRound_def le_floor_iff)
          then show ?thesis using True None tryeq Inr none busy
            by (simp add: acquireOutcome_def Let_def)
        next
          case False
          define ms where "ms = timerDelay (min (of_int pollMs) (of_int waitMs - ?waited))"
          have "worldNow w + 1 \<le> worldNow (rest ms w)"
            using rest [of w ms] timerDelay_pos [of "min (of_int pollMs) (of_int waitMs - ?waited)"]
            by (simp add: ms_def)
          moreover from False Suc.prems(2) have "1 \<le> fuel" by (cases fuel) auto
          ultimately have "\<exists>r w''. acquireLoop fuel rest m fails lid owner waitMs startedAt
              (min MAX_POLL_MS (pollMs * 2)) (rest ms w) = Some (r, w'')
              \<and> acquireOutcome m lid waitMs r w''"
            using Suc.prems(2) by (intro Suc.IH) auto
          then show ?thesis using False None tryeq Inr none busy(1)
            by (simp add: Let_def ms_def)
        qed
      qed
    qed
  qed
qed

text \<open>
  C37: Waiting for a slot always ends: whenever every sleep takes at least as long as asked, a call
  with a wait bound of \<open>waitMs\<close> milliseconds returns after at most \<open>waitMs + 1\<close> polls; a lease it
  returns is for a slot of the range whose port it now holds, and a capacity refusal comes only
  after the whole bound, with every slot busy.
\<close>

theorem acquire_returns:
  assumes "\<And>n w. worldNow w + of_int n \<le> worldNow (rest n w)" and "0 \<le> maxSlots m"
    and "nat waitMs + 1 \<le> fuel"
  shows "\<exists>r w'. acquire fuel rest m fails lid owner (Some waitMs) w = Some (r, w')
      \<and> acquireOutcome m lid waitMs r w'"
proof (cases "andThen (validateOwner owner) (\<lambda>_. validateWaitMs waitMs)")
  case (Inl e)
  then have "e \<noteq> CapacityExhausted a b" for a b
    by (auto simp: andThen_eq_Inl validateOwner_def validateWaitMs_def)
  then show ?thesis using Inl
    by (auto simp: acquire_def acquireOutcome_def split: error.splits)
next
  case (Inr u)
  have "of_int waitMs + 1 \<le> (of_nat (nat waitMs + 1) :: rat)"
    by (metis int_nat_eq of_int_of_nat_eq of_int_le_iff of_int_add of_int_1 nat_le_iff of_nat_add
        of_nat_1 add_le_cancel_right nat_le_eq_zle order_refl)
  also have "\<dots> \<le> of_nat fuel" using assms(3) of_nat_le_iff by blast
  finally show ?thesis
    using Inr acquireLoop_returns [OF assms(1,2), of fuel waitMs w "worldNow w"] assms(3)
    by (simp add: acquire_def)
qed

definition busyWorld :: World where
  "busyWorld = \<lparr>bound = (\<lambda>p. if p = 42000 then Some ''other'' else None), slotRecords = (\<lambda>_. None),
     policyFile = (\<lambda>_. None), worldNow = 0, abortReason = None\<rparr>"

theorem acquire_returns_witness:
  "\<exists>r w'. acquire 301 (\<lambda>n w. w\<lparr>worldNow := worldNow w + of_int n\<rparr>)
      \<lparr>maxSlots = 1, basePort = 42000, capacityWaitMs = 600000\<rparr> (\<lambda>_. False) ''me'' ''run/attempt''
      (Some 300) busyWorld = Some (r, w')
    \<and> acquireOutcome \<lparr>maxSlots = 1, basePort = 42000, capacityWaitMs = 600000\<rparr> ''me'' 300 r w'"
  by (rule acquire_returns) simp_all

subsection \<open>Seats sharing a root\<close>

text \<open>
  The seats of a host as a system: managers created on the shared root, and the leases they took,
  each with whether \<open>release\<close> was called. Lease ids are fresh (\<open>randomUUID\<close>).
\<close>

record CapacitySystem =
  sysWorld :: World
  managers :: "VmCapacityManager list"
  leases :: "(VmCapacityLeaseRecord \<times> bool) list"

datatype capacityEvent =
    NewManager int "int option" "int option"
  | TakeSlot VmCapacityManager "int \<Rightarrow> bool" string string
  | ReleaseSlot nat bool

definition capacityStep ::
  "(string \<Rightarrow> 32 word) \<Rightarrow> string \<Rightarrow> capacityEvent \<Rightarrow> CapacitySystem \<Rightarrow> CapacitySystem" where
  "capacityStep digest32 storeRoot ev s =
     (case ev of
        NewManager slots base wait \<Rightarrow>
          (case createVmCapacityManager digest32 storeRoot slots base wait (sysWorld s) of
             (Inl _, w) \<Rightarrow> s\<lparr>sysWorld := w\<rparr>
           | (Inr m, w) \<Rightarrow> s\<lparr>sysWorld := w, managers := m # managers s\<rparr>)
      | TakeSlot m fails lid owner \<Rightarrow>
          (if m \<in> set (managers s) \<and> lid \<notin> leaseId ` fst ` set (leases s)
           then (case tryAcquire (nat (maxSlots m)) 0 m fails lid owner (sysWorld s) of
                   (Inr (Some r), w) \<Rightarrow> s\<lparr>sysWorld := w, leases := leases s @ [(r, False)]\<rparr>
                 | (_, w) \<Rightarrow> s\<lparr>sysWorld := w\<rparr>)
           else s)
      | ReleaseSlot i fails \<Rightarrow>
          (if i < length (leases s)
           then (case leases s ! i of (r, released) \<Rightarrow>
                   s\<lparr>sysWorld := snd (releaseLease released fails r (sysWorld s)),
                     leases := (leases s)[i := (r, True)]\<rparr>)
           else s))"

definition heldLeases :: "CapacitySystem \<Rightarrow> VmCapacityLeaseRecord list" where
  "heldLeases s = map fst (filter (\<lambda>l. \<not> snd l) (leases s))"

definition capacityInv :: "CapacitySystem \<Rightarrow> bool" where
  "capacityInv s =
     ((\<forall>m \<in> set (managers s). policyFile (sysWorld s) policyName
          = Some \<lparr>policyMaxSlots = maxSlots m, policyBasePort = basePort m\<rparr> \<and> 1 \<le> maxSlots m)
      \<and> distinct (map (leaseId \<circ> fst) (leases s))
      \<and> (\<forall>r. (r, False) \<in> set (leases s) \<longrightarrow>
           bound (sysWorld s) (leasePort r) = Some (leaseId r) \<and>
           (\<exists>p. policyFile (sysWorld s) policyName = Some p
             \<and> policyBasePort p \<le> leasePort r \<and> leasePort r < policyBasePort p + policyMaxSlots p)))"

lemma capacityInv_bound:
  "capacityInv s \<Longrightarrow> (r, False) \<in> set (leases s) \<Longrightarrow> bound (sysWorld s) (leasePort r) = Some (leaseId r)"
  unfolding capacityInv_def by (elim conjE allE [where x = r]) simp

lemma createManager_policy:
  assumes "createVmCapacityManager dg rt slots base wait w = (res, w')"
  shows "bound w' = bound w"
    and "policyFile w policyName = Some p \<Longrightarrow> policyFile w' policyName = Some p"
    and "res = Inr m \<Longrightarrow> policyFile w' policyName
      = Some \<lparr>policyMaxSlots = maxSlots m, policyBasePort = basePort m\<rparr> \<and> 1 \<le> maxSlots m"
  using assms fs.create_keeps [of "policyFile w" policyName p]
  by (auto simp: createVmCapacityManager_def ensurePolicy_def Let_def validateMaxSlots_def
      split: sum.splits option.splits prod.splits)

lemma release_bound:
  "bound (snd (releaseLease released fails r w)) port =
     (if \<not> released \<and> port = leasePort r \<and> bound w port = Some (leaseId r) then None else bound w port)"
  by (auto simp: releaseLease_def closePort_def Let_def)

lemma release_policy: "policyFile (snd (releaseLease released fails r w)) = policyFile w"
  by (simp add: releaseLease_def closePort_def Let_def)

lemma capacityInv_new:
  assumes "capacityInv s"
  shows "capacityInv (capacityStep dg rt (NewManager slots base wait) s)"
proof -
  obtain r w where c: "createVmCapacityManager dg rt slots base wait (sysWorld s) = (r, w)" by fastforce
  have keep: "policyFile (sysWorld s) policyName = Some p \<Longrightarrow> policyFile w policyName = Some p" for p
    using createManager_policy(2) [OF c] .
  show ?thesis
  proof (cases r)
    case (Inl e)
    then show ?thesis using assms c keep createManager_policy(1) [OF c]
      by (auto simp: capacityInv_def capacityStep_def)
  next
    case (Inr m)
    then show ?thesis using assms c keep createManager_policy(1) [OF c] createManager_policy(3) [OF c Inr]
      by (fastforce simp: capacityInv_def capacityStep_def)
  qed
qed

lemma capacityInv_take:
  assumes "capacityInv s"
  shows "capacityInv (capacityStep dg rt (TakeSlot m fails lid owner) s)"
proof (cases "m \<in> set (managers s) \<and> lid \<notin> leaseId ` fst ` set (leases s)")
  case False
  then have "capacityStep dg rt (TakeSlot m fails lid owner) s = s" by (auto simp: capacityStep_def)
  then show ?thesis using assms by simp
next
  case True
  obtain t w where t: "tryAcquire (nat (maxSlots m)) 0 m fails lid owner (sysWorld s) = (t, w)"
    by fastforce
  have pol: "policyFile w = policyFile (sysWorld s)" using tryAcquire_cases [OF t] by simp
  show ?thesis
  proof (cases "\<exists>r. t = Inr (Some r)")
    case False
    then have "bound w = bound (sysWorld s)"
      using tryAcquire_cases [OF t] by (auto split: sum.splits option.splits)
    moreover have "capacityStep dg rt (TakeSlot m fails lid owner) s = s\<lparr>sysWorld := w\<rparr>"
      using True t False by (auto simp: capacityStep_def split: sum.splits option.splits)
    ultimately show ?thesis using assms pol by (simp add: capacityInv_def)
  next
    case ok: True
    then obtain r where r: "t = Inr (Some r)" by blast
    have f: "0 \<le> leaseSlot r" "leaseSlot r < maxSlots m" "leasePort r = basePort m + leaseSlot r"
        "leaseId r = lid" "bound (sysWorld s) (leasePort r) = None"
        "bound w = (bound (sysWorld s))(leasePort r \<mapsto> lid)"
      using tryAcquire_cases [OF t] assms True by (auto simp: r capacityInv_def)
    have "capacityStep dg rt (TakeSlot m fails lid owner) s
        = s\<lparr>sysWorld := w, leases := leases s @ [(r, False)]\<rparr>"
      using True t r by (simp add: capacityStep_def)
    moreover have "capacityInv (s\<lparr>sysWorld := w, leases := leases s @ [(r, False)]\<rparr>)"
      using assms True f pol by (fastforce simp: capacityInv_def image_iff)
    ultimately show ?thesis by simp
  qed
qed

lemma capacityInv_release:
  assumes inv: "capacityInv s"
  shows "capacityInv (capacityStep dg rt (ReleaseSlot i fails) s)"
proof (cases "i < length (leases s)")
  case False
  then show ?thesis using inv by (simp add: capacityStep_def)
next
  case True
  obtain r released where ri: "leases s ! i = (r, released)" by fastforce
  have ids: "map (leaseId \<circ> fst) ((leases s)[i := (r, True)]) = map (leaseId \<circ> fst) (leases s)"
    unfolding map_update using True ri
    by (metis comp_apply fst_conv list_update_id nth_map)
  have other: "leaseId r' \<noteq> leaseId r" if "(r', False) \<in> set ((leases s)[i := (r, True)])" for r'
  proof -
    from that obtain j where j0: "j < length (leases s)" "(leases s)[i := (r, True)] ! j = (r', False)"
      by (auto simp: in_set_conv_nth)
    then have "j \<noteq> i" by auto
    with j0 have j: "j < length (leases s)" "j \<noteq> i" "leases s ! j = (r', False)" by auto
    moreover have "distinct (map (leaseId \<circ> fst) (leases s))" using inv by (simp add: capacityInv_def)
    ultimately show ?thesis using True ri
      by (metis comp_apply fst_conv length_map nth_eq_iff_index_eq nth_map)
  qed
  have old: "(r', False) \<in> set (leases s)" if "(r', False) \<in> set ((leases s)[i := (r, True)])" for r'
    using that set_update_subset_insert by fastforce
  show ?thesis
    using inv True ri ids other old
    by (fastforce simp: capacityInv_def capacityStep_def release_bound release_policy)
qed

lemma capacityInv_run: "capacityInv s \<Longrightarrow> capacityInv (fold (capacityStep dg rt) evs s)"
proof (rule fold_invariant)
  fix ev s assume "capacityInv s"
  then show "capacityInv (capacityStep dg rt ev s)"
    by (cases ev) (simp_all add: capacityInv_new capacityInv_take capacityInv_release)
qed

definition emptySystem :: CapacitySystem where
  "emptySystem = \<lparr>sysWorld = \<lparr>bound = (\<lambda>_. None), slotRecords = (\<lambda>_. None), policyFile = (\<lambda>_. None),
     worldNow = 0, abortReason = None\<rparr>, managers = [], leases = []\<rparr>"

lemma held_filter: "set (heldLeases s) = {r. (r, False) \<in> set (leases s)}"
  by (force simp: heldLeases_def)

lemma held_ports_distinct: "capacityInv s \<Longrightarrow> distinct (map leasePort (heldLeases s))"
proof -
  assume inv: "capacityInv s"
  have "distinct (map leaseId (heldLeases s))"
    using inv unfolding capacityInv_def heldLeases_def
    by (metis (no_types, lifting) distinct_map_filter map_map)
  moreover have "inj_on leasePort (set (heldLeases s))"
  proof (rule inj_onI)
    fix a b assume ab: "a \<in> set (heldLeases s)" "b \<in> set (heldLeases s)" "leasePort a = leasePort b"
    have "bound (sysWorld s) (leasePort r) = Some (leaseId r)" if "r \<in> set (heldLeases s)" for r
      using that capacityInv_bound [OF inv] by (simp add: held_filter)
    from this [OF ab(1)] this [OF ab(2)]
    have "leaseId a = leaseId b" using ab(3) by simp
    with ab show "a = b" using \<open>distinct (map leaseId (heldLeases s))\<close>
      by (auto simp: distinct_map inj_on_def)
  qed
  ultimately show ?thesis by (simp add: distinct_map)
qed

text \<open>
  C1: However many seats share a root and in whatever order they create managers, take slots and
  release them, all managers count the same slots, the leases held at any moment are on distinct
  ports, each port bound by its own lease, and there are never more of them than \<open>maxSlots\<close>. In
  particular a second release of a lease never frees a slot that was taken since.
\<close>

theorem capacity_never_exceeded:
  "let s = fold (capacityStep digest32 storeRoot) evs emptySystem in
     distinct (map leasePort (heldLeases s)) \<and>
     (\<forall>m \<in> set (managers s). \<forall>m' \<in> set (managers s).
        maxSlots m = maxSlots m' \<and> basePort m = basePort m' \<and>
        int (length (heldLeases s)) \<le> maxSlots m) \<and>
     (\<forall>r \<in> set (heldLeases s). bound (sysWorld s) (leasePort r) = Some (leaseId r))"
proof -
  define s where "s = fold (capacityStep digest32 storeRoot) evs emptySystem"
  have inv: "capacityInv s"
    unfolding s_def by (rule capacityInv_run) (simp add: capacityInv_def emptySystem_def)
  note d = held_ports_distinct [OF inv]
  have len: "int (length (heldLeases s)) \<le> maxSlots m" if "m \<in> set (managers s)" for m
  proof -
    have "set (map leasePort (heldLeases s)) \<subseteq> {basePort m..<basePort m + maxSlots m}"
      using inv that by (fastforce simp: held_filter capacityInv_def)
    then have "card (set (map leasePort (heldLeases s))) \<le> nat (maxSlots m)"
      using card_mono [of "{basePort m..<basePort m + maxSlots m}"] by simp
    then show ?thesis using distinct_card [OF d] inv that
      by (auto simp: capacityInv_def)
  qed
  have "maxSlots m = maxSlots m' \<and> basePort m = basePort m'"
    if "m \<in> set (managers s)" "m' \<in> set (managers s)" for m m'
  proof -
    have "Some \<lparr>policyMaxSlots = maxSlots m, policyBasePort = basePort m\<rparr>
        = Some \<lparr>policyMaxSlots = maxSlots m', policyBasePort = basePort m'\<rparr>"
      using inv that unfolding capacityInv_def by metis
    then show ?thesis by simp
  qed
  moreover have "\<forall>r \<in> set (heldLeases s). bound (sysWorld s) (leasePort r) = Some (leaseId r)"
    using capacityInv_bound [OF inv] by (simp add: held_filter)
  ultimately show ?thesis using d len unfolding s_def [symmetric] Let_def by blast
qed

definition demoEvents :: "capacityEvent list" where
  "demoEvents = [NewManager 1 (Some 42000) None]"

lemma demo_policy:
  "ensurePolicy \<lparr>policyMaxSlots = 1, policyBasePort = 42000\<rparr> (sysWorld emptySystem)
     = (Inr (), (sysWorld emptySystem)\<lparr>policyFile := [policyName \<mapsto> \<lparr>policyMaxSlots = 1, policyBasePort = 42000\<rparr>]\<rparr>)"
  unfolding ensurePolicy_def emptySystem_def Let_def linkFile_def readEntry_def
  by (simp del: andThen_eq_Inr)

lemma demo_managers:
  "managers (fold (capacityStep (\<lambda>_. 0) ''root'') demoEvents emptySystem)
     = [\<lparr>maxSlots = 1, basePort = 42000, capacityWaitMs = 600000\<rparr>]"
proof -
  have "andThen (validateMaxSlots 1) (\<lambda>_. andThen (validateWaitMs 600000) (\<lambda>_. validateBasePort 42000 1)) = Inr ()"
    by (simp add: validateMaxSlots_def validateWaitMs_def validateBasePort_def
        safeInteger_def MAX_SAFE_INTEGER_def MAX_SLOTS_def)
  then show ?thesis
    by (simp add: demoEvents_def capacityStep_def createVmCapacityManager_def demo_policy)
      (simp add: emptySystem_def)
qed

theorem capacity_never_exceeded_witness:
  "int (length (heldLeases (fold (capacityStep (\<lambda>_. 0) ''root'') demoEvents emptySystem))) \<le> 1"
  using capacity_never_exceeded [of "\<lambda>_. 0" "''root''" demoEvents] demo_managers
  by (simp add: Let_def)

end
