(* ===== verification/Failure.thy ===== *)
theory Failure
  imports Capacity
begin

section \<open>Failure classification (\<open>src/runtime/failure.ts\<close>)\<close>

text \<open>
  How the error that ended an attempt becomes the classified failure of its result. What was
  thrown is its name and message when it is an \<open>Error\<close>, or the string of another value; the
  slots and the wait of a capacity refusal are kept.
\<close>

definition MAX_MESSAGE_BYTES :: nat where "MAX_MESSAGE_BYTES = 4096"
definition CAPACITY_RETRY_AFTER_MS :: int where "CAPACITY_RETRY_AFTER_MS = 30000"

datatype thrown =
    ThrownError string string                \<comment> \<open>name and message\<close>
  | ThrownCapacity int int                   \<comment> \<open>\<open>VmCapacityExhaustedError\<close>: slots and wait\<close>
  | ThrownValue string

fun errorText :: "thrown \<Rightarrow> string" where
  "errorText (ThrownError name message) = message"
| "errorText (ThrownCapacity slots waited) = vmCapacityExhaustedMessage slots waited"
| "errorText (ThrownValue text) = text"

fun errorName :: "thrown \<Rightarrow> string" where
  "errorName (ThrownError name message) = name"
| "errorName (ThrownCapacity slots waited) = ''VmCapacityExhaustedError''"
| "errorName (ThrownValue text) = []"

text \<open>
  Decoding a prefix of a UTF-8 string turns an incomplete last character into U+FFFD, which the
  code then strips; a complete U+FFFD at the cut is stripped as well.
\<close>

definition replacementChar :: string where
  "replacementChar = [CHR 0xEF, CHR 0xBF, CHR 0xBD]"

definition completeChar :: "string \<Rightarrow> bool" where
  "completeChar ch = (length ch = utf8Len (hd ch))"

definition decodePrefix :: "string \<Rightarrow> string list" where
  "decodePrefix bytes = map (\<lambda>ch. if completeChar ch then ch else replacementChar) (characters bytes)"

definition stripReplacement :: "string list \<Rightarrow> string list" where
  "stripReplacement chs = (if chs \<noteq> [] \<and> last chs = replacementChar then butlast chs else chs)"

definition boundedMessage :: "thrown \<Rightarrow> string" where
  "boundedMessage e =
     (let trimmed = trim (errorText e);
          v = (if trimmed = [] then ''Unknown attempt failure'' else trimmed)
      in if length v \<le> MAX_MESSAGE_BYTES then v
         else concat (stripReplacement (decodePrefix (take MAX_MESSAGE_BYTES v))))"

definition failureOf ::
  "FailureCode \<Rightarrow> FailureOrigin \<Rightarrow> RetryClass \<Rightarrow> string \<Rightarrow> string \<Rightarrow> int option \<Rightarrow> ClassifiedFailure" where
  "failureOf code origin retry message guide after =
     \<lparr>failureCode = code, failureOrigin = origin, failureRetry = retry, failureMessage = message,
      guidance = guide, retryAfterMs = after\<rparr>"

record FailureInput =
  thrownError :: thrown
  timedOut :: bool
  fatalToolAbort :: bool
  externalAbortReason :: "string option"
  workspaceBudgetExhausted :: bool
  failedSandboxCleanup :: CleanupOutcome
  failedWorkspaceCleanup :: CleanupOutcome

definition containsAny :: "string \<Rightarrow> string list \<Rightarrow> bool" where
  "containsAny s ps = list_ex (contains s) ps"

text \<open>
  The last part of \<open>classifyAttemptFailure\<close>, which reads the text of the error only: the first of
  its tests that finds one of its phrases in the lower-cased name and message decides.
\<close>

definition textRules ::
  "(string list \<times> FailureCode \<times> FailureOrigin \<times> RetryClass \<times> string \<times> int option) list" where
  "textRules =
    [([''runleasefenced'', ''lease fenced''], LeaseLoss, OPersistence, RetryReconcile,
        ''Reconcile ownership and external state before continuing.'', None),
     ([''structured output'', ''final_answer'', ''repair exhausted''], ModelOutput, OModel, RetryNever,
        ''Revise the task or output schema before launching a new run.'', None),
     ([''unauthorized'', ''authentication'', ''api key'', ''status 401'', ''status 403''],
        Authentication, OProvider, RetryNever,
        ''Repair provider authentication before launching another attempt.'', None),
     ([''rate limit'', ''status 429'', ''status 502'', ''status 503'', ''status 504'', ''econnreset'',
       ''econnrefused'', ''etimedout''], ProviderTransient, OProvider, RetryBackoff,
        ''Wait for the bounded retry delay, then retry within remaining run budgets.'', Some 1000),
     ([''gondolinsandboxerror'', ''sandbox construction'', ''vm start'', ''qemu''],
        SandboxLaunch, OSandbox, RetryBackoff,
        ''Retry after the bounded delay only if the qualified sandbox environment remains available.'',
        Some 1000),
     ([''worktree'', ''workspace'', ''handoff''], WorkspaceFailure, OWorkspace, RetryReconcile,
        ''Inspect retained Git state and reconcile or release it before continuing.'', None),
     ([''persistence'', ''journal'', ''snapshot'', ''fsync''], PersistenceFailure, OPersistence,
        RetryReconcile,
        ''Preserve the run store and reconcile durable state before continuing.'', None),
     ([''changed after preflight'', ''identity mismatch'', ''projection mismatch'', ''resource drift''],
        ResourceDrift, OService, RetryNever,
        ''Create a new preflight after reviewing the changed resource.'', None)]"

definition classifyText :: "string \<Rightarrow> string \<Rightarrow> ClassifiedFailure" where
  "classifyText normalized message =
     (case find (\<lambda>r. containsAny normalized (fst r)) textRules of
        Some (phrases, code, origin, retry, guide, after) \<Rightarrow>
          failureOf code origin retry message guide after
      | None \<Rightarrow> failureOf UnknownFailure OService RetryReconcile message
          ''Inspect lifecycle evidence and reconcile external state before another attempt.'' None)"

text \<open>The middle part: what the attempt itself records about its end, then the text.\<close>

definition classifyAttemptError :: "FailureInput \<Rightarrow> string \<Rightarrow> string \<Rightarrow> ClassifiedFailure" where
  "classifyAttemptError i normalized message =
    (if workspaceBudgetExhausted i \<or> contains normalized ''workspace write budget exceeded''
     then failureOf WorkspaceBudget OWorkspace RetryNever
       (if workspaceBudgetExhausted i
        then ''Workspace write budget exhausted; guest writes were refused with EDQUOT''
        else message)
       ''Launch a new run with a larger workspaceWriteBytes budget or a smaller change; package caches belong outside /workspace.''
       None
     else if fatalToolAbort i
     then failureOf ToolFailure OTool RetryManual ''Guest command timeout closed the attempt VM''
       ''Inspect partial output and retry only if repeating the command is safe.'' None
     else if timedOut i
     then failureOf Timeout OService RetryManual ''Attempt runtime limit exceeded''
       ''Inspect partial output and explicitly retry only if repeating the task is safe.'' None
     else if contains normalized ''usage limit exceeded''
     then failureOf Validation OService RetryNever ''Attempt token or cost budget exceeded''
       ''Reduce the task scope or launch a new run with an intentionally larger budget.'' None
     else classifyText normalized message)"

definition classifyAttemptFailure :: "FailureInput \<Rightarrow> ClassifiedFailure" where
  "classifyAttemptFailure i =
     (let message = boundedMessage (thrownError i);
          normalized = toLowerCase (errorName (thrownError i) @ '' '' @ message)
      in if failedSandboxCleanup i = Blocked \<or> failedSandboxCleanup i = CleanupUnknown
         then failureOf SandboxCleanup OSandbox RetryReconcile message
           ''Reconcile the recorded VM identity before retry, resume, or release.'' None
         else if failedWorkspaceCleanup i = Blocked \<or> failedWorkspaceCleanup i = CleanupUnknown
         then failureOf WorkspaceFailure OWorkspace RetryReconcile message
           ''Inspect and reconcile the retained workspace before continuing.'' None
         else if externalAbortReason i = Some ''seat-shutdown''
         then failureOf SeatInterruption OOperator RetryResume
           ''Seat shutdown interrupted the active attempt''
           ''Resume the retained Pi session in a fresh VM after validation.'' None
         else if externalAbortReason i \<noteq> None
         then failureOf Cancellation OOperator RetryNever ''The operator cancelled the active attempt''
           ''Start a new run if the cancelled task is still required.'' None
         else (case thrownError i of
           ThrownCapacity slots waited \<Rightarrow>
             failureOf Capacity OService RetryBackoff (vmCapacityExhaustedMessage slots waited)
               ''Every VM slot stayed busy for the whole capacity wait; retry after the backoff delay or launch fewer concurrent attempts.''
               (Some CAPACITY_RETRY_AFTER_MS)
         | _ \<Rightarrow> classifyAttemptError i normalized message))"

subsection \<open>The message\<close>

lemma decodePrefix_cut:
  assumes "utf8Text v" and "4096 < length v"
  shows "let m = concat (stripReplacement (decodePrefix (take 4096 v))) in 1 \<le> length m \<and> length m \<le> 4096"
proof -
  let ?cs = "characters v"
  have comp: "completeChar ch" if "ch \<in> set ?cs" for ch
    using utf8Text_chars [OF assms(1) that] by (simp add: completeChar_def)
  have len4: "length ch \<le> 4" if "ch \<in> set ?cs" for ch
    using utf8Text_chars [OF assms(1) that] utf8Len_bound by metis
  have total: "length (concat (characters (take 4096 v))) = 4096" using assms(2) by simp
  obtain k where k: "characters (take 4096 v) = take k ?cs
     \<or> (k < length ?cs \<and> (\<exists>j. characters (take 4096 v) = take k ?cs @ [take j (?cs ! k)]))"
    using characters_take by blast
  have whole: "map (\<lambda>ch. if completeChar ch then ch else replacementChar) (take k ?cs) = take k ?cs"
    by (rule map_idI) (auto dest: in_set_takeD comp)
  have strip: "concat (stripReplacement chs) = concat chs
      \<or> length (concat (stripReplacement chs)) + 3 = length (concat chs)" for chs
    by (cases chs rule: rev_cases) (auto simp: stripReplacement_def replacementChar_def)
  from k show ?thesis
  proof
    assume c: "characters (take 4096 v) = take k ?cs"
    then have "decodePrefix (take 4096 v) = take k ?cs" using whole by (simp add: decodePrefix_def)
    then show ?thesis using strip [of "take k ?cs"] total c by (auto simp: Let_def)
  next
    assume "k < length ?cs \<and> (\<exists>j. characters (take 4096 v) = take k ?cs @ [take j (?cs ! k)])"
    then obtain j where kl: "k < length ?cs"
        and c: "characters (take 4096 v) = take k ?cs @ [take j (?cs ! k)]" by blast
    let ?p = "take j (?cs ! k)"
    have p4: "length ?p \<le> 4" using len4 [of "?cs ! k"] kl by (simp add: min.coboundedI1)
    have sum: "length (concat (take k ?cs)) + length ?p = 4096" using total c by simp
    show ?thesis
    proof (cases "completeChar ?p")
      case True
      then have "decodePrefix (take 4096 v) = take k ?cs @ [?p]" using whole c by (simp add: decodePrefix_def)
      then show ?thesis using strip [of "take k ?cs @ [?p]"] sum by (auto simp: Let_def)
    next
      case False
      then have "decodePrefix (take 4096 v) = take k ?cs @ [replacementChar]"
        using whole c by (simp add: decodePrefix_def)
      then have "concat (stripReplacement (decodePrefix (take 4096 v))) = concat (take k ?cs)"
        by (simp add: stripReplacement_def)
      then show ?thesis using sum p4 by (simp add: Let_def)
    qed
  qed
qed

lemma boundedMessage_length:
  assumes "utf8Text (trim (errorText e))"
  shows "1 \<le> length (boundedMessage e) \<and> length (boundedMessage e) \<le> 4096"
proof (cases "length (trim (errorText e)) \<le> 4096")
  case True
  then show ?thesis by (auto simp: boundedMessage_def Let_def MAX_MESSAGE_BYTES_def Suc_le_eq)
next
  case False
  then show ?thesis using decodePrefix_cut [OF assms]
    by (auto simp: boundedMessage_def Let_def MAX_MESSAGE_BYTES_def)
qed

lemma capacityMessage_length:
  assumes "safeInteger slots" and "safeInteger waited"
  shows "1 \<le> length (vmCapacityExhaustedMessage slots waited)
    \<and> length (vmCapacityExhaustedMessage slots waited) \<le> 4096"
proof -
  have w: "\<bar>waited\<bar> \<le> 9007199254740991" using assms(2) by (simp add: safeInteger_def MAX_SAFE_INTEGER_def)
  have "\<bar>mathRound (of_int waited / 1000)\<bar> < 10 ^ 17"
  proof -
    have "of_int waited \<le> (9007199254740991 :: rat)" "- 9007199254740991 \<le> (of_int waited :: rat)"
      using w by linarith+
    then show ?thesis unfolding mathRound_def by (simp add: abs_less_iff floor_less_iff less_floor_iff) linarith
  qed
  moreover have "\<bar>slots\<bar> < 10 ^ 17" using assms(1) by (simp add: safeInteger_def MAX_SAFE_INTEGER_def)
  ultimately have "length (showInt slots) \<le> 18" "length (showInt (mathRound (of_int waited / 1000))) \<le> 18"
    using showInt_length [of _ 17] by (metis Suc_numeral semiring_norm(2,5,8) zero_less_numeral num.simps(2) add_num_simps(5,6) less_eq_Suc_le)+
  then show ?thesis by (simp add: vmCapacityExhaustedMessage_def)
qed

subsection \<open>The classification\<close>

lemma failureOf_simps [simp]:
  "failureCode (failureOf c orig rt m g a) = c" "failureOrigin (failureOf c orig rt m g a) = orig"
  "failureRetry (failureOf c orig rt m g a) = rt" "failureMessage (failureOf c orig rt m g a) = m"
  "guidance (failureOf c orig rt m g a) = g" "retryAfterMs (failureOf c orig rt m g a) = a"
  by (simp_all add: failureOf_def)

text \<open>What every rule of the table satisfies, checked rule by rule.\<close>

definition ruleOk :: "string list \<times> FailureCode \<times> FailureOrigin \<times> RetryClass \<times> string \<times> int option \<Rightarrow> bool" where
  "ruleOk r = (case r of (phrases, code, origin, retry, guide, after) \<Rightarrow>
     retry \<noteq> RetryResume \<and> 1 \<le> length guide \<and> length guide \<le> 1024 \<and>
     (after \<noteq> None \<longleftrightarrow> retry = RetryBackoff) \<and>
     (case after of None \<Rightarrow> True | Some ms \<Rightarrow> 1000 \<le> ms \<and> ms \<le> 300000))"

lemma textRules_ok: "list_all ruleOk textRules"
  by (simp add: textRules_def ruleOk_def)

lemma classifyText_all:
  "failureRetry (classifyText n m) \<noteq> RetryResume \<and>
   (retryAfterMs (classifyText n m) \<noteq> None) = (failureRetry (classifyText n m) = RetryBackoff) \<and>
   failureMessage (classifyText n m) = m \<and>
   (1 \<le> length m \<longrightarrow> length m \<le> 4096 \<longrightarrow> checkFailure (classifyText n m))"
proof (cases "find (\<lambda>r. containsAny n (fst r)) textRules")
  case None
  then show ?thesis by (simp add: classifyText_def checkFailure_def)
next
  case (Some r)
  then have "ruleOk r" using textRules_ok by (metis find_Some_iff list_all_length)
  then show ?thesis
    using Some by (cases r) (auto simp: classifyText_def checkFailure_def ruleOk_def split: option.splits)
qed

lemmas classifyText_ok =
  classifyText_all [THEN conjunct1] classifyText_all [THEN conjunct2, THEN conjunct1]
  classifyText_all [THEN conjunct2, THEN conjunct2, THEN conjunct1]
  classifyText_all [THEN conjunct2, THEN conjunct2, THEN conjunct2, rule_format]

lemma classifyText_guidance:
  "1 \<le> length (guidance (classifyText n m)) \<and> length (guidance (classifyText n m)) \<le> 1024"
proof (cases "find (\<lambda>r. containsAny n (fst r)) textRules")
  case None
  then show ?thesis by (simp add: classifyText_def)
next
  case (Some r)
  then have "ruleOk r" using textRules_ok by (metis find_Some_iff list_all_length)
  then show ?thesis using Some by (cases r) (auto simp: classifyText_def ruleOk_def)
qed

lemma classify_guidance:
  "1 \<le> length (guidance (classifyAttemptFailure i)) \<and> length (guidance (classifyAttemptFailure i)) \<le> 1024"
proof -
  have "1 \<le> length (guidance (classifyAttemptError i n m)) \<and> length (guidance (classifyAttemptError i n m)) \<le> 1024"
    for n m
    using classifyText_guidance [of n m] unfolding classifyAttemptError_def
    by (simp del: contains.simps)
  then show ?thesis
    unfolding classifyAttemptFailure_def Let_def
    by (simp del: contains.simps toLowerCase_def split: thrown.split)
qed

definition cleanupSettled :: "FailureInput \<Rightarrow> bool" where
  "cleanupSettled i = (failedSandboxCleanup i \<notin> {Blocked, CleanupUnknown}
     \<and> failedWorkspaceCleanup i \<notin> {Blocked, CleanupUnknown})"

definition interruptedByAttempt :: "FailureInput \<Rightarrow> bool" where
  "interruptedByAttempt i = (workspaceBudgetExhausted i \<or> fatalToolAbort i \<or> timedOut i)"

definition isCapacityRefusal :: "thrown \<Rightarrow> bool" where
  "isCapacityRefusal e = (case e of ThrownCapacity _ _ \<Rightarrow> True | _ \<Rightarrow> False)"

text \<open>The seven ways \<open>classifyAttemptFailure\<close> can go, as one case rule.\<close>

lemma classify_cases:
  obtains (unsettled) "\<not> cleanupSettled i" "failureRetry (classifyAttemptFailure i) = RetryReconcile"
      "retryAfterMs (classifyAttemptFailure i) = None"
      "failureMessage (classifyAttemptFailure i) = boundedMessage (thrownError i)"
    | (shutdown) "cleanupSettled i" "externalAbortReason i = Some ''seat-shutdown''"
      "failureRetry (classifyAttemptFailure i) = RetryResume"
      "retryAfterMs (classifyAttemptFailure i) = None"
      "failureMessage (classifyAttemptFailure i) = ''Seat shutdown interrupted the active attempt''"
    | (cancelled) "cleanupSettled i" "externalAbortReason i \<notin> {None, Some ''seat-shutdown''}"
      "failureRetry (classifyAttemptFailure i) = RetryNever"
      "retryAfterMs (classifyAttemptFailure i) = None"
      "failureMessage (classifyAttemptFailure i) = ''The operator cancelled the active attempt''"
    | (capacity) slots waited where "cleanupSettled i" "externalAbortReason i = None"
      "thrownError i = ThrownCapacity slots waited"
      "failureRetry (classifyAttemptFailure i) = RetryBackoff"
      "retryAfterMs (classifyAttemptFailure i) = Some 30000"
      "failureMessage (classifyAttemptFailure i) = vmCapacityExhaustedMessage slots waited"
    | (bounded) "cleanupSettled i" "externalAbortReason i = None" "\<not> isCapacityRefusal (thrownError i)"
      "failureRetry (classifyAttemptFailure i) \<in> {RetryNever, RetryManual}"
      "retryAfterMs (classifyAttemptFailure i) = None"
      "failureMessage (classifyAttemptFailure i) = boundedMessage (thrownError i)
        \<or> 1 \<le> length (failureMessage (classifyAttemptFailure i))
          \<and> length (failureMessage (classifyAttemptFailure i)) \<le> 100"
    | (rules) normalized where "cleanupSettled i" "externalAbortReason i = None"
      "\<not> isCapacityRefusal (thrownError i)" "\<not> interruptedByAttempt i"
      "classifyAttemptFailure i = classifyText normalized (boundedMessage (thrownError i))"
proof (cases "cleanupSettled i")
  case False
  then show ?thesis
    by (intro unsettled) (auto simp: cleanupSettled_def classifyAttemptFailure_def Let_def)
next
  case settled: True
  note s = settled [unfolded cleanupSettled_def]
  show ?thesis
  proof (cases "externalAbortReason i")
    case (Some r)
    then show ?thesis using s settled shutdown cancelled
      by (cases "r = ''seat-shutdown''") (auto simp: classifyAttemptFailure_def Let_def)
  next
    case None
    show ?thesis
    proof (cases "isCapacityRefusal (thrownError i)")
      case True
      then obtain a b where "thrownError i = ThrownCapacity a b"
        by (auto simp: isCapacityRefusal_def split: thrown.splits)
      then show ?thesis using s settled None capacity
        by (auto simp: classifyAttemptFailure_def Let_def CAPACITY_RETRY_AFTER_MS_def)
    next
      case False
      define n where "n = toLowerCase (errorName (thrownError i) @ '' '' @ boundedMessage (thrownError i))"
      have c: "classifyAttemptFailure i = classifyAttemptError i n (boundedMessage (thrownError i))"
        using s None False
        by (simp add: classifyAttemptFailure_def Let_def n_def isCapacityRefusal_def split: thrown.splits)
      show ?thesis
      proof (cases "workspaceBudgetExhausted i \<or> contains n ''workspace write budget exceeded''
          \<or> fatalToolAbort i \<or> timedOut i \<or> contains n ''usage limit exceeded''")
        case True
        show ?thesis
          by (rule bounded [OF settled None False]) (use True in \<open>auto simp: c classifyAttemptError_def simp del: contains.simps\<close>)
      next
        case no: False
        then have "classifyAttemptFailure i = classifyText n (boundedMessage (thrownError i))"
          unfolding c by (simp add: classifyAttemptError_def del: contains.simps)
        then show ?thesis using rules [OF settled None False _ ] no by (simp add: interruptedByAttempt_def)
      qed
    qed
  qed
qed

text \<open>
  The retry class never licenses an unsafe repetition: while sandbox or workspace cleanup is not
  settled the class is reconcile whatever was thrown; resume is given exactly for a seat shutdown
  with settled cleanup; and an automatic retry after backoff only when cleanup is settled, nobody
  aborted the run, and the attempt was refused a VM slot or ended by neither the write budget nor
  a guest command timeout nor the deadline.
\<close>

theorem retry_class_is_safe:
  "let f = classifyAttemptFailure i in
     (\<not> cleanupSettled i \<longrightarrow> failureRetry f = RetryReconcile) \<and>
     (failureRetry f = RetryResume \<longleftrightarrow>
        cleanupSettled i \<and> externalAbortReason i = Some ''seat-shutdown'') \<and>
     (failureRetry f = RetryBackoff \<longrightarrow> cleanupSettled i \<and> externalAbortReason i = None \<and>
        (isCapacityRefusal (thrownError i) \<or> \<not> interruptedByAttempt i))"
proof -
  consider "failureRetry (classifyAttemptFailure i) = RetryReconcile" "\<not> cleanupSettled i"
    | "failureRetry (classifyAttemptFailure i) = RetryResume" "cleanupSettled i"
        "externalAbortReason i = Some ''seat-shutdown''"
    | "failureRetry (classifyAttemptFailure i) \<in> {RetryNever, RetryManual}" "cleanupSettled i"
        "externalAbortReason i \<noteq> Some ''seat-shutdown''"
    | "failureRetry (classifyAttemptFailure i) \<noteq> RetryResume" "cleanupSettled i"
        "externalAbortReason i = None" "isCapacityRefusal (thrownError i) \<or> \<not> interruptedByAttempt i"
    by (rule classify_cases [of i]; use classifyText_ok(1) in \<open>fastforce simp: isCapacityRefusal_def\<close>)
  then show ?thesis by cases (auto simp: Let_def)
qed

definition seatShutdown :: FailureInput where
  "seatShutdown = \<lparr>thrownError = ThrownValue ''seat-shutdown'', timedOut = False, fatalToolAbort = False,
     externalAbortReason = Some ''seat-shutdown'', workspaceBudgetExhausted = False,
     failedSandboxCleanup = Proved, failedWorkspaceCleanup = Blocked\<rparr>"

theorem retry_class_is_safe_witness:
  "failureRetry (classifyAttemptFailure seatShutdown) = RetryReconcile"
  using retry_class_is_safe [of seatShutdown] by (simp add: cleanupSettled_def seatShutdown_def Let_def)

lemma classify_valid:
  assumes "utf8Text (trim (errorText (thrownError i)))"
    and "\<And>slots waited. thrownError i = ThrownCapacity slots waited \<Longrightarrow> safeInteger slots \<and> safeInteger waited"
  shows "checkFailure (classifyAttemptFailure i) \<and>
    (retryAfterMs (classifyAttemptFailure i) \<noteq> None
       \<longleftrightarrow> failureRetry (classifyAttemptFailure i) = RetryBackoff)"
proof -
  note m = boundedMessage_length [OF assms(1)] and g = classify_guidance [of i]
  show ?thesis
  proof (rule classify_cases [of i], goal_cases)
    case (6 normalized)
    then show ?thesis using classifyText_ok(2,4) m by simp
  next
    case (4 slots waited)
    then show ?thesis using assms(2) capacityMessage_length g by (simp add: checkFailure_def)
  qed (use m g in \<open>auto simp: checkFailure_def\<close>)
qed

text \<open>
  C39: Every classified failure is one that a result may carry: its message has between 1 and 4096
  bytes, also when the error's message is cut in the middle of a character, its guidance is
  bounded, and a retry delay within 1 to 300 seconds is present exactly for the backoff class.
\<close>

theorem classified_failure_is_valid:
  assumes "utf8Text (trim (errorText (thrownError i)))"
    and "\<And>slots waited. thrownError i = ThrownCapacity slots waited \<Longrightarrow> safeInteger slots \<and> safeInteger waited"
  shows "checkFailure (classifyAttemptFailure i) \<and>
    (retryAfterMs (classifyAttemptFailure i) \<noteq> None
       \<longleftrightarrow> failureRetry (classifyAttemptFailure i) = RetryBackoff)"
  using assms by (rule classify_valid)

theorem classified_failure_is_valid_witness:
  "checkFailure (classifyAttemptFailure seatShutdown)"
  using classified_failure_is_valid [of seatShutdown]
  by (simp add: seatShutdown_def utf8Text_def trim_def is_space_def isCont_def utf8Len_def)

end
