(* ===== verification/Attempt.thy ===== *)
theory Attempt
  imports Budget Failure Identity
begin

section \<open>One attempt (\<open>src/runtime/attempt.ts\<close>)\<close>

text \<open>
  The life of one attempt, from the guards over its plan to the terminal result, on the success
  and on the error path. What the sandbox, the session, the journal, the artifact store and git do
  is a record of outcomes, one per call, so that every exception of the source is a value of the
  model; the state is the local variables of \<open>runNativeAttempt\<close>.
\<close>

definition MAX_INLINE_OUTPUT_BYTES :: nat where "MAX_INLINE_OUTPUT_BYTES = 32 * 1024"

subsection \<open>Output and prompts\<close>

text \<open>\<open>boundAttemptOutput\<close>: whole characters up to the limit.\<close>

fun takeCharacters :: "nat \<Rightarrow> nat \<Rightarrow> string list \<Rightarrow> string" where
  "takeCharacters limit bytes [] = []"
| "takeCharacters limit bytes (ch # chs) =
     (if bytes + length ch > limit then [] else ch @ takeCharacters limit (bytes + length ch) chs)"

definition boundAttemptOutput :: "string \<Rightarrow> nat \<Rightarrow> string \<times> bool" where
  "boundAttemptOutput text limit =
     (if length text \<le> limit then (text, False)
      else (takeCharacters limit 0 (characters text), True))"

datatype attemptMessage =
    AssistantTurn "string list" Usage     \<comment> \<open>the text parts and the usage\<close>
  | OtherTurn

fun messageOf :: "attemptMessage \<Rightarrow> sessionMessage" where
  "messageOf (AssistantTurn parts u) = AssistantMessage u"
| "messageOf OtherTurn = OtherMessage"

definition assistantOutput :: "attemptMessage list \<Rightarrow> nat \<Rightarrow> string" where
  "assistantOutput messages first =
     (case findLast (\<lambda>m. m \<noteq> OtherTurn) (drop first messages) of
        Some (AssistantTurn parts _) \<Rightarrow> concat parts
      | _ \<Rightarrow> [])"

fun join :: "string \<Rightarrow> string list \<Rightarrow> string" where
  "join sep [] = []"
| "join sep [s] = s"
| "join sep (s # t # ss) = s @ sep @ join sep (t # ss)"

definition delegatedPrompt :: "AgentLaunchPlan \<Rightarrow> string" where
  "delegatedPrompt plan =
     join [newline, newline]
       ([''Goal:'' @ [newline] @ goal (planTask plan)]
        @ (if taskContext (planTask plan) = [] then []
           else [''Context:'' @ [newline] @ join [newline] (map (\<lambda>i. ''- '' @ i) (taskContext (planTask plan)))])
        @ [''Instructions:'' @ [newline] @ join [newline] (map (\<lambda>i. ''- '' @ i) (instructions (planTask plan)))])"

definition INTERRUPTED_RESUME_PROMPT :: string where
  "INTERRUPTED_RESUME_PROMPT = ''Resume the interrupted task. Revalidate the current workspace state, complete the original goal, and return the required final result.''"

definition firstAttemptPrompt :: "AgentLaunchPlan \<Rightarrow> string option \<Rightarrow> string option \<Rightarrow> string res" where
  "firstAttemptPrompt plan resumeSessionFile resumeMessage =
     (case resumeSessionFile of
        None \<Rightarrow> (if resumeMessage \<noteq> None then Inl (Err ''a resume message requires a restored session'')
                 else Inr (delegatedPrompt plan))
      | Some _ \<Rightarrow> Inr (case resumeMessage of None \<Rightarrow> INTERRUPTED_RESUME_PROMPT | Some m \<Rightarrow> m))"

subsection \<open>The guards\<close>

record HostToolDeclaration =
  hostToolName :: string
  hostToolSource :: string
  hostToolSha256 :: string

record AttemptAgent =
  attemptAgentName :: string
  attemptAgentDisplay :: string
  attemptAgentPrompt :: string
  attemptAgentSource :: string
  attemptAgentSha256 :: string
  attemptAgentScope :: AgentScope

record AttemptOptions =
  attemptPlan :: AgentLaunchPlan
  attemptAgent :: AttemptAgent
  leaseRunId :: string
  journalRunId :: string
  hasWorktree :: bool
  hasSnapshot :: bool
  contextGrants :: "ResourceGrant list"
  hostTools :: "HostToolDeclaration list"
  forkGrant :: "ForkContextGrant option"
  resumeSessionFile :: "string option"
  resumeMessage :: "string option"

fun checkHostTools ::
  "AgentLaunchPlan \<Rightarrow> string list \<Rightarrow> HostToolDeclaration list \<Rightarrow> string list res" where
  "checkHostTools plan seen [] = Inr seen"
| "checkHostTools plan seen (d # ds) =
     (if hostToolName d \<in> set seen \<or> hostToolName d \<notin> set (planTools plan)
         \<or> \<not> list_ex (\<lambda>r. resourceKind r = KindTool \<and> resourceName r = hostToolName d
                \<and> resourceSource r = hostToolSource d \<and> resourceSha256 r = hostToolSha256 d)
              (planResources plan)
      then Inl (Err (''host tool identity mismatch: '' @ hostToolName d))
      else checkHostTools plan (hostToolName d # seen) ds)"

fun checkToolResources :: "AgentLaunchPlan \<Rightarrow> string list \<Rightarrow> string list \<Rightarrow> unit res" where
  "checkToolResources plan hosted [] = Inr ()"
| "checkToolResources plan hosted (n # ns) =
     andThen (require (n \<in> set hosted
         \<or> list_ex (\<lambda>r. resourceKind r = KindTool \<and> resourceName r = n) (planResources plan))
         (Err (''missing tool resource: '' @ n)))
       (\<lambda>_. checkToolResources plan hosted ns)"

text \<open>\<open>assertContextFileProjection\<close> of \<open>src/preflight/context-files.ts\<close>.\<close>

definition assertContextFileProjection ::
  "(string \<Rightarrow> string) \<Rightarrow> (string \<Rightarrow> string) \<Rightarrow> AgentLaunchPlan \<Rightarrow> ResourceGrant list \<Rightarrow> unit res" where
  "assertContextFileProjection sha localeKey plan grants =
     (let expected = sort_key (localeKey \<circ> resourceName)
            (filter (\<lambda>r. resourceKind r = KindContext) (planResources plan));
          actual = sort_key (localeKey \<circ> resourceName) grants
      in andThen (canonicalSha256 sha (grantsJs expected)) (\<lambda>d1.
         andThen (canonicalSha256 sha (grantsJs actual)) (\<lambda>d2.
           require (d1 = d2) (Err ''context file projection changed after preflight''))))"

definition checkForkProjection :: "(string \<Rightarrow> string) \<Rightarrow> AttemptOptions \<Rightarrow> unit res" where
  "checkForkProjection sha opts =
     (let plan = attemptPlan opts; bad = Err ''fork context projection mismatch'' in
      if planContextMode plan = ForkContext \<and> forkGrant opts = None
         \<or> planContextMode plan = FreshContext \<and> forkGrant opts \<noteq> None
      then Inl bad
      else (case forkGrant opts of
              None \<Rightarrow> Inr ()
            | Some g \<Rightarrow>
                andThen (canonicalSha256 sha (forkJs g)) (\<lambda>d1.
                andThen (canonicalSha256 sha
                    (case planForkContext plan of None \<Rightarrow> VUndefined | Some f \<Rightarrow> forkJs f)) (\<lambda>d2.
                  require (d1 = d2) bad))))"

definition attemptGuards :: "(string \<Rightarrow> string) \<Rightarrow> (string \<Rightarrow> string) \<Rightarrow> AttemptOptions \<Rightarrow> string res" where
  "attemptGuards sha localeKey opts =
     (let plan = attemptPlan opts; agent = attemptAgent opts in
      andThen (require (checkPlan plan) (Err ''invalid launch plan'')) (\<lambda>_.
      andThen (verifyLaunchPlanIdentity sha plan) (\<lambda>verified.
      andThen (require verified (Err ''launch plan identity mismatch'')) (\<lambda>_.
      andThen (require (leaseRunId opts = planRunId plan \<and> journalRunId opts = planRunId plan)
          (Err ''attempt ownership mismatch'')) (\<lambda>_.
      andThen (assertContextFileProjection sha localeKey plan (contextGrants opts)) (\<lambda>_.
      andThen (firstAttemptPrompt plan (resumeSessionFile opts) (resumeMessage opts)) (\<lambda>prompt.
      andThen (checkForkProjection sha opts) (\<lambda>_.
      andThen (checkHostTools plan [] (hostTools opts)) (\<lambda>hosted.
      andThen (checkToolResources plan hosted (planTools plan)) (\<lambda>_.
      andThen (require (attemptAgentName agent = planAgent plan
            \<and> attemptAgentDisplay agent = planAgentDisplayName plan
            \<and> attemptAgentPrompt agent = planAgentPrompt plan
            \<and> attemptAgentSource agent = planAgentSource plan
            \<and> attemptAgentSha256 agent = planAgentSha256 plan
            \<and> attemptAgentScope agent = planAgentScope plan
            \<and> list_ex (\<lambda>r. resourceKind r = KindAgent \<and> resourceName r = attemptAgentName agent
                \<and> resourceSha256 r = attemptAgentSha256 agent) (planResources plan))
          (Err ''attempt agent identity mismatch'')) (\<lambda>_.
        Inr prompt)))))))))))"

subsection \<open>The body\<close>

text \<open>
  What each external call of the body does. \<open>None\<close> is success; a prompt has an outcome for each
  round, and the final answer is what the answer controller holds after that many prompts.
\<close>

record AttemptWorld =
  startAborted :: "thrown option"
  modelResolution :: "thrown option"
  sandboxCreation :: "thrown option"
  sandboxVersion :: string
  sandboxJournal :: "thrown option"
  sessionCreation :: "thrown option"
  restoredMessages :: "attemptMessage list"
  sessionSetup :: "thrown option"
  promptOutcome :: "nat \<Rightarrow> thrown option"
  finalAnswer :: "nat \<Rightarrow> jsval option"
  ownMessages :: "attemptMessage list"
  idleOutcome :: "thrown option"
  artifactPut :: "string \<Rightarrow> string \<Rightarrow> thrown + ArtifactRef"
  sandboxClose :: "thrown option"
  snapshotRemoved :: bool
  worktreeHandoff :: "thrown + string"
  completionRecord :: "thrown option"
  sandboxIsClosed :: bool
  sandboxCancelled :: bool
  failureRecord :: "thrown option"
  abortReason' :: "string option"
  deadlineFired :: bool
  fatalTool :: bool
  budgetExhausted :: bool
  elapsedMs :: int

record AttemptState =
  sandboxExists :: bool
  sessionOpen :: bool
  sessionCreated :: bool
  sandboxOutcome :: CleanupOutcome
  workspaceOutcome :: CleanupOutcome
  collectedUsage :: Usage
  inlineOutput :: string
  outputRef :: "ArtifactRef option"
  structured :: "jsval option"
  cut :: bool
  handoff :: "string option"

definition initialAttempt :: "AttemptOptions \<Rightarrow> AttemptState" where
  "initialAttempt opts =
     \<lparr>sandboxExists = False, sessionOpen = False, sessionCreated = False, sandboxOutcome = NotNeeded,
      workspaceOutcome = (if workspaceMode (planWorkspace (attemptPlan opts)) = ReadOnly \<and> \<not> hasSnapshot opts
        then NotNeeded else Retained),
      collectedUsage = emptyUsage, inlineOutput = [], outputRef = None, structured = None, cut = False,
      handoff = None\<rparr>"

type_synonym 'a attemptRes = "(thrown + 'a) \<times> AttemptState"

text \<open>A step that may throw, in the state where it throws.\<close>

definition stepOk :: "thrown option \<Rightarrow> AttemptState \<Rightarrow> (AttemptState \<Rightarrow> 'a attemptRes) \<Rightarrow> 'a attemptRes" where
  "stepOk outcome s k = (case outcome of Some e \<Rightarrow> (Inl e, s) | None \<Rightarrow> k s)"

definition stepVal :: "thrown + 'b \<Rightarrow> AttemptState \<Rightarrow> ('b \<Rightarrow> AttemptState \<Rightarrow> 'a attemptRes) \<Rightarrow> 'a attemptRes" where
  "stepVal outcome s k = (case outcome of Inl e \<Rightarrow> (Inl e, s) | Inr x \<Rightarrow> k x s)"

definition allMessages :: "AttemptWorld \<Rightarrow> attemptMessage list" where
  "allMessages w = restoredMessages w @ ownMessages w"

definition attemptUsage :: "AttemptWorld \<Rightarrow> Usage" where
  "attemptUsage w = subtractUsage (sessionUsage (map messageOf (allMessages w)))
     (sessionUsage (map messageOf (restoredMessages w)))"

text \<open>
  The repair loop of a structured answer: at most two more prompts while there is no value. The
  result is the number of prompts given, or the exception of one of them.
\<close>

fun repairPrompts :: "nat \<Rightarrow> nat \<Rightarrow> AttemptWorld \<Rightarrow> thrown + nat" where
  "repairPrompts 0 given w = Inr given"
| "repairPrompts (Suc n) given w =
     (if finalAnswer w given \<noteq> None then Inr given
      else (case promptOutcome w given of Some e \<Rightarrow> Inl e | None \<Rightarrow> repairPrompts n (Suc given) w))"

definition promptSession :: "AttemptOptions \<Rightarrow> AttemptWorld \<Rightarrow> thrown + jsval option" where
  "promptSession opts w =
     (case promptOutcome w 0 of
        Some e \<Rightarrow> Inl e
      | None \<Rightarrow>
          if planOutputSchema (attemptPlan opts) = None then Inr None
          else (case repairPrompts 2 1 w of
                  Inl e \<Rightarrow> Inl e
                | Inr given \<Rightarrow>
                    (case finalAnswer w given of
                       None \<Rightarrow> Inl (ThrownError ''Error'' ''structured output repair exhausted'')
                     | Some v \<Rightarrow> Inr (Some v))))"

definition usageExceeded :: "RunLimits \<Rightarrow> Usage \<Rightarrow> bool" where
  "usageExceeded l u =
     ((case limitTotalTokens l of None \<Rightarrow> False | Some n \<Rightarrow> n < usageTotalTokens u) \<or> limitCost l < usageCost u)"

definition releaseSnapshot :: "AttemptWorld \<Rightarrow> CleanupOutcome" where
  "releaseSnapshot w = (if snapshotRemoved w then Proved else Blocked)"

text \<open>
  After the sandbox is closed: the snapshot is removed, or the work is committed as a hand-off. The
  value says whether the attempt may complete.
\<close>

definition settleWorkspace :: "AttemptOptions \<Rightarrow> AttemptWorld \<Rightarrow> AttemptState \<Rightarrow> unit attemptRes" where
  "settleWorkspace opts w s =
     (let s = (if hasSnapshot opts then s\<lparr>workspaceOutcome := releaseSnapshot w\<rparr> else s) in
      if hasSnapshot opts \<and> workspaceOutcome s = Blocked
      then (Inl (ThrownError ''Error'' ''read-only snapshot removal was not proved''), s)
      else if workspaceMode (planWorkspace (attemptPlan opts)) = Worktree then
        (if \<not> hasWorktree opts
         then (Inl (ThrownError ''Error'' ''writing attempt has no worktree record''), s)
         else stepVal (worktreeHandoff w) s
           (\<lambda>h s. (Inr (), s\<lparr>handoff := Some h, workspaceOutcome := Proved\<rparr>)))
      else (Inr (), s))"

text \<open>Collecting the answer: usage, output, artifact and the limits on usage.\<close>

definition collectOutput :: "AttemptOptions \<Rightarrow> AttemptWorld \<Rightarrow> jsval option \<Rightarrow> AttemptState \<Rightarrow> unit attemptRes" where
  "collectOutput opts w value s =
     (let plan = attemptPlan opts; s = s\<lparr>structured := value, collectedUsage := attemptUsage w\<rparr> in
      stepVal (case value of
                 None \<Rightarrow> Inr (assistantOutput (allMessages w) (length (restoredMessages w)))
               | Some v \<Rightarrow> (case canonicalJson v of Inr t \<Rightarrow> Inr t | Inl _ \<Rightarrow> Inl (ThrownError ''Error'' ''canonical'')))
        s (\<lambda>raw s.
      let artifact = boundAttemptOutput raw (nat (outputBytes (planLimits plan)));
          inline = boundAttemptOutput (fst artifact) MAX_INLINE_OUTPUT_BYTES in
      stepVal (artifactPut w (fst artifact) (if value = None then ''text/plain'' else ''application/json'')) s
        (\<lambda>ref s.
      let s = s\<lparr>outputRef := Some ref, inlineOutput := fst inline, cut := snd artifact \<or> snd inline\<rparr> in
      if usageExceeded (planLimits plan) (collectedUsage s)
      then (Inl (ThrownError ''Error'' ''attempt usage limit exceeded''), s)
      else (Inr (), s))))"

text \<open>\<open>terminalResult\<close>: a result that is not valid is an exception.\<close>

definition terminalResult :: "RunResult \<Rightarrow> thrown + RunResult" where
  "terminalResult r =
     (if isRunResult r then Inr r else Inl (ThrownError ''Error'' ''attempt produced an invalid result''))"

text \<open>Structured output as the value a result carries.\<close>

definition resultJson :: "jsval option \<Rightarrow> json option" where
  "resultJson v = (case v of None \<Rightarrow> None
     | Some x \<Rightarrow> (case normalize x of Inr j \<Rightarrow> Some j | Inl _ \<Rightarrow> None))"

definition completedResult :: "AttemptOptions \<Rightarrow> AttemptWorld \<Rightarrow> AttemptState \<Rightarrow> RunResult" where
  "completedResult opts w s =
     \<lparr>resultRunId = planRunId (attemptPlan opts), resultStatus = Completed, resultOutput = outputRef s,
      structuredOutput = resultJson (structured s), usage = collectedUsage s, usageComplete = True,
      runtimeMs = elapsedMs w, failure = None, sandboxCleanup = sandboxOutcome s,
      workspaceCleanup = workspaceOutcome s, truncated = cut s\<rparr>"

text \<open>The \<open>try\<close> block.\<close>

definition attemptBody :: "AttemptOptions \<Rightarrow> AttemptWorld \<Rightarrow> AttemptState \<Rightarrow> RunResult attemptRes" where
  "attemptBody opts w s =
     stepOk (startAborted w) s (\<lambda>s.
     stepOk (modelResolution w) s (\<lambda>s.
     stepOk (sandboxCreation w) s (\<lambda>s.
     let s = s\<lparr>sandboxExists := True\<rparr> in
     stepOk (if sandboxVersion w \<noteq> packageVersion (planSandbox (attemptPlan opts))
             then Some (ThrownError ''Error'' ''Gondolin package version drift'') else None) s (\<lambda>s.
     stepOk (sandboxJournal w) s (\<lambda>s.
     stepOk (sessionCreation w) s (\<lambda>s.
     let s = s\<lparr>sessionOpen := True, sessionCreated := True\<rparr> in
     stepOk (sessionSetup w) s (\<lambda>s.
     stepVal (promptSession opts w) s (\<lambda>value s.
     stepOk (idleOutcome w) s (\<lambda>s.
     (case collectOutput opts w value s of
        (Inl e, s) \<Rightarrow> (Inl e, s)
      | (Inr _, s) \<Rightarrow>
          let s = s\<lparr>sessionOpen := False\<rparr> in
          stepOk (sandboxClose w) s (\<lambda>s.
          let s = s\<lparr>sandboxOutcome := Proved\<rparr> in
          (case settleWorkspace opts w s of
             (Inl e, s) \<Rightarrow> (Inl e, s)
           | (Inr _, s) \<Rightarrow>
               stepVal (terminalResult (completedResult opts w s)) s (\<lambda>r s.
               stepOk (completionRecord w) s (\<lambda>s. (Inr r, s)))))))))))))))"

subsection \<open>The error path\<close>

definition failedState :: "AttemptOptions \<Rightarrow> AttemptWorld \<Rightarrow> AttemptState \<Rightarrow> AttemptState" where
  "failedState opts w s =
     (let s = (if sessionOpen s then
                 (let b = boundAttemptOutput (assistantOutput (allMessages w) (length (restoredMessages w)))
                        (min (nat (outputBytes (planLimits (attemptPlan opts)))) MAX_INLINE_OUTPUT_BYTES)
                  in s\<lparr>collectedUsage := attemptUsage w, inlineOutput := fst b, cut := snd b, sessionOpen := False\<rparr>)
               else s);
          s = (if sandboxExists s \<and> sandboxIsClosed w then s\<lparr>sandboxOutcome := Proved\<rparr>
               else if sandboxExists s then s\<lparr>sandboxOutcome := (if sandboxCancelled w then Proved else Blocked)\<rparr>
               else s)
      in if hasSnapshot opts \<and> workspaceOutcome s = Retained \<and> sandboxOutcome s \<noteq> Blocked
         then s\<lparr>workspaceOutcome := releaseSnapshot w\<rparr> else s)"

definition failedStatus :: "AttemptWorld \<Rightarrow> AttemptState \<Rightarrow> RunStatus" where
  "failedStatus w s =
     (if sandboxOutcome s = Blocked \<or> workspaceOutcome s = Blocked then CleanupBlocked
      else (case abortReason' w of
              Some reason \<Rightarrow> (if reason = ''seat-shutdown'' then Interrupted else Cancelled)
            | None \<Rightarrow> Failed))"

definition failureInput :: "AttemptWorld \<Rightarrow> thrown \<Rightarrow> AttemptState \<Rightarrow> FailureInput" where
  "failureInput w e s =
     \<lparr>thrownError = e, timedOut = deadlineFired w \<and> abortReason' w = None, fatalToolAbort = fatalTool w,
      externalAbortReason = abortReason' w, workspaceBudgetExhausted = sandboxExists s \<and> budgetExhausted w,
      failedSandboxCleanup = sandboxOutcome s, failedWorkspaceCleanup = workspaceOutcome s\<rparr>"

definition failedResult :: "AttemptOptions \<Rightarrow> AttemptWorld \<Rightarrow> thrown \<Rightarrow> AttemptState \<Rightarrow> RunResult" where
  "failedResult opts w e s =
     \<lparr>resultRunId = planRunId (attemptPlan opts), resultStatus = failedStatus w s, resultOutput = None,
      structuredOutput = None, usage = collectedUsage s, usageComplete = \<not> sessionCreated s,
      runtimeMs = elapsedMs w, failure = Some (classifyAttemptFailure (failureInput w e s)),
      sandboxCleanup = sandboxOutcome s, workspaceCleanup = workspaceOutcome s, truncated = cut s\<rparr>"

text \<open>
  The whole of \<open>runNativeAttempt\<close> after its guards: the result and the state at the end, or the
  exception that escapes the error path.
\<close>

definition runAttempt :: "AttemptOptions \<Rightarrow> AttemptWorld \<Rightarrow> thrown + RunResult \<times> AttemptState" where
  "runAttempt opts w =
     (case attemptBody opts w (initialAttempt opts) of
        (Inr r, s) \<Rightarrow> Inr (r, s)
      | (Inl e, s) \<Rightarrow>
          (let s = failedState opts w s in
           case terminalResult (failedResult opts w e s) of
             Inl e' \<Rightarrow> Inl e'
           | Inr r \<Rightarrow> (case failureRecord w of Some e' \<Rightarrow> Inl e' | None \<Rightarrow> Inr (r, s))))"

subsection \<open>How attempts end\<close>

definition thrownOk :: "thrown \<Rightarrow> bool" where
  "thrownOk e = (utf8Text (trim (errorText e)) \<and>
     (case e of ThrownCapacity slots waited \<Rightarrow> safeInteger slots \<and> safeInteger waited | _ \<Rightarrow> True))"

definition outcomeOk :: "thrown option \<Rightarrow> bool" where
  "outcomeOk t = (case t of None \<Rightarrow> True | Some e \<Rightarrow> thrownOk e)"

text \<open>
  What the outside is assumed to do: error messages are text, usage is not negative, the artifact
  store returns valid references, and the clock stays in range.
\<close>

definition worldOk :: "AttemptWorld \<Rightarrow> bool" where
  "worldOk w =
     (outcomeOk (startAborted w) \<and> outcomeOk (modelResolution w) \<and> outcomeOk (sandboxCreation w)
      \<and> outcomeOk (sandboxJournal w) \<and> outcomeOk (sessionCreation w) \<and> outcomeOk (sessionSetup w)
      \<and> (\<forall>n. outcomeOk (promptOutcome w n)) \<and> outcomeOk (idleOutcome w)
      \<and> (\<forall>t m. case artifactPut w t m of Inl e \<Rightarrow> thrownOk e | Inr r \<Rightarrow> checkArtifactRef r)
      \<and> outcomeOk (sandboxClose w) \<and> outcomeOk (completionRecord w)
      \<and> (case worktreeHandoff w of Inl e \<Rightarrow> thrownOk e | Inr _ \<Rightarrow> True)
      \<and> 0 \<le> elapsedMs w \<and> elapsedMs w \<le> MAX_SAFE_INTEGER)"

definition attemptOk :: "AttemptOptions \<Rightarrow> AttemptState \<Rightarrow> bool" where
  "attemptOk opts s =
     (checkUsage (collectedUsage s)
      \<and> (case outputRef s of None \<Rightarrow> True | Some r \<Rightarrow> checkArtifactRef r)
      \<and> sandboxOutcome s \<in> {NotNeeded, Proved} \<and> (sandboxOutcome s = Proved \<longrightarrow> sandboxExists s)
      \<and> (workspaceOutcome s = NotNeeded \<longleftrightarrow>
           workspaceMode (planWorkspace (attemptPlan opts)) = ReadOnly \<and> \<not> hasSnapshot opts)
      \<and> (workspaceOutcome s = Proved \<longrightarrow> sandboxOutcome s = Proved))"

definition bodyPost :: "AttemptOptions \<Rightarrow> AttemptWorld \<Rightarrow> RunResult attemptRes \<Rightarrow> bool" where
  "bodyPost opts w res =
     (case res of
        (Inl e, s) \<Rightarrow> thrownOk e \<and> attemptOk opts s
      | (Inr r, s) \<Rightarrow> isRunResult r \<and> r = completedResult opts w s \<and> sandboxClose w = None
          \<and> sandboxExists s \<and> sandboxOutcome s = Proved \<and> workspaceOutcome s \<in> {NotNeeded, Proved}
          \<and> \<not> usageExceeded (planLimits (attemptPlan opts)) (collectedUsage s)
          \<and> (hasSnapshot opts \<longrightarrow> snapshotRemoved w)
          \<and> (workspaceMode (planWorkspace (attemptPlan opts)) = Worktree \<longrightarrow>
               handoff s \<noteq> None \<and> (\<exists>h. worktreeHandoff w = Inr h \<and> handoff s = Some h)))"

lemma bodyPost_stepOk:
  assumes "outcomeOk t" "attemptOk opts s" "t = None \<Longrightarrow> bodyPost opts w (k s)"
  shows "bodyPost opts w (stepOk t s k)"
  using assms by (cases t) (simp_all add: stepOk_def bodyPost_def outcomeOk_def)

lemma bodyPost_stepVal:
  assumes "\<And>e. v = Inl e \<Longrightarrow> thrownOk e" "attemptOk opts s" "\<And>x. v = Inr x \<Longrightarrow> bodyPost opts w (k x s)"
  shows "bodyPost opts w (stepVal v s k)"
  using assms by (cases v) (simp_all add: stepVal_def bodyPost_def)

lemma text_ok [simp]:
  "thrownOk (ThrownError n ''Gondolin package version drift'')"
  "thrownOk (ThrownError n ''structured output repair exhausted'')"
  "thrownOk (ThrownError n ''read-only snapshot removal was not proved'')"
  "thrownOk (ThrownError n ''writing attempt has no worktree record'')"
  "thrownOk (ThrownError n ''attempt usage limit exceeded'')"
  "thrownOk (ThrownError n ''attempt produced an invalid result'')"
  "thrownOk (ThrownError n ''canonical'')"
  by (simp_all add: thrownOk_def utf8Text_def trim_def is_space_def isCont_def utf8Len_def)

lemma attemptUsage_ok [simp]: "checkUsage (attemptUsage w)"
  by (simp add: attemptUsage_def)

lemma worldOk_prompt: "worldOk w \<Longrightarrow> promptOutcome w n = Some e \<Longrightarrow> thrownOk e"
  unfolding worldOk_def outcomeOk_def by (metis option.simps(5))

lemma worldOk_artifact:
  "worldOk w \<Longrightarrow> case artifactPut w t m of Inl e \<Rightarrow> thrownOk e | Inr r \<Rightarrow> checkArtifactRef r"
  by (simp add: worldOk_def)

lemma worldOk_steps:
  "worldOk w \<Longrightarrow> outcomeOk (startAborted w) \<and> outcomeOk (modelResolution w) \<and> outcomeOk (sandboxCreation w)
      \<and> outcomeOk (sandboxJournal w) \<and> outcomeOk (sessionCreation w) \<and> outcomeOk (sessionSetup w)
      \<and> outcomeOk (idleOutcome w) \<and> outcomeOk (sandboxClose w) \<and> outcomeOk (completionRecord w)
      \<and> (case worktreeHandoff w of Inl e \<Rightarrow> thrownOk e | Inr _ \<Rightarrow> True)
      \<and> 0 \<le> elapsedMs w \<and> elapsedMs w \<le> MAX_SAFE_INTEGER"
  by (simp add: worldOk_def)

lemma repairPrompts_ok: "worldOk w \<Longrightarrow> repairPrompts n g w = Inl e \<Longrightarrow> thrownOk e"
proof (induction n arbitrary: g)
  case (Suc n)
  then show ?case
    by (cases "finalAnswer w g"; cases "promptOutcome w g") (auto dest: worldOk_prompt)
qed simp

lemma promptSession_ok:
  assumes "worldOk w" "promptSession opts w = Inl e"
  shows "thrownOk e"
proof (cases "promptOutcome w 0")
  case (Some e')
  then show ?thesis using assms worldOk_prompt [OF assms(1) Some] by (simp add: promptSession_def)
next
  case None
  then show ?thesis using assms repairPrompts_ok [OF assms(1), of 2 1]
    by (auto simp: promptSession_def simp del: repairPrompts.simps split: if_splits option.splits sum.splits)
qed

lemma collectOutput_cases:
  assumes "worldOk w" "attemptOk opts s" "collectOutput opts w v s = (res, s')"
  shows "attemptOk opts s'" "res = Inl e \<Longrightarrow> thrownOk e"
    "res = Inr u \<Longrightarrow> \<not> usageExceeded (planLimits (attemptPlan opts)) (collectedUsage s')"
    "workspaceOutcome s' = workspaceOutcome s" "sandboxExists s' = sandboxExists s"
proof -
  define raw where "raw = (case v of
                 None \<Rightarrow> Inr (assistantOutput (allMessages w) (length (restoredMessages w)))
               | Some v \<Rightarrow> (case canonicalJson v of Inr t \<Rightarrow> Inr t | Inl _ \<Rightarrow> Inl (ThrownError ''Error'' ''canonical'')))"
  have raw_err: "raw = Inl e \<Longrightarrow> thrownOk e" for e
    by (auto simp: raw_def split: option.splits sum.splits)
  define put where "put t = artifactPut w (fst (boundAttemptOutput t (nat (outputBytes (planLimits (attemptPlan opts))))))
      (if v = None then ''text/plain'' else ''application/json'')" for t
  have art: "put t = Inr r \<Longrightarrow> checkArtifactRef r" "put t = Inl e \<Longrightarrow> thrownOk e" for t r e
    using worldOk_artifact [OF assms(1)] unfolding put_def by (metis sum.simps(5,6))+
  note c = assms(3) [unfolded collectOutput_def stepVal_def Let_def, folded raw_def put_def]
  have ok: "attemptOk opts (s\<lparr>structured := v, collectedUsage := attemptUsage w\<rparr>)"
    "checkArtifactRef r \<Longrightarrow> attemptOk opts (s\<lparr>structured := v, collectedUsage := attemptUsage w, outputRef := Some r,
       inlineOutput := i, cut := b\<rparr>)" for r i b
    using assms(2) by (simp_all add: attemptOk_def)
  show "attemptOk opts s'" "res = Inl e \<Longrightarrow> thrownOk e"
    "res = Inr u \<Longrightarrow> \<not> usageExceeded (planLimits (attemptPlan opts)) (collectedUsage s')"
    "workspaceOutcome s' = workspaceOutcome s" "sandboxExists s' = sandboxExists s"
    using c ok raw_err art
    by (auto split: sum.splits if_splits)
qed

lemma settleWorkspace_cases:
  assumes "worldOk w" "attemptOk opts s" "sandboxOutcome s = Proved" "settleWorkspace opts w s = (res, s')"
  shows "res = Inl e \<Longrightarrow> thrownOk e"
    "attemptOk opts s'" "sandboxOutcome s' = Proved" "collectedUsage s' = collectedUsage s"
    "res = Inr u \<Longrightarrow> workspaceOutcome s \<noteq> Blocked \<Longrightarrow> workspaceOutcome s' \<in> {NotNeeded, Proved}
      \<and> (hasSnapshot opts \<longrightarrow> snapshotRemoved w)
      \<and> (workspaceMode (planWorkspace (attemptPlan opts)) = Worktree \<longrightarrow>
           (\<exists>h. worktreeHandoff w = Inr h \<and> handoff s' = Some h))"
proof -
  have h: "worktreeHandoff w = Inl e \<Longrightarrow> thrownOk e" for e using worldOk_steps [OF assms(1)] by simp
  show "res = Inl e \<Longrightarrow> thrownOk e"
    "attemptOk opts s'" "sandboxOutcome s' = Proved" "collectedUsage s' = collectedUsage s"
    "res = Inr u \<Longrightarrow> workspaceOutcome s \<noteq> Blocked \<Longrightarrow> workspaceOutcome s' \<in> {NotNeeded, Proved}
      \<and> (hasSnapshot opts \<longrightarrow> snapshotRemoved w)
      \<and> (workspaceMode (planWorkspace (attemptPlan opts)) = Worktree \<longrightarrow>
           (\<exists>h. worktreeHandoff w = Inr h \<and> handoff s' = Some h))"
    using assms(2-) h
    by (cases "workspaceMode (planWorkspace (attemptPlan opts))"; cases "hasSnapshot opts";
        cases "snapshotRemoved w"; cases "worktreeHandoff w"; cases "hasWorktree opts";
        auto simp: settleWorkspace_def stepVal_def Let_def attemptOk_def releaseSnapshot_def)+
qed

lemma attemptOk_steps [simp]:
  "attemptOk opts (initialAttempt opts)"
  "attemptOk opts s \<Longrightarrow> attemptOk opts (s\<lparr>sandboxExists := True\<rparr>)"
  "attemptOk opts s \<Longrightarrow> attemptOk opts (s\<lparr>sessionOpen := b\<rparr>)"
  "attemptOk opts s \<Longrightarrow> attemptOk opts (s\<lparr>sessionOpen := b, sessionCreated := c\<rparr>)"
  by (auto simp: attemptOk_def initialAttempt_def)

lemma completed_valid:
  assumes "checkRunId (planRunId (attemptPlan opts))" "worldOk w" "attemptOk opts s"
    "sandboxOutcome s = Proved" "workspaceOutcome s \<in> {NotNeeded, Proved}"
  shows "isRunResult (completedResult opts w s)"
  using assms worldOk_steps [OF assms(2)]
  by (auto simp: isRunResult_def checkRunResult_def completedResult_def cleanupIsProved_def Let_def attemptOk_def)

text \<open>The end of the body, once the output is collected.\<close>

definition closeAndComplete :: "AttemptOptions \<Rightarrow> AttemptWorld \<Rightarrow> AttemptState \<Rightarrow> RunResult attemptRes" where
  "closeAndComplete opts w s =
     stepOk (sandboxClose w) s (\<lambda>s.
          let s = s\<lparr>sandboxOutcome := Proved\<rparr> in
          (case settleWorkspace opts w s of
             (Inl e, s) \<Rightarrow> (Inl e, s)
           | (Inr _, s) \<Rightarrow>
               stepVal (terminalResult (completedResult opts w s)) s (\<lambda>r s.
               stepOk (completionRecord w) s (\<lambda>s. (Inr r, s)))))"

lemma closeAndComplete_post:
  assumes run: "checkRunId (planRunId (attemptPlan opts))" and w: "worldOk w" and s: "attemptOk opts s"
    and ex: "sandboxExists s" and nb: "workspaceOutcome s \<noteq> Blocked"
    and lim: "\<not> usageExceeded (planLimits (attemptPlan opts)) (collectedUsage s)"
  shows "bodyPost opts w (closeAndComplete opts w s)"
  unfolding closeAndComplete_def Let_def
proof (rule bodyPost_stepOk)
  show "outcomeOk (sandboxClose w)" "attemptOk opts s" using worldOk_steps [OF w] s by auto
  assume close: "sandboxClose w = None"
  let ?s = "s\<lparr>sandboxOutcome := Proved\<rparr>"
  have s1: "attemptOk opts ?s" using s ex by (auto simp: attemptOk_def)
  obtain res s2 where set: "settleWorkspace opts w ?s = (res, s2)" by fastforce
  note c = settleWorkspace_cases [OF w s1 _ set, simplified]
  show "bodyPost opts w (case settleWorkspace opts w ?s of
             (Inl e, s) \<Rightarrow> (Inl e, s)
           | (Inr _, s) \<Rightarrow>
               stepVal (terminalResult (completedResult opts w s)) s (\<lambda>r s.
               stepOk (completionRecord w) s (\<lambda>s. (Inr r, s))))"
  proof (cases res)
    case (Inl e)
    then show ?thesis using set c by (simp add: bodyPost_def)
  next
    case (Inr u)
    then have ws: "workspaceOutcome s2 \<in> {NotNeeded, Proved}" "hasSnapshot opts \<longrightarrow> snapshotRemoved w"
        "workspaceMode (planWorkspace (attemptPlan opts)) = Worktree \<longrightarrow>
           (\<exists>h. worktreeHandoff w = Inr h \<and> handoff s2 = Some h)"
      using c(5) nb by auto
    have s2: "attemptOk opts s2" "sandboxOutcome s2 = Proved" "collectedUsage s2 = collectedUsage s"
      using c by auto
    then have "sandboxExists s2" by (simp add: attemptOk_def)
    have "terminalResult (completedResult opts w s2) = Inr (completedResult opts w s2)"
      using completed_valid [OF run w s2(1,2) ws(1)] by (simp add: terminalResult_def)
    then have "bodyPost opts w (stepOk (completionRecord w) s2 (\<lambda>s. (Inr (completedResult opts w s2), s)))"
      using worldOk_steps [OF w] s2 \<open>sandboxExists s2\<close> ws lim close completed_valid [OF run w s2(1,2) ws(1)]
      by (intro bodyPost_stepOk) (auto simp: bodyPost_def)
    then show ?thesis using set Inr \<open>terminalResult _ = _\<close> by (simp add: stepVal_def)
  qed
qed

lemma attemptBody_post:
  assumes run: "checkRunId (planRunId (attemptPlan opts))" and w: "worldOk w"
  shows "bodyPost opts w (attemptBody opts w (initialAttempt opts))"
proof -
  let ?s0 = "initialAttempt opts"
  let ?s1 = "?s0\<lparr>sandboxExists := True\<rparr>"
  let ?s2 = "?s1\<lparr>sessionOpen := True, sessionCreated := True\<rparr>"
  have ok: "attemptOk opts ?s0" "attemptOk opts ?s1" "attemptOk opts ?s2" by simp_all
  have nb: "workspaceOutcome ?s2 \<noteq> Blocked" by (simp add: initialAttempt_def)
  have tail: "bodyPost opts w (case collectOutput opts w v ?s2 of
        (Inl e, s) \<Rightarrow> (Inl e, s) | (Inr _, s) \<Rightarrow> closeAndComplete opts w (s\<lparr>sessionOpen := False\<rparr>))" for v
  proof -
    obtain res s' where col: "collectOutput opts w v ?s2 = (res, s')" by fastforce
    note c = collectOutput_cases [OF w ok(3) col]
    show ?thesis
    proof (cases res)
      case (Inl e)
      then show ?thesis using col c by (simp add: bodyPost_def)
    next
      case (Inr u)
      have "bodyPost opts w (closeAndComplete opts w (s'\<lparr>sessionOpen := False\<rparr>))"
        by (rule closeAndComplete_post [OF run w]) (use c Inr nb in \<open>simp_all\<close>)
      then show ?thesis using col Inr by simp
    qed
  qed
  note steps = worldOk_steps [OF w]
  show ?thesis
    unfolding attemptBody_def Let_def closeAndComplete_def [symmetric, unfolded Let_def]
    by (intro bodyPost_stepOk bodyPost_stepVal ok tail promptSession_ok [OF w])
      (use steps in \<open>auto simp: outcomeOk_def\<close>)
qed

lemma failedState_ok:
  assumes "attemptOk opts s"
  shows "checkUsage (collectedUsage (failedState opts w s))"
    "sandboxExists (failedState opts w s) = sandboxExists s"
    "\<not> sandboxExists s \<Longrightarrow> sandboxOutcome (failedState opts w s) = NotNeeded"
    "sandboxExists s \<Longrightarrow> sandboxOutcome (failedState opts w s)
       = (if sandboxIsClosed w \<or> sandboxCancelled w then Proved else Blocked)"
    "hasSnapshot opts \<Longrightarrow> sandboxOutcome (failedState opts w s) \<noteq> Blocked \<Longrightarrow>
       workspaceOutcome (failedState opts w s) \<noteq> Retained"
proof -
  have so: "\<not> sandboxExists s \<Longrightarrow> sandboxOutcome s = NotNeeded" using assms by (auto simp: attemptOk_def)
  show "checkUsage (collectedUsage (failedState opts w s))"
    "sandboxExists (failedState opts w s) = sandboxExists s"
    "\<not> sandboxExists s \<Longrightarrow> sandboxOutcome (failedState opts w s) = NotNeeded"
    "sandboxExists s \<Longrightarrow> sandboxOutcome (failedState opts w s)
       = (if sandboxIsClosed w \<or> sandboxCancelled w then Proved else Blocked)"
    "hasSnapshot opts \<Longrightarrow> sandboxOutcome (failedState opts w s) \<noteq> Blocked \<Longrightarrow>
       workspaceOutcome (failedState opts w s) \<noteq> Retained"
    using assms so
    by (cases "sessionOpen s"; cases "sandboxExists s"; cases "sandboxIsClosed w"; cases "sandboxCancelled w";
        auto simp: failedState_def Let_def attemptOk_def releaseSnapshot_def)+
qed

lemma failed_valid:
  assumes "checkRunId (planRunId (attemptPlan opts))" "worldOk w" "checkUsage (collectedUsage s)" "thrownOk e"
  shows "isRunResult (failedResult opts w e s)"
proof -
  have "checkFailure (classifyAttemptFailure (failureInput w e s))"
    using assms(4) by (intro classify_valid [THEN conjunct1]) (auto simp: thrownOk_def failureInput_def)
  then show ?thesis using assms worldOk_steps [OF assms(2)]
    by (auto simp: isRunResult_def checkRunResult_def failedResult_def failedStatus_def cleanupIsProved_def
        Let_def split: option.splits if_splits)
qed


text \<open>An attempt whose sandbox cannot be created, on a valid plan.\<close>

definition demoOptions :: AttemptOptions where
  "demoOptions = \<lparr>attemptPlan = demoPlan\<lparr>planResources := [\<lparr>resourceKind = KindTool, resourceName = ''read'',
       resourceSource = ''/t'', resourceSha256 = replicate 64 CHR ''a''\<rparr>],
       planIdentity := replicate 64 CHR ''f''\<rparr>,
     attemptAgent = \<lparr>attemptAgentName = ''a'', attemptAgentDisplay = ''a'', attemptAgentPrompt = ''p'',
       attemptAgentSource = ''s'', attemptAgentSha256 = ''d'', attemptAgentScope = AgentBuiltin\<rparr>,
     leaseRunId = ''run_1'', journalRunId = ''run_1'', hasWorktree = False, hasSnapshot = False,
     contextGrants = [], hostTools = [], forkGrant = None, resumeSessionFile = None, resumeMessage = None\<rparr>"

definition demoWorld :: AttemptWorld where
  "demoWorld = \<lparr>startAborted = None, modelResolution = None,
     sandboxCreation = Some (ThrownError ''GondolinSandboxError'' ''qemu''), sandboxVersion = ''1'',
     sandboxJournal = None, sessionCreation = None, restoredMessages = [], sessionSetup = None,
     promptOutcome = (\<lambda>_. None), finalAnswer = (\<lambda>_. None), ownMessages = [], idleOutcome = None,
     artifactPut = (\<lambda>_ _. Inl (ThrownValue ''x'')), sandboxClose = None, snapshotRemoved = False,
     worktreeHandoff = Inr ''h'', completionRecord = None, sandboxIsClosed = False, sandboxCancelled = True,
     failureRecord = None, abortReason' = None, deadlineFired = False, fatalTool = False,
     budgetExhausted = False, elapsedMs = 5\<rparr>"


subsection \<open>Bounded output\<close>

lemma takeCharacters_prefix:
  "\<exists>k. takeCharacters limit bytes chs = concat (take k chs) \<and>
     (bytes \<le> limit \<longrightarrow> bytes + length (takeCharacters limit bytes chs) \<le> limit) \<and>
     (k < length chs \<longrightarrow> limit < bytes + length (takeCharacters limit bytes chs) + length (chs ! k))"
proof (induction chs arbitrary: bytes)
  case Nil
  then show ?case by simp
next
  case (Cons ch chs)
  show ?case
  proof (cases "bytes + length ch > limit")
    case True
    then show ?thesis by (intro exI [of _ 0]) simp
  next
    case False
    obtain k where "takeCharacters limit (bytes + length ch) chs = concat (take k chs)"
      "bytes + length ch + length (takeCharacters limit (bytes + length ch) chs) \<le> limit"
      "k < length chs \<longrightarrow> limit < bytes + length ch + length (takeCharacters limit (bytes + length ch) chs)
         + length (chs ! k)"
      using Cons [of "bytes + length ch"] False by (metis not_less)
    then show ?thesis using False by (intro exI [of _ "Suc k"]) auto
  qed
qed

text \<open>
  Bounding an attempt's output keeps whole characters and as many as fit: the result has at
  most the limit's bytes, it is made of the first characters of the output, the next character
  would not fit, and it is marked truncated exactly when something was cut.
\<close>

theorem bounded_output_is_maximal:
  "\<exists>k. fst (boundAttemptOutput text limit) = concat (take k (characters text))
    \<and> length (fst (boundAttemptOutput text limit)) \<le> limit
    \<and> (k < length (characters text) \<longrightarrow>
         limit < length (fst (boundAttemptOutput text limit)) + length (characters text ! k))
    \<and> (snd (boundAttemptOutput text limit) \<longleftrightarrow> fst (boundAttemptOutput text limit) \<noteq> text)"
proof (cases "length text \<le> limit")
  case True
  then show ?thesis
    by (intro exI [of _ "length (characters text)"]) (simp add: boundAttemptOutput_def)
next
  case False
  obtain k where "takeCharacters limit 0 (characters text) = concat (take k (characters text))"
    "length (takeCharacters limit 0 (characters text)) \<le> limit"
    "k < length (characters text) \<longrightarrow>
       limit < length (takeCharacters limit 0 (characters text)) + length (characters text ! k)"
    using takeCharacters_prefix [of limit 0 "characters text"] by (metis add_0 zero_le)
  then show ?thesis using False by (intro exI [of _ k]) (auto simp: boundAttemptOutput_def)
qed

theorem bounded_output_is_maximal_witness:
  "length (fst (boundAttemptOutput [CHR ''a'', CHR 0xC3, CHR 0xA9] 2)) \<le> 2"
  using bounded_output_is_maximal [of "[CHR ''a'', CHR 0xC3, CHR 0xA9]" 2] by blast

end
