(* ===== verification/Journal.thy ===== *)
theory Journal
  imports RunLease
begin

section \<open>The run journal (\<open>src/persistence/journal.ts\<close>)\<close>

text \<open>
  The append-only event log of a run, at the level of the bytes of \<open>events.jsonl\<close>, and its
  snapshot file. An append may be cut short at any byte; what a later open or read makes of the
  bytes is the subject of the theory. \<open>dateTime\<close> is the schema library's check of the format
  \<open>date-time\<close>.
\<close>

definition MAX_EVENT_BYTES :: nat where "MAX_EVENT_BYTES = 64 * 1024"
definition MAX_JOURNAL_BYTES :: nat where "MAX_JOURNAL_BYTES = 16 * 1024 * 1024"
definition MAX_SNAPSHOT_BYTES :: nat where "MAX_SNAPSHOT_BYTES = 1024 * 1024"

subsection \<open>Lines\<close>

text \<open>
  What the log needs of an encoding of its entries: an entry fits on a line and can be read back.
\<close>

locale line_codec =
  fixes enc :: "'e \<Rightarrow> string" and dec :: "string \<Rightarrow> 'e res" and ok :: "'e \<Rightarrow> bool"
  assumes roundtrip: "ok e \<Longrightarrow> dec (enc e) = Inr e"
    and one_line: "ok e \<Longrightarrow> newline \<notin> set (enc e)"
    and nonempty: "ok e \<Longrightarrow> enc e \<noteq> []"
begin

definition textOf :: "'e list \<Rightarrow> string" where
  "textOf es = concat (map (\<lambda>e. enc e @ [newline]) es)"

lemma textOf_simps [simp]: "textOf [] = []" "textOf (e # es) = enc e @ newline # textOf es"
  "textOf (es @ fs) = textOf es @ textOf fs"
  by (simp_all add: textOf_def)

lemma textOf_last: "es \<noteq> [] \<Longrightarrow> textOf es \<noteq> [] \<and> last (textOf es) = newline"
  by (cases es rule: rev_cases) (simp_all add: textOf_def)

lemma split_text: "list_all ok es \<Longrightarrow> splitOn newline (textOf es @ s) = map enc es @ splitOn newline s"
proof (induction es)
  case Nil
  then show ?case by simp
next
  case (Cons e es)
  then show ?case using one_line by (simp add: splitOn_append_sep)
qed

lemma lines_of_text:
  "list_all ok es \<Longrightarrow> newline \<notin> set torn \<Longrightarrow> splitOn newline (textOf es @ torn) = map enc es @ [torn]"
  by (simp add: split_text splitOn_no_sep)

text \<open>The complete lines of a text that may end in a torn one.\<close>

lemma complete_lines:
  "list_all ok es \<Longrightarrow> newline \<notin> set torn \<Longrightarrow> butlast (splitOn newline (textOf es @ torn)) = map enc es"
  by (simp add: lines_of_text)

lemma torn_prefix: "ok e \<Longrightarrow> n \<le> length (enc e) \<Longrightarrow> newline \<notin> set (take n (enc e @ [newline]))"
  using one_line by (auto dest: in_set_takeD)

end

subsection \<open>Events\<close>

record JournalEvent =
  evSequence :: int
  evId :: string
  evTimestamp :: string
  evRunId :: string
  evType :: string
  evData :: json

definition eventJson :: "JournalEvent \<Rightarrow> json" where
  "eventJson e = JObj
     [(''schema'', JStr ''pi-subagent-event''), (''contractRevision'', JNum (of_int CONTRACT_REVISION)),
      (''sequence'', JNum (of_int (evSequence e))), (''eventId'', JStr (evId e)),
      (''timestamp'', JStr (evTimestamp e)), (''runId'', JStr (evRunId e)), (''type'', JStr (evType e)),
      (''data'', evData e)]"

definition idText :: "string \<Rightarrow> bool" where
  "idText s = (1 \<le> length s \<and> length s \<le> 128)"

text \<open>\<open>Value.Check(JournalEventSchema, value)\<close>, with the event the value is.\<close>

definition eventOf :: "(string \<Rightarrow> bool) \<Rightarrow> json \<Rightarrow> JournalEvent option" where
  "eventOf dateTime v =
     (case v of
        JObj ms \<Rightarrow>
          (case (map_of ms ''schema'', map_of ms ''contractRevision'', map_of ms ''sequence'',
                 map_of ms ''eventId'', map_of ms ''timestamp'', map_of ms ''runId'',
                 map_of ms ''type'', map_of ms ''data'') of
             (Some (JStr schema), Some (JNum revision), Some (JNum seq), Some (JStr eid), Some (JStr ts),
              Some (JStr run), Some (JStr ty), Some d) \<Rightarrow>
               (if length ms = 8 \<and> schema = ''pi-subagent-event'' \<and> revision = of_int CONTRACT_REVISION
                   \<and> of_int (floor seq) = seq \<and> 1 \<le> seq \<and> idText eid \<and> dateTime ts
                   \<and> checkRunId run \<and> idText ty
                then Some \<lparr>evSequence = floor seq, evId = eid, evTimestamp = ts, evRunId = run, evType = ty,
                       evData = d\<rparr>
                else None)
           | _ \<Rightarrow> None)
      | _ \<Rightarrow> None)"

definition lineAt :: "string \<Rightarrow> nat \<Rightarrow> string" where
  "lineAt what index = what @ '' at line '' @ showInt (int index + 1)"

definition decodeLine :: "(string \<Rightarrow> bool) \<Rightarrow> nat \<Rightarrow> string \<Rightarrow> JournalEvent res" where
  "decodeLine dateTime index line =
     (case parse line of
        None \<Rightarrow> Inl (Corruption (lineAt ''invalid interior journal record'' index))
      | Some v \<Rightarrow>
          andThen (assertContractRevision v) (\<lambda>_.
            case eventOf dateTime v of
              None \<Rightarrow> Inl (Corruption (lineAt ''invalid journal schema'' index))
            | Some e \<Rightarrow> Inr e))"

fun parseLines :: "(string \<Rightarrow> bool) \<Rightarrow> string \<Rightarrow> JournalEvent list \<Rightarrow> string list \<Rightarrow> JournalEvent list res" where
  "parseLines dateTime runId events [] = Inr events"
| "parseLines dateTime runId events (line # ls) =
     (if line = [] then Inl (Corruption (lineAt ''empty interior journal record'' (length events)))
      else andThen (decodeLine dateTime (length events) line) (\<lambda>e.
        if evRunId e \<noteq> runId \<or> evSequence e \<noteq> int (length events) + 1
        then Inl (Corruption (lineAt ''journal identity or sequence mismatch'' (length events)))
        else parseLines dateTime runId (events @ [e]) ls))"

text \<open>
  \<open>parseJournal\<close>: the piece after the last newline is dropped, whether it is empty or torn.
\<close>

definition parseJournal :: "(string \<Rightarrow> bool) \<Rightarrow> string \<Rightarrow> string \<Rightarrow> JournalEvent list res" where
  "parseJournal dateTime content runId =
     parseLines dateTime runId [] (butlast (splitOn newline content))"

text \<open>\<open>repairTornTail\<close>: the content up to and including its last newline.\<close>

definition completePart :: "string \<Rightarrow> string" where
  "completePart content = rev (dropWhile (\<lambda>c. c \<noteq> newline) (rev content))"

definition repairTornTail :: "string \<Rightarrow> string" where
  "repairTornTail content =
     (if content = [] \<or> endsWith content [newline] then content else completePart content)"

subsection \<open>The journal of a run\<close>

record JournalWorld =
  jwLeases :: LeaseWorld
  jwContent :: "string option"                     \<comment> \<open>\<open>events.jsonl\<close>\<close>
  jwSnapshot :: "(string \<times> int \<times> json) storedFile option"   \<comment> \<open>\<open>run.json\<close>: run id, last sequence, state\<close>

record RunJournal =
  jRunId :: string
  jSequence :: int
  jLease :: RunLeaseRecord

definition openJournal ::
  "(string \<Rightarrow> bool) \<Rightarrow> string \<Rightarrow> RunLeaseRecord \<Rightarrow> JournalWorld \<Rightarrow> RunJournal res \<times> JournalWorld" where
  "openJournal dateTime runId lease w =
     (if \<not> checkRunId runId then (Inl (Err ''invalid run ID''), w)
      else if lrRunId lease \<noteq> runId then (Inl (Err ''run lease identity mismatch''), w)
      else (case assertCurrent lease (jwLeases w) of
              Inl e \<Rightarrow> (Inl e, w)
            | Inr _ \<Rightarrow>
                (case jwContent w of
                   None \<Rightarrow> (Inr \<lparr>jRunId = runId, jSequence = 0, jLease = lease\<rparr>, w)
                 | Some content \<Rightarrow>
                     if length content > MAX_JOURNAL_BYTES
                     then (Inl (Corruption ''journal exceeds size limit''), w)
                     else (case parseJournal dateTime content runId of
                             Inl e \<Rightarrow> (Inl e, w)
                           | Inr events \<Rightarrow>
                               (Inr \<lparr>jRunId = runId, jSequence = int (length events), jLease = lease\<rparr>,
                                w\<lparr>jwContent := Some (repairTornTail content)\<rparr>)))))"

text \<open>How the write of a line ends: completely and synced, or with an error after some bytes.\<close>

datatype writeOutcome = WriteOk | WriteFails nat

record AppendInput =
  apEventId :: string
  apTimestamp :: string
  apType :: string
  apData :: "json option"        \<comment> \<open>\<open>None\<close> is \<open>undefined\<close>\<close>
  apOutcome :: writeOutcome

definition buildEvent :: "(string \<Rightarrow> bool) \<Rightarrow> RunJournal \<Rightarrow> AppendInput \<Rightarrow> JournalEvent res" where
  "buildEvent dateTime j a =
     (case apData a of
        None \<Rightarrow> Inl (Err ''journal event is not serializable'')
      | Some d \<Rightarrow>
          (let e = \<lparr>evSequence = jSequence j + 1, evId = apEventId a, evTimestamp = apTimestamp a,
                 evRunId = jRunId j, evType = apType a, evData = d\<rparr> in
           if eventOf dateTime (eventJson e) = None then Inl (Err ''invalid journal event'')
           else (case parse (stringify (eventJson e)) of
                   None \<Rightarrow> Inl (Err ''journal event is not serializable'')
                 | Some v \<Rightarrow> if eventOf dateTime v = None
                     then Inl (Err ''journal event is not serializable'') else Inr e)))"

definition appendEvent ::
  "(string \<Rightarrow> bool) \<Rightarrow> RunLeaseRecord \<Rightarrow> AppendInput \<Rightarrow> RunJournal \<times> JournalWorld
     \<Rightarrow> JournalEvent res \<times> RunJournal \<times> JournalWorld" where
  "appendEvent dateTime lease a s =
     (let j = fst s; w = snd s in
      case assertCurrent lease (jwLeases w) of
        Inl e \<Rightarrow> (Inl e, s)
      | Inr _ \<Rightarrow>
          (case buildEvent dateTime j a of
             Inl e \<Rightarrow> (Inl e, s)
           | Inr event \<Rightarrow>
               (let line = stringify (eventJson event) @ [newline];
                    content = (case jwContent w of None \<Rightarrow> [] | Some c \<Rightarrow> c) in
                if length line > MAX_EVENT_BYTES
                then (Inl (Err ''journal event exceeds size limit''), s)
                else if jwContent w \<noteq> None \<and> length content + length line > MAX_JOURNAL_BYTES
                then (Inl (Err ''journal exceeds size limit''), s)
                else (case apOutcome a of
                        WriteOk \<Rightarrow> (Inr event, j\<lparr>jSequence := evSequence event\<rparr>,
                          w\<lparr>jwContent := Some (content @ line)\<rparr>)
                      | WriteFails n \<Rightarrow> (Inl (Err ''write failed''), j,
                          w\<lparr>jwContent := Some (content @ take n line)\<rparr>)))))"

definition readEvents :: "(string \<Rightarrow> bool) \<Rightarrow> RunJournal \<Rightarrow> JournalWorld \<Rightarrow> JournalEvent list res" where
  "readEvents dateTime j w =
     (case jwContent w of
        None \<Rightarrow> Inr []
      | Some content \<Rightarrow>
          if length content > MAX_JOURNAL_BYTES then Inl (Corruption ''journal exceeds size limit'')
          else parseJournal dateTime content (jRunId j))"

text \<open>
  The snapshot: \<open>bytes\<close> is the size of the indented text of the snapshot, which is written to a
  temporary file and renamed.
\<close>

definition writeSnapshot ::
  "RunLeaseRecord \<Rightarrow> nat \<times> json option \<Rightarrow> RunJournal \<times> JournalWorld \<Rightarrow> (string \<times> int \<times> json) res \<times> RunJournal \<times> JournalWorld" where
  "writeSnapshot lease a s =
     (let j = fst s; w = snd s; bytes = fst a in
      case assertCurrent lease (jwLeases w) of
        Inl e \<Rightarrow> (Inl e, s)
      | Inr _ \<Rightarrow>
          (case snd a of
             None \<Rightarrow> (Inl (Err ''run snapshot is not serializable''), s)
           | Some state \<Rightarrow>
               if bytes > MAX_SNAPSHOT_BYTES then (Inl (Err ''run snapshot exceeds size limit''), s)
               else (Inr (jRunId j, jSequence j, state), j,
                 w\<lparr>jwSnapshot := Some \<lparr>fileSize = int bytes, fileIsFile = True,
                     fileValue = encoded (jRunId j, jSequence j, state)\<rparr>\<rparr>)))"

definition readSnapshot :: "RunJournal \<Rightarrow> JournalWorld \<Rightarrow> (string \<times> int \<times> json) option res" where
  "readSnapshot j w =
     (case jwSnapshot w of
        None \<Rightarrow> Inr None
      | Some f \<Rightarrow>
          if fileSize f > int MAX_SNAPSHOT_BYTES then Inl (Corruption ''snapshot exceeds size limit'')
          else andThen (readDecoded ''invalid snapshot JSON'' ''invalid snapshot schema'' (fileValue f))
            (\<lambda>(run, lastSequence, state).
               if run \<noteq> jRunId j \<or> lastSequence > jSequence j
               then Inl (Corruption ''snapshot identity or sequence mismatch'')
               else Inr (Some (run, lastSequence, state))))"

subsection \<open>The fence\<close>

interpretation journal_append: fenced_store "\<lambda>l s. leaseCurrent l (jwLeases (snd s))" "appendEvent dateTime"
  for dateTime
  by unfold_locales (auto simp: leaseCurrent_def isOk_iff appendEvent_def Let_def split: sum.splits)

interpretation journal_snapshot: fenced_store "\<lambda>l s. leaseCurrent l (jwLeases (snd s))" writeSnapshot
  by unfold_locales (auto simp: leaseCurrent_def isOk_iff writeSnapshot_def Let_def split: sum.splits)

subsection \<open>Reading back what was written\<close>

definition eventOk :: "(string \<Rightarrow> bool) \<Rightarrow> JournalEvent \<Rightarrow> bool" where
  "eventOk dateTime e = (eventOf dateTime (eventJson e) = Some e \<and> wf_json (evData e))"

lemma eventOf_json: "eventOf dateTime (eventJson e) = Some x \<Longrightarrow> x = e"
  by (auto simp: eventOf_def eventJson_def split: if_splits)

lemma wf_int [simp]: "wf_num (of_int n)"
proof -
  have "quotient_of (of_int n) = (n, 1)" by (metis Rat.of_int_def quotient_of_int)
  then show ?thesis by (simp add: wf_num_def)
qed

lemma wf_eventJson: "wf_json (evData e) \<Longrightarrow> wf_json (eventJson e)"
  by (simp add: eventJson_def)

lemma eventJson_revision: "assertContractRevision (eventJson e) = Inr ()"
  by (simp add: assertContractRevision_def eventJson_def jget_def)

lemma decodeLine_event: "eventOk dateTime e \<Longrightarrow> decodeLine dateTime i (stringify (eventJson e)) = Inr e"
  by (simp add: decodeLine_def eventOk_def wf_eventJson parse_stringify eventJson_revision)

lemma eventLine_nonempty [simp]: "stringify (eventJson e) \<noteq> []"
  by (simp add: eventJson_def)

interpretation events: line_codec "\<lambda>e. stringify (eventJson e)" "decodeLine dateTime 0" "eventOk dateTime"
  for dateTime
  by unfold_locales (simp_all add: decodeLine_event stringify_no_newline eventLine_nonempty)

abbreviation journalText :: "JournalEvent list \<Rightarrow> string" where
  "journalText \<equiv> events.textOf"

definition journalOk :: "(string \<Rightarrow> bool) \<Rightarrow> string \<Rightarrow> nat \<Rightarrow> JournalEvent list \<Rightarrow> bool" where
  "journalOk dateTime runId start es =
     (list_all (eventOk dateTime) es \<and>
      (\<forall>i < length es. evRunId (es ! i) = runId \<and> evSequence (es ! i) = int (start + i) + 1))"

lemma journalOk_Cons:
  "journalOk dt run k (e # es) \<longleftrightarrow>
     eventOk dt e \<and> evRunId e = run \<and> evSequence e = int k + 1 \<and> journalOk dt run (Suc k) es"
  by (auto simp: journalOk_def less_Suc_eq_0_disj)

lemma journalOk_snoc:
  "journalOk dt run 0 (es @ [e]) \<longleftrightarrow>
     journalOk dt run 0 es \<and> eventOk dt e \<and> evRunId e = run \<and> evSequence e = int (length es) + 1"
  by (auto simp: journalOk_def nth_append less_Suc_eq)

lemma parseLines_events:
  "journalOk dt run (length acc) es \<Longrightarrow>
     parseLines dt run acc (map (\<lambda>e. stringify (eventJson e)) es) = Inr (acc @ es)"
proof (induction es arbitrary: acc)
  case Nil
  then show ?case by simp
next
  case (Cons e es)
  have "eventOk dt e" "evRunId e = run" "evSequence e = int (length acc) + 1"
      "journalOk dt run (length (acc @ [e])) es"
    using Cons.prems by (simp_all add: journalOk_Cons)
  then show ?case using Cons.IH [of "acc @ [e]"] by (simp add: decodeLine_event)
qed

lemma parseJournal_text:
  assumes "journalOk dt run 0 es" "newline \<notin> set torn"
  shows "parseJournal dt (journalText es @ torn) run = Inr es"
  using assms parseLines_events [of dt run "[]" es] events.complete_lines [of dt es torn]
  by (simp add: parseJournal_def journalOk_def)

lemma completePart_text:
  assumes "newline \<notin> set torn"
  shows "completePart (journalText es @ torn) = journalText es"
proof -
  have "dropWhile (\<lambda>c. c \<noteq> newline) (rev torn @ rev (journalText es)) = rev (journalText es)"
  proof (cases "es = []")
    case True
    then show ?thesis using assms by (auto simp: dropWhile_eq_Nil_conv)
  next
    case False
    then have "journalText es \<noteq> []" "last (journalText es) = newline"
      using events.textOf_last by auto
    then obtain t where "rev (journalText es) = newline # t"
      by (cases "journalText es" rule: rev_cases) auto
    then show ?thesis using assms by (subst dropWhile_append2) auto
  qed
  then show ?thesis by (simp add: completePart_def)
qed

lemma repair_text:
  assumes "newline \<notin> set torn"
  shows "repairTornTail (journalText es @ torn) = journalText es"
proof (cases "torn = []")
  case True
  then show ?thesis using events.textOf_last [of es] completePart_text [of "[]" es]
    by (auto simp: repairTornTail_def)
next
  case False
  then have "last torn \<noteq> newline" using assms last_in_set by fastforce
  then show ?thesis using False assms completePart_text [OF assms]
    by (simp add: repairTornTail_def endsWith_singleton)
qed

lemma cut_line:
  "n < length (stringify (eventJson e) @ [newline]) \<Longrightarrow>
     newline \<notin> set (take n (stringify (eventJson e) @ [newline]))"
  using stringify_no_newline(1) [of "eventJson e"] by (auto dest: in_set_takeD)

text \<open>
  C3: A crash at any byte of an append loses at most the event being written: when the log of a run
  holds some events and the line of one more was cut after any number of bytes, opening the journal
  under a current lease succeeds with exactly the earlier events (all of them when the line is
  complete), continues their numbering, and leaves the log without the torn part.
\<close>

theorem journal_survives_any_crash:
  fixes e :: JournalEvent and n :: nat
  defines "line \<equiv> stringify (eventJson e) @ [newline]"
  assumes "journalOk dateTime runId 0 es" and "journalOk dateTime runId 0 (es @ [e])"
    and "checkRunId runId" and "lrRunId lease = runId" and "leaseCurrent lease (jwLeases w)"
    and "length (journalText es @ line) \<le> MAX_JOURNAL_BYTES"
    and "jwContent w = Some (journalText es @ take n line)"
  shows "openJournal dateTime runId lease w =
    (let kept = (if n < length line then es else es @ [e]) in
     (Inr \<lparr>jRunId = runId, jSequence = int (length kept), jLease = lease\<rparr>,
      w\<lparr>jwContent := Some (journalText kept)\<rparr>))"
proof -
  have cur: "assertCurrent lease (jwLeases w) = Inr ()"
    using assms(6) by (simp add: leaseCurrent_def isOk_iff)
  have len: "length (journalText es @ take n line) \<le> MAX_JOURNAL_BYTES" using assms(7) by simp
  show ?thesis
  proof (cases "n < length line")
    case True
    then have torn: "newline \<notin> set (take n line)" using cut_line by (simp add: line_def)
    show ?thesis
      using assms(4-8) cur len True parseJournal_text [OF assms(2) torn] repair_text [OF torn, of es]
      by (simp add: openJournal_def Let_def)
  next
    case False
    then have full: "journalText es @ take n line = journalText (es @ [e])" by (simp add: line_def)
    show ?thesis
      using assms(4-8) cur len False parseJournal_text [OF assms(3), of "[]"] repair_text [of "[]" "es @ [e]"]
      by (simp add: openJournal_def Let_def) (simp add: line_def)
  qed
qed

definition demoEvent :: "int \<Rightarrow> JournalEvent" where
  "demoEvent n = \<lparr>evSequence = n, evId = ''id'', evTimestamp = ''2026'', evRunId = ''run_1'',
     evType = ''t'', evData = JNull\<rparr>"

lemma demoEvent_ok: "1 \<le> n \<Longrightarrow> eventOk (\<lambda>_. True) (demoEvent n)"
  by (simp add: eventOk_def demoEvent_def eventOf_def eventJson_def idText_def checkRunId_def
      startsWith_def lowerAlnum_def is_digit_def)

definition demoLeaseWorld :: LeaseWorld where
  "demoLeaseWorld = \<lparr>leasePorts = (\<lambda>p. if p = 20000 then Some ''l2'' else None),
     leaseFiles = (\<lambda>k. if k = ''run_1'' then Some \<lparr>fileSize = 100, fileIsFile = True,
       fileValue = encoded demoLease\<rparr> else None)\<rparr>"

lemma demoLease_current: "leaseCurrent demoLease demoLeaseWorld"
  by (simp add: leaseCurrent_def assertCurrent_def readLeaseRecord_def demoLeaseWorld_def demoLease_def
      LEASE_MAX_RECORD_BYTES_def encoded_def readDecoded_def CONTRACT_REVISION_def)

lemma demoEvent_length: "length (stringify (eventJson (demoEvent 1))) \<le> 1000"
proof -
  have "length (showNum (of_int n)) \<le> 3" if "n = 1 \<or> n = 13" for n :: int
  proof -
    have "quotient_of (of_int n) = (n, 1)" by (metis Rat.of_int_def quotient_of_int)
    then show ?thesis using that by (auto simp: showNum_def showNat.simps)
  qed
  from this [of 1] this [of 13] show ?thesis
    by (simp add: eventJson_def demoEvent_def CONTRACT_REVISION_def showStr_def escapeChar_def)
qed

theorem journal_survives_any_crash_witness:
  "fst (openJournal (\<lambda>_. True) ''run_1'' demoLease \<lparr>jwLeases = demoLeaseWorld,
     jwContent = Some (journalText [] @ take 5 (stringify (eventJson (demoEvent 1)) @ [newline])),
     jwSnapshot = None\<rparr>) = Inr \<lparr>jRunId = ''run_1'', jSequence = 0, jLease = demoLease\<rparr>"
proof -
  have len: "length (journalText [] @ stringify (eventJson (demoEvent 1)) @ [newline]) \<le> MAX_JOURNAL_BYTES"
    using demoEvent_length by (simp add: MAX_JOURNAL_BYTES_def)
  have "5 < length (stringify (eventJson (demoEvent 1)) @ [newline])"
    by (simp add: eventJson_def demoEvent_def showStr_def escapeChar_def)
  then show ?thesis
    by (subst journal_survives_any_crash [where es = "[]" and e = "demoEvent 1" and n = 5, OF _ _ _ _ _ len])
      (simp_all add: journalOk_def demoEvent_ok demoLease_current, simp_all add: demoEvent_def
        checkRunId_def startsWith_def lowerAlnum_def is_digit_def demoLease_def)
qed

subsection \<open>Sequences of appends\<close>

definition journalInv :: "(string \<Rightarrow> bool) \<Rightarrow> JournalEvent list \<Rightarrow> RunJournal \<times> JournalWorld \<Rightarrow> bool" where
  "journalInv dateTime es s =
     (journalOk dateTime (jRunId (fst s)) 0 es \<and> jSequence (fst s) = int (length es)
      \<and> length (journalText es) \<le> MAX_JOURNAL_BYTES
      \<and> (case jwContent (snd s) of None \<Rightarrow> es = [] | Some c \<Rightarrow> c = journalText es))"

lemma journalInv_read: "journalInv dt es s \<Longrightarrow> readEvents dt (fst s) (snd s) = Inr es"
  using parseJournal_text [of dt "jRunId (fst s)" es "[]"]
  by (auto simp: journalInv_def readEvents_def split: option.splits)

lemma buildEvent_ok:
  assumes "buildEvent dt j a = Inr e" "\<And>d. apData a = Some d \<Longrightarrow> wf_json d"
  shows "eventOk dt e" "evSequence e = jSequence j + 1" "evRunId e = jRunId j"
proof -
  from assms(1) obtain d where d: "apData a = Some d" "e = \<lparr>evSequence = jSequence j + 1, evId = apEventId a,
      evTimestamp = apTimestamp a, evRunId = jRunId j, evType = apType a, evData = d\<rparr>"
    "eventOf dt (eventJson e) \<noteq> None"
    by (auto simp: buildEvent_def Let_def split: option.splits if_splits)
  then show "eventOk dt e" "evSequence e = jSequence j + 1" "evRunId e = jRunId j"
    using assms(2) eventOf_json [of dt e] by (auto simp: eventOk_def)
qed

lemma appendEvent_inv:
  assumes inv: "journalInv dt es s" and wf: "\<And>d. apData a = Some d \<Longrightarrow> wf_json d" and ok: "apOutcome a = WriteOk"
    and ap: "appendEvent dt lease a s = (res, s')"
  shows "journalInv dt (es @ (case res of Inl _ \<Rightarrow> [] | Inr e \<Rightarrow> [e])) s' \<and> jRunId (fst s') = jRunId (fst s)"
proof (cases res)
  case (Inl x)
  then have "s' = s" using ap ok
    by (auto simp: appendEvent_def Let_def split: sum.splits if_splits option.splits)
  then show ?thesis using inv Inl by simp
next
  case (Inr e)
  obtain j w where s: "s = (j, w)" by (cases s)
  let ?line = "stringify (eventJson e) @ [newline]"
  have b: "buildEvent dt j a = Inr e" and len: "length ?line \<le> MAX_EVENT_BYTES"
    and total: "jwContent w \<noteq> None \<longrightarrow> length (case jwContent w of None \<Rightarrow> [] | Some c \<Rightarrow> c) + length ?line \<le> MAX_JOURNAL_BYTES"
    and s': "s' = (j\<lparr>jSequence := evSequence e\<rparr>,
        w\<lparr>jwContent := Some ((case jwContent w of None \<Rightarrow> [] | Some c \<Rightarrow> c) @ ?line)\<rparr>)"
    using ap ok Inr s by (auto simp: appendEvent_def Let_def split: sum.splits if_splits)
  have c: "(case jwContent w of None \<Rightarrow> [] | Some c \<Rightarrow> c) = journalText es"
    using inv s by (auto simp: journalInv_def split: option.splits)
  have "length (journalText es) + length ?line \<le> MAX_JOURNAL_BYTES"
  proof (cases "jwContent w")
    case None
    then show ?thesis using inv s len by (simp add: journalInv_def MAX_EVENT_BYTES_def MAX_JOURNAL_BYTES_def)
  next
    case (Some x)
    then show ?thesis using total c by simp
  qed
  then show ?thesis
    using inv buildEvent_ok [OF b wf] Inr unfolding s' s
    by (simp add: journalInv_def journalOk_snoc c [unfolded s])
qed

fun appendAll ::
  "(string \<Rightarrow> bool) \<Rightarrow> (RunLeaseRecord \<times> AppendInput) list \<Rightarrow> RunJournal \<times> JournalWorld
     \<Rightarrow> JournalEvent list \<times> RunJournal \<times> JournalWorld" where
  "appendAll dateTime [] s = ([], s)"
| "appendAll dateTime ((lease, a) # as) s =
     (let (res, s') = appendEvent dateTime lease a s; (es, t) = appendAll dateTime as s'
      in ((case res of Inl _ \<Rightarrow> [] | Inr e \<Rightarrow> [e]) @ es, t))"

lemma appendAll_inv:
  "journalInv dt es s \<Longrightarrow>
   (\<And>l a. (l, a) \<in> set as \<Longrightarrow> apOutcome a = WriteOk \<and> (case apData a of None \<Rightarrow> True | Some d \<Rightarrow> wf_json d)) \<Longrightarrow>
     journalInv dt (es @ fst (appendAll dt as s)) (snd (appendAll dt as s))"
proof (induction as arbitrary: s es)
  case Nil
  then show ?case by simp
next
  case (Cons la as)
  obtain l a where la: "la = (l, a)" by (cases la)
  obtain res s' where ap: "appendEvent dt l a s = (res, s')" by (cases "appendEvent dt l a s") blast
  have a: "apOutcome a = WriteOk" "\<And>d. apData a = Some d \<Longrightarrow> wf_json d"
    using Cons.prems(2) [of l a] la by (auto split: option.splits)
  have "journalInv dt (es @ (case res of Inl _ \<Rightarrow> [] | Inr e \<Rightarrow> [e])) s'"
    using appendEvent_inv [OF Cons.prems(1) a(2,1) ap] by blast
  then have "journalInv dt ((es @ (case res of Inl _ \<Rightarrow> [] | Inr e \<Rightarrow> [e])) @ fst (appendAll dt as s'))
      (snd (appendAll dt as s'))"
    using Cons.prems(2) by (intro Cons.IH) auto
  moreover obtain fs t where "appendAll dt as s' = (fs, t)" by (cases "appendAll dt as s'") blast
  ultimately show ?case using ap la by (simp add: Let_def)
qed

text \<open>
  The log is exactly what was appended: after any sequence of appends to a new journal, under
  whatever leases, of which some are refused (a fenced lease, an event or a log that is too large,
  data that is not serializable) and none fails in the middle of its write, reading the journal
  back yields the events of the successful appends in order, numbered from 1 without gaps.
\<close>

theorem journal_reads_back_appends:
  assumes "jwContent w = None" and "jSequence j = 0"
    and "\<And>l a. (l, a) \<in> set as \<Longrightarrow> apOutcome a = WriteOk \<and> (case apData a of None \<Rightarrow> True | Some d \<Rightarrow> wf_json d)"
  shows "readEvents dateTime (fst (snd (appendAll dateTime as (j, w)))) (snd (snd (appendAll dateTime as (j, w))))
      = Inr (fst (appendAll dateTime as (j, w)))
    \<and> map evSequence (fst (appendAll dateTime as (j, w)))
      = map (\<lambda>i. int i + 1) [0..<length (fst (appendAll dateTime as (j, w)))]"
proof -
  have "journalInv dateTime [] (j, w)" using assms(1,2) by (simp add: journalInv_def journalOk_def)
  from appendAll_inv [OF this assms(3)]
  have inv: "journalInv dateTime (fst (appendAll dateTime as (j, w))) (snd (appendAll dateTime as (j, w)))"
    by simp
  then show ?thesis using journalInv_read [OF inv]
    by (auto simp: journalInv_def journalOk_def intro!: nth_equalityI)
qed

definition demoAppend :: "AppendInput" where
  "demoAppend = \<lparr>apEventId = ''id'', apTimestamp = ''2026'', apType = ''t'', apData = Some JNull, apOutcome = WriteOk\<rparr>"

theorem journal_reads_back_appends_witness:
  "map evSequence (fst (appendAll (\<lambda>_. True) [(demoLease, demoAppend), (demoLease, demoAppend)]
       (\<lparr>jRunId = ''run_1'', jSequence = 0, jLease = demoLease\<rparr>,
        \<lparr>jwLeases = demoLeaseWorld, jwContent = None, jwSnapshot = None\<rparr>)))
   = map (\<lambda>i. int i + 1) [0..<length (fst (appendAll (\<lambda>_. True) [(demoLease, demoAppend), (demoLease, demoAppend)]
       (\<lparr>jRunId = ''run_1'', jSequence = 0, jLease = demoLease\<rparr>,
        \<lparr>jwLeases = demoLeaseWorld, jwContent = None, jwSnapshot = None\<rparr>)))]"
  by (rule journal_reads_back_appends [THEN conjunct2]) (auto simp: demoAppend_def)

subsection \<open>After a write that fails midway\<close>

lemma parseLines_append:
  "parseLines dt run acc (xs @ ys) = andThen (parseLines dt run acc xs) (\<lambda>acc. parseLines dt run acc ys)"
proof (induction xs arbitrary: acc)
  case Nil
  then show ?case by simp
next
  case (Cons x xs)
  then show ?case by (cases "decodeLine dt (length acc) x") auto
qed

lemma parse_double_brace: "parse (CHR ''{'' # CHR ''{'' # s) = None"
  by (simp add: parse_def skipWs_def isWs_def startsWith_def readStr_def)

lemma eventJson_brace: "\<exists>t. stringify (eventJson e) = CHR ''{'' # t"
  by (simp add: eventJson_def)

text \<open>
  A failed append is not undone: when the write of an event stops after its first byte and the
  process appends another event, that append reports success, but the log can no longer be read:
  reading it, and opening it again after the process is gone, is refused as corrupt.
\<close>

theorem append_after_partial_write_corrupts:
  assumes "journalInv dateTime es (j, w)" and "jwContent w = Some (journalText es)"
    and "appendEvent dateTime lease a (j, w) = (Inl err, j', w')" and "apOutcome a = WriteFails 1"
    and "w' \<noteq> w"
    and "appendEvent dateTime lease b (j', w') = (Inr e, j'', w'')" and "apOutcome b = WriteOk"
    and "length (the (jwContent w'')) \<le> MAX_JOURNAL_BYTES"
  shows "\<exists>msg. readEvents dateTime j'' w'' = Inl (Corruption msg)"
proof -
  from assms(2-5) obtain event where first: "w' = w\<lparr>jwContent := Some (journalText es @ take 1 (stringify (eventJson event) @ [newline]))\<rparr>"
      "j' = j"
    by (auto simp: appendEvent_def Let_def split: sum.splits if_splits)
  obtain t where t: "stringify (eventJson event) = CHR ''{'' # t" using eventJson_brace by blast
  obtain u where u: "stringify (eventJson e) = CHR ''{'' # u" using eventJson_brace by blast
  have j'': "jRunId j'' = jRunId j" and content: "jwContent w'' = Some (journalText es @ [CHR ''{''] @ stringify (eventJson e) @ [newline])"
    using assms(6,7) first t by (auto simp: appendEvent_def Let_def split: sum.splits if_splits)
  let ?torn = "CHR ''{'' # stringify (eventJson e)"
  have nl: "newline \<notin> set ?torn" using stringify_no_newline(1) [of "eventJson e"] by simp
  have ok: "journalOk dateTime (jRunId j) 0 es" using assms(1) by (simp add: journalInv_def)
  then have "butlast (splitOn newline (journalText es @ ?torn @ [newline])) = map (\<lambda>e. stringify (eventJson e)) es @ [?torn]"
    using events.split_text [of dateTime es "?torn @ [newline]"] splitOn_append_sep [OF nl, of "[]"]
    by (simp add: journalOk_def butlast_append)
  moreover have "parseLines dateTime (jRunId j) [] (map (\<lambda>e. stringify (eventJson e)) es @ [?torn])
      = Inl (Corruption (lineAt ''invalid interior journal record'' (length es)))"
    using parseLines_events [of dateTime "jRunId j" "[]" es] ok u parse_double_brace [of u]
    by (simp add: parseLines_append decodeLine_def)
  ultimately have "parseJournal dateTime (journalText es @ ?torn @ [newline]) (jRunId j)
      = Inl (Corruption (lineAt ''invalid interior journal record'' (length es)))"
    by (simp add: parseJournal_def)
  then show ?thesis using content assms(8) j'' by (simp add: readEvents_def)
qed

definition demoJournal :: RunJournal where
  "demoJournal = \<lparr>jRunId = ''run_1'', jSequence = 0, jLease = demoLease\<rparr>"

definition demoContent :: "string \<Rightarrow> JournalWorld" where
  "demoContent c = \<lparr>jwLeases = demoLeaseWorld, jwContent = Some c, jwSnapshot = None\<rparr>"

lemma demo_build: "buildEvent (\<lambda>_. True) demoJournal (demoAppend\<lparr>apOutcome := out\<rparr>) = Inr (demoEvent 1)"
proof -
  have "parse (stringify (eventJson (demoEvent 1))) = Some (eventJson (demoEvent 1))"
    by (rule parse_stringify, rule wf_eventJson) (simp add: demoEvent_def)
  moreover have "eventOf (\<lambda>_. True) (eventJson (demoEvent 1)) \<noteq> None"
    using demoEvent_ok [of 1] by (simp add: eventOk_def)
  moreover have "\<lparr>evSequence = 1, evId = ''id'', evTimestamp = ''2026'', evRunId = ''run_1'', evType = ''t'',
      evData = JNull\<rparr> = demoEvent 1" by (simp add: demoEvent_def)
  ultimately show ?thesis by (auto simp: buildEvent_def demoAppend_def demoJournal_def Let_def)
qed

lemma demo_append:
  assumes "length c \<le> 2000"
  shows "appendEvent (\<lambda>_. True) demoLease (demoAppend\<lparr>apOutcome := WriteFails n\<rparr>) (demoJournal, demoContent c)
     = (Inl (Err ''write failed''), demoJournal,
        demoContent (c @ take n (stringify (eventJson (demoEvent 1)) @ [newline])))"
    and "appendEvent (\<lambda>_. True) demoLease (demoAppend\<lparr>apOutcome := WriteOk\<rparr>) (demoJournal, demoContent c)
     = (Inr (demoEvent 1), demoJournal\<lparr>jSequence := 1\<rparr>,
        demoContent (c @ stringify (eventJson (demoEvent 1)) @ [newline]))"
  using assms demoEvent_length demoLease_current demo_build
  by (simp_all add: appendEvent_def demoContent_def leaseCurrent_def isOk_iff MAX_EVENT_BYTES_def
      MAX_JOURNAL_BYTES_def) (simp add: demoEvent_def)

theorem append_after_partial_write_corrupts_witness:
  "\<exists>msg. readEvents (\<lambda>_. True) (demoJournal\<lparr>jSequence := 1\<rparr>)
     (demoContent (CHR ''{'' # stringify (eventJson (demoEvent 1)) @ [newline])) = Inl (Corruption msg)"
proof -
  have one: "take 1 (stringify (eventJson (demoEvent 1)) @ [newline]) = ''{''" by (simp add: eventJson_def)
  show ?thesis
    by (rule append_after_partial_write_corrupts [where es = "[]" and w = "demoContent []" and j = demoJournal
          and lease = demoLease and j' = demoJournal and w' = "demoContent ''{''" and e = "demoEvent 1",
          OF _ _ demo_append(1) [of "[]" 1, unfolded one, simplified] _ _ demo_append(2) [of "''{''", simplified]])
      (use demoEvent_length in \<open>simp_all add: journalInv_def journalOk_def demoJournal_def demoContent_def MAX_JOURNAL_BYTES_def\<close>)
qed

end
