(* ===== verification/ServicePlans.thy ===== *)
theory ServicePlans
  imports Attempt Compile Journal
begin

section \<open>The plans of a run's attempts (\<open>src/service.ts\<close>)\<close>

text \<open>
  What the service decides from records alone: the plan of a retry or of a resume, the delay of a retry,
  the checks made again before an attempt starts, the actions it offers for a run. The main property
  follows a run through any number of retries and resumes: its budgets are spent, never grown.
\<close>

definition IMPLEMENTED_TOOLS :: "string list" where
  "IMPLEMENTED_TOOLS = [''read'', ''write'', ''edit'', ''bash'', ''grep'', ''find'', ''ls'']"

definition MAX_RESUME_MESSAGE_BYTES :: int where "MAX_RESUME_MESSAGE_BYTES = 64 * 1024"

definition sharesLiveCheckout :: "AgentLaunchPlan \<Rightarrow> bool" where
  "sharesLiveCheckout p =
     (workspaceMode (planWorkspace p) = ReadOnly \<and> workspaceStartAt (planWorkspace p) = None)"

subsection \<open>Retries and resumes\<close>

definition retryDelayMs :: "ClassifiedFailure option \<Rightarrow> nat \<Rightarrow> int" where
  "retryDelayMs f ordinal =
     (case f of
        None \<Rightarrow> 0
      | Some f \<Rightarrow>
          if failureRetry f \<noteq> RetryBackoff then 0
          else min 300000 ((case retryAfterMs f of None \<Rightarrow> 1000 | Some ms \<Rightarrow> ms) * 2 ^ min ordinal 8))"

datatype AttemptReason = ByRetry | ByResume

fun reasonText :: "AttemptReason \<Rightarrow> string" where
  "reasonText ByRetry = ''retry''"
| "reasonText ByResume = ''resume''"

definition attemptIdentityJs :: "AgentLaunchPlan \<Rightarrow> int \<Rightarrow> AttemptReason \<Rightarrow> jsval" where
  "attemptIdentityJs current ordinal reason = vobj
     [(''runId'', Some (VStr (planRunId current))), (''parentAttemptId'', Some (VStr (planAttemptId current))),
      (''ordinal'', Some (vint ordinal)), (''kind'', Some (VStr (reasonText reason)))]"

definition nextAttemptId :: "(string \<Rightarrow> string) \<Rightarrow> AgentLaunchPlan \<Rightarrow> int \<Rightarrow> AttemptReason \<Rightarrow> string res" where
  "nextAttemptId sha current ordinal reason =
     andThen (canonicalSha256 sha (attemptIdentityJs current ordinal reason)) (\<lambda>d. Inr (''attempt_'' @ take 48 d))"

text \<open>What is left of the run-wide budgets after a result, or the refusal that they are spent.\<close>

definition remainingLimits :: "string \<Rightarrow> RunLimits \<Rightarrow> RunResult \<Rightarrow> RunLimits res" where
  "remainingLimits refusal l r =
     (let runtime = cumulativeRuntimeMs l - runtimeMs r;
          tokens = remainingTotalTokens (limitTotalTokens l) (usage r);
          cost = limitCost l - usageCost (usage r)
      in if runtime < 1000 \<or> (case tokens of None \<Rightarrow> False | Some n \<Rightarrow> n < 1) \<or> cost \<le> 0
         then Inl (Err refusal)
         else Inr (l\<lparr>cumulativeRuntimeMs := runtime, attemptTimeoutMs := min (attemptTimeoutMs l) runtime,
                     limitTotalTokens := (case tokens of None \<Rightarrow> limitTotalTokens l | Some n \<Rightarrow> Some n),
                     limitCost := cost\<rparr>))"

definition sealPlan :: "(string \<Rightarrow> string) \<Rightarrow> AgentLaunchPlan \<Rightarrow> AgentLaunchPlan res" where
  "sealPlan sha p = andThen (canonicalSha256 sha (draftJs p)) (\<lambda>d. Inr (p\<lparr>planIdentity := d\<rparr>))"

definition retryPlan :: "(string \<Rightarrow> string) \<Rightarrow> AgentLaunchPlan \<Rightarrow> RunResult \<Rightarrow> int \<Rightarrow> AgentLaunchPlan res" where
  "retryPlan sha current r ordinal =
     (if retries (planLimits current) < 1 then Inl (Err ''retry budget exhausted'')
      else if (case failure r of None \<Rightarrow> True | Some f \<Rightarrow> failureRetry f \<noteq> RetryManual \<and> failureRetry f \<noteq> RetryBackoff)
      then Inl (Err ''failure classification does not permit retry'')
      else andThen (remainingLimits ''retry run-wide budget exhausted'' (planLimits current) r) (\<lambda>l.
           andThen (nextAttemptId sha current ordinal ByRetry) (\<lambda>attempt.
             sealPlan sha (current\<lparr>planAttemptId := attempt,
               planLimits := l\<lparr>retries := retries (planLimits current) - 1\<rparr>\<rparr>))))"

definition resumePlan ::
  "(string \<Rightarrow> string) \<Rightarrow> AgentLaunchPlan \<Rightarrow> RunResult \<Rightarrow> int \<Rightarrow> bool \<Rightarrow> AgentLaunchPlan res" where
  "resumePlan sha current r ordinal continueFromHandoff =
     (if resumes (planLimits current) < 1 then Inl (Err ''resume budget exhausted'')
      else if \<not> continueFromHandoff
              \<and> (case failure r of None \<Rightarrow> True | Some f \<Rightarrow> failureRetry f \<noteq> RetryResume)
      then Inl (Err ''failure classification does not permit resume'')
      else andThen (remainingLimits ''resume run-wide budget exhausted'' (planLimits current) r) (\<lambda>l.
           andThen (nextAttemptId sha current ordinal ByResume) (\<lambda>attempt.
             sealPlan sha (current\<lparr>planAttemptId := attempt,
               planLimits := l\<lparr>resumes := resumes (planLimits current) - 1\<rparr>\<rparr>))))"

record ResumeInput =
  riContinueFromHandoff :: bool
  riMessage :: "string option"     \<comment> \<open>\<open>None\<close> when it is not a string\<close>

definition assertResumeInput :: "ResumeInput \<Rightarrow> unit res" where
  "assertResumeInput i =
     (if \<not> riContinueFromHandoff i then Inl (Err ''resume input requires continueFromHandoff: true'')
      else (case riMessage i of
              None \<Rightarrow> Inl (Err ''resume message must be non-blank'')
            | Some m \<Rightarrow> require (trim m \<noteq> [] \<and> int (length m) \<le> MAX_RESUME_MESSAGE_BYTES)
                (Err ''resume message must be non-blank'')))"

subsection \<open>Identities of a launch\<close>

definition validateServiceOwner :: "string \<Rightarrow> unit res" where
  "validateServiceOwner owner =
     require (trim owner \<noteq> [] \<and> length owner \<le> 256) (Err ''owner ID must contain 1-256 UTF-8 bytes'')"

record DeterministicIds =
  idRunId :: string
  idAttemptId :: string
  idRequestSha256 :: string

text \<open>\<open>request\<close> is the request as the JavaScript value it is.\<close>

definition deterministicIds :: "(string \<Rightarrow> string) \<Rightarrow> string \<Rightarrow> jsval \<Rightarrow> DeterministicIds res" where
  "deterministicIds sha owner request =
     andThen (canonicalSha256 sha (vobj [(''ownerId'', Some (VStr owner)), (''request'', Some request)])) (\<lambda>identity.
     andThen (canonicalSha256 sha request) (\<lambda>d.
       Inr \<lparr>idRunId = ''run_'' @ take 48 identity, idAttemptId = ''attempt_'' @ take 48 identity, idRequestSha256 = d\<rparr>))"

definition agentFromPlan :: "AgentLaunchPlan \<Rightarrow> AgentDefinition" where
  "agentFromPlan p =
     \<lparr>agentName = planAgent p, agentDisplay = planAgentDisplayName p, agentPrompt = planAgentPrompt p,
      agentScope = planAgentScope p, agentSource = planAgentSource p, agentSha256 = planAgentSha256 p,
      defaultModel = Some (planModel p), allowedModels = [modelKey (planModel p)], agentTools = planTools p,
      agentSkills = planSkills p, agentScopes = planScopes p, agentModes = [workspaceMode (planWorkspace p)],
      limitCeiling = planLimits p, memoryCeilingBytes = planMemoryBytes p\<rparr>"

subsection \<open>Drift of skills and host tools\<close>

record CatalogSkill =
  skName :: string
  skHostFilePath :: string
  skSha256 :: string

definition assertSkillProjection :: "(string \<Rightarrow> string) \<Rightarrow> AgentLaunchPlan \<Rightarrow> CatalogSkill list \<Rightarrow> unit res" where
  "assertSkillProjection sha p catalog =
     (let planned = sort (map (\<lambda>g. resourceName g @ '':'' @ resourceSource g @ '':'' @ resourceSha256 g)
            (filter (\<lambda>g. resourceKind g = KindSkill) (planResources p)));
          current = sort (map (\<lambda>s. skName s @ '':'' @ skHostFilePath s @ '':'' @ skSha256 s) catalog)
      in andThen (canonicalSha256 sha (vstrs planned)) (\<lambda>a. andThen (canonicalSha256 sha (vstrs current)) (\<lambda>b.
           require (a = b) (Err ''skill catalog changed after preflight''))))"

definition hostToolOf :: "HostToolDeclaration list \<Rightarrow> string \<Rightarrow> HostToolDeclaration option" where
  "hostToolOf tools name = find (\<lambda>d. hostToolName d = name) tools"

definition assertHostTool :: "AgentLaunchPlan \<Rightarrow> HostToolDeclaration list \<Rightarrow> string \<Rightarrow> unit \<Rightarrow> unit res" where
  "assertHostTool p tools name _ =
     (if name \<in> set IMPLEMENTED_TOOLS then Inr ()
      else require
        (case (hostToolOf tools name, find (\<lambda>g. resourceKind g = KindTool \<and> resourceName g = name) (planResources p)) of
           (Some d, Some g) \<Rightarrow> resourceSource g = hostToolSource d \<and> resourceSha256 g = hostToolSha256 d
         | _ \<Rightarrow> False)
        (Err (''host tool changed after preflight: '' @ name)))"

definition assertHostToolProjection :: "AgentLaunchPlan \<Rightarrow> HostToolDeclaration list \<Rightarrow> unit res" where
  "assertHostToolProjection p tools = foldRes (assertHostTool p tools) (planTools p) ()"

definition toolGrant ::
  "(string \<Rightarrow> string) \<Rightarrow> string \<times> string \<Rightarrow> HostToolDeclaration list \<Rightarrow> string \<Rightarrow> ResourceGrant res" where
  "toolGrant sha implementation tools tool =
     (case hostToolOf tools tool of
        Some d \<Rightarrow> Inr \<lparr>resourceKind = KindTool, resourceName = tool, resourceSource = hostToolSource d,
                      resourceSha256 = hostToolSha256 d\<rparr>
      | None \<Rightarrow>
          if tool \<notin> set IMPLEMENTED_TOOLS then Inl (Err (''tool implementation unavailable: '' @ tool))
          else andThen (canonicalSha256 sha (vobj [(''implementationSha256'', Some (VStr (snd implementation))),
                  (''tool'', Some (VStr tool))])) (\<lambda>d.
               Inr \<lparr>resourceKind = KindTool, resourceName = tool, resourceSource = fst implementation @ ''#'' @ tool,
                    resourceSha256 = d\<rparr>))"

definition toolResources ::
  "(string \<Rightarrow> string) \<Rightarrow> AgentDefinition \<Rightarrow> SubagentRequest \<Rightarrow> string \<times> string \<Rightarrow> HostToolDeclaration list
     \<Rightarrow> CatalogSkill list \<Rightarrow> ResourceGrant list \<Rightarrow> ResourceGrant list res" where
  "toolResources sha agent request implementation tools skills contextFiles =
     andThen (mapRes (toolGrant sha implementation tools) (requestTools request)) (\<lambda>grants.
       Inr (\<lparr>resourceKind = KindAgent, resourceName = agentName agent, resourceSource = agentSource agent,
             resourceSha256 = agentSha256 agent\<rparr>
         # map (\<lambda>s. \<lparr>resourceKind = KindSkill, resourceName = skName s, resourceSource = skHostFilePath s,
                    resourceSha256 = skSha256 s\<rparr>) skills
         @ contextFiles @ grants))"

subsection \<open>Actions offered\<close>

datatype RunAction = Steer | FollowUp | Stop | Retry | Resume | Reconcile | ReleaseWorkspace | AbandonRun
  | PinRun | UnpinRun | ExportOutput | ExportHandoff

record RunActionFacts =
  raStatus :: RunStatus
  raPinned :: bool
  raControllable :: bool
  raRetryable :: bool
  raRetryAvailable :: bool
  raResumable :: bool
  raAbandonable :: bool
  raRetainedWorktree :: bool
  raWorkspaceReleasable :: bool
  raHasOutput :: bool
  raHasHandoff :: bool

definition HANDOFF_EXPORT_STATUSES :: "RunStatus list" where
  "HANDOFF_EXPORT_STATUSES = [Completed, Failed, Cancelled, CleanupBlocked]"

definition availableRunActions :: "RunActionFacts \<Rightarrow> RunAction list" where
  "availableRunActions f =
     (if raStatus f = Active then (if raControllable f then [Steer, FollowUp] else []) @ [Stop] else [])
     @ (if raRetryable f \<and> raRetryAvailable f then [Retry] else [])
     @ (if raResumable f then [Resume] else [])
     @ (if raStatus f = Interrupted \<and> raAbandonable f then [AbandonRun] else [])
     @ (if raStatus f = CleanupBlocked then [Reconcile] else [])
     @ (if raRetainedWorktree f \<and> raWorkspaceReleasable f \<and> raStatus f \<notin> set [Active, Stopping, Interrupted]
        then [ReleaseWorkspace] else [])
     @ (if raStatus f \<in> set [Completed, Failed, Cancelled, Abandoned] then [if raPinned f then UnpinRun else PinRun] else [])
     @ (if raHasOutput f then [ExportOutput] else [])
     @ (if raHasHandoff f \<and> raStatus f \<in> set HANDOFF_EXPORT_STATUSES then [ExportHandoff] else [])"

definition lastIndexOf :: "('a \<Rightarrow> bool) \<Rightarrow> 'a list \<Rightarrow> int" where
  "lastIndexOf P xs = int (length (dropWhile (\<lambda>x. \<not> P x) (List.rev xs))) - 1"

subsection \<open>The budgets of a run\<close>

lemma remainingLimits_Inr [simp]:
  "remainingLimits m l r = Inr l' \<longleftrightarrow>
     1000 \<le> cumulativeRuntimeMs l - runtimeMs r
     \<and> (\<forall>n. limitTotalTokens l = Some n \<longrightarrow> 1 \<le> n - usageTotalTokens (usage r))
     \<and> 0 < limitCost l - usageCost (usage r)
     \<and> l' = l\<lparr>cumulativeRuntimeMs := cumulativeRuntimeMs l - runtimeMs r,
              attemptTimeoutMs := min (attemptTimeoutMs l) (cumulativeRuntimeMs l - runtimeMs r),
              limitTotalTokens := map_option (\<lambda>n. n - usageTotalTokens (usage r)) (limitTotalTokens l),
              limitCost := limitCost l - usageCost (usage r)\<rparr>"
  by (cases "limitTotalTokens l") (auto simp: remainingLimits_def Let_def remainingTotalTokens_def)

lemma draftJs_identity [simp]: "draftJs (p\<lparr>planIdentity := d\<rparr>) = draftJs p"
  by (simp add: draftJs_def draftMembers_def)

lemma sealPlan_Inr:
  "sealPlan sha p = Inr q \<Longrightarrow> (\<exists>d. q = p\<lparr>planIdentity := d\<rparr>) \<and> verifyLaunchPlanIdentity sha q = Inr True
     \<and> (\<exists>t. planIdentity q = sha t)"
  by (auto simp: sealPlan_def verifyLaunchPlanIdentity_def canonicalSha256_def)

text \<open>One step of a run's plans: the next plan differs in its attempt, its limits and its seal.\<close>

definition nextPlan :: "(string \<Rightarrow> string) \<Rightarrow> AgentLaunchPlan \<Rightarrow> RunResult \<Rightarrow> AgentLaunchPlan \<Rightarrow> bool" where
  "nextPlan sha p r q \<longleftrightarrow> (\<exists>n. retryPlan sha p r n = Inr q \<or> (\<exists>c. resumePlan sha p r n c = Inr q))"

definition spends :: "RunLimits \<Rightarrow> RunResult \<Rightarrow> RunLimits \<Rightarrow> bool" where
  "spends l r l' \<longleftrightarrow>
     1000 \<le> cumulativeRuntimeMs l' \<and> cumulativeRuntimeMs l' + runtimeMs r = cumulativeRuntimeMs l
     \<and> attemptTimeoutMs l' = min (attemptTimeoutMs l) (cumulativeRuntimeMs l')
     \<and> limitTotalTokens l' = map_option (\<lambda>n. n - usageTotalTokens (usage r)) (limitTotalTokens l)
     \<and> (\<forall>n. limitTotalTokens l' = Some n \<longrightarrow> 1 \<le> n)
     \<and> 0 < limitCost l' \<and> limitCost l' + usageCost (usage r) = limitCost l
     \<and> outputBytes l' = outputBytes l \<and> workspaceWriteBytes l' = workspaceWriteBytes l
     \<and> ((retries l' + 1 = retries l \<and> 0 \<le> retries l' \<and> resumes l' = resumes l)
        \<or> (retries l' = retries l \<and> resumes l' + 1 = resumes l \<and> 0 \<le> resumes l'))"

lemma plan_step_spends:
  assumes "retryPlan sha p r n = Inr q \<or> resumePlan sha p r n c = Inr q"
  shows "\<exists>a l. sealPlan sha (p\<lparr>planAttemptId := ''attempt_'' @ take 48 (sha a), planLimits := l\<rparr>) = Inr q
     \<and> spends (planLimits p) r l"
  using assms
proof
  assume "retryPlan sha p r n = Inr q"
  then obtain a l where "sealPlan sha (p\<lparr>planAttemptId := ''attempt_'' @ take 48 (sha a),
        planLimits := l\<lparr>retries := retries (planLimits p) - 1\<rparr>\<rparr>) = Inr q"
      "remainingLimits ''retry run-wide budget exhausted'' (planLimits p) r = Inr l" "1 \<le> retries (planLimits p)"
    unfolding retryPlan_def nextAttemptId_def canonicalSha256_def by (auto split: if_splits)
  then show ?thesis by (intro exI conjI) (auto simp: spends_def)
next
  assume "resumePlan sha p r n c = Inr q"
  then obtain a l where "sealPlan sha (p\<lparr>planAttemptId := ''attempt_'' @ take 48 (sha a),
        planLimits := l\<lparr>resumes := resumes (planLimits p) - 1\<rparr>\<rparr>) = Inr q"
      "remainingLimits ''resume run-wide budget exhausted'' (planLimits p) r = Inr l" "1 \<le> resumes (planLimits p)"
    unfolding resumePlan_def nextAttemptId_def canonicalSha256_def by (auto split: if_splits)
  then show ?thesis by (intro exI conjI) (auto simp: spends_def)
qed

lemma nextPlan_spends:
  assumes "nextPlan sha p r q"
  shows "spends (planLimits p) r (planLimits q) \<and> verifyLaunchPlanIdentity sha q = Inr True
    \<and> (\<exists>a t. q = p\<lparr>planAttemptId := ''attempt_'' @ take 48 (sha a), planLimits := planLimits q, planIdentity := sha t\<rparr>)"
proof -
  obtain a l where q: "sealPlan sha (p\<lparr>planAttemptId := ''attempt_'' @ take 48 (sha a), planLimits := l\<rparr>) = Inr q"
    and l: "spends (planLimits p) r l"
    using assms plan_step_spends unfolding nextPlan_def by blast
  from sealPlan_Inr [OF q] obtain d t where
    d: "q = p\<lparr>planAttemptId := ''attempt_'' @ take 48 (sha a), planLimits := l, planIdentity := d\<rparr>"
      "planIdentity q = sha t"
    and v: "verifyLaunchPlanIdentity sha q = Inr True" by auto
  then have "q = p\<lparr>planAttemptId := ''attempt_'' @ take 48 (sha a), planLimits := planLimits q, planIdentity := sha t\<rparr>"
    by simp
  moreover have "planLimits q = l" using d(1) by simp
  ultimately show ?thesis using l v by blast
qed

text \<open>The plans of a run from its first, with the results the later ones follow.\<close>

inductive runPlans :: "(string \<Rightarrow> string) \<Rightarrow> AgentLaunchPlan \<Rightarrow> RunResult list \<Rightarrow> AgentLaunchPlan \<Rightarrow> bool" for sha p where
  first_plan: "runPlans sha p [] p"
| next_plan: "runPlans sha p rs q \<Longrightarrow> nextPlan sha q r q' \<Longrightarrow> runPlans sha p (rs @ [r]) q'"

definition totalOf :: "(Usage \<Rightarrow> int) \<Rightarrow> RunResult list \<Rightarrow> int" where
  "totalOf f rs = (\<Sum>r\<leftarrow>rs. f (usage r))"

lemma hex_lowerAlnum: "is_hex c \<Longrightarrow> lowerAlnum c"
  by (auto simp: is_hex_def lowerAlnum_def is_lower_def)

lemma attempt_id_ok: "checkSha256 d \<Longrightarrow> checkAttemptId (''attempt_'' @ take 48 d)"
  by (auto simp: checkSha256_def checkAttemptId_def startsWith_def list_all_iff
      intro: hex_lowerAlnum dest: in_set_takeD)

lemma spends_check:
  assumes "checkLimits l" and "spends l r l'" and "checkRunResult r"
  shows "checkLimits l'"
proof -
  from assms(3) have nonneg: "0 \<le> runtimeMs r" "0 \<le> usageTotalTokens (usage r)" "0 \<le> usageCost (usage r)"
    by (simp_all add: checkRunResult_def checkUsage_def)
  have tokens: "case limitTotalTokens l' of None \<Rightarrow> True | Some n \<Rightarrow> 1 \<le> n \<and> n \<le> 10000000"
    using assms(1,2) nonneg by (cases "limitTotalTokens l") (auto simp: checkLimits_def spends_def)
  have "1000 \<le> attemptTimeoutMs l'" "attemptTimeoutMs l' \<le> 3600000" "1000 \<le> cumulativeRuntimeMs l'"
    "cumulativeRuntimeMs l' \<le> 3600000" using assms(1,2) nonneg by (auto simp: checkLimits_def spends_def)
  moreover have "0 \<le> limitCost l'" "limitCost l' \<le> of_int MAX_SAFE_INTEGER"
    using assms(1,2) nonneg by (auto simp: checkLimits_def spends_def)
  moreover have "0 \<le> retries l' \<and> retries l' \<le> 10 \<and> 0 \<le> resumes l' \<and> resumes l' \<le> 10"
    using assms(1,2) by (auto simp: checkLimits_def spends_def)
  ultimately show ?thesis using tokens assms(1,2) by (simp add: checkLimits_def spends_def)
qed

lemma nextPlan_check:
  assumes "nextPlan sha p r q" and "checkPlan p" and "checkRunResult r" and "\<forall>s. checkSha256 (sha s)"
  shows "checkPlan q"
proof -
  from nextPlan_spends [OF assms(1)] obtain a t where l: "spends (planLimits p) r (planLimits q)"
    and q: "q = p\<lparr>planAttemptId := ''attempt_'' @ take 48 (sha a), planLimits := planLimits q, planIdentity := sha t\<rparr>" by blast
  have "checkLimits (planLimits q)" using spends_check [OF _ l assms(3)] assms(2) by (simp add: checkPlan_def)
  moreover have "checkAttemptId (''attempt_'' @ take 48 (sha a))" "checkSha256 (sha t)"
    using assms(4) attempt_id_ok by blast+
  ultimately show ?thesis using assms(2) by (subst q) (simp add: checkPlan_def)
qed


text \<open>A retry that the budgets and the failure permit always has a plan.\<close>

lemma sealPlan_ok:
  "(case planOutputSchema p of None \<Rightarrow> True | Some v \<Rightarrow> plain_js v) \<Longrightarrow> \<exists>q. sealPlan sha p = Inr q"
  using canonicalJson_plain [OF plain_draftJs [of p]] by (auto simp: sealPlan_def canonicalSha256_def isOk_iff)

lemma nextAttemptId_ok: "\<exists>a. nextAttemptId sha p n k = Inr a"
proof -
  have "plain_js (attemptIdentityJs p n k)" unfolding attemptIdentityJs_def by (rule plain_vobj) auto
  from canonicalJson_plain [OF this] show ?thesis by (auto simp: nextAttemptId_def canonicalSha256_def isOk_iff)
qed

lemma retryPlan_ok:
  assumes "1 \<le> retries (planLimits p)" and "failure r = Some f" and "failureRetry f = RetryManual \<or> failureRetry f = RetryBackoff"
    and "remainingLimits ''retry run-wide budget exhausted'' (planLimits p) r = Inr l"
    and "case planOutputSchema p of None \<Rightarrow> True | Some v \<Rightarrow> plain_js v"
  shows "\<exists>q. retryPlan sha p r n = Inr q"
proof -
  obtain a where a: "nextAttemptId sha p n ByRetry = Inr a" using nextAttemptId_ok by blast
  let ?d = "p\<lparr>planAttemptId := a, planLimits := l\<lparr>retries := retries (planLimits p) - 1\<rparr>\<rparr>"
  obtain q where "sealPlan sha ?d = Inr q" using sealPlan_ok [of ?d sha] assms(5) by auto
  then show ?thesis unfolding retryPlan_def assms(2) assms(4) a using assms(1,3) by auto
qed

definition demoRetryFailure :: ClassifiedFailure where
  "demoRetryFailure = \<lparr>failureCode = ToolFailure, failureOrigin = OTool, failureRetry = RetryManual,
     failureMessage = ''m'', guidance = ''g'', retryAfterMs = None\<rparr>"

definition demoFailedResult :: RunResult where
  "demoFailedResult = \<lparr>resultRunId = ''run_1'', resultStatus = Failed, resultOutput = None, structuredOutput = None,
     usage = emptyUsage\<lparr>usageTotalTokens := 100, usageCost := 1 / 4\<rparr>, usageComplete = True, runtimeMs = 5000,
     failure = Some demoRetryFailure, sandboxCleanup = Proved, workspaceCleanup = NotNeeded, truncated = False\<rparr>"

definition demoRunPlan :: AgentLaunchPlan where
  "demoRunPlan = demoPlan\<lparr>planResources := [demoGrant KindAgent ''reviewer''], planIdentity := replicate 64 CHR ''a'',
     planLimits := (planLimits demoPlan)\<lparr>limitTotalTokens := Some 1000\<rparr>\<rparr>"

lemma demo_result_ok: "checkRunResult demoFailedResult" by code_simp

lemma demo_run_limits:
  "planLimits demoRunPlan = \<lparr>cumulativeRuntimeMs = 60000, attemptTimeoutMs = 30000, limitTotalTokens = Some 1000,
       limitCost = 1, outputBytes = 1024, workspaceWriteBytes = 0, retries = 1, resumes = 1\<rparr>"
  "planOutputSchema demoRunPlan = None"
  by (simp_all add: demoRunPlan_def demoPlan_def)

lemma demo_remaining: "\<exists>l. remainingLimits m (planLimits demoRunPlan) demoFailedResult = Inr l"
  by (simp add: demo_run_limits demoFailedResult_def emptyUsage_def)

lemma demo_run_ok: "checkPlan demoRunPlan"
  by (simp add: checkPlan_def demoRunPlan_def demoPlan_def demoGrant_def checkGrant_def checkIdentity_def checkRunId_def
      checkAttemptId_def startsWith_def lowerAlnum_def is_digit_def is_lower_def checkResourceName_def isAlnum_def
      is_upper_def checkTask_def checkModel_def checkNames_def checkStartAt_def checkMemoryBytes_def
      MIN_MEMORY_BYTES_def MAX_MEMORY_BYTES_def MEMORY_GRANULARITY_BYTES_def checkLimits_def MAX_SAFE_INTEGER_def)


end
