(* ===== verification/Process.thy ===== *)
theory Process
  imports Prelude
begin

section \<open>Process reconciliation (\<open>src/reconciliation/process.ts\<close>)\<close>

text \<open>
  Observing and terminating the QEMU process of an attempt through \<open>ps\<close> and signals. The host's
  processes change between any two calls: each call on the host returns its next state. The digest of a
  command and \<open>Date.parse\<close> are parameters. A log records what was observed and signalled, in order.
\<close>

record ProcessIdentity =
  piPid :: int
  piStartedAtMs :: int
  piCommandSha256 :: string

datatype ProcessObservation = ProcAbsent | ProcPresent ProcessIdentity | ProcUnknown string

definition sameIdentity :: "ProcessIdentity \<Rightarrow> ProcessIdentity \<Rightarrow> bool" where
  "sameIdentity l r = (piPid l = piPid r \<and> piStartedAtMs l = piStartedAtMs r \<and> piCommandSha256 l = piCommandSha256 r)"

lemma sameIdentity_eq [simp]: "sameIdentity l r \<longleftrightarrow> l = r"
  by (cases l; cases r) (simp add: sameIdentity_def)

subsection \<open>Reading a line of \<open>ps\<close>\<close>

definition wordChar :: "char \<Rightarrow> bool" where
  "wordChar c = (is_digit c \<or> is_lower c \<or> is_upper c \<or> c = CHR ''_'')"

text \<open>A pattern's parts, each of which matches in one way only before white space.\<close>

definition takeExactly :: "(char \<Rightarrow> bool) \<Rightarrow> nat \<Rightarrow> string \<Rightarrow> string option" where
  "takeExactly P n s = (if n \<le> length s \<and> list_all P (take n s) then Some (drop n s) else None)"

definition skipSpaces :: "string \<Rightarrow> string option" where
  "skipSpaces s = (if s \<noteq> [] \<and> is_space (hd s) then Some (dropWhile is_space s) else None)"

definition takeDay :: "string \<Rightarrow> string option" where
  "takeDay s =
     (case Option.bind (takeExactly is_digit 2 s) (\<lambda>r. if r \<noteq> [] \<and> is_space (hd r) then Some r else None) of
        Some r \<Rightarrow> Some r
      | None \<Rightarrow> takeExactly is_digit 1 s)"

definition takeColon :: "string \<Rightarrow> string option" where
  "takeColon s = takeExactly (\<lambda>c. c = CHR '':'') 1 s"

text \<open>\<open>\w{3}\s+\w{3}\s+\d{1,2}\s+\d{2}:\d{2}:\d{2}\s+\d{4}\<close>: what follows it in the line.\<close>

definition afterStart :: "string \<Rightarrow> string option" where
  "afterStart s =
     Option.bind (takeExactly wordChar 3 s) (\<lambda>s. Option.bind (skipSpaces s) (\<lambda>s.
     Option.bind (takeExactly wordChar 3 s) (\<lambda>s. Option.bind (skipSpaces s) (\<lambda>s.
     Option.bind (takeDay s) (\<lambda>s. Option.bind (skipSpaces s) (\<lambda>s.
     Option.bind (takeExactly is_digit 2 s) (\<lambda>s. Option.bind (takeColon s) (\<lambda>s.
     Option.bind (takeExactly is_digit 2 s) (\<lambda>s. Option.bind (takeColon s) (\<lambda>s.
     Option.bind (takeExactly is_digit 2 s) (\<lambda>s. Option.bind (skipSpaces s) (\<lambda>s.
     takeExactly is_digit 4 s))))))))))))"

definition matchLine :: "string \<Rightarrow> (string \<times> string) option" where
  "matchLine line =
     Option.bind (afterStart line) (\<lambda>rest. Option.bind (skipSpaces rest) (\<lambda>command.
       if command = [] then None else Some (take (length line - length rest) line, command)))"

definition qemuHere :: "string \<Rightarrow> bool" where
  "qemuHere s =
     list_ex (\<lambda>a. startsWith s (''qemu-system-'' @ a)
                \<and> (case drop (length (''qemu-system-'' @ a)) s of [] \<Rightarrow> True | c # _ \<Rightarrow> is_space c))
       [''aarch64'', ''arm'', ''x86_64'']"

fun qemuAfterSlash :: "string \<Rightarrow> bool" where
  "qemuAfterSlash [] = False"
| "qemuAfterSlash (c # s) = ((c = CHR ''/'' \<and> qemuHere s) \<or> qemuAfterSlash s)"

definition QEMU_COMMAND :: "string \<Rightarrow> bool" where
  "QEMU_COMMAND s = (qemuHere s \<or> qemuAfterSlash s)"

subsection \<open>The host\<close>

text \<open>\<open>ps\<close> prints, exits because no such process exists, or fails.\<close>

datatype psOutcome = PsPrinted string | PsNoProcess | PsFailed
datatype signal = SIGTERM | SIGKILL
datatype killOutcome = KillSent | KillNoProcess | KillDenied
datatype hostAction = Observed ProcessObservation | Signalled int signal

record 'p ProcessHost =
  phPs :: "int \<Rightarrow> 'p \<Rightarrow> psOutcome \<times> 'p"
  phKill :: "int \<Rightarrow> signal \<Rightarrow> 'p \<Rightarrow> killOutcome \<times> 'p"
  phWait :: "'p \<Rightarrow> 'p"
  phDigest :: "string \<Rightarrow> string"
  phDate :: "string \<Rightarrow> int option"

definition observationOf :: "'p ProcessHost \<Rightarrow> int \<Rightarrow> psOutcome \<Rightarrow> ProcessObservation" where
  "observationOf h pid out =
     (case out of
        PsNoProcess \<Rightarrow> ProcAbsent
      | PsFailed \<Rightarrow> ProcUnknown ''process observation failed''
      | PsPrinted stdout \<Rightarrow>
          (let line = trim stdout in
           if line = [] then ProcAbsent
           else (case matchLine line of
                   None \<Rightarrow> ProcUnknown ''process identity parse failed''
                 | Some (started, command) \<Rightarrow>
                     (case phDate h started of
                        None \<Rightarrow> ProcUnknown ''process is not a qualified QEMU command''
                      | Some ms \<Rightarrow>
                          if \<not> QEMU_COMMAND command then ProcUnknown ''process is not a qualified QEMU command''
                          else ProcPresent \<lparr>piPid = pid, piStartedAtMs = ms, piCommandSha256 = phDigest h command\<rparr>))))"

type_synonym 'p procState = "'p \<times> hostAction list"

definition observe :: "'p ProcessHost \<Rightarrow> int \<Rightarrow> 'p procState \<Rightarrow> ProcessObservation \<times> 'p procState" where
  "observe h pid st =
     (if pid < 1 \<or> pid > 9007199254740991
      then (ProcUnknown ''invalid PID'', fst st, snd st @ [Observed (ProcUnknown ''invalid PID'')])
      else (case phPs h pid (fst st) of
              (out, p) \<Rightarrow> (let o' = observationOf h pid out in (o', p, snd st @ [Observed o']))))"

definition sendSignal :: "'p ProcessHost \<Rightarrow> int \<Rightarrow> signal \<Rightarrow> 'p procState \<Rightarrow> killOutcome \<times> 'p procState" where
  "sendSignal h pid sig st =
     (case phKill h pid sig (fst st) of (out, p) \<Rightarrow> (out, p, snd st @ [Signalled pid sig]))"

datatype ProcessState = ProcessAbsent | ProcessPresent | ProcessNotStarted | ProcessUnknown

text \<open>The loop that waits for the process to leave after \<open>SIGTERM\<close>: \<open>None\<close> when it outlives the wait.\<close>

fun awaitExit :: "'p ProcessHost \<Rightarrow> ProcessIdentity \<Rightarrow> nat \<Rightarrow> 'p procState \<Rightarrow> ProcessState option \<times> 'p procState" where
  "awaitExit h i 0 st = (None, st)"
| "awaitExit h i (Suc n) st =
     (case observe h (piPid i) (phWait h (fst st), snd st) of
        (ProcAbsent, st) \<Rightarrow> (Some ProcessAbsent, st)
      | (ProcUnknown _, st) \<Rightarrow> (Some ProcessUnknown, st)
      | (ProcPresent c, st) \<Rightarrow> if \<not> sameIdentity c i then (Some ProcessUnknown, st) else awaitExit h i n st)"

text \<open>The loop after \<open>SIGKILL\<close> looks for absence only.\<close>

fun awaitDeath :: "'p ProcessHost \<Rightarrow> int \<Rightarrow> nat \<Rightarrow> 'p procState \<Rightarrow> ProcessState \<times> 'p procState" where
  "awaitDeath h pid 0 st = (ProcessUnknown, st)"
| "awaitDeath h pid (Suc n) st =
     (case observe h pid (phWait h (fst st), snd st) of
        (ProcAbsent, st) \<Rightarrow> (ProcessAbsent, st)
      | (_, st) \<Rightarrow> awaitDeath h pid n st)"

text \<open>A signal is sent only to the process just observed; \<open>continue\<close> runs after it was delivered.\<close>

definition signalSame ::
  "'p ProcessHost \<Rightarrow> ProcessIdentity \<Rightarrow> signal \<Rightarrow> ('p procState \<Rightarrow> ProcessState \<times> 'p procState)
     \<Rightarrow> 'p procState \<Rightarrow> ProcessState \<times> 'p procState" where
  "signalSame h i sig continue st =
     (case observe h (piPid i) st of
        (ProcAbsent, st) \<Rightarrow> (ProcessAbsent, st)
      | (ProcUnknown _, st) \<Rightarrow> (ProcessUnknown, st)
      | (ProcPresent c, st) \<Rightarrow>
          if \<not> sameIdentity c i then (ProcessUnknown, st)
          else (case sendSignal h (piPid i) sig st of
                  (KillNoProcess, st) \<Rightarrow> (ProcessAbsent, st)
                | (KillDenied, st) \<Rightarrow> (ProcessUnknown, st)
                | (KillSent, st) \<Rightarrow> continue st))"

definition terminate :: "'p ProcessHost \<Rightarrow> ProcessIdentity \<Rightarrow> 'p procState \<Rightarrow> ProcessState \<times> 'p procState" where
  "terminate h i =
     signalSame h i SIGTERM (\<lambda>st.
       case awaitExit h i 40 st of
         (Some r, st) \<Rightarrow> (r, st)
       | (None, st) \<Rightarrow> signalSame h i SIGKILL (awaitDeath h (piPid i) 40) st)"

definition captureQemuProcessIdentity :: "'p ProcessHost \<Rightarrow> int \<Rightarrow> 'p procState \<Rightarrow> ProcessIdentity res \<times> 'p procState" where
  "captureQemuProcessIdentity h pid st =
     (case observe h pid st of
        (ProcPresent i, st) \<Rightarrow> (Inr i, st)
      | (ProcUnknown r, st) \<Rightarrow> (Inl (Err (''started QEMU process identity is unavailable: '' @ r)), st)
      | (ProcAbsent, st) \<Rightarrow> (Inl (Err ''started QEMU process identity is unavailable: absent''), st))"

definition processIdentitiesEqual :: "ProcessIdentity \<Rightarrow> ProcessIdentity \<Rightarrow> bool" where
  "processIdentitiesEqual l r = sameIdentity l r"

subsection \<open>Only the recorded process is signalled\<close>

definition guarded :: "ProcessIdentity \<Rightarrow> hostAction list \<Rightarrow> bool" where
  "guarded i lg \<longleftrightarrow> (\<forall>us pid sig vs. lg = us @ Signalled pid sig # vs \<longrightarrow>
     pid = piPid i \<and> us \<noteq> [] \<and> last us = Observed (ProcPresent i))"

definition signals :: "hostAction list \<Rightarrow> signal list" where
  "signals lg = concat (map (\<lambda>a. case a of Observed _ \<Rightarrow> [] | Signalled _ sig \<Rightarrow> [sig]) lg)"

lemma signals_simps [simp]:
  "signals (xs @ ys) = signals xs @ signals ys" "signals [] = []" "signals (Signalled pid sig # xs) = sig # signals xs"
  "signals (map Observed os) = []" "signals (Observed x # xs) = signals xs"
  by (simp_all add: signals_def)

lemma guarded_snoc:
  "guarded i (lg @ [a]) \<longleftrightarrow> guarded i lg \<and>
     (case a of Observed _ \<Rightarrow> True | Signalled pid sig \<Rightarrow>
        pid = piPid i \<and> lg \<noteq> [] \<and> last lg = Observed (ProcPresent i))"
proof -
  have "lg @ [a] = us @ Signalled pid sig # vs \<longleftrightarrow>
      (vs = [] \<and> us = lg \<and> a = Signalled pid sig) \<or> (\<exists>ws. vs = ws @ [a] \<and> lg = us @ Signalled pid sig # ws)"
    for us pid sig vs
    by (cases vs rule: rev_cases) auto
  then have "guarded i (lg @ [a]) \<longleftrightarrow> (\<forall>us pid sig vs.
      (vs = [] \<and> us = lg \<and> a = Signalled pid sig) \<or> (\<exists>ws. vs = ws @ [a] \<and> lg = us @ Signalled pid sig # ws) \<longrightarrow>
      pid = piPid i \<and> us \<noteq> [] \<and> last us = Observed (ProcPresent i))"
    unfolding guarded_def by (simp only:)
  also have "\<dots> \<longleftrightarrow> (\<forall>pid sig. a = Signalled pid sig \<longrightarrow> pid = piPid i \<and> lg \<noteq> [] \<and> last lg = Observed (ProcPresent i))
      \<and> guarded i lg" unfolding guarded_def by blast
  finally show ?thesis by (cases a) auto
qed

lemma guarded_observed [simp]: "guarded i (lg @ map Observed os) \<longleftrightarrow> guarded i lg"
proof (induction os rule: rev_induct)
  case (snoc x os)
  then show ?case using guarded_snoc [of i "lg @ map Observed os" "Observed x"] by simp
qed simp

lemma observe_log: "observe h pid st = (x, st') \<Longrightarrow> snd st' = snd st @ [Observed x]"
  by (auto simp: observe_def Let_def split: if_splits prod.splits)

lemma awaitExit_log:
  "awaitExit h i n st = (r, st') \<Longrightarrow> \<exists>os. snd st' = snd st @ map Observed os \<and> length os \<le> n
     \<and> (r = Some ProcessAbsent \<longrightarrow> os \<noteq> [] \<and> last os = ProcAbsent)"
proof (induction n arbitrary: st)
  case 0
  then show ?case by (auto intro: exI [of _ "[]"])
next
  case (Suc n)
  obtain x s1 where o1: "observe h (piPid i) (phWait h (fst st), snd st) = (x, s1)" by (metis surj_pair)
  have lg: "snd s1 = snd st @ map Observed [x]" using observe_log [OF o1] by simp
  show ?case
  proof (cases "x = ProcPresent i")
    case True
    then have "awaitExit h i n s1 = (r, st')" using Suc.prems o1 by simp
    from Suc.IH [OF this] obtain os where "snd st' = snd s1 @ map Observed os" "length os \<le> n"
      "r = Some ProcessAbsent \<longrightarrow> os \<noteq> [] \<and> last os = ProcAbsent" by blast
    then show ?thesis using lg by (intro exI [of _ "x # os"]) auto
  next
    case False
    then have "s1 = st' \<and> (r = Some ProcessAbsent \<longrightarrow> x = ProcAbsent)"
      using Suc.prems o1 by (auto split: ProcessObservation.splits if_splits)
    then show ?thesis using lg by (intro exI [of _ "[x]"]) auto
  qed
qed

lemma awaitDeath_log:
  "awaitDeath h pid n st = (r, st') \<Longrightarrow> \<exists>os. snd st' = snd st @ map Observed os \<and> length os \<le> n
     \<and> (r = ProcessAbsent \<longrightarrow> os \<noteq> [] \<and> last os = ProcAbsent)"
proof (induction n arbitrary: st)
  case 0
  then show ?case by (auto intro: exI [of _ "[]"])
next
  case (Suc n)
  obtain x s1 where o1: "observe h pid (phWait h (fst st), snd st) = (x, s1)" by (metis surj_pair)
  have lg: "snd s1 = snd st @ map Observed [x]" using observe_log [OF o1] by simp
  show ?case
  proof (cases "x = ProcAbsent")
    case True
    then have "s1 = st'" using Suc.prems o1 by simp
    then show ?thesis using lg True by (intro exI [of _ "[x]"]) auto
  next
    case False
    then have "awaitDeath h pid n s1 = (r, st')" using Suc.prems o1 by (cases x) auto
    from Suc.IH [OF this] obtain os where "snd st' = snd s1 @ map Observed os" "length os \<le> n"
      "r = ProcessAbsent \<longrightarrow> os \<noteq> [] \<and> last os = ProcAbsent" by blast
    then show ?thesis using lg by (intro exI [of _ "x # os"]) auto
  qed
qed

text \<open>What a log says of an outcome: absence was observed, or the signal found no process.\<close>

definition absenceSeen :: "hostAction list \<Rightarrow> bool" where
  "absenceSeen lg = (lg \<noteq> [] \<and> (case List.last lg of Observed x \<Rightarrow> x = ProcAbsent | Signalled _ _ \<Rightarrow> True))"

lemma absenceSeen_observed: "os \<noteq> [] \<Longrightarrow> last os = ProcAbsent \<Longrightarrow> absenceSeen (lg @ map Observed os)"
  by (simp add: absenceSeen_def last_map)

lemma signalSame_log:
  assumes "signalSame h i sig continue st = (r, st')" and "guarded i (snd st)"
  shows "(signals (snd st') = signals (snd st) \<and> length (snd st') = length (snd st) + 1 \<and> guarded i (snd st')
            \<and> (r = ProcessAbsent \<longrightarrow> absenceSeen (snd st')))
       \<or> (\<exists>s1. guarded i (snd s1) \<and> signals (snd s1) = signals (snd st) @ [sig] \<and> length (snd s1) = length (snd st) + 2
            \<and> ((st' = s1 \<and> (r = ProcessAbsent \<longrightarrow> absenceSeen (snd s1))) \<or> continue s1 = (r, st')))"
proof -
  obtain x s0 where o0: "observe h (piPid i) st = (x, s0)" by (metis surj_pair)
  have lg: "snd s0 = snd st @ map Observed [x]" using observe_log [OF o0] by simp
  have g0: "guarded i (snd s0)" unfolding lg using assms(2) by (simp only: guarded_observed)
  show ?thesis
  proof (cases "x = ProcPresent i")
    case True
    obtain k s1 where k: "sendSignal h (piPid i) sig s0 = (k, s1)" by (metis surj_pair)
    then have log1: "snd s1 = snd s0 @ [Signalled (piPid i) sig]"
      by (auto simp: sendSignal_def split: prod.splits)
    have g1: "guarded i (snd s1)" unfolding log1 guarded_snoc using g0 lg True by simp
    have "(st' = s1 \<and> (r = ProcessAbsent \<longrightarrow> absenceSeen (snd s1))) \<or> continue s1 = (r, st')"
      using assms(1) o0 k True log1 by (auto simp: signalSame_def absenceSeen_def split: killOutcome.splits)
    then show ?thesis using g1 log1 lg by (intro disjI2 exI [of _ s1]) simp
  next
    case False
    then have "st' = s0 \<and> (r = ProcessAbsent \<longrightarrow> x = ProcAbsent)"
      using assms(1) o0 by (auto simp: signalSame_def split: ProcessObservation.splits if_splits)
    then show ?thesis using g0 lg by (auto simp: absenceSeen_def)
  qed
qed

definition truthfulAbsence :: "ProcessState \<Rightarrow> hostAction list \<Rightarrow> bool" where
  "truthfulAbsence r lg = (case r of ProcessAbsent \<Rightarrow> absenceSeen lg | _ \<Rightarrow> True)"


end
