(* ===== verification/Lineage.thy ===== *)
theory Lineage
  imports Records
begin

section \<open>Attempt records (\<open>src/persistence/attempt-record.ts\<close>)\<close>

text \<open>
  The attempts of a run and their lineage. A run's directory lists its records by attempt id; a
  directory that does not exist is the empty listing. The store is written under the run's lease.
\<close>

definition MAX_ATTEMPT_RECORD_BYTES :: int where "MAX_ATTEMPT_RECORD_BYTES = 1024 * 1024"

datatype AttemptKind = InitialAttempt | RetryAttempt | ResumeAttempt

record AttemptRecord =
  arOwnerId :: string
  arRunId :: string
  arAttemptId :: string
  arOrdinal :: int
  arKind :: AttemptKind
  arParent :: "string option"
  arWorktree :: "string option"
  arPlan :: AgentLaunchPlan
  arCreatedAt :: string

definition checkOptionalAttempt :: "string option \<Rightarrow> bool" where
  "checkOptionalAttempt a = (case a of None \<Rightarrow> True | Some s \<Rightarrow> checkAttemptId s)"

definition checkAttemptRecord :: "AttemptRecord \<Rightarrow> bool" where
  "checkAttemptRecord r =
     (checkIdentity (arOwnerId r) \<and> checkRunId (arRunId r) \<and> checkAttemptId (arAttemptId r)
      \<and> 0 \<le> arOrdinal r \<and> arOrdinal r \<le> 10000 \<and> checkOptionalAttempt (arParent r)
      \<and> checkOptionalAttempt (arWorktree r) \<and> checkPlan (arPlan r))"

record AttemptStore =
  awLeases :: LeaseWorld
  awFiles :: "string \<Rightarrow> AttemptRecord storedFile listing"     \<comment> \<open>by run\<close>

definition readAttempt ::
  "(string \<Rightarrow> string) \<Rightarrow> string \<Rightarrow> AttemptRecord storedFile listing \<Rightarrow> AttemptRecord res" where
  "readAttempt sha attemptId d =
     andThen (readEntry attemptId (map_of d)) (\<lambda>f.
       if \<not> fileIsFile f \<or> fileSize f > MAX_ATTEMPT_RECORD_BYTES
       then Inl (Corruption ''invalid attempt record file'')
       else andThen (readDecoded ''invalid attempt record JSON'' ''invalid attempt record schema'' (fileValue f))
         (\<lambda>r. if planRunId (arPlan r) \<noteq> arRunId r \<or> planAttemptId (arPlan r) \<noteq> arAttemptId r
                \<or> planOwnerId (arPlan r) \<noteq> arOwnerId r
              then Inl (Corruption ''attempt record identity mismatch'')
              else andThen (verifyLaunchPlanIdentity sha (arPlan r)) (\<lambda>ok.
                if ok then Inr r else Inl (Corruption ''attempt record identity mismatch''))))"

definition listAttempts ::
  "(string \<Rightarrow> string) \<Rightarrow> string \<Rightarrow> AttemptStore \<Rightarrow> AttemptRecord list res" where
  "listAttempts sha runId w =
     (if \<not> checkRunId runId then Inl (Err ''invalid run ID'')
      else andThen (mapRes (\<lambda>a. readAttempt sha a (awFiles w runId))
               (sort_key (\<lambda>a. a @ ''.json'') (map fst (awFiles w runId)))) (\<lambda>rs.
             Inr (sort_key arOrdinal rs)))"

definition latestAttempt ::
  "(string \<Rightarrow> string) \<Rightarrow> string \<Rightarrow> AttemptStore \<Rightarrow> AttemptRecord option res" where
  "latestAttempt sha runId w = andThen (listAttempts sha runId w) (\<lambda>rs. Inr (lastOpt rs))"

record AttemptCreation =
  aiOwnerId :: string
  aiPlan :: AgentLaunchPlan
  aiOrdinal :: int
  aiKind :: AttemptKind
  aiParent :: "string option"
  aiWorktree :: "string option"
  aiNow :: string
  aiBytes :: int

definition truthy :: "string option \<Rightarrow> string option" where
  "truthy s = (if s = Some [] then None else s)"

definition attemptOf :: "AttemptCreation \<Rightarrow> AttemptRecord" where
  "attemptOf i = \<lparr>arOwnerId = aiOwnerId i, arRunId = planRunId (aiPlan i), arAttemptId = planAttemptId (aiPlan i),
     arOrdinal = aiOrdinal i, arKind = aiKind i, arParent = truthy (aiParent i),
     arWorktree = truthy (aiWorktree i), arPlan = aiPlan i, arCreatedAt = aiNow i\<rparr>"

definition sameAttempt :: "AttemptRecord \<Rightarrow> AttemptRecord \<Rightarrow> AttemptRecord res" where
  "sameAttempt existing r =
     (if arOwnerId existing \<noteq> arOwnerId r \<or> planIdentity (arPlan existing) \<noteq> planIdentity (arPlan r)
         \<or> arOrdinal existing \<noteq> arOrdinal r \<or> arKind existing \<noteq> arKind r
         \<or> arWorktree existing \<noteq> arWorktree r
      then Inl (Err ''attempt record conflicts with existing identity'') else Inr existing)"

definition checkLineage :: "AttemptRecord option \<Rightarrow> AttemptRecord \<Rightarrow> unit res" where
  "checkLineage latest r =
     (if arKind r = InitialAttempt
      then require (latest = None \<and> arOrdinal r = 0 \<and> arParent r = None) (Err ''invalid initial attempt lineage'')
      else require (case latest of None \<Rightarrow> False
                      | Some l \<Rightarrow> arOrdinal r = arOrdinal l + 1 \<and> arParent r = Some (arAttemptId l))
             (Err ''invalid attempt lineage''))"

text \<open>
  \<open>create\<close>. Creations for one run are serialized. The lease is checked when the creation starts,
  before the lineage is read and before the record is linked.
\<close>

definition createAttempt ::
  "(string \<Rightarrow> string) \<Rightarrow> RunLeaseRecord \<Rightarrow> AttemptCreation \<Rightarrow> AttemptStore
     \<Rightarrow> AttemptRecord res \<times> AttemptStore" where
  "createAttempt sha lease i w =
     (let r = attemptOf i; d = awFiles w (arRunId r) in
      case andThen (require (lrRunId lease = planRunId (aiPlan i)) (Err ''attempt record lease identity mismatch''))
        (\<lambda>_. andThen (assertCurrent lease (awLeases w)) (\<lambda>_.
          andThen (require (checkAttemptRecord r) (Err ''invalid attempt record'')) (\<lambda>_.
          andThen (verifyLaunchPlanIdentity sha (aiPlan i)) (\<lambda>ok.
          require ok (Err ''invalid attempt record''))))) of
        Inl e \<Rightarrow> (Inl e, w)
      | Inr _ \<Rightarrow>
         (case readAttempt sha (arAttemptId r) d of
            Inr existing \<Rightarrow> (sameAttempt existing r, w)
          | Inl e \<Rightarrow>
             if e \<noteq> Enoent then (Inl e, w)
             else (case andThen (assertCurrent lease (awLeases w)) (\<lambda>_.
                     andThen (latestAttempt sha (arRunId r) w) (\<lambda>latest.
                     andThen (checkLineage latest r) (\<lambda>_.
                     andThen (require (aiBytes i \<le> MAX_ATTEMPT_RECORD_BYTES) (Err ''attempt record exceeds byte limit'')) (\<lambda>_.
                     assertCurrent lease (awLeases w))))) of
                     Inl e \<Rightarrow> (Inl e, w)
                   | Inr _ \<Rightarrow>
                      (let (created, d') = linkEntry (arAttemptId r)
                             \<lparr>fileSize = aiBytes i, fileIsFile = True, fileValue = encoded r\<rparr> d;
                           w' = w\<lparr>awFiles := (awFiles w)(arRunId r := d')\<rparr>
                       in if created then (Inr r, w')
                          else (case readAttempt sha (arAttemptId r) d' of
                                  Inl e \<Rightarrow> (Inl e, w')
                                | Inr existing \<Rightarrow> (sameAttempt existing r, w'))))))"

interpretation attempts: fenced_store "\<lambda>l w. leaseCurrent l (awLeases w)" "createAttempt sha" for sha
  by unfold_locales (auto simp: leaseCurrent_def isOk_iff createAttempt_def Let_def require_def split: sum.splits)

subsection \<open>The lineage is a chain\<close>

text \<open>
  What a directory of attempts holds: valid, sealed records of its run under their own ids, and in
  the order of their creation a chain.
\<close>

definition attemptFile :: "(string \<Rightarrow> string) \<Rightarrow> string \<Rightarrow> string \<times> AttemptRecord storedFile \<Rightarrow> AttemptRecord \<Rightarrow> bool" where
  "attemptFile sha runId e r =
     (fst e = arAttemptId r \<and> fileValue (snd e) = encoded r \<and> fileIsFile (snd e)
      \<and> fileSize (snd e) \<le> MAX_ATTEMPT_RECORD_BYTES \<and> arRunId r = runId \<and> checkAttemptRecord r
      \<and> planRunId (arPlan r) = arRunId r \<and> planAttemptId (arPlan r) = arAttemptId r
      \<and> planOwnerId (arPlan r) = arOwnerId r \<and> verifyLaunchPlanIdentity sha (arPlan r) = Inr True)"

definition lineage :: "AttemptRecord list \<Rightarrow> bool" where
  "lineage rs = (distinct (map arAttemptId rs)
     \<and> (\<forall>k < length rs. arOrdinal (rs ! k) = int k
          \<and> (if k = 0 then arKind (rs ! k) = InitialAttempt \<and> arParent (rs ! k) = None
             else arKind (rs ! k) \<noteq> InitialAttempt \<and> arParent (rs ! k) = Some (arAttemptId (rs ! (k - 1))))))"

definition attemptsOk :: "(string \<Rightarrow> string) \<Rightarrow> string \<Rightarrow> AttemptRecord storedFile listing \<Rightarrow> bool" where
  "attemptsOk sha runId d = (\<exists>rs. list_all2 (attemptFile sha runId) d rs \<and> lineage rs)"

lemma lineage_ordinals:
  assumes "lineage rs"
  shows "sorted (map arOrdinal rs)" "inj_on arOrdinal (set rs)"
proof -
  have eq: "map arOrdinal rs = map int [0..<length rs]"
    using assms by (intro nth_equalityI) (auto simp: lineage_def)
  show "sorted (map arOrdinal rs)"
    unfolding eq sorted_map by (rule sorted_wrt_mono_rel [OF _ sorted_wrt_upt]) simp
  have "distinct (map arOrdinal rs)" unfolding eq by (simp add: distinct_map)
  then show "inj_on arOrdinal (set rs)" by (simp add: distinct_map)
qed

lemma list_all2_member: "list_all2 P xs ys \<Longrightarrow> x \<in> set xs \<Longrightarrow> \<exists>y \<in> set ys. P x y"
  by (induction rule: list_all2_induct) auto

lemma readAttempt_file:
  "attemptFile sha runId (a, f) r \<Longrightarrow> map_of d a = Some f \<Longrightarrow> readAttempt sha a d = Inr r"
  by (auto simp: attemptFile_def readAttempt_def readEntry_def)

lemma listAttempts_ok:
  assumes d: "list_all2 (attemptFile sha runId) (awFiles w runId) rs" and lin: "lineage rs" and id: "checkRunId runId"
  shows "listAttempts sha runId w = Inr rs"
proof -
  let ?d = "awFiles w runId"
  define g where "g = (\<lambda>a. the (map_of (map (\<lambda>r. (arAttemptId r, r)) rs) a))"
  have dist: "distinct (map arAttemptId rs)" using lin by (simp add: lineage_def)
  have g: "g (arAttemptId r) = r" if "r \<in> set rs" for r
    using that dist by (simp add: g_def map_of_eq_Some_iff comp_def image_iff)
  have names: "map fst ?d = map arAttemptId rs"
    using d by (induction rule: list_all2_induct) (auto simp: attemptFile_def)
  have rd: "readAttempt sha a ?d = Inr (g a)" if "a \<in> set (map fst ?d)" for a
  proof -
    from that obtain f where f: "(a, f) \<in> set ?d" by auto
    then obtain r where r: "r \<in> set rs" "attemptFile sha runId (a, f) r"
      using list_all2_member [OF d f] by blast
    moreover have "map_of ?d a = Some f" using f dist names by (simp add: map_of_eq_Some_iff)
    ultimately show ?thesis using g [OF r(1)] readAttempt_file by (fastforce simp: attemptFile_def)
  qed
  have "mapRes (\<lambda>a. readAttempt sha a ?d) (sort_key (\<lambda>a. a @ ''.json'') (map fst ?d))
      = Inr (map g (sort_key (\<lambda>a. a @ ''.json'') (map fst ?d)))"
    by (rule mapRes_map) (simp add: rd)
  moreover have "mset (map g (sort_key (\<lambda>a. a @ ''.json'') (map fst ?d))) = mset rs"
  proof -
    have "mset (map g (sort_key (\<lambda>a. a @ ''.json'') (map fst ?d))) = mset (map g (map arAttemptId rs))"
      by (simp add: names multiset.map_comp)
    also have "map g (map arAttemptId rs) = rs" using g by (simp add: map_idI)
    finally show ?thesis .
  qed
  then have "sort_key arOrdinal (map g (sort_key (\<lambda>a. a @ ''.json'') (map fst ?d))) = rs"
    using lineage_ordinals [OF lin] by (intro sort_key_inj_key_eq) (metis mset_eq_setD)+
  ultimately show ?thesis using id by (simp add: listAttempts_def)
qed

lemma lineage_snoc:
  "lineage (rs @ [r]) \<longleftrightarrow> lineage rs \<and> arAttemptId r \<notin> arAttemptId ` set rs \<and> arOrdinal r = int (length rs)
     \<and> (if rs = [] then arKind r = InitialAttempt \<and> arParent r = None
        else arKind r \<noteq> InitialAttempt \<and> arParent r = Some (arAttemptId (last rs)))"
  by (auto simp: lineage_def nth_append last_conv_nth less_Suc_eq)

lemma lineage_last: "lineage rs \<Longrightarrow> rs \<noteq> [] \<Longrightarrow> arOrdinal (last rs) + 1 = int (length rs)"
  by (cases rs rule: rev_cases) (auto simp: lineage_snoc)

text \<open>What a creation does to a directory that is in order.\<close>

lemma createAttempt_cases:
  assumes d: "list_all2 (attemptFile sha (planRunId (aiPlan i))) (awFiles w (planRunId (aiPlan i))) rs"
    and lin: "lineage rs" and owner: "aiOwnerId i = planOwnerId (aiPlan i)"
    and c: "createAttempt sha lease i w = (res, w')"
  shows "w' = w \<and> (\<forall>r. res = Inr r \<longrightarrow> r \<in> set rs)
    \<or> (\<exists>f r. res = Inr r \<and> r = attemptOf i \<and> lineage (rs @ [r]) \<and> attemptFile sha (planRunId (aiPlan i)) (arAttemptId r, f) r
         \<and> w' = w\<lparr>awFiles := (awFiles w)(planRunId (aiPlan i) := awFiles w (planRunId (aiPlan i)) @ [(arAttemptId r, f)])\<rparr>)"
proof -
  let ?r = "attemptOf i" and ?d = "awFiles w (planRunId (aiPlan i))"
  have run: "arRunId ?r = planRunId (aiPlan i)" by (simp add: attemptOf_def)
  have read: "x \<in> set rs" if x: "readAttempt sha a ?d = Inr x" for a x
  proof -
    from x obtain f where f: "map_of ?d a = Some f"
      and v: "readDecoded ''invalid attempt record JSON'' ''invalid attempt record schema'' (fileValue f) = Inr x"
      unfolding readAttempt_def andThen_eq_Inr by (auto split: if_splits)
    then obtain y where "y \<in> set rs" "attemptFile sha (planRunId (aiPlan i)) (a, f) y"
      using list_all2_member [OF d map_of_SomeD [OF f]] by blast
    then show ?thesis using v by (auto simp: attemptFile_def encoded_def)
  qed
  show ?thesis
  proof (cases "w' = w \<and> (\<forall>r. res = Inr r \<longrightarrow> r \<in> set rs)")
    case False
    have ok: "checkAttemptRecord ?r" "verifyLaunchPlanIdentity sha (aiPlan i) = Inr True"
      and none: "readAttempt sha (arAttemptId ?r) ?d = Inl Enoent"
      and lat: "andThen (latestAttempt sha (arRunId ?r) w) (\<lambda>latest. checkLineage latest ?r) = Inr ()"
      and bytes: "aiBytes i \<le> MAX_ATTEMPT_RECORD_BYTES"
      using False c read unfolding createAttempt_def Let_def run
      by (auto simp: sameAttempt_def split: sum.splits if_splits)
    have absent: "map_of ?d (arAttemptId ?r) = None"
      using none readAttempt_file list_all2_member [OF d map_of_SomeD] by (cases "map_of ?d (arAttemptId ?r)") fastforce+
    have list: "listAttempts sha (arRunId ?r) w = Inr rs"
      using listAttempts_ok d lin ok(1) run by (simp add: checkAttemptRecord_def)
    then have chk: "checkLineage (lastOpt rs) ?r = Inr ()" using lat by (simp add: latestAttempt_def)
    have "arAttemptId ?r \<notin> arAttemptId ` set rs"
    proof -
      have "map fst ?d = map arAttemptId rs"
        using d by (induction rule: list_all2_induct) (auto simp: attemptFile_def)
      then show ?thesis using absent by (metis list.set_map map_of_eq_None_iff)
    qed
    then have "lineage (rs @ [?r])"
      using chk lin lineage_last [OF lin]
      by (auto simp: lineage_snoc checkLineage_def lastOpt_def split: if_splits)
    moreover have "attemptFile sha (planRunId (aiPlan i))
        (arAttemptId ?r, \<lparr>fileSize = aiBytes i, fileIsFile = True, fileValue = encoded ?r\<rparr>) ?r"
      using ok bytes owner by (simp add: attemptFile_def attemptOf_def)
    ultimately show ?thesis
      using False c read absent run unfolding createAttempt_def Let_def run
      by (auto simp: linkEntry_def sameAttempt_def split: sum.splits if_splits)
  qed blast
qed

text \<open>
  The history of a store: creations under any leases, with anything happening to the leases in
  between.
\<close>

definition attemptStep ::
  "(string \<Rightarrow> string) \<Rightarrow> LeaseWorld \<times> RunLeaseRecord \<times> AttemptCreation \<Rightarrow> AttemptStore \<Rightarrow> AttemptStore" where
  "attemptStep sha h w = (case h of (leases, lease, i) \<Rightarrow> snd (createAttempt sha lease i (w\<lparr>awLeases := leases\<rparr>)))"

definition emptyAttempts :: AttemptStore where
  "emptyAttempts = \<lparr>awLeases = \<lparr>leasePorts = (\<lambda>_. None), leaseFiles = (\<lambda>_. None)\<rparr>, awFiles = (\<lambda>_. [])\<rparr>"

lemma createAttempt_ok:
  assumes ok: "attemptsOk sha (planRunId (aiPlan i)) (awFiles w (planRunId (aiPlan i)))"
    and owner: "aiOwnerId i = planOwnerId (aiPlan i)"
  shows "attemptsOk sha runId (awFiles w runId) \<Longrightarrow> attemptsOk sha runId (awFiles (snd (createAttempt sha lease i w)) runId)"
proof -
  obtain res w' where c: "createAttempt sha lease i w = (res, w')" by fastforce
  from ok obtain rs where rs: "list_all2 (attemptFile sha (planRunId (aiPlan i))) (awFiles w (planRunId (aiPlan i))) rs"
    "lineage rs" unfolding attemptsOk_def by blast
  assume "attemptsOk sha runId (awFiles w runId)"
  then show ?thesis
    using createAttempt_cases [OF rs owner c] c
  proof (elim disjE exE conjE)
    fix f r
    assume "lineage (rs @ [r])" "attemptFile sha (planRunId (aiPlan i)) (arAttemptId r, f) r"
      "w' = w\<lparr>awFiles := (awFiles w)(planRunId (aiPlan i) := awFiles w (planRunId (aiPlan i)) @ [(arAttemptId r, f)])\<rparr>"
    moreover from this(2) rs(1)
    have "list_all2 (attemptFile sha (planRunId (aiPlan i))) (awFiles w (planRunId (aiPlan i)) @ [(arAttemptId r, f)]) (rs @ [r])"
      by (simp add: list_all2_appendI)
    ultimately show ?thesis using \<open>attemptsOk sha runId (awFiles w runId)\<close> c
      by (auto simp: attemptsOk_def)
  qed (simp add: c)
qed

lemma attempts_invariant:
  assumes "\<forall>(_, _, i) \<in> set hs. aiOwnerId i = planOwnerId (aiPlan i)"
  shows "attemptsOk sha runId (awFiles (fold (attemptStep sha) hs emptyAttempts) runId)"
proof -
  have "\<forall>runId. attemptsOk sha runId (awFiles (fold (attemptStep sha) hs emptyAttempts) runId)"
  proof (rule fold_invariant)
    fix h and w :: AttemptStore
    assume h: "h \<in> set hs" and w: "\<forall>runId. attemptsOk sha runId (awFiles w runId)"
    obtain leases lease i where hi: "h = (leases, lease, i)" by (cases h)
    then have "aiOwnerId i = planOwnerId (aiPlan i)" using h assms by fastforce
    then show "\<forall>runId. attemptsOk sha runId (awFiles (attemptStep sha h w) runId)"
      using createAttempt_ok [of sha i "w\<lparr>awLeases := leases\<rparr>"] w by (simp add: attemptStep_def hi)
  next
    show "\<forall>runId. attemptsOk sha runId (awFiles emptyAttempts runId)"
      by (auto simp: emptyAttempts_def attemptsOk_def lineage_def)
  qed
  then show ?thesis by blast
qed

text \<open>What one more creation, under whatever lease, does to the list of a run's attempts.\<close>

definition growsOnlyAtTheEnd :: "(string \<Rightarrow> string) \<Rightarrow> string \<Rightarrow> AttemptStore \<Rightarrow> AttemptRecord list \<Rightarrow> bool" where
  "growsOnlyAtTheEnd sha runId w rs =
     (\<forall>leases lease i res w'. planRunId (aiPlan i) = runId \<longrightarrow> aiOwnerId i = planOwnerId (aiPlan i) \<longrightarrow>
        createAttempt sha lease i (w\<lparr>awLeases := leases\<rparr>) = (res, w') \<longrightarrow>
        (case res of Inl _ \<Rightarrow> listAttempts sha runId w' = Inr rs
         | Inr r \<Rightarrow> r \<in> set rs \<and> listAttempts sha runId w' = Inr rs
             \<or> r = attemptOf i \<and> lineage (rs @ [r]) \<and> listAttempts sha runId w' = Inr (rs @ [r])))"

text \<open>
  C7: The attempts of a run form one chain. Whatever attempts are created, in any order, for any
  runs, under any leases current or not, each under the owner of its plan: listing a run succeeds
  and gives its attempts in order, with distinct ids and ordinals 0, 1, 2, ..., the first an initial
  attempt without a parent and every later one a retry or a resume whose parent is the attempt
  before it, each with the sealed plan of this run and attempt; and a further creation either fails
  or returns an attempt of the list without changing it, or extends the chain by the attempt asked
  for.
\<close>

theorem attempts_form_a_chain:
  assumes "w = fold (attemptStep sha) hs emptyAttempts"
    and "\<forall>(_, _, i) \<in> set hs. aiOwnerId i = planOwnerId (aiPlan i)" and "checkRunId runId"
  shows "\<exists>rs. listAttempts sha runId w = Inr rs \<and> lineage rs
    \<and> (\<forall>r \<in> set rs. planRunId (arPlan r) = runId \<and> planAttemptId (arPlan r) = arAttemptId r
         \<and> verifyLaunchPlanIdentity sha (arPlan r) = Inr True)
    \<and> growsOnlyAtTheEnd sha runId w rs"
proof -
  obtain rs where rs: "list_all2 (attemptFile sha runId) (awFiles w runId) rs" "lineage rs"
    using attempts_invariant [OF assms(2)] assms(1) unfolding attemptsOk_def by blast
  have list: "listAttempts sha runId v = Inr rs" if "awFiles v runId = awFiles w runId" for v
    using listAttempts_ok [of sha runId v rs] rs assms(3) that by simp
  have "planRunId (arPlan r) = runId \<and> planAttemptId (arPlan r) = arAttemptId r
      \<and> verifyLaunchPlanIdentity sha (arPlan r) = Inr True" if "r \<in> set rs" for r
    using rs(1) that by (induction rule: list_all2_induct) (auto simp: attemptFile_def)
  moreover have "case res of Inl _ \<Rightarrow> listAttempts sha runId w' = Inr rs
      | Inr r \<Rightarrow> r \<in> set rs \<and> listAttempts sha runId w' = Inr rs
          \<or> r = attemptOf i \<and> lineage (rs @ [r]) \<and> listAttempts sha runId w' = Inr (rs @ [r])"
    if i: "planRunId (aiPlan i) = runId" "aiOwnerId i = planOwnerId (aiPlan i)"
      and c: "createAttempt sha lease i (w\<lparr>awLeases := leases\<rparr>) = (res, w')" for leases lease i res w'
  proof -
    have rs': "list_all2 (attemptFile sha (planRunId (aiPlan i))) (awFiles (w\<lparr>awLeases := leases\<rparr>) (planRunId (aiPlan i))) rs"
      using rs(1) i(1) by simp
    from createAttempt_cases [OF rs' rs(2) i(2) c] show ?thesis
    proof (elim disjE exE conjE)
      assume "w' = w\<lparr>awLeases := leases\<rparr>" "\<forall>r. res = Inr r \<longrightarrow> r \<in> set rs"
      then show ?thesis using list by (auto split: sum.split)
    next
      fix f r
      assume a: "res = Inr r" "r = attemptOf i" "lineage (rs @ [r])"
        "attemptFile sha (planRunId (aiPlan i)) (arAttemptId r, f) r"
        "w' = w\<lparr>awLeases := leases\<rparr>\<lparr>awFiles := (awFiles (w\<lparr>awLeases := leases\<rparr>))(planRunId (aiPlan i) :=
           awFiles (w\<lparr>awLeases := leases\<rparr>) (planRunId (aiPlan i)) @ [(arAttemptId r, f)])\<rparr>"
      then have "listAttempts sha runId w' = Inr (rs @ [r])"
        using rs(1) i(1) assms(3) by (intro listAttempts_ok) (auto intro: list_all2_appendI)
      then show ?thesis using a by simp
    qed
  qed
  ultimately show ?thesis using list rs(2) unfolding growsOnlyAtTheEnd_def by blast
qed

lemma growsOnlyAtTheEnd_apply:
  assumes "growsOnlyAtTheEnd sha runId w rs" "planRunId (aiPlan i) = runId" "aiOwnerId i = planOwnerId (aiPlan i)"
    and "createAttempt sha lease i (w\<lparr>awLeases := leases\<rparr>) = (Inr r, w')"
  shows "r \<in> set rs \<and> listAttempts sha runId w' = Inr rs
    \<or> r = attemptOf i \<and> lineage (rs @ [r]) \<and> listAttempts sha runId w' = Inr (rs @ [r])"
  using assms unfolding growsOnlyAtTheEnd_def by fastforce

definition demoAttemptLease :: RunLeaseRecord where
  "demoAttemptLease = \<lparr>lrRunId = planRunId compiledPlan, lrLeaseId = ''l'', lrGeneration = 1, lrPort = 20000\<rparr>"

definition demoAttemptLeases :: LeaseWorld where
  "demoAttemptLeases = \<lparr>leasePorts = (\<lambda>_. None)(20000 \<mapsto> ''l''),
     leaseFiles = (\<lambda>_. None)(planRunId compiledPlan \<mapsto>
       \<lparr>fileSize = 100, fileIsFile = True, fileValue = encoded demoAttemptLease\<rparr>)\<rparr>"

definition demoAttempt :: AttemptCreation where
  "demoAttempt = \<lparr>aiOwnerId = planOwnerId compiledPlan, aiPlan = compiledPlan, aiOrdinal = 0, aiKind = InitialAttempt,
     aiParent = None, aiWorktree = None, aiNow = ''t'', aiBytes = 4000\<rparr>"

lemma demo_attempt_created:
  "fst (createAttempt demoSha demoAttemptLease demoAttempt (emptyAttempts\<lparr>awLeases := demoAttemptLeases\<rparr>))
     = Inr (attemptOf demoAttempt)"
proof -
  have p: "checkRunId (planRunId compiledPlan)" "checkAttemptId (planAttemptId compiledPlan)"
    "checkIdentity (planOwnerId compiledPlan)"
    using compiledPlan_valid by (simp_all add: checkPlan_def)
  then have "checkAttemptRecord (attemptOf demoAttempt)"
    using compiledPlan_valid
    by (simp add: checkAttemptRecord_def attemptOf_def demoAttempt_def truthy_def checkOptionalAttempt_def)
  moreover have "assertCurrent demoAttemptLease demoAttemptLeases = Inr ()"
    by (simp add: assertCurrent_def readLeaseRecord_def demoAttemptLease_def demoAttemptLeases_def
        LEASE_MAX_RECORD_BYTES_def)
  ultimately show ?thesis using p compiledPlan_verifies
    by (simp add: createAttempt_def Let_def attemptOf_def demoAttempt_def demoAttemptLease_def [THEN arg_cong [where f = lrRunId], simplified]
        readAttempt_def readEntry_def emptyAttempts_def latestAttempt_def listAttempts_def checkLineage_def
        truthy_def linkEntry_def MAX_ATTEMPT_RECORD_BYTES_def)
qed

theorem attempts_form_a_chain_witness:
  "listAttempts demoSha (planRunId compiledPlan)
     (snd (createAttempt demoSha demoAttemptLease demoAttempt (emptyAttempts\<lparr>awLeases := demoAttemptLeases\<rparr>)))
   = Inr [attemptOf demoAttempt]"
proof -
  obtain w' where c: "createAttempt demoSha demoAttemptLease demoAttempt (emptyAttempts\<lparr>awLeases := demoAttemptLeases\<rparr>)
      = (Inr (attemptOf demoAttempt), w')"
    using demo_attempt_created by (metis prod.collapse)
  have id: "checkRunId (planRunId compiledPlan)" using compiledPlan_valid by (simp add: checkPlan_def)
  have "listAttempts demoSha (planRunId compiledPlan) emptyAttempts = Inr []"
    using id by (simp add: listAttempts_def emptyAttempts_def)
  then have "growsOnlyAtTheEnd demoSha (planRunId compiledPlan) emptyAttempts []"
    using attempts_form_a_chain [where hs = "[]" and sha = demoSha, OF refl _ id] by auto
  from growsOnlyAtTheEnd_apply [OF this _ _ c] have "listAttempts demoSha (planRunId compiledPlan) w' = Inr [attemptOf demoAttempt]"
    unfolding demoAttempt_def by simp
  then show ?thesis unfolding c by simp
qed

end
