(* ===== verification/Lifecycle.thy ===== *)
theory Lifecycle
  imports Contracts
begin

section \<open>The run lifecycle (\<open>src/lifecycle/reducer.ts\<close>)\<close>

text \<open>
  The events a run undergoes and the reducer \<open>transitionRunStatus\<close>, with every rejection of the
  source as an error value, and the lifecycle as a transition system: which states are reachable
  from a queued run, and what every path to a terminal status must have shown.
\<close>

datatype TerminalStatus = TCompleted | TFailed | TCancelled | TAbandoned | TInterrupted

fun terminalRunStatus :: "TerminalStatus \<Rightarrow> RunStatus" where
  "terminalRunStatus TCompleted = Completed"
| "terminalRunStatus TFailed = Failed"
| "terminalRunStatus TCancelled = Cancelled"
| "terminalRunStatus TAbandoned = Abandoned"
| "terminalRunStatus TInterrupted = Interrupted"

lemma terminalRunStatus_not_queued [simp]: "terminalRunStatus t \<noteq> Queued"
  by (cases t) simp_all

datatype RunTransitionEvent =
    EvActivate
  | EvBeginStop
  | EvComplete CleanupOutcome CleanupOutcome
  | EvFail
  | EvCancel
  | EvInterrupt
  | EvCleanupBlocked
  | EvRetry
  | EvResume
  | EvResumeAtHandoff
  | EvAbandon CleanupOutcome CleanupOutcome
  | EvCleanupProved TerminalStatus CleanupOutcome CleanupOutcome

datatype InvalidRunTransition = InvalidRunTransition RunStatus RunTransitionEvent

definition cleanupProved :: "CleanupOutcome \<Rightarrow> CleanupOutcome \<Rightarrow> bool" where
  "cleanupProved sandbox workspace =
     ((sandbox = Proved \<or> sandbox = NotNeeded) \<and> (workspace = Proved \<or> workspace = NotNeeded))"

definition invalid :: "RunStatus \<Rightarrow> RunTransitionEvent \<Rightarrow> InvalidRunTransition + RunStatus" where
  "invalid current event = Inl (InvalidRunTransition current event)"

definition transitionRunStatus ::
  "RunStatus \<Rightarrow> RunTransitionEvent \<Rightarrow> InvalidRunTransition + RunStatus" where
  "transitionRunStatus current event =
     (case current of
        Queued \<Rightarrow> (case event of EvActivate \<Rightarrow> Inr Active | _ \<Rightarrow> invalid current event)
      | Active \<Rightarrow>
          (case event of
             EvBeginStop \<Rightarrow> Inr Stopping
           | EvComplete sb ws \<Rightarrow> Inr (if cleanupProved sb ws then Completed else CleanupBlocked)
           | EvFail \<Rightarrow> Inr Failed
           | EvInterrupt \<Rightarrow> Inr Interrupted
           | EvCleanupBlocked \<Rightarrow> Inr CleanupBlocked
           | _ \<Rightarrow> invalid current event)
      | Stopping \<Rightarrow>
          (case event of
             EvCancel \<Rightarrow> Inr Cancelled
           | EvCleanupBlocked \<Rightarrow> Inr CleanupBlocked
           | _ \<Rightarrow> invalid current event)
      | Failed \<Rightarrow>
          (case event of
             EvRetry \<Rightarrow> Inr Queued
           | EvResumeAtHandoff \<Rightarrow> Inr Queued
           | _ \<Rightarrow> invalid current event)
      | Interrupted \<Rightarrow>
          (case event of
             EvResume \<Rightarrow> Inr Queued
           | EvAbandon sb ws \<Rightarrow>
               (if cleanupProved sb ws then Inr Abandoned else invalid current event)
           | _ \<Rightarrow> invalid current event)
      | CleanupBlocked \<Rightarrow>
          (case event of
             EvCleanupProved t sb ws \<Rightarrow>
               Inr (if cleanupProved sb ws then terminalRunStatus t else CleanupBlocked)
           | _ \<Rightarrow> invalid current event)
      | Completed \<Rightarrow>
          (case event of EvResumeAtHandoff \<Rightarrow> Inr Queued | _ \<Rightarrow> invalid current event)
      | Cancelled \<Rightarrow>
          (case event of EvResumeAtHandoff \<Rightarrow> Inr Queued | _ \<Rightarrow> invalid current event)
      | Abandoned \<Rightarrow> invalid current event)"

subsection \<open>Runs of the lifecycle\<close>

inductive runStep :: "RunStatus \<Rightarrow> RunTransitionEvent \<Rightarrow> RunStatus \<Rightarrow> bool" where
  runStep: "transitionRunStatus s e = Inr t \<Longrightarrow> runStep s e t"

inductive_simps runStep_iff: "runStep s e t"

inductive lifecycle :: "RunTransitionEvent list \<Rightarrow> RunStatus \<Rightarrow> bool" where
  start: "lifecycle [] Queued"
| step: "lifecycle es s \<Longrightarrow> runStep s e t \<Longrightarrow> lifecycle (es @ [e]) t"

text \<open>The cleanup proof an event carries, when it carries one that is sufficient.\<close>

fun carriesProof :: "RunTransitionEvent \<Rightarrow> bool" where
  "carriesProof (EvComplete sb ws) = cleanupProved sb ws"
| "carriesProof (EvAbandon sb ws) = cleanupProved sb ws"
| "carriesProof (EvCleanupProved t sb ws) = cleanupProved sb ws"
| "carriesProof _ = False"

lemmas transition_splits =
  RunStatus.splits RunTransitionEvent.splits TerminalStatus.splits if_splits

lemma transition_to_proved:
  "transitionRunStatus s e = Inr t \<Longrightarrow> t = Completed \<or> t = Abandoned \<Longrightarrow> carriesProof e"
  by (cases e) (auto simp: transitionRunStatus_def invalid_def split: transition_splits)

lemma transition_from_blocked:
  "transitionRunStatus CleanupBlocked e = Inr t \<Longrightarrow> t \<noteq> CleanupBlocked \<Longrightarrow> carriesProof e"
  by (cases e) (auto simp: transitionRunStatus_def invalid_def split: transition_splits)

lemma transition_from_abandoned [simp]: "\<not> runStep Abandoned e t"
  by (simp add: runStep_iff transitionRunStatus_def invalid_def)

lemma lifecycle_nonempty: "lifecycle es s \<Longrightarrow> s \<noteq> Queued \<Longrightarrow> es \<noteq> []"
  by (induction rule: lifecycle.induct) auto

lemma lifecycle_snocE:
  assumes "lifecycle (es @ [e]) t"
  obtains s where "lifecycle es s" "transitionRunStatus s e = Inr t"
  using assms by (cases rule: lifecycle.cases) (auto simp: runStep_iff)

text \<open>
  C6: A run is completed or abandoned only with cleanup proof: on every path of the lifecycle
  that ends in completed or abandoned, the last event carried sandbox and workspace outcomes that
  are each proved or not needed.
\<close>

theorem terminal_success_has_proof:
  assumes "lifecycle es s" and "s = Completed \<or> s = Abandoned"
  shows "es \<noteq> [] \<and> carriesProof (last es)"
proof -
  from assms have "es \<noteq> []" using lifecycle_nonempty by blast
  then obtain fs e where es: "es = fs @ [e]" by (cases es rule: rev_cases) auto
  with assms(1) obtain r where "transitionRunStatus r e = Inr s" by (auto elim: lifecycle_snocE)
  then show ?thesis using es assms(2) transition_to_proved by auto
qed

theorem terminal_success_has_proof_witness:
  "carriesProof (EvComplete Proved NotNeeded)"
proof -
  have "lifecycle ([] @ [EvActivate] @ [EvComplete Proved NotNeeded]) Completed"
    unfolding append_assoc [symmetric]
    by (rule lifecycle.step [OF lifecycle.step [OF lifecycle.start, of _ Active]])
      (simp_all add: runStep_iff transitionRunStatus_def cleanupProved_def)
  from terminal_success_has_proof [OF this] show ?thesis by simp
qed

text \<open>
  The statuses a run can be taken up again from. \<open>mayRequeue\<close> is the abstract rule; the property
  shows that the reducer implements it and nothing more.
\<close>

definition mayRequeue :: "RunStatus \<Rightarrow> RunTransitionEvent \<Rightarrow> bool" where
  "mayRequeue s e =
     ((s = Failed \<and> e = EvRetry) \<or> (s = Interrupted \<and> e = EvResume)
      \<or> (s \<in> {Completed, Failed, Cancelled} \<and> e = EvResumeAtHandoff))"

text \<open>
  A new attempt is queued exactly from a failed run by retry, from an interrupted run by
  resume, or from a completed, failed or cancelled run by resume at its hand-off; in particular
  never from a cleanup-blocked or an abandoned run.
\<close>

theorem requeue_exactly:
  "transitionRunStatus s e = Inr Queued \<longleftrightarrow> mayRequeue s e"
  by (cases s; cases e)
    (auto simp: transitionRunStatus_def invalid_def mayRequeue_def split: transition_splits)

text \<open>Paths between two statuses.\<close>

inductive lifePath :: "RunStatus \<Rightarrow> RunTransitionEvent list \<Rightarrow> RunStatus \<Rightarrow> bool" where
  path_nil: "lifePath s [] s"
| path_cons: "runStep s e t \<Longrightarrow> lifePath t es u \<Longrightarrow> lifePath s (e # es) u"

inductive_cases lifePath_ConsE: "lifePath s (e # es) u"
inductive_cases lifePath_NilE: "lifePath s [] u"

lemma blocked_path_proof:
  "lifePath s es t \<Longrightarrow> s = CleanupBlocked \<Longrightarrow> t \<noteq> CleanupBlocked \<Longrightarrow> \<exists>e \<in> set es. carriesProof e"
proof (induction rule: lifePath.induct)
  case (path_nil s)
  then show ?case by simp
next
  case (path_cons s e t es u)
  show ?case
  proof (cases "t = CleanupBlocked")
    case True
    then show ?thesis using path_cons by auto
  next
    case False
    then show ?thesis using path_cons transition_from_blocked by (auto simp: runStep_iff)
  qed
qed

lemma abandoned_path: "lifePath s es t \<Longrightarrow> s = Abandoned \<Longrightarrow> es = [] \<and> t = Abandoned"
  by (induction rule: lifePath.induct) auto

lemma nonterminal_continues:
  "s \<noteq> Abandoned \<Longrightarrow> \<exists>e t. runStep s e t"
proof (cases s)
  case CleanupBlocked
  then show ?thesis
    by (intro exI [of _ "EvCleanupProved TFailed Proved Proved"] exI [of _ Failed])
      (simp add: runStep_iff transitionRunStatus_def cleanupProved_def)
qed (auto simp: runStep_iff transitionRunStatus_def split: transition_splits
     intro: exI [of _ EvActivate] exI [of _ EvFail] exI [of _ EvCancel] exI [of _ EvResumeAtHandoff]
       exI [of _ EvResume])

text \<open>
  C38: Abandonment is final and the only dead end, and a blocked cleanup cannot be bypassed: no
  event leaves an abandoned run, every other status has a successor, and every path from
  cleanup-blocked to another status contains an event with sufficient cleanup proof.
\<close>

theorem lifecycle_dead_ends_and_blocking:
  "((\<exists>e t. runStep s e t) \<longleftrightarrow> s \<noteq> Abandoned) \<and>
   (lifePath CleanupBlocked es t \<longrightarrow> t \<noteq> CleanupBlocked \<longrightarrow> (\<exists>e \<in> set es. carriesProof e))"
  using nonterminal_continues blocked_path_proof by (metis transition_from_abandoned)

theorem lifecycle_dead_ends_and_blocking_witness:
  "\<exists>e \<in> set [EvCleanupProved TInterrupted Proved NotNeeded, EvResume]. carriesProof e"
proof -
  have "lifePath CleanupBlocked [EvCleanupProved TInterrupted Proved NotNeeded, EvResume] Queued"
    by (auto intro!: lifePath.intros simp: runStep_iff transitionRunStatus_def cleanupProved_def)
  then show ?thesis using lifecycle_dead_ends_and_blocking by blast
qed

end
