(* ===== verification/ServiceState.thy ===== *)
theory ServiceState
  imports Worktrees ServicePlans Process Lineage Lifecycle
begin

section \<open>A run in the service and its recovery (\<open>src/service.ts\<close>)\<close>

subsection \<open>Outcomes of a sequence of steps\<close>

text \<open>
  \<open>triple P m Q E\<close>: from a state with \<open>P\<close>, the steps \<open>m\<close> either yield a value and a state with \<open>Q\<close> or throw
  in a state with \<open>E\<close>.
\<close>

definition triple ::
  "('s \<Rightarrow> bool) \<Rightarrow> ('s \<Rightarrow> ('e + 'a) \<times> 's) \<Rightarrow> ('a \<Rightarrow> 's \<Rightarrow> bool) \<Rightarrow> ('s \<Rightarrow> bool) \<Rightarrow> bool" where
  "triple P m Q E \<longleftrightarrow> (\<forall>s. P s \<longrightarrow> (case m s of (Inl e, t) \<Rightarrow> E t | (Inr a, t) \<Rightarrow> Q a t))"

lemma tripleI:
  "(\<And>s a t. P s \<Longrightarrow> m s = (Inr a, t) \<Longrightarrow> Q a t) \<Longrightarrow> (\<And>s e t. P s \<Longrightarrow> m s = (Inl e, t) \<Longrightarrow> E t) \<Longrightarrow> triple P m Q E"
  by (auto simp: triple_def split: prod.splits sum.splits)

lemma tripleD:
  "triple P m Q E \<Longrightarrow> P s \<Longrightarrow> m s = (r, t) \<Longrightarrow> (case r of Inl e \<Rightarrow> E t | Inr a \<Rightarrow> Q a t)"
  by (fastforce simp: triple_def split: sum.splits)

lemma triple_bindS:
  assumes "triple P m Q E" and "\<And>a. triple (Q a) (f a) R E"
  shows "triple P (bindS m f) R E"
  using assms by (fastforce simp: triple_def bindS_def split: prod.splits sum.splits)

lemma triple_catchS:
  assumes "triple P m Q E'" and "\<And>e. triple E' (h e) Q E"
  shows "triple P (catchS m h) Q E"
  using assms by (fastforce simp: triple_def catchS_def split: prod.splits sum.splits)

lemma triple_weaken:
  "triple P m Q E \<Longrightarrow> (\<And>s. P' s \<Longrightarrow> P s) \<Longrightarrow> (\<And>a s. Q a s \<Longrightarrow> Q' a s) \<Longrightarrow> (\<And>s. E s \<Longrightarrow> E' s)
     \<Longrightarrow> triple P' m Q' E'"
  by (fastforce simp: triple_def split: prod.splits sum.splits)

lemma triple_False: "triple (\<lambda>_. False) m Q E"
  by (simp add: triple_def)

lemma triple_steps:
  "triple P (readS f) (\<lambda>a s. P s \<and> f s = Inr a) P"
  "triple P (checkS c e) (\<lambda>_ s. P s \<and> c) P"
  "triple (Q a) (okS a) Q E" "triple E (failS e) Q E"
  by (auto simp: triple_def readS_def checkS_def okS_def failS_def split: sum.splits)

subsection \<open>The journal and the run\<close>

text \<open>
  The service's view of a run: the events it reads back from the run's journal, the snapshot beside it,
  and the run in memory. An event's data is unknown JSON that the code narrows before it uses it; here it
  is given narrowed, with \<open>None\<close> for a field of another type. Everything written to the journal's files
  is remembered in order, so a seat lost between two writes leaves one of the remembered states.
\<close>

datatype ServiceEventData =
    UsageCheckpoint "string option" "Usage option" "int option"
  | AttemptStarting "string option"
  | AttemptCompleted
  | AttemptFailed
  | SandboxStarted "int option" "int option" "int option" "string option"
      \<comment> \<open>the host's PID; the recorded identity's PID, start and command digest\<close>
  | SessionStarted "string option" "string option"
  | RunAbandoning
  | RunAbandoned "RunResult option"
  | RunReconciled RunStatus
  | StartupReconciled
  | RunReleased
  | ResumeAtHandoff string
  | HandoffExported HandoffRef
  | ControlAccepted string
  | ControlFailed string
  | OtherEvent

record ServiceEvent =
  seSequence :: int
  seTime :: int            \<comment> \<open>\<open>Date.parse\<close> of its timestamp\<close>
  seData :: ServiceEventData

record SnapshotState =
  stResult :: "RunResult option"       \<comment> \<open>a value of the result's shape\<close>
  stOutput :: "string option"
  stSessionFile :: "string option"
  stError :: "string option"

record ServiceJournal =
  sjEvents :: "ServiceEvent list"
  sjSnapshot :: "(int \<times> SnapshotState) option"      \<comment> \<open>the last sequence it covers\<close>

definition lastSequence :: "ServiceJournal \<Rightarrow> int" where
  "lastSequence j = (case sjEvents j of [] \<Rightarrow> 0 | _ \<Rightarrow> seSequence (List.last (sjEvents j)))"

definition appended :: "int \<Rightarrow> ServiceEventData \<Rightarrow> ServiceJournal \<Rightarrow> ServiceJournal" where
  "appended now d j = j\<lparr>sjEvents := sjEvents j @ [\<lparr>seSequence = lastSequence j + 1, seTime = now, seData = d\<rparr>]\<rparr>"

definition snapshotted :: "SnapshotState \<Rightarrow> ServiceJournal \<Rightarrow> ServiceJournal" where
  "snapshotted st j = j\<lparr>sjSnapshot := Some (lastSequence j, st)\<rparr>"

definition hasPendingAbandonment :: "ServiceEvent list \<Rightarrow> bool" where
  "hasPendingAbandonment es =
     (let requested = lastIndexOf (\<lambda>e. seData e = RunAbandoning) es;
          completed = lastIndexOf (\<lambda>e. case seData e of RunAbandoned _ \<Rightarrow> True | _ \<Rightarrow> False) es
      in requested \<ge> 0 \<and> requested > completed)"

subsection \<open>A run in memory\<close>

record RunExecution =
  exResult :: RunResult
  exOutput :: string
  exSessionFile :: "string option"
  exHandoff :: "WorktreeRecord option"
  exError :: "string option"

definition snapshotOf :: "RunExecution \<Rightarrow> SnapshotState" where
  "snapshotOf e = \<lparr>stResult = Some (exResult e), stOutput = Some (exOutput e), stSessionFile = exSessionFile e,
     stError = exError e\<rparr>"

record ActiveRun =
  avOwnerId :: string
  avPlan :: AgentLaunchPlan
  avWorkspace :: RunWorkspace
  avResult :: "RunExecution option"
  avStatus :: RunStatus
  avCreatedAt :: int
  avControl :: bool          \<comment> \<open>a control is registered\<close>
  avLeaseHeld :: bool        \<comment> \<open>the run holds its lease\<close>

record ('g, 'p) ServiceWorld =
  svGit :: "'g WtWorld"
  svProcs :: "'p procState"
  svJournal :: ServiceJournal
  svDurable :: "ServiceJournal list"
  svAttempts :: "AttemptRecord list res"
  svRun :: ActiveRun
  svEmitted :: "RunStatus list"

text \<open>
  \<open>shAcquire\<close> is whether the run's lease can be acquired, \<open>shSession\<close> what opening a session file inside
  the session root finds: its resolved path and its session.
\<close>

datatype sessionLookup = SessionMissing | SessionUnreadable | SessionFound string string

record ('g, 'p) ServiceHost =
  shGit :: "'g GitHost"
  shProcess :: "'p ProcessHost"
  shAcquire :: "'g \<Rightarrow> unit res"
  shSession :: "string \<Rightarrow> sessionLookup"
  shRecordPath :: "string \<Rightarrow> string"
  shNow :: int

definition onGit :: "('g WtWorld \<Rightarrow> 'a res \<times> 'g WtWorld) \<Rightarrow> ('g, 'p) ServiceWorld \<Rightarrow> 'a res \<times> ('g, 'p) ServiceWorld" where
  "onGit m w = (case m (svGit w) of (r, g) \<Rightarrow> (r, w\<lparr>svGit := g\<rparr>))"

definition leaseIsCurrent :: "('g, 'p) ServiceHost \<Rightarrow> ('g, 'p) ServiceWorld \<Rightarrow> unit res" where
  "leaseIsCurrent h w = ghLease (shGit h) (wwGit (svGit w))"

definition durable :: "ServiceJournal \<Rightarrow> ('g, 'p) ServiceWorld \<Rightarrow> ('g, 'p) ServiceWorld" where
  "durable j w = w\<lparr>svJournal := j, svDurable := svDurable w @ [j]\<rparr>"

text \<open>The journal refuses every write under a lease that is no longer current.\<close>

definition journalAppend :: "('g, 'p) ServiceHost \<Rightarrow> ServiceEventData \<Rightarrow> ('g, 'p) ServiceWorld \<Rightarrow> unit res \<times> ('g, 'p) ServiceWorld" where
  "journalAppend h d w =
     (case leaseIsCurrent h w of
        Inl e \<Rightarrow> (Inl e, w)
      | Inr _ \<Rightarrow> (Inr (), durable (appended (shNow h) d (svJournal w)) w))"

definition journalSnapshot :: "('g, 'p) ServiceHost \<Rightarrow> RunExecution \<Rightarrow> ('g, 'p) ServiceWorld \<Rightarrow> unit res \<times> ('g, 'p) ServiceWorld" where
  "journalSnapshot h e w =
     (case leaseIsCurrent h w of
        Inl err \<Rightarrow> (Inl err, w)
      | Inr _ \<Rightarrow> (Inr (), durable (snapshotted (snapshotOf e) (svJournal w)) w))"

definition setRun :: "(ActiveRun \<Rightarrow> ActiveRun) \<Rightarrow> ('g, 'p) ServiceWorld \<Rightarrow> unit res \<times> ('g, 'p) ServiceWorld" where
  "setRun f w = (Inr (), w\<lparr>svRun := f (svRun w)\<rparr>)"

text \<open>The run takes a result and its status, and observers are told.\<close>

definition settleRun :: "RunExecution \<Rightarrow> RunStatus \<Rightarrow> ('g, 'p) ServiceWorld \<Rightarrow> unit res \<times> ('g, 'p) ServiceWorld" where
  "settleRun e s w = (Inr (), w\<lparr>svRun := (svRun w)\<lparr>avResult := Some e, avStatus := s\<rparr>, svEmitted := svEmitted w @ [s]\<rparr>)"

subsection \<open>Leases and the durable status\<close>

definition holdRunLease :: "('g, 'p) ServiceHost \<Rightarrow> ('g, 'p) ServiceWorld \<Rightarrow> bool res \<times> ('g, 'p) ServiceWorld" where
  "holdRunLease h w =
     (if avLeaseHeld (svRun w) \<and> isOk (leaseIsCurrent h w) then (Inr True, w)
      else (let w = w\<lparr>svRun := (svRun w)\<lparr>avLeaseHeld := False\<rparr>\<rparr> in
        case shAcquire h (wwGit (svGit w)) of Inl e \<Rightarrow> (Inl e, w) | Inr _ \<Rightarrow> (Inr False, w)))"

definition settleHeldLease :: "('g, 'p) ServiceWorld \<Rightarrow> unit res \<times> ('g, 'p) ServiceWorld" where
  "settleHeldLease w =
     (if avLeaseHeld (svRun w) \<and> avStatus (svRun w) \<noteq> CleanupBlocked
      then setRun (\<lambda>r. r\<lparr>avLeaseHeld := False\<rparr>) w else (Inr (), w))"

definition assertDurableStatus :: "RunStatus \<Rightarrow> ServiceJournal \<Rightarrow> unit res" where
  "assertDurableStatus expected j =
     (if \<exists>e \<in> set (sjEvents j). (case seData e of RunAbandoned _ \<Rightarrow> True | _ \<Rightarrow> False)
      then require (expected = Abandoned) (Err ''durable run status changed to abandoned'')
      else if hasPendingAbandonment (sjEvents j)
      then require (expected = CleanupBlocked) (Err ''durable run status changed to cleanup-blocked'')
      else (case Option.bind (sjSnapshot j) (\<lambda>s. stResult (snd s)) of
              None \<Rightarrow> Inl (Err ''durable run status is unavailable'')
            | Some r \<Rightarrow>
                if \<not> isRunResult r then Inl (Err ''durable run status is unavailable'')
                else require (resultStatus r = expected) (Err ''durable run status changed'')))"

subsection \<open>Recovery at startup\<close>

definition usageCheckpoint :: "string \<Rightarrow> ServiceEvent list \<Rightarrow> Usage \<times> int" where
  "usageCheckpoint attempt es =
     (case findLast (\<lambda>e. case seData e of UsageCheckpoint a _ _ \<Rightarrow> a = Some attempt | _ \<Rightarrow> False) es of
        None \<Rightarrow> (emptyUsage, 0)
      | Some e \<Rightarrow>
          (case seData e of
             UsageCheckpoint _ u ms \<Rightarrow>
               ((case u of Some u \<Rightarrow> if checkUsage u then u else emptyUsage | None \<Rightarrow> emptyUsage),
                (case ms of Some n \<Rightarrow> if 0 \<le> n \<and> n \<le> MAX_SAFE_INTEGER then n else 0 | None \<Rightarrow> 0))
           | _ \<Rightarrow> (emptyUsage, 0)))"

definition validResult :: "RunResult option \<Rightarrow> RunResult option" where
  "validResult r = (case r of None \<Rightarrow> None | Some r \<Rightarrow> if isRunResult r then Some r else None)"

text \<open>The snapshot's result, unless the latest attempt has started since.\<close>

definition priorResult :: "AgentLaunchPlan \<Rightarrow> ServiceJournal \<Rightarrow> RunResult option" where
  "priorResult plan j =
     (let start = findLast (\<lambda>e. seData e = AttemptStarting (Some (planAttemptId plan))) (sjEvents j);
          covers = (case start of
                      None \<Rightarrow> True
                    | Some e \<Rightarrow> (case sjSnapshot j of None \<Rightarrow> 0 | Some s \<Rightarrow> fst s) \<ge> seSequence e)
      in if covers then validResult (Option.bind (sjSnapshot j) (\<lambda>s. stResult (snd s))) else None)"

definition abandonedResult :: "ServiceEvent list \<Rightarrow> RunResult option" where
  "abandonedResult es =
     (case findLast (\<lambda>e. case seData e of RunAbandoned _ \<Rightarrow> True | _ \<Rightarrow> False) es of
        None \<Rightarrow> None
      | Some e \<Rightarrow> (case seData e of RunAbandoned r \<Rightarrow> validResult r | _ \<Rightarrow> None))"

definition recoveredFailure :: "FailureCode \<Rightarrow> string \<Rightarrow> string \<Rightarrow> ClassifiedFailure" where
  "recoveredFailure code m g =
     \<lparr>failureCode = code, failureOrigin = OService, failureRetry = RetryReconcile, failureMessage = m,
      guidance = g, retryAfterMs = None\<rparr>"

definition liveCleanup :: "AgentLaunchPlan \<Rightarrow> CleanupOutcome \<Rightarrow> CleanupOutcome" where
  "liveCleanup plan c = (if sharesLiveCheckout plan then NotNeeded else c)"

definition interruptedAbandonment :: "AgentLaunchPlan \<Rightarrow> ServiceJournal \<Rightarrow> RunResult" where
  "interruptedAbandonment plan j =
     (let prior = priorResult plan j; checkpoint = usageCheckpoint (planAttemptId plan) (sjEvents j) in
      \<lparr>resultRunId = planRunId plan, resultStatus = CleanupBlocked, resultOutput = None, structuredOutput = None,
       usage = (case prior of None \<Rightarrow> fst checkpoint | Some r \<Rightarrow> usage r),
       usageComplete = (case prior of None \<Rightarrow> False | Some r \<Rightarrow> usageComplete r),
       runtimeMs = (case prior of None \<Rightarrow> snd checkpoint | Some r \<Rightarrow> runtimeMs r),
       failure = Some (recoveredFailure WorkspaceFailure
         ''Operator abandonment was interrupted before cleanup proof'' ''Reconcile cleanup to finish abandonment.''),
       sandboxCleanup = (case prior of None \<Rightarrow> CleanupUnknown | Some r \<Rightarrow> sandboxCleanup r),
       workspaceCleanup = liveCleanup plan CleanupUnknown,
       truncated = (case prior of None \<Rightarrow> False | Some r \<Rightarrow> truncated r)\<rparr>)"

definition unprovedResult :: "AgentLaunchPlan \<Rightarrow> ServiceJournal \<Rightarrow> RunResult" where
  "unprovedResult plan j =
     (let checkpoint = usageCheckpoint (planAttemptId plan) (sjEvents j) in
      \<lparr>resultRunId = planRunId plan, resultStatus = CleanupBlocked, resultOutput = None, structuredOutput = None,
       usage = fst checkpoint, usageComplete = False, runtimeMs = snd checkpoint,
       failure = Some (recoveredFailure UnknownFailure
         ''Terminal state was not proved before seat loss'' ''Reconcile external state before continuing.''),
       sandboxCleanup = CleanupUnknown, workspaceCleanup = liveCleanup plan CleanupUnknown, truncated = False\<rparr>)"

text \<open>The result and, when it is not the persisted one, the error of the snapshot that is written for it.\<close>

definition recoverResult :: "AgentLaunchPlan \<Rightarrow> ServiceJournal \<Rightarrow> RunResult \<times> string option" where
  "recoverResult plan j =
     (if hasPendingAbandonment (sjEvents j)
      then (interruptedAbandonment plan j, Some ''operator abandonment requires reconciliation'')
      else (case (case abandonedResult (sjEvents j) of Some r \<Rightarrow> Some r | None \<Rightarrow> priorResult plan j) of
              Some r \<Rightarrow> (r, None)
            | None \<Rightarrow> (unprovedResult plan j, Some ''terminal state was not proved before seat loss'')))"

definition recoverJournal :: "int \<Rightarrow> AgentLaunchPlan \<Rightarrow> ServiceJournal \<Rightarrow> ServiceJournal" where
  "recoverJournal now plan j =
     (case recoverResult plan j of
        (r, None) \<Rightarrow> j
      | (r, Some e) \<Rightarrow> snapshotted \<lparr>stResult = Some r, stOutput = None, stSessionFile = None, stError = Some e\<rparr>
                       (appended now StartupReconciled j))"

text \<open>What the run's result is in memory; the state read is that of the snapshot before recovery.\<close>

definition recoverExecution :: "AgentLaunchPlan \<Rightarrow> WorktreeRecord option \<Rightarrow> ServiceJournal \<Rightarrow> RunExecution" where
  "recoverExecution plan carried j =
     (let r = fst (recoverResult plan j); gone = (resultStatus r = Abandoned); st = map_option snd (sjSnapshot j) in
      \<lparr>exResult = r,
       exOutput = (if gone then [] else (case Option.bind st stOutput of None \<Rightarrow> [] | Some t \<Rightarrow> t)),
       exSessionFile = (if gone then None else Option.bind st stSessionFile),
       exHandoff = (if gone then None else carried),
       exError = (if gone then Some ''run permanently abandoned by operator'' else Option.bind st stError)\<rparr>)"

definition recoverRun :: "RunRecord \<Rightarrow> AttemptRecord option \<Rightarrow> WorktreeRecord option \<Rightarrow> int \<Rightarrow> ServiceJournal \<Rightarrow> ActiveRun" where
  "recoverRun record latest carried createdAt j =
     (let plan = (case latest of None \<Rightarrow> rrPlan record | Some a \<Rightarrow> arPlan a); e = recoverExecution plan carried j in
      \<lparr>avOwnerId = rrOwnerId record, avPlan = plan, avWorkspace = rrWorkspace record, avResult = Some e,
       avStatus = resultStatus (exResult e), avCreatedAt = createdAt, avControl = False, avLeaseHeld = False\<rparr>)"

subsection \<open>Recovery tells what is recorded\<close>

text \<open>The events of a journal carry increasing sequences.\<close>

definition sequenced :: "ServiceJournal \<Rightarrow> bool" where
  "sequenced j \<longleftrightarrow> sorted_wrt (<) (map seSequence (sjEvents j))"

lemma lastSequence_ge: "sequenced j \<Longrightarrow> e \<in> set (sjEvents j) \<Longrightarrow> seSequence e \<le> lastSequence j"
proof (cases "sjEvents j" rule: rev_cases)
  case (snoc ys y)
  assume "sequenced j" "e \<in> set (sjEvents j)"
  moreover have "lastSequence j = seSequence y" using snoc by (cases ys) (simp_all add: lastSequence_def)
  ultimately show ?thesis using snoc by (auto simp: sequenced_def sorted_wrt_append intro: less_imp_le)
qed simp

lemma sequenced_appended [simp]: "sequenced j \<Longrightarrow> sequenced (appended now d j)"
  using lastSequence_ge [of j] by (fastforce simp: sequenced_def appended_def sorted_wrt_append)

lemma snapshotted_simps [simp]:
  "sjEvents (snapshotted st j) = sjEvents j" "sjSnapshot (snapshotted st j) = Some (lastSequence j, st)"
  "sjSnapshot (appended now d j) = sjSnapshot j" "sequenced (snapshotted st j) = sequenced j"
  by (simp_all add: snapshotted_def appended_def sequenced_def)

lemma lastSequence_snapshotted [simp]: "lastSequence (snapshotted st j) = lastSequence j"
  by (cases "sjEvents j") (simp_all add: lastSequence_def)

lemma events_appended:
  "sjEvents (appended now d j) = sjEvents j @ [\<lparr>seSequence = lastSequence j + 1, seTime = now, seData = d\<rparr>]"
  by (simp add: appended_def)

lemma findLast_max:
  assumes "sorted_wrt (<) (map f xs)" and "findLast P xs = Some x" and "y \<in> set xs" and "P y"
  shows "(f y :: int) \<le> f x"
  using assms by (induction xs rule: rev_induct) (auto simp: sorted_wrt_append findLast_def split: if_splits intro: less_imp_le)

lemma validResult_Some [simp]: "validResult x = Some r \<longleftrightarrow> x = Some r \<and> isRunResult r"
  by (auto simp: validResult_def split: option.splits)

lemma priorResult_Some:
  assumes "sequenced j"
  shows "priorResult plan j = Some r \<longleftrightarrow>
     (\<exists>seq st. sjSnapshot j = Some (seq, st) \<and> stResult st = Some r \<and> isRunResult r
        \<and> (\<forall>e \<in> set (sjEvents j). seData e = AttemptStarting (Some (planAttemptId plan)) \<longrightarrow> seSequence e \<le> seq))"
proof (cases "findLast (\<lambda>e. seData e = AttemptStarting (Some (planAttemptId plan))) (sjEvents j)")
  case None
  then have "\<forall>e \<in> set (sjEvents j). seData e \<noteq> AttemptStarting (Some (planAttemptId plan))"
    by (simp add: findLast_None)
  then show ?thesis using None by (cases "sjSnapshot j") (auto simp: priorResult_def Let_def)
next
  case (Some s)
  have s: "s \<in> set (sjEvents j)" "seData s = AttemptStarting (Some (planAttemptId plan))"
    using findLast_Some [OF Some] by simp_all
  have "seSequence e \<le> seSequence s"
    if "e \<in> set (sjEvents j)" "seData e = AttemptStarting (Some (planAttemptId plan))" for e
    using findLast_max [OF _ Some that(1)] assms that(2) unfolding sequenced_def by blast
  then have "(\<forall>e \<in> set (sjEvents j). seData e = AttemptStarting (Some (planAttemptId plan)) \<longrightarrow> seSequence e \<le> n)
      \<longleftrightarrow> seSequence s \<le> n" for n
    using s by (meson order_trans)
  then show ?thesis
    unfolding priorResult_def Some Let_def by (cases "sjSnapshot j") (auto split: if_splits)
qed

definition evidenced :: "AgentLaunchPlan \<Rightarrow> ServiceJournal \<Rightarrow> RunResult \<Rightarrow> bool" where
  "evidenced plan j r \<longleftrightarrow> \<not> hasPendingAbandonment (sjEvents j) \<and> isRunResult r
     \<and> ((\<exists>e \<in> set (sjEvents j). seData e = RunAbandoned (Some r))
        \<or> (\<exists>seq st. sjSnapshot j = Some (seq, st) \<and> stResult st = Some r
             \<and> (\<forall>e \<in> set (sjEvents j). seData e = AttemptStarting (Some (planAttemptId plan)) \<longrightarrow> seSequence e \<le> seq)))"

lemma abandonedResult_Some:
  assumes "abandonedResult es = Some r"
  shows "isRunResult r \<and> (\<exists>e \<in> set es. seData e = RunAbandoned (Some r))"
proof -
  obtain e where e: "findLast (\<lambda>e. case seData e of RunAbandoned _ \<Rightarrow> True | _ \<Rightarrow> False) es = Some e"
    using assms by (auto simp: abandonedResult_def split: option.splits)
  from findLast_Some [OF e] obtain x where "seData e = RunAbandoned x" "e \<in> set es"
    by (cases "seData e") auto
  then show ?thesis using assms e by (auto simp: abandonedResult_def)
qed

lemma checkpoint_ok: "usageCheckpoint a es = (u, ms) \<Longrightarrow> checkUsage u \<and> 0 \<le> ms \<and> ms \<le> MAX_SAFE_INTEGER"
  by (auto simp: usageCheckpoint_def emptyUsage_def checkUsage_def MAX_SAFE_INTEGER_def
      split: option.splits ServiceEventData.splits if_splits)

lemma blocked_isRunResult:
  assumes "checkRunId (resultRunId r)" and "resultStatus r = CleanupBlocked" and "resultOutput r = None"
    and "checkUsage (usage r)" and "0 \<le> runtimeMs r" and "runtimeMs r \<le> MAX_SAFE_INTEGER"
    and "failure r = Some f" and "checkFailure f"
  shows "isRunResult r \<longleftrightarrow> \<not> cleanupIsProved r"
  using assms by (simp add: isRunResult_def checkRunResult_def Let_def)

lemma unprovedResult_ok:
  assumes "checkRunId (planRunId plan)"
  shows "isRunResult (unprovedResult plan j)"
proof -
  obtain u ms where c: "usageCheckpoint (planAttemptId plan) (sjEvents j) = (u, ms)" by fastforce
  show ?thesis using checkpoint_ok [OF c] assms c
    by (subst blocked_isRunResult) (auto simp: unprovedResult_def Let_def recoveredFailure_def checkFailure_def
        cleanupIsProved_def)
qed

lemma lastIndexOf_snoc [simp]:
  "lastIndexOf P (xs @ [x]) = (if P x then int (length xs) else lastIndexOf P xs)"
  by (simp add: lastIndexOf_def)

lemma lastIndexOf_less: "lastIndexOf P xs < int (length xs)"
proof -
  have "length (dropWhile (\<lambda>x. \<not> P x) (rev xs)) \<le> length xs" using length_dropWhile_le [of _ "rev xs"] by simp
  then show ?thesis by (simp add: lastIndexOf_def)
qed

text \<open>An event other than the two leaves an abandonment pending or not.\<close>

lemma pending_appended:
  "hasPendingAbandonment (es @ [e]) =
     (case seData e of RunAbandoning \<Rightarrow> True | RunAbandoned _ \<Rightarrow> False | _ \<Rightarrow> hasPendingAbandonment es)"
  using lastIndexOf_less [of _ es]
  by (cases "seData e") (auto simp: hasPendingAbandonment_def Let_def not_less intro: less_imp_le)

lemma startup_event [simp]:
  "hasPendingAbandonment (sjEvents (appended now StartupReconciled j)) = hasPendingAbandonment (sjEvents j)"
  "usageCheckpoint a (sjEvents (appended now StartupReconciled j)) = usageCheckpoint a (sjEvents j)"
  "abandonedResult (sjEvents (appended now StartupReconciled j)) = abandonedResult (sjEvents j)"
  by (simp_all add: appended_def pending_appended usageCheckpoint_def abandonedResult_def findLast_snoc)

lemma priorResult_snapshotted:
  assumes "sequenced j"
  shows "priorResult plan (snapshotted \<lparr>stResult = Some r, stOutput = out, stSessionFile = f, stError = e\<rparr>
      (appended now StartupReconciled j)) = (if isRunResult r then Some r else None)"
proof -
  let ?j = "snapshotted \<lparr>stResult = Some r, stOutput = out, stSessionFile = f, stError = e\<rparr> (appended now StartupReconciled j)"
  have seq: "sequenced ?j" using assms by simp
  have "priorResult plan ?j = Some r' \<longleftrightarrow> r' = r \<and> isRunResult r" for r'
    unfolding priorResult_Some [OF seq] using lastSequence_ge [of "appended now StartupReconciled j"] assms by auto
  then show ?thesis by (cases "priorResult plan ?j") auto
qed

text \<open>
  C23: Recovery at startup claims nothing the run's journal does not prove. The recovered result is
  either cleanup-blocked or a valid result that the journal records: that of a completed abandonment, or
  that of a snapshot taken after the latest attempt had last started, and no abandonment is pending. With
  no pending abandonment it is always valid, and recovering again, from what recovery wrote, gives the
  same result whenever it is valid.
\<close>

theorem recovery_is_truthful:
  assumes "sequenced j" and "checkRunId (planRunId plan)"
  shows "(resultStatus (fst (recoverResult plan j)) = CleanupBlocked \<or> evidenced plan j (fst (recoverResult plan j)))
    \<and> (hasPendingAbandonment (sjEvents j) \<or> isRunResult (fst (recoverResult plan j)))
    \<and> (isRunResult (fst (recoverResult plan j))
         \<longrightarrow> fst (recoverResult plan (recoverJournal now plan j)) = fst (recoverResult plan j))"
proof (cases "hasPendingAbandonment (sjEvents j)")
  case True
  then have r: "recoverResult plan j = (interruptedAbandonment plan j, Some ''operator abandonment requires reconciliation'')"
    by (simp add: recoverResult_def)
  have "interruptedAbandonment plan (recoverJournal now plan j) = interruptedAbandonment plan j"
    if "isRunResult (interruptedAbandonment plan j)"
    using that assms(1) r
    by (simp add: recoverJournal_def interruptedAbandonment_def [of plan "snapshotted _ _"] priorResult_snapshotted)
      (simp add: interruptedAbandonment_def Let_def)
  moreover have "hasPendingAbandonment (sjEvents (recoverJournal now plan j))"
    using True by (simp add: recoverJournal_def r)
  ultimately show ?thesis using True r by (simp add: recoverResult_def interruptedAbandonment_def Let_def)
next
  case False
  show ?thesis
  proof (cases "case abandonedResult (sjEvents j) of Some r \<Rightarrow> Some r | None \<Rightarrow> priorResult plan j")
    case None
    then have r: "recoverResult plan j = (unprovedResult plan j, Some ''terminal state was not proved before seat loss'')"
      using False by (simp add: recoverResult_def)
    have "abandonedResult (sjEvents j) = None" using None by (simp split: option.splits)
    then have "recoverResult plan (recoverJournal now plan j) = (unprovedResult plan j, None)"
      using False assms unprovedResult_ok [OF assms(2)]
      by (simp add: recoverJournal_def r recoverResult_def [of plan "snapshotted _ _"] priorResult_snapshotted)
    then show ?thesis using r unprovedResult_ok [OF assms(2)] by (simp add: unprovedResult_def Let_def)
  next
    case (Some x)
    then have r: "recoverResult plan j = (x, None)" using False by (simp add: recoverResult_def)
    have "evidenced plan j x"
      using Some False abandonedResult_Some [of "sjEvents j" x] priorResult_Some [OF assms(1), of plan x]
      by (auto simp: evidenced_def split: option.splits)
    then show ?thesis using r by (simp add: recoverJournal_def evidenced_def)
  qed
qed

definition demoServiceJournal :: ServiceJournal where
  "demoServiceJournal = \<lparr>sjEvents = [\<lparr>seSequence = 1, seTime = 0, seData = AttemptStarting (Some ''attempt_1'')\<rparr>,
      \<lparr>seSequence = 2, seTime = 0, seData = AttemptFailed\<rparr>],
     sjSnapshot = Some (2, \<lparr>stResult = Some demoFailedResult, stOutput = None, stSessionFile = None, stError = None\<rparr>)\<rparr>"

lemma demo_failed_valid: "isRunResult demoFailedResult" by code_simp

theorem recovery_is_truthful_witness:
  "evidenced demoRunPlan demoServiceJournal (fst (recoverResult demoRunPlan demoServiceJournal))"
proof -
  have "checkRunId (planRunId demoRunPlan)" using demo_run_ok by (simp add: checkPlan_def)
  moreover have "sequenced demoServiceJournal" by (simp add: sequenced_def demoServiceJournal_def)
  moreover have "resultStatus (fst (recoverResult demoRunPlan demoServiceJournal)) = Failed"
    by code_simp
  ultimately show ?thesis using recovery_is_truthful [of demoServiceJournal demoRunPlan] by auto
qed

subsection \<open>A retry that never started is charged for the attempt before it\<close>

text \<open>
  An attempt's record is written before its first event. When the seat is lost in between, or the
  execution dependencies are unavailable, the record of the new attempt is the latest one while the
  snapshot still holds the result of the attempt before.
\<close>

definition recordedNotStarted :: "AgentLaunchPlan \<Rightarrow> RunResult \<Rightarrow> ServiceJournal \<Rightarrow> bool" where
  "recordedNotStarted q r j \<longleftrightarrow>
     isRunResult r \<and> (\<exists>seq st. sjSnapshot j = Some (seq, st) \<and> stResult st = Some r)
     \<and> (\<forall>e \<in> set (sjEvents j). case seData e of
           AttemptStarting a \<Rightarrow> a \<noteq> Some (planAttemptId q) | RunAbandoned _ \<Rightarrow> False | RunAbandoning \<Rightarrow> False | _ \<Rightarrow> True)"

lemma recordedNotStarted_recovers:
  assumes "sequenced j" and "recordedNotStarted q r j"
  shows "recoverResult q j = (r, None)"
proof -
  have no: "\<forall>e \<in> set (sjEvents j). seData e \<noteq> RunAbandoning \<and> seData e \<noteq> AttemptStarting (Some (planAttemptId q))
      \<and> \<not> (case seData e of RunAbandoned _ \<Rightarrow> True | _ \<Rightarrow> False)"
    using assms(2) by (fastforce simp: recordedNotStarted_def split: ServiceEventData.splits)
  then have "dropWhile (\<lambda>e. seData e \<noteq> RunAbandoning) (rev (sjEvents j)) = []" by (auto simp: dropWhile_eq_Nil_conv)
  then have "\<not> hasPendingAbandonment (sjEvents j)"
    by (simp add: hasPendingAbandonment_def Let_def lastIndexOf_def)
  moreover have "abandonedResult (sjEvents j) = None"
    using no by (auto simp: abandonedResult_def findLast_None split: option.splits dest!: findLast_Some)
  moreover have "priorResult q j = Some r"
    unfolding priorResult_Some [OF assms(1)] using assms(2) no by (auto simp: recordedNotStarted_def)
  ultimately show ?thesis by (simp add: recoverResult_def)
qed

text \<open>
  A retry whose attempt was recorded but never started is charged for the attempt before it a second
  time. Recovery pairs the new attempt's plan, whose limits already lack what the earlier attempt spent,
  with that attempt's result, so the next retry's plan has its time and cost subtracted twice.
\<close>

theorem unstarted_retry_charged_twice:
  assumes "retryPlan sha p r n = Inr q" and "sequenced j" and "recordedNotStarted q r j"
    and "retryPlan sha q (fst (recoverResult q j)) m = Inr q'"
  shows "fst (recoverResult q j) = r
     \<and> cumulativeRuntimeMs (planLimits q') = cumulativeRuntimeMs (planLimits p) - 2 * runtimeMs r
     \<and> limitCost (planLimits q') = limitCost (planLimits p) - 2 * usageCost (usage r)"
proof -
  have r: "fst (recoverResult q j) = r" using recordedNotStarted_recovers [OF assms(2,3)] by simp
  have "nextPlan sha p r q" "nextPlan sha q r q'" using assms(1,4) r unfolding nextPlan_def by auto
  then have "spends (planLimits p) r (planLimits q)" "spends (planLimits q) r (planLimits q')"
    using nextPlan_spends by blast+
  then show ?thesis using r by (simp add: spends_def)
qed

definition demoTwoRetries :: AgentLaunchPlan where
  "demoTwoRetries = demoRunPlan\<lparr>planLimits := (planLimits demoRunPlan)\<lparr>retries := 2\<rparr>\<rparr>"

theorem unstarted_retry_charged_twice_witness:
  "\<exists>q q'. retryPlan (\<lambda>s. replicate 64 CHR ''a'') demoTwoRetries demoFailedResult 1 = Inr q
     \<and> retryPlan (\<lambda>s. replicate 64 CHR ''a'') q demoFailedResult 2 = Inr q'
     \<and> cumulativeRuntimeMs (planLimits q') = 60000 - 2 * 5000 \<and> limitCost (planLimits q') = 1 / 2"
proof -
  let ?sha = "\<lambda>s :: string. replicate 64 CHR ''a''" and ?m = "''retry run-wide budget exhausted''"
  have f: "failure demoFailedResult = Some demoRetryFailure" "failureRetry demoRetryFailure = RetryManual"
    "runtimeMs demoFailedResult = 5000" "usageTotalTokens (usage demoFailedResult) = 100"
    "usageCost (usage demoFailedResult) = 1 / 4"
    by (simp_all add: demoFailedResult_def demoRetryFailure_def)
  have l: "planLimits demoTwoRetries = (planLimits demoRunPlan)\<lparr>retries := 2\<rparr>" "planOutputSchema demoTwoRetries = None"
    by (simp_all add: demoTwoRetries_def demo_run_limits)
  have "\<exists>l. remainingLimits ?m (planLimits demoTwoRetries) demoFailedResult = Inr l"
    by (simp add: l demo_run_limits f)
  then have "\<exists>q. retryPlan ?sha demoTwoRetries demoFailedResult 1 = Inr q"
    using retryPlan_ok [OF _ f(1)] by (fastforce simp: l f demo_run_limits)
  then obtain q where q: "retryPlan ?sha demoTwoRetries demoFailedResult 1 = Inr q" by blast
  then have "nextPlan ?sha demoTwoRetries demoFailedResult q" unfolding nextPlan_def by blast
  from nextPlan_spends [OF this] obtain a t where sp: "spends (planLimits demoTwoRetries) demoFailedResult (planLimits q)"
    and qe: "q = demoTwoRetries\<lparr>planAttemptId := ''attempt_'' @ take 48 (?sha a), planLimits := planLimits q, planIdentity := ?sha t\<rparr>"
    by blast
  have lq: "cumulativeRuntimeMs (planLimits q) = 55000" "limitCost (planLimits q) = 3 / 4"
    "limitTotalTokens (planLimits q) = Some 900" "attemptTimeoutMs (planLimits q) = 30000"
    using sp by (auto simp: spends_def l demo_run_limits f)
  have rq: "retries (planLimits q) = 1"
    using q by (auto simp: retryPlan_def l demo_run_limits f sealPlan_def nextAttemptId_def split: if_splits)
  have "\<exists>l. remainingLimits ?m (planLimits q) demoFailedResult = Inr l" by (simp add: lq f)
  moreover have "planOutputSchema q = None" by (subst qe) (simp add: l)
  ultimately have "\<exists>q'. retryPlan ?sha q demoFailedResult 2 = Inr q'"
    using retryPlan_ok [OF _ f(1)] by (fastforce simp: rq f)
  then obtain q' where q': "retryPlan ?sha q demoFailedResult 2 = Inr q'" by blast
  have "length (planAttemptId q) = 56" by (subst qe) simp
  then have id: "planAttemptId q \<noteq> ''attempt_1''" by auto
  have ns: "recordedNotStarted q demoFailedResult demoServiceJournal"
    using id demo_failed_valid by (simp add: recordedNotStarted_def demoServiceJournal_def)
  have sq: "sequenced demoServiceJournal" by (simp add: sequenced_def demoServiceJournal_def)
  have "retryPlan ?sha q (fst (recoverResult q demoServiceJournal)) 2 = Inr q'"
    using recordedNotStarted_recovers [OF sq ns] q' by simp
  from unstarted_retry_charged_twice [OF q sq ns this] show ?thesis
    using q q' by (auto simp: l demo_run_limits f)
qed

end
