(* ===== verification/ServiceRuns.thy ===== *)
theory ServiceRuns
  imports ServiceState
begin

section \<open>Reconciling, abandoning and releasing runs (\<open>src/service.ts\<close>)\<close>

text \<open>
  The operations on a run that has stopped. Each runs under the run's lease, asks the journal for the
  durable status first, and writes its outcome to the journal and the snapshot.
\<close>

subsection \<open>Worktrees and snapshots of a run\<close>

definition readAttemptWorktree :: "('g, 'p) ServiceHost \<Rightarrow> string \<Rightarrow> 'g WtWorld \<Rightarrow> WorktreeRecord option res" where
  "readAttemptWorktree h a g =
     (case readWorktreeRecord (shRecordPath h a) g of
        Inl Enoent \<Rightarrow> Inr None | Inl e \<Rightarrow> Inl e | Inr r \<Rightarrow> Inr (Some r))"

fun earlierHandoff :: "('g, 'p) ServiceHost \<Rightarrow> 'g WtWorld \<Rightarrow> WorktreeRecord \<Rightarrow> AttemptRecord list \<Rightarrow> WorktreeRecord option res" where
  "earlierHandoff h g record [] = Inr None"
| "earlierHandoff h g record (a # rest) =
     (case arWorktree a of
        None \<Rightarrow> earlierHandoff h g record rest
      | Some i \<Rightarrow>
          if i = wtAttemptId record then earlierHandoff h g record rest
          else andThen (readAttemptWorktree h i g) (\<lambda>prior.
            case prior of
              None \<Rightarrow> earlierHandoff h g record rest
            | Some p \<Rightarrow> if wtRunId p = wtRunId record \<and> wtHandoffCommit p = wtStartCommit record then Inr (Some p)
                        else earlierHandoff h g record rest))"

definition carriedHandoff ::
  "('g, 'p) ServiceHost \<Rightarrow> 'g WtWorld \<Rightarrow> AttemptRecord list \<Rightarrow> WorktreeRecord option \<Rightarrow> WorktreeRecord option res" where
  "carriedHandoff h g attempts record =
     (case record of
        None \<Rightarrow> Inr None
      | Some r \<Rightarrow> if wtHandoffCommit r \<noteq> None then Inr (Some r)
                  else if wtStartCommit r = None then Inr None
                  else earlierHandoff h g r attempts)"

definition recoveredHandoff ::
  "('g, 'p) ServiceHost \<Rightarrow> 'g WtWorld \<Rightarrow> AttemptRecord list res \<Rightarrow> AttemptRecord option \<Rightarrow> WorktreeRecord option res" where
  "recoveredHandoff h g attempts latest =
     (case Option.bind latest arWorktree of
        None \<Rightarrow> Inr None
      | Some a \<Rightarrow>
          andThen (readAttemptWorktree h a g) (\<lambda>wt.
          andThen attempts (\<lambda>attempts.
          andThen (carriedHandoff h g attempts wt) (\<lambda>c.
            Inr (case c of None \<Rightarrow> wt | Some _ \<Rightarrow> c)))))"

definition worktreeAttempts :: "AttemptRecord list \<Rightarrow> string list" where
  "worktreeAttempts attempts = unique (List.map_filter arWorktree attempts)"

fun retainedWorktree :: "('g, 'p) ServiceHost \<Rightarrow> 'g WtWorld \<Rightarrow> AttemptRecord list \<Rightarrow> bool res" where
  "retainedWorktree h g [] = Inr False"
| "retainedWorktree h g (a # rest) =
     (case arWorktree a of
        None \<Rightarrow> retainedWorktree h g rest
      | Some i \<Rightarrow>
          (case readWorktreeRecord (shRecordPath h i) g of
             Inl Enoent \<Rightarrow> Inr True
           | Inl e \<Rightarrow> Inl e
           | Inr r \<Rightarrow> if wtReleasedAt r = None then Inr True else retainedWorktree h g rest))"

definition releasable :: "('g, 'p) ServiceHost \<Rightarrow> 'g WtWorld \<Rightarrow> string \<Rightarrow> bool" where
  "releasable h g a =
     (case readWorktreeRecord (shRecordPath h a) g of
        Inl _ \<Rightarrow> False
      | Inr r \<Rightarrow> wtReleasedAt r \<noteq> None
          \<or> (case observeWorktree (shGit h) r (wwGit g) of
               ObservedDirty \<Rightarrow> False | ObservedUnknown _ \<Rightarrow> False | _ \<Rightarrow> True))"

definition canReleaseRunWorktrees :: "('g, 'p) ServiceHost \<Rightarrow> 'g WtWorld \<Rightarrow> AgentLaunchPlan \<Rightarrow> AttemptRecord list \<Rightarrow> bool" where
  "canReleaseRunWorktrees h g plan attempts =
     (workspaceMode (planWorkspace plan) = ReadOnly
      \<or> (worktreeAttempts attempts \<noteq> [] \<and> list_all (releasable h g) (worktreeAttempts attempts)))"

fun eachS :: "('a \<Rightarrow> 's \<Rightarrow> unit res \<times> 's) \<Rightarrow> 'a list \<Rightarrow> 's \<Rightarrow> unit res \<times> 's" where
  "eachS f [] s = (Inr (), s)"
| "eachS f (x # xs) s = bindS (f x) (\<lambda>_. eachS f xs) s"

definition pathPresent :: "('g, 'p) ServiceHost \<Rightarrow> string \<Rightarrow> 'g \<Rightarrow> bool" where
  "pathPresent h p s = (case ghStat (shGit h) p s of PathDirectory \<Rightarrow> True | PathOther \<Rightarrow> True | _ \<Rightarrow> False)"

definition releaseOneWorktree :: "('g, 'p) ServiceHost \<Rightarrow> string \<Rightarrow> string \<Rightarrow> string \<Rightarrow> 'g WtWorld \<Rightarrow> unit res \<times> 'g WtWorld" where
  "releaseOneWorktree h runId now a =
     bindS (readS (readWorktreeRecord (shRecordPath h a))) (\<lambda>r.
     bindS (readS (\<lambda>g. Inr (pathPresent h (wtPath r) (wwGit g)))) (\<lambda>present.
     bindS (if present then removeCleanWorktree (shGit h) runId r else okS ()) (\<lambda>_.
     bindS (releaseWorktreeBranch (shGit h) runId now r) (\<lambda>_. okS ()))))"

definition releaseRunWorktrees ::
  "('g, 'p) ServiceHost \<Rightarrow> string \<Rightarrow> ('g, 'p) ServiceWorld \<Rightarrow> unit res \<times> ('g, 'p) ServiceWorld" where
  "releaseRunWorktrees h now w =
     (if workspaceMode (planWorkspace (avPlan (svRun w))) \<noteq> Worktree then (Inr (), w)
      else bindS (readS svAttempts) (\<lambda>attempts.
           bindS (checkS (worktreeAttempts attempts \<noteq> []) (Err ''worktree identity is unavailable'')) (\<lambda>_.
           onGit (eachS (releaseOneWorktree h (planRunId (avPlan (svRun w))) now) (worktreeAttempts attempts)))) w)"

datatype WorkspaceState = WsNotNeeded | WsRetained | WsAbsent | WsUnknown

definition removeRunSnapshots :: "('g, 'p) ServiceHost \<Rightarrow> string \<Rightarrow> 'g WtWorld \<Rightarrow> WorkspaceState \<times> 'g WtWorld" where
  "removeRunSnapshots h runId g =
     (case bindS (readS (listRunSnapshots runId)) (eachS (removeReadOnlySnapshot (shGit h) runId)) g of
        (Inr _, g) \<Rightarrow> (WsAbsent, g) | (Inl _, g) \<Rightarrow> (WsUnknown, g))"

subsection \<open>Evidence of the session and the sandbox\<close>

datatype SessionEvidence = SessionAbsent | SessionValid string | SessionUnknown

definition observeSessionEvidence :: "('g, 'p) ServiceHost \<Rightarrow> ServiceEvent list \<Rightarrow> string option \<Rightarrow> SessionEvidence" where
  "observeSessionEvidence h es preferred =
     (case findLast (\<lambda>e. case seData e of SessionStarted _ _ \<Rightarrow> True | _ \<Rightarrow> False) es of
        None \<Rightarrow> SessionAbsent
      | Some e \<Rightarrow>
          (case seData e of
             SessionStarted sid file \<Rightarrow>
               (case (sid, if preferred = None then file else preferred) of
                  (Some sid, Some f) \<Rightarrow>
                    (case shSession h f of
                       SessionMissing \<Rightarrow> SessionAbsent
                     | SessionUnreadable \<Rightarrow> SessionUnknown
                     | SessionFound path s \<Rightarrow> if s = sid then SessionValid path else SessionUnknown)
                | _ \<Rightarrow> SessionAbsent)
           | _ \<Rightarrow> SessionAbsent))"

definition onProcs :: "('p procState \<Rightarrow> 'a \<times> 'p procState) \<Rightarrow> ('g, 'p) ServiceWorld \<Rightarrow> 'a res \<times> ('g, 'p) ServiceWorld" where
  "onProcs m w = (case m (svProcs w) of (a, p) \<Rightarrow> (Inr a, w\<lparr>svProcs := p\<rparr>))"

definition recordedIdentity :: "ServiceEventData \<Rightarrow> ProcessIdentity option" where
  "recordedIdentity d =
     (case d of
        SandboxStarted (Some hostPid) pid (Some started) (Some sha) \<Rightarrow>
          if pid = Some hostPid \<and> checkSha256 sha
          then Some \<lparr>piPid = hostPid, piStartedAtMs = started, piCommandSha256 = sha\<rparr> else None
      | _ \<Rightarrow> None)"

definition settleProcess :: "'p ProcessHost \<Rightarrow> ProcessIdentity \<Rightarrow> 'p procState \<Rightarrow> ProcessState \<times> 'p procState" where
  "settleProcess ph i st =
     (case observe ph (piPid i) st of
        (ProcAbsent, st) \<Rightarrow> (ProcessAbsent, st)
      | (ProcPresent c, st) \<Rightarrow> if processIdentitiesEqual c i then terminate ph i st else (ProcessUnknown, st)
      | (ProcUnknown _, st) \<Rightarrow> (ProcessUnknown, st))"

definition reconcileProcess :: "'p ProcessHost \<Rightarrow> ServiceEvent list \<Rightarrow> 'p procState \<Rightarrow> ProcessState \<times> 'p procState" where
  "reconcileProcess ph es st =
     (case findLast (\<lambda>e. case seData e of SandboxStarted _ _ _ _ \<Rightarrow> True | _ \<Rightarrow> False) es of
        None \<Rightarrow> (ProcessNotStarted, st)
      | Some e \<Rightarrow> (case recordedIdentity (seData e) of None \<Rightarrow> (ProcessUnknown, st) | Some i \<Rightarrow> settleProcess ph i st))"

definition worktreeState :: "('g, 'p) ServiceHost \<Rightarrow> string \<Rightarrow> 'g WtWorld \<Rightarrow> string \<Rightarrow> WorkspaceState" where
  "worktreeState h runId g a =
     (case readWorktreeRecord (shRecordPath h a) g of
        Inl _ \<Rightarrow> WsUnknown
      | Inr r \<Rightarrow>
          if wtRunId r \<noteq> runId \<or> wtAttemptId r \<noteq> a then WsUnknown
          else (case observeWorktree (shGit h) r (wwGit g) of
                  ObservedAbsent \<Rightarrow> WsAbsent | ObservedUnknown _ \<Rightarrow> WsUnknown | _ \<Rightarrow> WsRetained))"

definition worktreesState :: "('g, 'p) ServiceHost \<Rightarrow> string \<Rightarrow> AttemptRecord list \<Rightarrow> 'g WtWorld \<Rightarrow> WorkspaceState" where
  "worktreesState h runId attempts g =
     (let states = map (worktreeState h runId g) (worktreeAttempts attempts) in
      if states = [] then WsUnknown
      else if WsUnknown \<in> set states then WsUnknown
      else if WsRetained \<in> set states then WsRetained else WsAbsent)"

definition reconcileWorkspace ::
  "('g, 'p) ServiceHost \<Rightarrow> ProcessState \<Rightarrow> ('g, 'p) ServiceWorld \<Rightarrow> WorkspaceState res \<times> ('g, 'p) ServiceWorld" where
  "reconcileWorkspace h sandbox w =
     (let plan = avPlan (svRun w) in
      if sharesLiveCheckout plan then (Inr WsNotNeeded, w)
      else if workspaceMode (planWorkspace plan) = ReadOnly then
        (if sandbox = ProcessAbsent \<or> sandbox = ProcessNotStarted
         then (case removeRunSnapshots h (planRunId plan) (svGit w) of (s, g) \<Rightarrow> (Inr s, w\<lparr>svGit := g\<rparr>))
         else (Inr WsUnknown, w))
      else bindS (readS svAttempts) (\<lambda>attempts. readS (\<lambda>w. Inr (worktreesState h (planRunId plan) attempts (svGit w)))) w)"

subsection \<open>Reconciling\<close>

definition observedSandbox :: "ProcessState \<Rightarrow> CleanupOutcome" where
  "observedSandbox p = (case p of ProcessNotStarted \<Rightarrow> NotNeeded | ProcessAbsent \<Rightarrow> Proved | _ \<Rightarrow> CleanupUnknown)"

definition workspaceOutcomeOf :: "WorkspaceState \<Rightarrow> CleanupOutcome" where
  "workspaceOutcomeOf s = (case s of WsNotNeeded \<Rightarrow> NotNeeded | WsRetained \<Rightarrow> Retained | WsAbsent \<Rightarrow> Proved | WsUnknown \<Rightarrow> CleanupUnknown)"

definition reconciledSandbox :: "bool \<Rightarrow> RunExecution option \<Rightarrow> ProcessState \<Rightarrow> CleanupOutcome" where
  "reconciledSandbox pending prior p =
     (case prior of
        None \<Rightarrow> observedSandbox p
      | Some e \<Rightarrow> if pending \<and> outcomeProved (sandboxCleanup (exResult e)) then sandboxCleanup (exResult e) else observedSandbox p)"

definition reconciledStatus :: "bool \<Rightarrow> CleanupOutcome \<Rightarrow> CleanupOutcome \<Rightarrow> SessionEvidence \<Rightarrow> RunStatus" where
  "reconciledStatus pending sc wc session =
     (if pending then (if outcomeProved sc \<and> outcomeProved wc then Abandoned else CleanupBlocked)
      else if outcomeProved sc \<and> wc \<noteq> CleanupUnknown \<and> session \<noteq> SessionUnknown
      then (case session of SessionValid _ \<Rightarrow> Interrupted | _ \<Rightarrow> Failed)
      else CleanupBlocked)"

definition operatorAbandoned :: ClassifiedFailure where
  "operatorAbandoned =
     \<lparr>failureCode = OperatorAbandoned, failureOrigin = OOperator, failureRetry = RetryNever,
      failureMessage = ''Operator permanently abandoned the interrupted run'',
      guidance = ''Inspect retained journal evidence if needed.'', retryAfterMs = None\<rparr>"

definition reconciledFailure :: "RunStatus \<Rightarrow> ClassifiedFailure" where
  "reconciledFailure s =
     (if s = Abandoned then operatorAbandoned
      else if s = Interrupted
      then (recoveredFailure SeatInterruption ''Prior attempt ended before terminal proof''
              ''Resume the retained session in a fresh VM after validation.'')\<lparr>failureRetry := RetryResume\<rparr>
      else if s = CleanupBlocked
      then recoveredFailure SandboxCleanup ''External cleanup remains unproved''
             ''Reconcile recorded sandbox and workspace identities.''
      else recoveredFailure UnknownFailure ''Prior attempt failed without terminal proof''
             ''Inspect lifecycle evidence before continuing.'')"

definition reconciledResult ::
  "string \<Rightarrow> RunExecution option \<Rightarrow> bool \<Rightarrow> RunStatus \<Rightarrow> CleanupOutcome \<Rightarrow> CleanupOutcome \<Rightarrow> RunResult" where
  "reconciledResult runId prior pending status sc wc =
     (let r = map_option exResult prior in
      \<lparr>resultRunId = runId, resultStatus = status,
       resultOutput = (if pending then None else Option.bind r resultOutput),
       structuredOutput = (if pending then None else Option.bind r structuredOutput),
       usage = (case r of None \<Rightarrow> emptyUsage | Some r \<Rightarrow> usage r),
       usageComplete = (case r of None \<Rightarrow> False | Some r \<Rightarrow> usageComplete r),
       runtimeMs = (case r of None \<Rightarrow> 0 | Some r \<Rightarrow> runtimeMs r),
       failure = Some (reconciledFailure status), sandboxCleanup = sc, workspaceCleanup = wc,
       truncated = (case r of None \<Rightarrow> False | Some r \<Rightarrow> truncated r)\<rparr>)"

definition reconciledExecution :: "RunExecution option \<Rightarrow> bool \<Rightarrow> SessionEvidence \<Rightarrow> RunResult \<Rightarrow> RunExecution" where
  "reconciledExecution prior pending session r =
     \<lparr>exResult = r,
      exOutput = (if pending then [] else (case prior of None \<Rightarrow> [] | Some e \<Rightarrow> exOutput e)),
      exSessionFile = (if pending then None else (case session of SessionValid f \<Rightarrow> Some f | _ \<Rightarrow> None)),
      exHandoff = (if pending then None else Option.bind prior exHandoff),
      exError = Some (if resultStatus r = Abandoned then ''run permanently abandoned by operator''
                      else if resultStatus r = CleanupBlocked then ''external cleanup remains unproved''
                      else ''prior attempt was interrupted before terminal proof'')\<rparr>"

text \<open>The reducer is asked before a run becomes abandoned.\<close>

definition assertAbandonment :: "InvalidRunTransition + RunStatus \<Rightarrow> unit res" where
  "assertAbandonment t =
     (case t of
        Inl _ \<Rightarrow> Inl (Err ''invalid run transition'')
      | Inr s \<Rightarrow> require (s = Abandoned) (Err ''cleanup proof did not permit abandonment''))"

definition reconciledEvent :: "RunResult \<Rightarrow> ServiceEventData" where
  "reconciledEvent r = (if resultStatus r = Abandoned then RunAbandoned (Some r) else RunReconciled (resultStatus r))"

definition concludeReconciliation ::
  "('g, 'p) ServiceHost \<Rightarrow> AgentLaunchPlan \<Rightarrow> RunExecution option \<Rightarrow> bool \<Rightarrow> SessionEvidence \<Rightarrow> CleanupOutcome \<Rightarrow> CleanupOutcome
     \<Rightarrow> ('g, 'p) ServiceWorld \<Rightarrow> unit res \<times> ('g, 'p) ServiceWorld" where
  "concludeReconciliation h plan prior pending session sc wc =
     (let status = reconciledStatus pending sc wc session;
          r = reconciledResult (planRunId plan) prior pending status sc wc;
          e = reconciledExecution prior pending session r in
      bindS (readS (\<lambda>_. if status = Abandoned
               then assertAbandonment (transitionRunStatus CleanupBlocked (EvCleanupProved TAbandoned sc wc))
               else Inr ())) (\<lambda>_.
      bindS (checkS (isRunResult r) (Err ''reconciliation produced invalid result'')) (\<lambda>_.
      bindS (journalAppend h (reconciledEvent r)) (\<lambda>_.
      bindS (journalSnapshot h e) (\<lambda>_.
      bindS (settleRun e status) (\<lambda>_.
      settleHeldLease))))))"

definition reconcile ::
  "('g, 'p) ServiceHost \<Rightarrow> ('g, 'p) ServiceWorld \<Rightarrow> (ProcessState \<times> WorkspaceState) res \<times> ('g, 'p) ServiceWorld" where
  "reconcile h w =
     (let run = svRun w; plan = avPlan run; prior = avResult run in
      if avStatus run \<noteq> CleanupBlocked
      then (Inr (ProcessAbsent, if sharesLiveCheckout plan then WsNotNeeded else WsAbsent), w)
      else
       bindS (holdRunLease h) (\<lambda>_.
       bindS (readS (\<lambda>w. assertDurableStatus CleanupBlocked (svJournal w))) (\<lambda>_.
       bindS (readS (\<lambda>w. Inr (sjEvents (svJournal w)))) (\<lambda>es.
       bindS (onProcs (reconcileProcess (shProcess h) es)) (\<lambda>sandbox.
       bindS (reconcileWorkspace h sandbox) (\<lambda>workspace.
       bindS (concludeReconciliation h plan prior (hasPendingAbandonment es)
                (observeSessionEvidence h es (Option.bind prior exSessionFile))
                (reconciledSandbox (hasPendingAbandonment es) prior sandbox) (workspaceOutcomeOf workspace)) (\<lambda>_.
       okS (sandbox, workspace))))))) w)"

subsection \<open>Abandoning\<close>

text \<open>An execution without session, output and hand-off: the run's recovery authority is gone.\<close>

definition bareExecution :: "RunResult \<Rightarrow> string \<Rightarrow> RunExecution" where
  "bareExecution r e = \<lparr>exResult = r, exOutput = [], exSessionFile = None, exHandoff = None, exError = Some e\<rparr>"

definition abandonResult ::
  "string \<Rightarrow> RunResult \<Rightarrow> RunStatus \<Rightarrow> ClassifiedFailure \<Rightarrow> CleanupOutcome \<Rightarrow> RunResult" where
  "abandonResult runId previous status f wc =
     \<lparr>resultRunId = runId, resultStatus = status, resultOutput = None, structuredOutput = None,
      usage = usage previous, usageComplete = usageComplete previous, runtimeMs = runtimeMs previous,
      failure = Some f, sandboxCleanup = sandboxCleanup previous, workspaceCleanup = wc,
      truncated = truncated previous\<rparr>"

definition pendingFailure :: ClassifiedFailure where
  "pendingFailure = recoveredFailure WorkspaceFailure ''Operator abandonment is awaiting cleanup proof''
     ''Reconcile cleanup to finish abandonment.''"

definition blockedFailure :: ClassifiedFailure where
  "blockedFailure = (recoveredFailure WorkspaceFailure ''Operator abandonment could not prove workspace cleanup''
     ''Inspect or preserve retained work, then reconcile cleanup.'')\<lparr>failureOrigin := OWorkspace\<rparr>"

text \<open>\<open>onError\<close> runs a handler and throws the error again, as a \<open>catch\<close> that ends in \<open>throw error\<close>.\<close>

definition onError :: "('s \<Rightarrow> 'a res \<times> 's) \<Rightarrow> ('s \<Rightarrow> unit res \<times> 's) \<Rightarrow> 's \<Rightarrow> 'a res \<times> 's" where
  "onError m h = catchS m (\<lambda>e. bindS h (\<lambda>_. failS e))"

text \<open>The run becomes abandoned when the reducer permits it and the result is valid; the event comes before the snapshot.\<close>

definition finishAbandonment ::
  "('g, 'p) ServiceHost \<Rightarrow> AgentLaunchPlan \<Rightarrow> RunResult \<Rightarrow> ('g, 'p) ServiceWorld \<Rightarrow> RunStatus res \<times> ('g, 'p) ServiceWorld" where
  "finishAbandonment h plan previous =
     (let r = abandonResult (planRunId plan) previous Abandoned operatorAbandoned (liveCleanup plan Proved);
          x = bareExecution r ''run permanently abandoned by operator'' in
      bindS (readS (\<lambda>_. assertAbandonment (transitionRunStatus Interrupted
               (EvAbandon (sandboxCleanup previous) (liveCleanup plan Proved))))) (\<lambda>_.
      bindS (checkS (isRunResult r) (Err ''abandonment produced invalid terminal evidence'')) (\<lambda>_.
      bindS (journalAppend h (RunAbandoned (Some r))) (\<lambda>_.
      bindS (settleRun x Abandoned) (\<lambda>_.
      bindS (setRun (\<lambda>run. run\<lparr>avControl := False\<rparr>)) (\<lambda>_.
      bindS (journalSnapshot h x) (\<lambda>_. okS Abandoned)))))))"

text \<open>Releasing the worktrees of a run being abandoned; a failure blocks the run and is thrown on.\<close>

definition releaseForAbandonment ::
  "('g, 'p) ServiceHost \<Rightarrow> string \<Rightarrow> string \<Rightarrow> RunResult \<Rightarrow> ('g, 'p) ServiceWorld \<Rightarrow> unit res \<times> ('g, 'p) ServiceWorld" where
  "releaseForAbandonment h now runId previous =
     onError (releaseRunWorktrees h now)
       (let blocked = bareExecution (abandonResult runId previous CleanupBlocked blockedFailure CleanupUnknown)
              ''operator abandonment requires reconciliation''
        in bindS (journalSnapshot h blocked) (\<lambda>_. settleRun blocked CleanupBlocked))"

definition beginAbandonment ::
  "('g, 'p) ServiceHost \<Rightarrow> RunResult \<Rightarrow> ('g, 'p) ServiceWorld \<Rightarrow> unit res \<times> ('g, 'p) ServiceWorld" where
  "beginAbandonment h previous =
     bindS (checkS (outcomeProved (sandboxCleanup previous)) (Err ''run cleanup is unproved; reconcile before abandoning'')) (\<lambda>_.
     bindS (readS (\<lambda>w. shAcquire h (wwGit (svGit w)))) (\<lambda>_.
     bindS (readS (\<lambda>w. assertDurableStatus Interrupted (svJournal w))) (\<lambda>_.
     journalAppend h RunAbandoning)))"

definition abandon :: "('g, 'p) ServiceHost \<Rightarrow> string \<Rightarrow> ('g, 'p) ServiceWorld \<Rightarrow> RunStatus res \<times> ('g, 'p) ServiceWorld" where
  "abandon h now w =
     (let run = svRun w; plan = avPlan run in
      case (if avStatus run = Interrupted then avResult run else None) of
        None \<Rightarrow> (Inl (Err ''only an interrupted run with terminal evidence can be abandoned''), w)
      | Some e \<Rightarrow>
       (let previous = exResult e in
       bindS (beginAbandonment h previous) (\<lambda>_.
       bindS (settleRun (bareExecution (abandonResult (planRunId plan) previous CleanupBlocked pendingFailure
                (liveCleanup plan CleanupUnknown)) ''operator abandonment is awaiting cleanup proof'') CleanupBlocked) (\<lambda>_.
       bindS (releaseForAbandonment h now (planRunId plan) previous) (\<lambda>_.
       finishAbandonment h plan previous)))) w)"

subsection \<open>Releasing\<close>

definition releasedResult :: "AgentLaunchPlan \<Rightarrow> bool \<Rightarrow> RunResult \<Rightarrow> RunResult" where
  "releasedResult plan pending previous =
     (if pending then previous
      else (let r = previous\<lparr>workspaceCleanup := liveCleanup plan Proved\<rparr> in
        if resultStatus r = CleanupBlocked \<and> outcomeProved (sandboxCleanup r)
        then r\<lparr>resultStatus := Failed\<rparr> else r))"

definition releasedExecution :: "RunResult \<Rightarrow> RunExecution \<Rightarrow> RunExecution" where
  "releasedExecution r e =
     (if resultStatus r = Abandoned then bareExecution r ''run permanently abandoned by operator''
      else e\<lparr>exResult := r\<rparr>)"

text \<open>The end of a release: the result it leaves, the event, the snapshot and the run's new status.\<close>

definition concludeRelease ::
  "('g, 'p) ServiceHost \<Rightarrow> ActiveRun \<Rightarrow> bool \<Rightarrow> ('g, 'p) ServiceWorld \<Rightarrow> RunStatus res \<times> ('g, 'p) ServiceWorld" where
  "concludeRelease h run pending w =
     (let next = map_option (\<lambda>e. releasedExecution (releasedResult (avPlan run) pending (exResult e)) e) (avResult run) in
      bindS (checkS (case next of None \<Rightarrow> True | Some e \<Rightarrow> isRunResult (exResult e)) (Err ''release produced invalid result'')) (\<lambda>_.
      bindS (journalAppend h RunReleased) (\<lambda>_.
      bindS (case next of
               None \<Rightarrow> okS ()
             | Some e \<Rightarrow> bindS (journalSnapshot h e) (\<lambda>_. settleRun e (resultStatus (exResult e)))) (\<lambda>_.
      bindS settleHeldLease (\<lambda>_. readS (\<lambda>w. Inr (avStatus (svRun w))))))) w)"

definition release :: "('g, 'p) ServiceHost \<Rightarrow> string \<Rightarrow> ('g, 'p) ServiceWorld \<Rightarrow> RunStatus res \<times> ('g, 'p) ServiceWorld" where
  "release h now w =
     (let run = svRun w in
      if avStatus run \<in> {Active, Stopping, Interrupted}
      then (Inl (Err (if avStatus run = Interrupted then ''abandon an interrupted run to release its recovery workspace''
                      else ''active run cannot release its workspace'')), w)
      else
       bindS (holdRunLease h) (\<lambda>_.
       bindS (readS (\<lambda>w. assertDurableStatus (avStatus run) (svJournal w))) (\<lambda>_.
       bindS (readS (\<lambda>w. Inr (hasPendingAbandonment (sjEvents (svJournal w))))) (\<lambda>pending.
       bindS (releaseRunWorktrees h now) (\<lambda>_. concludeRelease h run pending)))) w)"

subsection \<open>Exporting a hand-off, interrupting\<close>

definition sameHandoff :: "string \<Rightarrow> WorktreeRecord \<Rightarrow> WorktreeRecord \<Rightarrow> bool" where
  "sameHandoff runId carried r =
     (wtRunId r = runId \<and> wtAttemptId r = wtAttemptId carried \<and> wtHandoffCommit r = wtHandoffCommit carried
      \<and> wtBaselineHead r = wtBaselineHead carried \<and> wtHandoffRef r = Some (handoffRefName runId (wtAttemptId carried)))"

definition exportHandoff ::
  "('g, 'p) ServiceHost \<Rightarrow> (string \<Rightarrow> string) \<Rightarrow> int option \<Rightarrow> ('g, 'p) ServiceWorld
     \<Rightarrow> (HandoffRef \<times> string) res \<times> ('g, 'p) ServiceWorld" where
  "exportHandoff h sha maxBytes w =
     (let run = svRun w; runId = planRunId (avPlan run) in
      if avStatus run \<notin> set HANDOFF_EXPORT_STATUSES
      then (Inl (Err ''handoff export requires a durable terminal run''), w)
      else (case Option.bind (avResult run) exHandoff of
              None \<Rightarrow> (Inl (Err ''run has no handoff commit to export''), w)
            | Some carried \<Rightarrow>
                bindS (checkS (wtHandoffCommit carried \<noteq> None) (Err ''run has no handoff commit to export'')) (\<lambda>_.
                bindS (holdRunLease h) (\<lambda>_.
                bindS (readS (\<lambda>w. assertDurableStatus (avStatus run) (svJournal w))) (\<lambda>_.
                bindS (readS (\<lambda>w. readWorktreeRecord (shRecordPath h (wtAttemptId carried)) (svGit w))) (\<lambda>r.
                bindS (checkS (sameHandoff runId carried r) (Err ''durable handoff identity mismatch'')) (\<lambda>_.
                bindS (readS (\<lambda>w. exportWorktreeHandoff (shGit h) sha runId
                        (case maxBytes of None \<Rightarrow> MAX_HANDOFF_EXPORT_BYTES | Some n \<Rightarrow> n) r (wwGit (svGit w)))) (\<lambda>x.
                bindS (journalAppend h (HandoffExported (fst x))) (\<lambda>_. okS x))))))) w))"

definition interrupt :: "('g, 'p) ServiceWorld \<Rightarrow> RunStatus \<times> ('g, 'p) ServiceWorld" where
  "interrupt w =
     (if avStatus (svRun w) = Active
      then (Stopping, w\<lparr>svRun := (svRun w)\<lparr>avStatus := Stopping\<rparr>, svEmitted := svEmitted w @ [Stopping]\<rparr>)
      else (avStatus (svRun w), w))"

subsection \<open>An abandonment once begun is never forgotten\<close>

text \<open>What a journal shows once an abandonment has begun.\<close>

definition abandonmentBegun :: "ServiceJournal \<Rightarrow> bool" where
  "abandonmentBegun j \<longleftrightarrow> hasPendingAbandonment (sjEvents j)
     \<or> (\<exists>es e r. sjEvents j = es @ [e] \<and> seData e = RunAbandoned (Some r) \<and> isRunResult r \<and> resultStatus r = Abandoned)"

definition allBegun :: "('g, 'p) ServiceWorld \<Rightarrow> bool" where
  "allBegun w \<longleftrightarrow> abandonmentBegun (svJournal w) \<and> (\<forall>j \<in> set (svDurable w). abandonmentBegun j)"

lemma begun_appended [simp]: "abandonmentBegun (appended now RunAbandoning j)"
  by (simp add: abandonmentBegun_def appended_def pending_appended)

lemma begun_abandoned [simp]:
  "isRunResult r \<Longrightarrow> resultStatus r = Abandoned \<Longrightarrow> abandonmentBegun (appended now (RunAbandoned (Some r)) j)"
  by (simp add: abandonmentBegun_def appended_def)

lemma begun_snapshotted [simp]: "abandonmentBegun (snapshotted st j) = abandonmentBegun j"
  by (simp add: abandonmentBegun_def)

lemma begun_recovers:
  assumes "abandonmentBegun j"
  shows "resultStatus (fst (recoverResult plan j)) = (if hasPendingAbandonment (sjEvents j) then CleanupBlocked else Abandoned)"
  using assms
  by (auto simp: abandonmentBegun_def recoverResult_def interruptedAbandonment_def Let_def abandonedResult_def findLast_snoc
      validResult_def)

lemma journal_triples:
  "triple allBegun (journalSnapshot h e) (\<lambda>_. allBegun) allBegun"
  "isRunResult r \<Longrightarrow> resultStatus r = Abandoned \<Longrightarrow> triple allBegun (journalAppend h (RunAbandoned (Some r))) (\<lambda>_. allBegun) allBegun"
  "triple (\<lambda>w. svDurable w = []) (journalAppend h RunAbandoning) (\<lambda>_. allBegun) (\<lambda>w. svDurable w = [])"
  by (auto simp: triple_def journalSnapshot_def journalAppend_def durable_def allBegun_def split: sum.splits)

lemma run_triples:
  "triple allBegun (settleRun e s) (\<lambda>_. allBegun) allBegun" "triple allBegun (setRun f) (\<lambda>_. allBegun) allBegun"
  by (auto simp: triple_def settleRun_def setRun_def allBegun_def)

lemma releaseRunWorktrees_frame:
  assumes "releaseRunWorktrees h now w = (r, w')"
  shows "svJournal w' = svJournal w \<and> svDurable w' = svDurable w \<and> svRun w' = svRun w"
  using assms unfolding releaseRunWorktrees_def
  by (auto simp: bindS_def readS_def checkS_def onGit_def split: if_splits sum.splits prod.splits)

lemma releaseRunWorktrees_triple: "triple allBegun (releaseRunWorktrees h now) (\<lambda>_. allBegun) allBegun"
  by (rule tripleI) (auto simp: allBegun_def dest!: releaseRunWorktrees_frame)

lemma triple_keep:
  "triple P (readS f) (\<lambda>_. P) P" "triple P (checkS c e) (\<lambda>_. P) P" "triple P (okS a) (\<lambda>_. P) P"
  by (auto simp: triple_def readS_def checkS_def okS_def split: sum.splits)

lemmas begun_triples = journal_triples(1,2) run_triples releaseRunWorktrees_triple triple_keep

lemma releaseForAbandonment_triple: "triple allBegun (releaseForAbandonment h now runId previous) (\<lambda>_. allBegun) allBegun"
  unfolding releaseForAbandonment_def onError_def Let_def
  by (rule triple_catchS, rule begun_triples, rule triple_bindS, rule triple_bindS, rule begun_triples, rule begun_triples,
      rule triple_steps)

lemma finishAbandonment_triple: "triple allBegun (finishAbandonment h plan previous) (\<lambda>_. allBegun) allBegun"
proof -
  let ?r = "abandonResult (planRunId plan) previous Abandoned operatorAbandoned (liveCleanup plan Proved)"
  have st: "resultStatus ?r = Abandoned" by (simp add: abandonResult_def)
  show ?thesis
  proof (cases "isRunResult ?r")
    case True
    show ?thesis unfolding finishAbandonment_def Let_def
      by (intro triple_bindS) (rule begun_triples journal_triples(2) [OF True st])+
  next
    case False
    then have refused: "triple allBegun (checkS (isRunResult ?r) e) (\<lambda>_ _. False) allBegun" for e
      by (simp add: triple_def checkS_def)
    show ?thesis unfolding finishAbandonment_def Let_def
      by (rule triple_bindS, rule triple_keep, rule triple_bindS, rule refused, rule triple_False)
  qed
qed

lemma beginAbandonment_triple:
  "triple (\<lambda>w. svDurable w = []) (beginAbandonment h previous) (\<lambda>_. allBegun) (\<lambda>w. svDurable w = [])"
  unfolding beginAbandonment_def
  by (intro triple_bindS) (rule triple_keep journal_triples(3))+

lemma abandon_begun:
  assumes "abandon h now w = (res, w')" and "svDurable w = []"
  shows "case res of Inl e \<Rightarrow> svDurable w' = [] \<or> allBegun w' | Inr s \<Rightarrow> allBegun w'"
proof (cases "if avStatus (svRun w) = Interrupted then avResult (svRun w) else None")
  case None
  then show ?thesis using assms by (auto simp: abandon_def)
next
  case (Some x)
  let ?plan = "avPlan (svRun w)" and ?previous = "exResult x"
  define rest where "rest = bindS (settleRun (bareExecution (abandonResult (planRunId ?plan) ?previous CleanupBlocked
      pendingFailure (liveCleanup ?plan CleanupUnknown)) ''operator abandonment is awaiting cleanup proof'') CleanupBlocked) (\<lambda>_.
       bindS (releaseForAbandonment h now (planRunId ?plan) ?previous) (\<lambda>_. finishAbandonment h ?plan ?previous))"
  have run: "bindS (beginAbandonment h ?previous) (\<lambda>_. rest) w = (res, w')"
    using assms(1) Some unfolding abandon_def Let_def rest_def by simp
  have rest: "triple allBegun rest (\<lambda>_. allBegun) allBegun"
    unfolding rest_def
    by (intro triple_bindS) (rule begun_triples releaseForAbandonment_triple finishAbandonment_triple)+
  have "triple (\<lambda>w. svDurable w = []) (bindS (beginAbandonment h ?previous) (\<lambda>_. rest)) (\<lambda>_. allBegun)
      (\<lambda>w. svDurable w = [] \<or> allBegun w)"
    by (rule triple_bindS [OF triple_weaken [OF beginAbandonment_triple] triple_weaken [OF rest]]) auto
  from tripleD [OF this assms(2) run] show ?thesis .
qed

lemma journal_Inr [simp]:
  "journalAppend h d w = (Inr u, w') \<longleftrightarrow> leaseIsCurrent h w = Inr () \<and> w' = durable (appended (shNow h) d (svJournal w)) w"
  "journalSnapshot h e w = (Inr u, w') \<longleftrightarrow> leaseIsCurrent h w = Inr () \<and> w' = durable (snapshotted (snapshotOf e) (svJournal w)) w"
  "settleRun e s w = (Inr u, w') \<longleftrightarrow> w' = w\<lparr>svRun := (svRun w)\<lparr>avResult := Some e, avStatus := s\<rparr>, svEmitted := svEmitted w @ [s]\<rparr>"
  "setRun f w = (Inr u, w') \<longleftrightarrow> w' = w\<lparr>svRun := f (svRun w)\<rparr>"
  by (auto simp: journalAppend_def journalSnapshot_def settleRun_def setRun_def split: sum.splits)

lemma durable_simps [simp]:
  "svJournal (durable j w) = j" "svDurable (durable j w) = svDurable w @ [j]" "svRun (durable j w) = svRun w"
  "svGit (durable j w) = svGit w" "leaseIsCurrent h (durable j w) = leaseIsCurrent h w"
  by (simp_all add: durable_def leaseIsCurrent_def)

lemma finishAbandonment_settled:
  assumes "finishAbandonment h plan previous w = (Inr s, w')"
  shows "s = Abandoned \<and> \<not> hasPendingAbandonment (sjEvents (svJournal w')) \<and> svDurable w' \<noteq> []
    \<and> svJournal w' = last (svDurable w') \<and> avStatus (svRun w') = Abandoned"
  using assms by (auto simp: finishAbandonment_def Let_def appended_def pending_appended)

text \<open>
  C24: An operator's abandonment, once its durable intent is written, survives the loss of the seat at any
  later point. Every state the journal's files go through from then on, however the attempt to abandon
  ends, recovers as cleanup-blocked or as abandoned, never as the interrupted run with its session,
  output and hand-off; and when the operation returns, the last state recovers as abandoned.
\<close>

theorem abandonment_survives_crashes:
  assumes "abandon h now w = (res, w')" and "svDurable w = []"
  shows "list_all (\<lambda>j.
      (resultStatus (fst (recoverResult plan j)) = CleanupBlocked \<and> hasPendingAbandonment (sjEvents j))
      \<or> (resultStatus (fst (recoverResult plan j)) = Abandoned \<and> exSessionFile (recoverExecution plan carried j) = None
         \<and> exHandoff (recoverExecution plan carried j) = None \<and> exOutput (recoverExecution plan carried j) = []))
      (svDurable w')
    \<and> (case res of
         Inl e \<Rightarrow> True
       | Inr s \<Rightarrow> s = Abandoned \<and> svDurable w' \<noteq> []
           \<and> resultStatus (fst (recoverResult plan (last (svDurable w')))) = Abandoned)"
proof -
  have begun: "case res of Inl e \<Rightarrow> svDurable w' = [] \<or> allBegun w' | Inr s \<Rightarrow> allBegun w'"
    by (rule abandon_begun [OF assms])
  have each: "(resultStatus (fst (recoverResult plan j)) = CleanupBlocked \<and> hasPendingAbandonment (sjEvents j))
      \<or> (resultStatus (fst (recoverResult plan j)) = Abandoned \<and> exSessionFile (recoverExecution plan carried j) = None
         \<and> exHandoff (recoverExecution plan carried j) = None \<and> exOutput (recoverExecution plan carried j) = [])"
    if "j \<in> set (svDurable w')" for j
  proof -
    have "abandonmentBegun j" using begun that by (auto simp: allBegun_def split: sum.splits)
    from begun_recovers [OF this] show ?thesis
      by (cases "hasPendingAbandonment (sjEvents j)") (simp_all add: recoverExecution_def Let_def)
  qed
  have final: "s = Abandoned \<and> svDurable w' \<noteq> [] \<and> resultStatus (fst (recoverResult plan (last (svDurable w')))) = Abandoned"
    if res: "res = Inr s" for s
  proof -
    obtain x v where "finishAbandonment h (avPlan (svRun w)) x v = (Inr s, w')"
      using assms(1) res by (auto simp: abandon_def Let_def split: option.splits if_splits)
    from finishAbandonment_settled [OF this] have f: "s = Abandoned" "svDurable w' \<noteq> []"
      "last (svDurable w') = svJournal w'" "\<not> hasPendingAbandonment (sjEvents (svJournal w'))" by metis+
    have "abandonmentBegun (svJournal w')" using begun res by (simp add: allBegun_def)
    from begun_recovers [OF this, of plan] f show ?thesis unfolding f(3) by simp
  qed
  show ?thesis using each final by (auto simp: list_all_iff split: sum.splits)
qed

text \<open>An interrupted run on a live checkout whose abandonment is asked for.\<close>

definition demoProcessHost :: "unit ProcessHost" where
  "demoProcessHost = \<lparr>phPs = \<lambda>p s. (PsNoProcess, s), phKill = \<lambda>p g s. (KillNoProcess, s), phWait = \<lambda>s. s,
     phDigest = \<lambda>s. s, phDate = \<lambda>s. None\<rparr>"

definition demoServiceHost :: "(demoGitState, unit) ServiceHost" where
  "demoServiceHost = \<lparr>shGit = demoGit, shProcess = demoProcessHost, shAcquire = \<lambda>g. Inr (),
     shSession = \<lambda>f. SessionUnreadable, shRecordPath = \<lambda>a. a, shNow = 0\<rparr>"

definition demoInterruptedResult :: RunResult where
  "demoInterruptedResult = demoFailedResult\<lparr>resultStatus := Interrupted, failure := Some (demoRetryFailure\<lparr>failureRetry := RetryResume\<rparr>)\<rparr>"

definition demoRunWorkspace :: RunWorkspace where
  "demoRunWorkspace = \<lparr>rwMode = ReadOnly, rwRepositoryRoot = ''/r'', rwCwd = ''/r'', rwRelativeCwd = ''.'',
     rwHead = replicate 40 CHR ''a'', rwDirty = False, rwHostPath = replicate 64 CHR ''a'',
     rwBaseline = replicate 64 CHR ''a'', rwStartAt = None\<rparr>"

definition demoStoppedRun :: "AgentLaunchPlan \<Rightarrow> RunResult \<Rightarrow> ActiveRun" where
  "demoStoppedRun plan r = \<lparr>avOwnerId = ''owner'', avPlan = plan, avWorkspace = demoRunWorkspace,
     avResult = Some \<lparr>exResult = r, exOutput = ''out'', exSessionFile = Some ''s'', exHandoff = None, exError = None\<rparr>,
     avStatus = resultStatus r, avCreatedAt = 0, avControl = False, avLeaseHeld = False\<rparr>"

definition demoStopped :: "AgentLaunchPlan \<Rightarrow> RunResult \<Rightarrow> (demoGitState, unit) ServiceWorld" where
  "demoStopped plan r =
     \<lparr>svGit = demoWtWorld, svProcs = ((), []),
      svJournal = \<lparr>sjEvents = [\<lparr>seSequence = 1, seTime = 0, seData = AttemptStarting (Some ''attempt_1'')\<rparr>],
        sjSnapshot = Some (1, \<lparr>stResult = Some r, stOutput = Some ''out'', stSessionFile = Some ''s'', stError = None\<rparr>)\<rparr>,
      svDurable = [], svAttempts = Inr [], svRun = demoStoppedRun plan r, svEmitted = []\<rparr>"

lemma demo_abandon_ok:
  "isOk (fst (abandon demoServiceHost ''now'' (demoStopped demoRunPlan demoInterruptedResult)))"
  "length (svDurable (snd (abandon demoServiceHost ''now'' (demoStopped demoRunPlan demoInterruptedResult)))) = 3"
  by code_simp+

theorem abandonment_survives_crashes_witness:
  "resultStatus (fst (recoverResult demoRunPlan
     (last (svDurable (snd (abandon demoServiceHost ''now'' (demoStopped demoRunPlan demoInterruptedResult))))))) = Abandoned"
proof -
  obtain s w' where a: "abandon demoServiceHost ''now'' (demoStopped demoRunPlan demoInterruptedResult) = (Inr s, w')"
    using demo_abandon_ok(1) by (metis isOk_iff prod.collapse)
  have "svDurable (demoStopped demoRunPlan demoInterruptedResult) = []" by (simp add: demoStopped_def)
  from abandonment_survives_crashes [OF a this] show ?thesis unfolding a by simp
qed

subsection \<open>A seat lost while abandoning a run on the live checkout\<close>

lemma releaseForAbandonment_Inr:
  "releaseForAbandonment h now runId previous w = (Inr u, w') \<Longrightarrow> releaseRunWorktrees h now w = (Inr u, w')"
  by (auto simp: releaseForAbandonment_def onError_def catchS_Inr)

lemma abandon_first_write:
  assumes "abandon h now w = (Inr s, w')" and "svDurable w = []" and "avResult (svRun w) = Some e"
  shows "outcomeProved (sandboxCleanup (exResult e)) \<and> hd (svDurable w') = appended (shNow h) RunAbandoning (svJournal w)"
  using assms
  by (auto simp: abandon_def beginAbandonment_def finishAbandonment_def Let_def split: if_splits
      dest!: releaseForAbandonment_Inr releaseRunWorktrees_frame)

lemma abandoning_event [simp]:
  "priorResult plan (appended now RunAbandoning j) = priorResult plan j"
  "usageCheckpoint a (sjEvents (appended now RunAbandoning j)) = usageCheckpoint a (sjEvents j)"
  "hasPendingAbandonment (sjEvents (appended now RunAbandoning j))"
  by (simp_all add: events_appended pending_appended usageCheckpoint_def priorResult_def findLast_snoc cong: option.case_cong)

lemma proved_blocked_invalid: "resultStatus r = CleanupBlocked \<Longrightarrow> cleanupIsProved r \<Longrightarrow> \<not> isRunResult r"
  by (auto simp: isRunResult_def Let_def split: option.splits)

text \<open>
  When the seat is lost right after the intent to abandon a run on the live checkout was written, the
  run's usage is lost at the second restart. The first recovery writes a cleanup-blocked result whose
  cleanups are both proved, which no reader accepts as a result; the next recovery finds no valid result
  and falls back to the attempt's last usage checkpoint and an unknown sandbox.
\<close>

theorem abandonment_crash_loses_usage:
  assumes "abandon h now w = (Inr s, w')" and "svDurable w = []" and "sequenced (svJournal w)"
    and "avResult (svRun w) = Some e" and "priorResult plan (svJournal w) = Some (exResult e)"
    and "sharesLiveCheckout plan" and "checkRunId (planRunId plan)"
  shows "usage (fst (recoverResult plan (hd (svDurable w')))) = usage (exResult e)
    \<and> \<not> isRunResult (fst (recoverResult plan (hd (svDurable w'))))
    \<and> usage (fst (recoverResult plan (recoverJournal t plan (hd (svDurable w')))))
        = fst (usageCheckpoint (planAttemptId plan) (sjEvents (svJournal w)))
    \<and> sandboxCleanup (fst (recoverResult plan (recoverJournal t plan (hd (svDurable w'))))) = CleanupUnknown"
proof -
  let ?j = "appended (shNow h) RunAbandoning (svJournal w)"
  from abandon_first_write [OF assms(1,2,4)] have proved: "outcomeProved (sandboxCleanup (exResult e))"
    and first: "hd (svDurable w') = ?j" by simp_all
  have r1: "recoverResult plan ?j = (interruptedAbandonment plan ?j, Some ''operator abandonment requires reconciliation'')"
    by (simp add: recoverResult_def)
  have "cleanupIsProved (interruptedAbandonment plan ?j)" "resultStatus (interruptedAbandonment plan ?j) = CleanupBlocked"
    using proved assms(5,6) by (simp_all add: interruptedAbandonment_def Let_def cleanupIsProved_iff outcomeProved_def liveCleanup_def)
  then have bad: "\<not> isRunResult (interruptedAbandonment plan ?j)" using proved_blocked_invalid by blast
  have u1: "usage (interruptedAbandonment plan ?j) = usage (exResult e)"
    using assms(5) by (simp add: interruptedAbandonment_def Let_def)
  define j2 where "j2 = recoverJournal t plan ?j"
  have ev2: "hasPendingAbandonment (sjEvents j2)"
      "usageCheckpoint (planAttemptId plan) (sjEvents j2) = usageCheckpoint (planAttemptId plan) (sjEvents (svJournal w))"
    by (simp_all add: j2_def recoverJournal_def r1)
  have "sequenced ?j" using assms(3) by simp
  from priorResult_snapshotted [OF this] bad have p2: "priorResult plan j2 = None"
    by (simp add: j2_def recoverJournal_def r1)
  have "fst (recoverResult plan j2) = interruptedAbandonment plan j2" using ev2(1) by (simp add: recoverResult_def)
  then show ?thesis unfolding first using r1 bad u1 p2 ev2(2)
    by (simp add: interruptedAbandonment_def [of plan j2] Let_def flip: j2_def)
qed

theorem abandonment_crash_loses_usage_witness:
  "\<exists>j. usage (fst (recoverResult demoRunPlan j)) = usage demoInterruptedResult
     \<and> usage (fst (recoverResult demoRunPlan (recoverJournal 0 demoRunPlan j))) = emptyUsage
     \<and> emptyUsage \<noteq> usage demoInterruptedResult"
proof -
  let ?w = "demoStopped demoRunPlan demoInterruptedResult"
  obtain s w' where a: "abandon demoServiceHost ''now'' ?w = (Inr s, w')"
    using demo_abandon_ok(1) by (metis isOk_iff prod.collapse)
  have none: "svDurable ?w = []" by (simp add: demoStopped_def)
  have seq: "sequenced (svJournal ?w)" by (simp add: demoStopped_def sequenced_def)
  obtain e where e: "avResult (svRun ?w) = Some e" "exResult e = demoInterruptedResult"
    by (simp add: demoStopped_def demoStoppedRun_def)
  have prior: "priorResult demoRunPlan (svJournal ?w) = Some (exResult e)" unfolding e(2) by code_simp
  have live: "sharesLiveCheckout demoRunPlan" by code_simp
  have run: "checkRunId (planRunId demoRunPlan)" using demo_run_ok by (simp add: checkPlan_def)
  have ck: "usageCheckpoint (planAttemptId demoRunPlan) (sjEvents (svJournal ?w)) = (emptyUsage, 0)" by code_simp
  have ne: "emptyUsage \<noteq> usage demoInterruptedResult"
    by (simp add: demoInterruptedResult_def demoFailedResult_def emptyUsage_def)
  from abandonment_crash_loses_usage [OF a none seq e(1) prior live run] show ?thesis
    unfolding ck e(2) using ne by (metis fst_conv)
qed

subsection \<open>A reconciled run recovers as it is\<close>

lemma holdRunLease_Inr:
  "holdRunLease h w = (Inr b, w') \<Longrightarrow> svJournal w' = svJournal w \<and> svDurable w' = svDurable w \<and> svGit w' = svGit w
     \<and> avPlan (svRun w') = avPlan (svRun w) \<and> avResult (svRun w') = avResult (svRun w)
     \<and> avStatus (svRun w') = avStatus (svRun w)"
  by (auto simp: holdRunLease_def Let_def split: if_splits sum.splits)

lemma onProcs_Inr:
  "onProcs m w = (Inr a, w') \<Longrightarrow> a = fst (m (svProcs w)) \<and> svJournal w' = svJournal w \<and> svDurable w' = svDurable w
     \<and> svRun w' = svRun w \<and> svGit w' = svGit w"
  by (auto simp: onProcs_def split: prod.splits)

lemma reconcileWorkspace_Inr:
  "reconcileWorkspace h p w = (Inr a, w') \<Longrightarrow> svJournal w' = svJournal w \<and> svDurable w' = svDurable w \<and> svRun w' = svRun w"
  by (auto simp: reconcileWorkspace_def Let_def split: if_splits prod.splits)

lemma settleHeldLease_Inr:
  "settleHeldLease w = (Inr u, w') \<Longrightarrow> svJournal w' = svJournal w \<and> svDurable w' = svDurable w
     \<and> avResult (svRun w') = avResult (svRun w) \<and> avStatus (svRun w') = avStatus (svRun w)
     \<and> avPlan (svRun w') = avPlan (svRun w) \<and> svGit w' = svGit w"
  by (auto simp: settleHeldLease_def split: if_splits)

lemma concludeReconciliation_Inr:
  assumes "concludeReconciliation h plan prior pending session sc wc w = (Inr u, w')"
  defines "r \<equiv> reconciledResult (planRunId plan) prior pending (reconciledStatus pending sc wc session) sc wc"
  defines "e \<equiv> reconciledExecution prior pending session r"
  shows "isRunResult r" "avStatus (svRun w') = resultStatus r" "avResult (svRun w') = Some e"
    "svJournal w' = snapshotted (snapshotOf e) (appended (shNow h) (reconciledEvent r) (svJournal w))"
proof -
  have st: "resultStatus r = reconciledStatus pending sc wc session" by (simp add: r_def reconciledResult_def Let_def)
  from assms(1) obtain w1 where w1: "settleHeldLease w1 = (Inr (), w')" and ok: "isRunResult r"
    and eq: "svJournal w1 = snapshotted (snapshotOf e) (appended (shNow h) (reconciledEvent r) (svJournal w))"
      "avStatus (svRun w1) = resultStatus r" "avResult (svRun w1) = Some e"
    unfolding concludeReconciliation_def Let_def r_def [symmetric] e_def [symmetric] st by auto
  show "isRunResult r" by (rule ok)
  show "avStatus (svRun w') = resultStatus r" "avResult (svRun w') = Some e"
    "svJournal w' = snapshotted (snapshotOf e) (appended (shNow h) (reconciledEvent r) (svJournal w))"
    using settleHeldLease_Inr [OF w1] eq by simp_all
qed

lemma reconcile_Inr:
  assumes "reconcile h w = (Inr (sandbox, workspace), w')" and "avStatus (svRun w) = CleanupBlocked"
  defines "pending \<equiv> hasPendingAbandonment (sjEvents (svJournal w))"
    and "session \<equiv> observeSessionEvidence h (sjEvents (svJournal w)) (Option.bind (avResult (svRun w)) exSessionFile)"
  defines "sc \<equiv> reconciledSandbox pending (avResult (svRun w)) sandbox" and "wc \<equiv> workspaceOutcomeOf workspace"
  shows "\<exists>r. resultStatus r = reconciledStatus pending sc wc session
     \<and> isRunResult r \<and> assertDurableStatus CleanupBlocked (svJournal w) = Inr ()
     \<and> sandboxCleanup r = sc \<and> workspaceCleanup r = wc \<and> avStatus (svRun w') = resultStatus r
     \<and> avResult (svRun w') = Some (reconciledExecution (avResult (svRun w)) pending session r)
     \<and> svJournal w' = snapshotted (snapshotOf (reconciledExecution (avResult (svRun w)) pending session r))
         (appended (shNow h) (reconciledEvent r) (svJournal w))"
proof -
  from assms(1,2) obtain b w1 w2 w3 where h1: "holdRunLease h w = (Inr b, w1)"
    and was: "assertDurableStatus CleanupBlocked (svJournal w1) = Inr ()"
    and p: "onProcs (reconcileProcess (shProcess h) (sjEvents (svJournal w1))) w1 = (Inr sandbox, w2)"
    and ws: "reconcileWorkspace h sandbox w2 = (Inr workspace, w3)"
    and c: "concludeReconciliation h (avPlan (svRun w)) (avResult (svRun w)) (hasPendingAbandonment (sjEvents (svJournal w1)))
       (observeSessionEvidence h (sjEvents (svJournal w1)) (Option.bind (avResult (svRun w)) exSessionFile))
       (reconciledSandbox (hasPendingAbandonment (sjEvents (svJournal w1))) (avResult (svRun w)) sandbox)
       (workspaceOutcomeOf workspace) w3 = (Inr (), w')"
    by (auto simp: reconcile_def Let_def)
  have j: "svJournal w1 = svJournal w" "svJournal w3 = svJournal w"
    using holdRunLease_Inr [OF h1] onProcs_Inr [OF p] reconcileWorkspace_Inr [OF ws] by simp_all
  note c = concludeReconciliation_Inr [OF c [unfolded j(1), folded pending_def session_def, folded sc_def wc_def]]
  let ?r = "reconciledResult (planRunId (avPlan (svRun w))) (avResult (svRun w)) pending
                (reconciledStatus pending sc wc session) sc wc"
  have "resultStatus ?r = reconciledStatus pending sc wc session" "sandboxCleanup ?r = sc" "workspaceCleanup ?r = wc"
    by (simp_all add: reconciledResult_def Let_def)
  then show ?thesis using c was unfolding j by (intro exI [of _ ?r]) simp
qed

lemma durable_blocked:
  assumes "assertDurableStatus CleanupBlocked j = Inr ()"
  shows "abandonedResult (sjEvents j) = None"
proof -
  have "\<not> (\<exists>e \<in> set (sjEvents j). case seData e of RunAbandoned _ \<Rightarrow> True | _ \<Rightarrow> False)"
    using assms by (auto simp: assertDurableStatus_def require_def split: if_splits)
  then have "findLast (\<lambda>e. case seData e of RunAbandoned _ \<Rightarrow> True | _ \<Rightarrow> False) (sjEvents j) = None"
    unfolding findLast_None by blast
  then show ?thesis by (simp add: abandonedResult_def)
qed


definition demoBlockedResult :: RunResult where
  "demoBlockedResult = demoFailedResult\<lparr>resultStatus := CleanupBlocked, sandboxCleanup := CleanupUnknown\<rparr>"

lemma demo_reconcile_ok:
  "case fst (reconcile demoServiceHost (demoStopped demoRunPlan demoBlockedResult)) of
     Inr (p, s) \<Rightarrow> p = ProcessNotStarted \<and> s = WsNotNeeded | Inl _ \<Rightarrow> False"
  "avStatus (svRun (demoStopped demoRunPlan demoBlockedResult)) = CleanupBlocked"
  by code_simp+


subsection \<open>Two runs that stay or leave wrongly\<close>

text \<open>
  A run whose session cannot be read is stuck. Once reconciliation has proved both the sandbox and the
  workspace clean but finds a session file it cannot read, or of another session, it builds a
  cleanup-blocked result with proved cleanup, which is not a valid result, and throws; the journal is left
  as it was, so every further reconciliation ends the same way.
\<close>

theorem unreadable_session_is_stuck:
  assumes "avStatus (svRun w) = CleanupBlocked" and "\<not> hasPendingAbandonment (sjEvents (svJournal w))"
    and "observeSessionEvidence h (sjEvents (svJournal w)) (Option.bind (avResult (svRun w)) exSessionFile) = SessionUnknown"
    and "reconcileProcess (shProcess h) (sjEvents (svJournal w)) (svProcs w) = (p, procs)"
    and "p = ProcessAbsent \<or> p = ProcessNotStarted" and "sharesLiveCheckout (avPlan (svRun w))"
  shows "\<exists>e w'. reconcile h w = (Inl e, w') \<and> svJournal w' = svJournal w"
proof (cases "holdRunLease h w")
  case (Pair x w1)
  show ?thesis
  proof (cases x)
    case (Inl e)
    then have "svJournal w1 = svJournal w" using Pair by (auto simp: holdRunLease_def Let_def split: if_splits sum.splits)
    then show ?thesis using Pair Inl assms(1) by (auto simp: reconcile_def Let_def bindS_def)
  next
    case (Inr b)
    note hold = holdRunLease_Inr [OF Pair [unfolded Inr]]
    have procs: "svProcs w1 = svProcs w" using Pair by (auto simp: holdRunLease_def Let_def split: if_splits sum.splits)
    show ?thesis
    proof (cases "assertDurableStatus CleanupBlocked (svJournal w)")
      case (Inl e)
      then show ?thesis using Pair Inr hold assms(1) by (auto simp: reconcile_def Let_def bindS_def readS_def)
    next
      case (Inr u)
      let ?sc = "reconciledSandbox False (avResult (svRun w)) p"
      have sc: "?sc = observedSandbox p" "outcomeProved ?sc"
        using assms(5) by (auto simp: reconciledSandbox_def observedSandbox_def outcomeProved_def split: option.splits)
      let ?r = "reconciledResult (planRunId (avPlan (svRun w))) (avResult (svRun w)) False CleanupBlocked ?sc NotNeeded"
      have "cleanupIsProved ?r" "resultStatus ?r = CleanupBlocked"
        using sc(2) by (simp_all add: reconciledResult_def Let_def cleanupIsProved_iff outcomeProved_def)
      then have bad: "\<not> isRunResult ?r" using proved_blocked_invalid by blast
      have st: "reconciledStatus False ?sc NotNeeded SessionUnknown = CleanupBlocked" by (simp add: reconciledStatus_def)
      have "concludeReconciliation h (avPlan (svRun w)) (avResult (svRun w)) False SessionUnknown ?sc NotNeeded v
          = (Inl (Err ''reconciliation produced invalid result''), v)" for v
        using bad by (simp add: concludeReconciliation_def Let_def st bindS_def readS_def checkS_def)
      then show ?thesis
        using Pair \<open>x = Inr b\<close> Inr hold procs assms
        by (simp add: reconcile_def Let_def bindS_def readS_def onProcs_def reconcileWorkspace_def workspaceOutcomeOf_def)
    qed
  qed
qed

definition demoLostSession :: "(demoGitState, unit) ServiceWorld" where
  "demoLostSession = (demoStopped demoRunPlan demoBlockedResult)\<lparr>svJournal :=
     appended 0 (SessionStarted (Some ''id'') (Some ''file'')) (svJournal (demoStopped demoRunPlan demoBlockedResult))\<rparr>"

lemma demo_lost_session:
  "avStatus (svRun demoLostSession) = CleanupBlocked" "\<not> hasPendingAbandonment (sjEvents (svJournal demoLostSession))"
  "observeSessionEvidence demoServiceHost (sjEvents (svJournal demoLostSession))
     (Option.bind (avResult (svRun demoLostSession)) exSessionFile) = SessionUnknown"
  "reconcileProcess (shProcess demoServiceHost) (sjEvents (svJournal demoLostSession)) (svProcs demoLostSession)
     = (ProcessNotStarted, (), [])"
  "sharesLiveCheckout (avPlan (svRun demoLostSession))"
  by code_simp+

theorem unreadable_session_is_stuck_witness:
  "\<exists>e w'. reconcile demoServiceHost demoLostSession = (Inl e, w') \<and> svJournal w' = svJournal demoLostSession"
  using unreadable_session_is_stuck [OF demo_lost_session(1-4) _ demo_lost_session(5)] by simp

text \<open>Reconciliation lets a run with retained work leave its blocked state, which the reducer does not.\<close>

lemma retained_work_leaves_blocked:
  assumes "outcomeProved sc" and "session \<noteq> SessionUnknown"
  shows "reconciledStatus False sc Retained session \<in> {Interrupted, Failed}"
    and "transitionRunStatus CleanupBlocked (EvCleanupProved t sc Retained) = Inr CleanupBlocked"
  using assms by (auto simp: reconciledStatus_def transitionRunStatus_def cleanupProved_def split: SessionEvidence.splits)

lemma lastSequence_sjSnapshot [simp]: "lastSequence (j\<lparr>sjSnapshot := x\<rparr>) = lastSequence j"
  by (cases "sjEvents j") (simp_all add: lastSequence_def)

lemma concludeRelease_Inr:
  assumes "concludeRelease h run pending w = (Inr s, w')" and "avResult run = Some e"
  shows "svGit w' = svGit w \<and> s = resultStatus (exResult (releasedExecution (releasedResult (avPlan run) pending (exResult e)) e))
    \<and> avResult (svRun w') = Some (releasedExecution (releasedResult (avPlan run) pending (exResult e)) e)
    \<and> sjSnapshot (svJournal w') = Some (lastSequence (svJournal w'), snapshotOf (releasedExecution (releasedResult (avPlan run) pending (exResult e)) e))"
  using assms
  by (auto simp: concludeRelease_def Let_def journalAppend_def journalSnapshot_def settleRun_def durable_def
      bindS_def checkS_def readS_def snapshotted_def split: sum.splits prod.splits if_splits dest!: settleHeldLease_Inr)

text \<open>
  Releasing a read-only run whose snapshot could not be removed claims the removal without making it.
  For a run in a snapshot that is cleanup-blocked with a proved sandbox, a release that returns records
  the workspace as proved clean and the run as failed, while Git, the worktrees and the snapshot records
  are exactly as before.
\<close>

theorem release_claims_snapshot_removed:
  assumes "release h now w = (Inr s, w')" and "avStatus (svRun w) = CleanupBlocked"
    and "workspaceMode (planWorkspace (avPlan (svRun w))) = ReadOnly" and "workspaceStartAt (planWorkspace (avPlan (svRun w))) \<noteq> None"
    and "avResult (svRun w) = Some e" and "resultStatus (exResult e) = CleanupBlocked"
    and "outcomeProved (sandboxCleanup (exResult e))" and "\<not> hasPendingAbandonment (sjEvents (svJournal w))"
  shows "s = Failed \<and> svGit w' = svGit w
    \<and> (\<exists>x. avResult (svRun w') = Some x \<and> workspaceCleanup (exResult x) = Proved \<and> resultStatus (exResult x) = Failed
         \<and> sjSnapshot (svJournal w') = Some (lastSequence (svJournal w'), snapshotOf x))"
proof -
  let ?r = "releasedResult (avPlan (svRun w)) False (exResult e)"
  have r: "workspaceCleanup ?r = Proved" "resultStatus ?r = Failed"
    using assms(3-7) by (simp_all add: releasedResult_def Let_def liveCleanup_def sharesLiveCheckout_def)
  then have x: "releasedExecution ?r e = e\<lparr>exResult := ?r\<rparr>" by (simp add: releasedExecution_def)
  from assms(1,2) obtain b w1 w2 where h1: "holdRunLease h w = (Inr b, w1)"
    and rel: "releaseRunWorktrees h now w1 = (Inr (), w2)"
    and "concludeRelease h (svRun w) (hasPendingAbandonment (sjEvents (svJournal w1))) w2 = (Inr s, w')"
    by (auto simp: release_def Let_def)
  then have fin: "concludeRelease h (svRun w) False w2 = (Inr s, w')" using assms(8) holdRunLease_Inr [OF h1] by simp
  have w2: "w2 = w1" using rel assms(3) holdRunLease_Inr [OF h1] by (simp add: releaseRunWorktrees_def)
  show ?thesis
    using concludeRelease_Inr [OF fin assms(5)] x r w2 holdRunLease_Inr [OF h1] by simp
qed

definition demoSnapshotPlan :: AgentLaunchPlan where
  "demoSnapshotPlan = demoRunPlan\<lparr>planWorkspace := (planWorkspace demoRunPlan)\<lparr>workspaceMode := ReadOnly, workspaceStartAt := Some ''HEAD''\<rparr>\<rparr>"

definition demoKeptSnapshot :: "(demoGitState, unit) ServiceWorld" where
  "demoKeptSnapshot = demoStopped demoSnapshotPlan
     (demoBlockedResult\<lparr>sandboxCleanup := Proved, workspaceCleanup := Blocked\<rparr>)"

lemma demo_kept_snapshot:
  "isOk (fst (release demoServiceHost ''now'' demoKeptSnapshot))"
  "avStatus (svRun demoKeptSnapshot) = CleanupBlocked"
  "workspaceMode (planWorkspace (avPlan (svRun demoKeptSnapshot))) = ReadOnly"
  "workspaceStartAt (planWorkspace (avPlan (svRun demoKeptSnapshot))) = Some ''HEAD''"
  "map_option (\<lambda>e. (resultStatus (exResult e), sandboxCleanup (exResult e))) (avResult (svRun demoKeptSnapshot)) = Some (CleanupBlocked, Proved)"
  "\<not> hasPendingAbandonment (sjEvents (svJournal demoKeptSnapshot))"
  by code_simp+

theorem release_claims_snapshot_removed_witness:
  "\<exists>w'. release demoServiceHost ''now'' demoKeptSnapshot = (Inr Failed, w') \<and> svGit w' = svGit demoKeptSnapshot"
proof -
  obtain s w' where a: "release demoServiceHost ''now'' demoKeptSnapshot = (Inr s, w')"
    using demo_kept_snapshot(1) by (metis isOk_iff prod.collapse)
  obtain e where e: "avResult (svRun demoKeptSnapshot) = Some e" "resultStatus (exResult e) = CleanupBlocked"
    "outcomeProved (sandboxCleanup (exResult e))"
    using demo_kept_snapshot(5) by (auto simp: outcomeProved_def)
  have "workspaceStartAt (planWorkspace (avPlan (svRun demoKeptSnapshot))) \<noteq> None"
    using demo_kept_snapshot(4) by simp
  from release_claims_snapshot_removed [OF a demo_kept_snapshot(2,3) this e demo_kept_snapshot(6)] a show ?thesis by blast
qed

end
