(* ===== verification/Layout.thy ===== *)
theory Layout
  imports Contracts "HOL-Library.List_Lexorder" "HOL-Library.Char_ord"
begin

section \<open>The layout of the store\<close>

text \<open>
  The entries of the store that retention and the revision gate move as wholes or look into, by the
  id that names them. \<open>relativePath\<close> is the path of an entry relative to the root of the store; the
  entries under a run's directories name that directory.
\<close>

datatype StorePath =
    RunDir string
  | RunRecordFile string
  | AttemptRecordsDir string
  | LeaseFile string
  | SessionDir string
  | WorktreeRecordFile string
  | WorktreeDir string
  | SnapshotRecordFile string
  | SnapshotTree string
  | OperationFile string
  | PinFile string
  | JournalFile string
  | RunSnapshotFile string
  | AttemptRecordFile string string     \<comment> \<open>run, attempt\<close>

fun relativePath :: "StorePath \<Rightarrow> string" where
  "relativePath (RunDir r) = ''runs/'' @ r"
| "relativePath (RunRecordFile r) = ''run-records/'' @ r @ ''.json''"
| "relativePath (AttemptRecordsDir r) = ''attempt-records/'' @ r"
| "relativePath (LeaseFile r) = ''leases/'' @ r @ ''.lease.json''"
| "relativePath (SessionDir a) = ''sessions/'' @ a"
| "relativePath (WorktreeRecordFile a) = ''workspace/records/'' @ a @ ''.json''"
| "relativePath (WorktreeDir a) = ''workspace/worktrees/'' @ a"
| "relativePath (SnapshotRecordFile a) = ''workspace/snapshots/records/'' @ a @ ''.json''"
| "relativePath (SnapshotTree a) = ''workspace/snapshots/trees/'' @ a"
| "relativePath (OperationFile k) = ''operations/'' @ k @ ''.json''"
| "relativePath (PinFile k) = ''retention/pins/'' @ k @ ''.json''"
| "relativePath (JournalFile r) = ''runs/'' @ r @ ''/events.jsonl''"
| "relativePath (RunSnapshotFile r) = ''runs/'' @ r @ ''/run.json''"
| "relativePath (AttemptRecordFile r a) = ''attempt-records/'' @ r @ ''/'' @ a @ ''.json''"

text \<open>The directory of the store that contains an entry and moves with it.\<close>

fun container :: "StorePath \<Rightarrow> StorePath option" where
  "container (JournalFile r) = Some (RunDir r)"
| "container (RunSnapshotFile r) = Some (RunDir r)"
| "container (AttemptRecordFile r a) = Some (AttemptRecordsDir r)"
| "container _ = None"

end
