(* ===== verification/Retention.thy ===== *)
theory Retention
  imports Records Layout
begin

section \<open>Retention (\<open>src/persistence/retention.ts\<close>)\<close>

text \<open>
  The sweep that moves finished runs to the trash: which runs are protected, which are selected by
  age and by the byte budget, how a run is moved and how an interrupted move is recovered. An entry
  of the store is the tree of files under its path. Of the run leases (theory \<open>RunLease\<close>) only two
  things matter here: whether another process holds the lease of a run, and that acquiring a lease
  writes its record anew.
\<close>

subsection \<open>Descriptors, pins and sizes\<close>

definition DEFAULT_MAX_AGE_MS :: int where "DEFAULT_MAX_AGE_MS = 30 * (24 * 60 * 60 * 1000)"
definition DEFAULT_MAX_BYTES :: int where "DEFAULT_MAX_BYTES = 2 * 1024 * 1024 * 1024"
definition MAX_PIN_BYTES :: int where "MAX_PIN_BYTES = 16 * 1024"

definition ORDINARY_TERMINAL :: "RunStatus list" where
  "ORDINARY_TERMINAL = [Completed, Failed, Cancelled, Abandoned]"

fun runStatusText :: "RunStatus \<Rightarrow> string" where
  "runStatusText Queued = ''queued''"
| "runStatusText Active = ''active''"
| "runStatusText Stopping = ''stopping''"
| "runStatusText Completed = ''completed''"
| "runStatusText Failed = ''failed''"
| "runStatusText Cancelled = ''cancelled''"
| "runStatusText Abandoned = ''abandoned''"
| "runStatusText Interrupted = ''interrupted''"
| "runStatusText CleanupBlocked = ''cleanup-blocked''"

record RetentionPin =
  pinRunId :: string
  pinOwnerId :: string
  pinReason :: string
  pinCreatedAt :: string

record RetentionRun =
  rtRunId :: string
  rtStatus :: RunStatus
  rtTerminalAt :: "string option"
  rtAttempts :: "string list"
  rtWorktrees :: "string list"
  rtRetained :: bool

datatype fsTree =
    FsFile "int \<times> int" int                  \<comment> \<open>device and inode, size\<close>
  | FsDir "int \<times> int" int "fsTree list"

text \<open>\<open>treeBytes\<close>: a file with several names counts once.\<close>

fun treeBytes :: "fsTree \<Rightarrow> (int \<times> int) list \<Rightarrow> int \<times> (int \<times> int) list"
  and treesBytes :: "fsTree list \<Rightarrow> (int \<times> int) list \<Rightarrow> int \<times> (int \<times> int) list" where
  "treeBytes (FsFile ino n) seen = (if ino \<in> set seen then (0, seen) else (n, ino # seen))"
| "treeBytes (FsDir ino n ts) seen =
     (if ino \<in> set seen then (0, seen)
      else (let (m, seen') = treesBytes ts (ino # seen) in (n + m, seen')))"
| "treesBytes [] seen = (0, seen)"
| "treesBytes (t # ts) seen =
     (let (m, seen') = treeBytes t seen; (m', seen'') = treesBytes ts seen' in (m + m', seen''))"

record HandoffRefTarget =
  hrRunId :: string
  hrRepositoryRoot :: string
  hrRef :: string
  hrCommit :: "string option"

record TrashManifest =
  tmRunId :: string
  tmCommit :: StorePath
  tmPaths :: "StorePath list"
  tmHandoffRefs :: "HandoffRefTarget list"

text \<open>A directory of the trash: its manifest, the entries moved so far, and whether it is complete.\<close>

record TrashEntry =
  teManifest :: "TrashManifest decoded option"
  teMoved :: "StorePath \<Rightarrow> fsTree option"
  teCompleted :: bool

record RetentionWorld =
  rwTree :: "StorePath \<Rightarrow> fsTree option"
  rwOperations :: "(string \<times> OperationRecord storedFile) list"
  rwPins :: "RetentionPin storedFile listing"
  rwTrash :: "TrashEntry listing"

text \<open>
  What other components and processes decide: whether the lease of a run is held elsewhere, what a
  worktree record holds and whether its hand-off ref can be inspected and removed.
\<close>

record RetentionEnv =
  reLeaseHeld :: "string \<Rightarrow> bool"
  reLeaseFile :: "string \<Rightarrow> fsTree"        \<comment> \<open>the record a lease acquisition writes\<close>
  reReadWorktree :: "string \<Rightarrow> (string \<times> HandoffRefTarget) res"
  reInspectRef :: "HandoffRefTarget \<Rightarrow> unit res"
  reRemoveRef :: "HandoffRefTarget \<Rightarrow> unit res"
  reParseDate :: "string \<Rightarrow> int option"
  reLocaleKey :: "string \<Rightarrow> string"

definition pathExists :: "StorePath \<Rightarrow> RetentionWorld \<Rightarrow> bool" where
  "pathExists p w = (rwTree w p \<noteq> None)"

definition acquireForRetention :: "RetentionEnv \<Rightarrow> string \<Rightarrow> RetentionWorld \<Rightarrow> unit res \<times> RetentionWorld" where
  "acquireForRetention env runId w =
     (if reLeaseHeld env runId then (Inl (LeaseUnavailable runId), w)
      else (Inr (), w\<lparr>rwTree := (rwTree w)(LeaseFile runId \<mapsto> reLeaseFile env runId)\<rparr>))"

subsection \<open>Pins\<close>

definition checkPin :: "RetentionPin \<Rightarrow> bool" where
  "checkPin p = (checkRunId (pinRunId p) \<and> checkIdentity (pinOwnerId p)
     \<and> 1 \<le> length (pinReason p) \<and> length (pinReason p) \<le> 512)"

definition readPin :: "RetentionPin storedFile \<Rightarrow> RetentionPin res" where
  "readPin f =
     (if \<not> fileIsFile f \<or> fileSize f > MAX_PIN_BYTES then Inl (Err ''invalid retention pin file'')
      else readDecoded ''invalid retention pin JSON'' ''invalid retention pin schema'' (fileValue f))"

definition listPins :: "string option \<Rightarrow> RetentionWorld \<Rightarrow> RetentionPin list res" where
  "listPins runId w =
     andThen (mapRes (\<lambda>e. readPin (snd e)) (sort_key fst (rwPins w))) (\<lambda>pins.
       Inr (filter (\<lambda>p. runId = None \<or> runId = Some (pinRunId p)) pins))"

text \<open>\<open>key\<close> is the digest of owner and run that names a pin; \<open>bytes\<close> the size of its text.\<close>

definition pinRun ::
  "(string \<Rightarrow> string \<Rightarrow> string) \<Rightarrow> string \<Rightarrow> string \<Rightarrow> string \<Rightarrow> string \<Rightarrow> int \<Rightarrow> RetentionWorld
     \<Rightarrow> RetentionPin res \<times> RetentionWorld" where
  "pinRun key owner runId reason now bytes w =
     (if trim owner = [] \<or> length owner > 256 then (Inl (Err ''invalid retention pin owner''), w)
      else if \<not> checkRunId runId then (Inl (Err ''invalid run ID''), w)
      else if trim reason = [] \<or> length reason > 512 then (Inl (Err ''invalid retention pin reason''), w)
      else if \<not> pathExists (RunRecordFile runId) w then (Inl (Err ''cannot pin a missing run''), w)
      else if bytes > MAX_PIN_BYTES then (Inl (Err ''retention pin exceeds size limit''), w)
      else let pin = \<lparr>pinRunId = runId, pinOwnerId = owner, pinReason = reason, pinCreatedAt = now\<rparr>;
               (created, d) = linkEntry (key owner runId)
                 \<lparr>fileSize = bytes, fileIsFile = True, fileValue = encoded pin\<rparr> (rwPins w)
        in if created then (Inr pin, w\<lparr>rwPins := d\<rparr>)
           else (case readEntry (key owner runId) (map_of d) of
                   Inl e \<Rightarrow> (Inl e, w)
                 | Inr f \<Rightarrow>
                     (case readPin f of
                        Inl e \<Rightarrow> (Inl e, w)
                      | Inr existing \<Rightarrow>
                          if pinOwnerId existing \<noteq> owner \<or> pinRunId existing \<noteq> runId \<or> pinReason existing \<noteq> reason
                          then (Inl (Err ''retention pin conflicts with existing identity''), w)
                          else (Inr existing, w))))"

definition unpinRun ::
  "(string \<Rightarrow> string \<Rightarrow> string) \<Rightarrow> string \<Rightarrow> string \<Rightarrow> RetentionWorld \<Rightarrow> bool res \<times> RetentionWorld" where
  "unpinRun key owner runId w =
     (case map_of (rwPins w) (key owner runId) of
        None \<Rightarrow> (Inr False, w)
      | Some f \<Rightarrow>
          (case readPin f of
             Inl e \<Rightarrow> (Inl e, w)
           | Inr existing \<Rightarrow>
               if pinOwnerId existing \<noteq> owner \<or> pinRunId existing \<noteq> runId
               then (Inl (Err ''retention pin identity mismatch''), w)
               else (Inr True, w\<lparr>rwPins := filter (\<lambda>e. fst e \<noteq> key owner runId) (rwPins w)\<rparr>)))"

subsection \<open>The entries of a run\<close>

definition operationPathsByRun :: "RetentionWorld \<Rightarrow> (string \<times> StorePath) list res" where
  "operationPathsByRun w =
     mapRes (\<lambda>(k, f).
       if \<not> fileIsFile f \<or> fileSize f > MAX_PIN_BYTES then Inl (Err ''invalid operation record during retention'')
       else andThen (readDecoded ''invalid operation record JSON'' ''invalid operation record during retention'' (fileValue f))
              (\<lambda>r. Inr (opRunId r, OperationFile k))) (rwOperations w)"

definition linkedPaths :: "RetentionRun \<Rightarrow> StorePath list \<Rightarrow> RetentionWorld \<Rightarrow> StorePath list" where
  "linkedPaths run operationPaths w =
     filter (\<lambda>p. pathExists p w)
       (unique ([RunDir (rtRunId run), RunRecordFile (rtRunId run), AttemptRecordsDir (rtRunId run), LeaseFile (rtRunId run)]
          @ map SessionDir (rtAttempts run) @ map WorktreeRecordFile (rtWorktrees run) @ operationPaths))"

definition runHandoffRefs :: "RetentionEnv \<Rightarrow> RetentionRun \<Rightarrow> RetentionWorld \<Rightarrow> HandoffRefTarget list res" where
  "runHandoffRefs env run w =
     mapRes (\<lambda>a. andThen (reReadWorktree env a) (\<lambda>(owner, target).
         if owner \<noteq> rtRunId run then Inl (Err ''worktree record run identity mismatch during retention'')
         else Inr target))
       (filter (\<lambda>a. pathExists (WorktreeRecordFile a) w) (rtWorktrees run))"

fun removeHandoffRefs :: "RetentionEnv \<Rightarrow> HandoffRefTarget list \<Rightarrow> unit res" where
  "removeHandoffRefs env [] = Inr ()"
| "removeHandoffRefs env (t # ts) = andThen (reRemoveRef env t) (\<lambda>_. removeHandoffRefs env ts)"

subsection \<open>Moving a run to the trash\<close>

text \<open>
  \<open>moveEntry\<close> is one rename of the loop. The loop of \<open>moveRunToTrash\<close> can be cut short by a crash:
  \<open>movedPrefix n\<close> is the state after its first \<open>n\<close> entries.
\<close>

definition moveEntry :: "StorePath \<Rightarrow> (StorePath \<Rightarrow> fsTree option) \<times> (StorePath \<Rightarrow> fsTree option)
    \<Rightarrow> (StorePath \<Rightarrow> fsTree option) \<times> (StorePath \<Rightarrow> fsTree option)" where
  "moveEntry p s =
     (case fst s p of
        None \<Rightarrow> s
      | Some t \<Rightarrow> ((fst s)(p := None), (snd s)(p \<mapsto> t)))"

definition trashOrder :: "RetentionRun \<Rightarrow> StorePath list \<Rightarrow> StorePath list" where
  "trashOrder run paths =
     filter (\<lambda>p. p \<noteq> RunRecordFile (rtRunId run)) paths @ filter (\<lambda>p. p = RunRecordFile (rtRunId run)) paths"

definition trashManifest :: "RetentionRun \<Rightarrow> StorePath list \<Rightarrow> HandoffRefTarget list \<Rightarrow> TrashManifest" where
  "trashManifest run paths refs =
     \<lparr>tmRunId = rtRunId run, tmCommit = RunRecordFile (rtRunId run), tmPaths = trashOrder run paths, tmHandoffRefs = refs\<rparr>"

definition movedPrefix :: "nat \<Rightarrow> StorePath list \<Rightarrow> (StorePath \<Rightarrow> fsTree option)
    \<Rightarrow> (StorePath \<Rightarrow> fsTree option) \<times> (StorePath \<Rightarrow> fsTree option)" where
  "movedPrefix n paths tree = fold moveEntry (take n paths) (tree, \<lambda>_. None)"

definition moveRunToTrash ::
  "RetentionEnv \<Rightarrow> string \<Rightarrow> RetentionRun \<Rightarrow> StorePath list \<Rightarrow> HandoffRefTarget list \<Rightarrow> RetentionWorld
     \<Rightarrow> unit res \<times> RetentionWorld" where
  "moveRunToTrash env name run paths refs w =
     (let manifest = trashManifest run paths refs;
          started = \<lparr>teManifest = Some (encoded manifest), teMoved = (\<lambda>_. None), teCompleted = False\<rparr> in
      case removeHandoffRefs env refs of
        Inl e \<Rightarrow> (Inl e, w\<lparr>rwTrash := rwTrash w @ [(name, started)]\<rparr>)
      | Inr _ \<Rightarrow>
          (let (tree, moved) = movedPrefix (length (tmPaths manifest)) (tmPaths manifest) (rwTree w)
           in (Inr (), w\<lparr>rwTree := tree,
                rwTrash := rwTrash w @ [(name, started\<lparr>teMoved := moved, teCompleted := True\<rparr>)]\<rparr>)))"

text \<open>The state a crash leaves after the hand-off refs are gone and \<open>n\<close> entries are moved.\<close>

definition crashedMove ::
  "nat \<Rightarrow> string \<Rightarrow> RetentionRun \<Rightarrow> StorePath list \<Rightarrow> HandoffRefTarget list \<Rightarrow> RetentionWorld \<Rightarrow> RetentionWorld" where
  "crashedMove n name run paths refs w =
     (let (tree, moved) = movedPrefix n (trashOrder run paths) (rwTree w)
      in w\<lparr>rwTree := tree, rwTrash := rwTrash w @ [(name, \<lparr>teManifest = Some (encoded (trashManifest run paths refs)),
           teMoved = moved, teCompleted = False\<rparr>)]\<rparr>)"

subsection \<open>Recovery of interrupted moves\<close>

definition checkTrashManifest :: "TrashManifest \<Rightarrow> bool" where
  "checkTrashManifest m =
     (checkRunId (tmRunId m) \<and> length (tmPaths m) \<le> 128 \<and> length (tmHandoffRefs m) \<le> 32
      \<and> list_all (\<lambda>t. hrRunId t = tmRunId m) (tmHandoffRefs m))"

definition recoveryOrder :: "TrashManifest \<Rightarrow> StorePath list" where
  "recoveryOrder m =
     filter (\<lambda>p. p \<noteq> LeaseFile (tmRunId m) \<and> p \<noteq> tmCommit m) (tmPaths m)
     @ filter (\<lambda>p. p = LeaseFile (tmRunId m)) (tmPaths m)
     @ filter (\<lambda>p. p = tmCommit m) (tmPaths m)"

text \<open>One entry of the loop; the lease is current while its record is in the store.\<close>

definition recoverEntry :: "TrashManifest \<Rightarrow> StorePath \<Rightarrow> (StorePath \<Rightarrow> fsTree option) \<times> (StorePath \<Rightarrow> fsTree option)
    \<Rightarrow> ((StorePath \<Rightarrow> fsTree option) \<times> (StorePath \<Rightarrow> fsTree option)) res" where
  "recoverEntry m p s =
     (case (fst s p, snd s p) of
        (Some _, Some _) \<Rightarrow> Inl (Err ''retention trash recovery found duplicate state'')
      | (None, None) \<Rightarrow> Inl (Err ''retention trash recovery found missing state'')
      | (None, Some _) \<Rightarrow> Inr s
      | (Some _, None) \<Rightarrow>
          if p \<noteq> tmCommit m \<and> fst s (LeaseFile (tmRunId m)) = None then Inl (LeaseFenced (tmRunId m))
          else Inr (moveEntry p s))"

definition setTrash :: "string \<Rightarrow> TrashEntry \<Rightarrow> RetentionWorld \<Rightarrow> RetentionWorld" where
  "setTrash name t w = w\<lparr>rwTrash := map (\<lambda>e. if fst e = name then (name, t) else e) (rwTrash w)\<rparr>"

text \<open>
  One intent of the trash. A failing loop leaves what it moved before it failed; since the failure
  stops the sweep, only the entries moved so far matter, and these are those of the successful
  prefix of the loop.
\<close>

fun recoverEntries :: "TrashManifest \<Rightarrow> StorePath list \<Rightarrow> (StorePath \<Rightarrow> fsTree option) \<times> (StorePath \<Rightarrow> fsTree option)
    \<Rightarrow> unit res \<times> (StorePath \<Rightarrow> fsTree option) \<times> (StorePath \<Rightarrow> fsTree option)" where
  "recoverEntries m [] s = (Inr (), s)"
| "recoverEntries m (p # ps) s =
     (case recoverEntry m p s of
        Inl e \<Rightarrow> (Inl e, s)
      | Inr s' \<Rightarrow> recoverEntries m ps s')"

definition recoverIntent :: "RetentionEnv \<Rightarrow> string \<Rightarrow> RetentionWorld \<Rightarrow> string option res \<times> RetentionWorld" where
  "recoverIntent env name w =
     (case map_of (rwTrash w) name of
        None \<Rightarrow> (Inr None, w)
      | Some t \<Rightarrow>
          (case teManifest t of
             None \<Rightarrow> (Inr None, w)
           | Some text \<Rightarrow>
               if teCompleted t then (Inr None, w)
               else (case readDecoded ''invalid retention trash manifest JSON'' ''invalid retention trash manifest'' text of
                  Inl e \<Rightarrow> (Inl e, w)
                | Inr m \<Rightarrow>
                    if \<not> checkTrashManifest m then (Inl (Err ''invalid retention trash manifest''), w)
                    else (case acquireForRetention env (tmRunId m) w of
                       (Inl _, w) \<Rightarrow> (Inr None, w)     \<comment> \<open>the lease is held: the intent is left for later\<close>
                     | (Inr _, w) \<Rightarrow>
                         (case removeHandoffRefs env (tmHandoffRefs m) of
                            Inl e \<Rightarrow> (Inl e, w)
                          | Inr _ \<Rightarrow>
                              (case recoverEntries m (recoveryOrder m) (rwTree w, teMoved t) of
                                 (Inl e, tree, moved) \<Rightarrow>
                                   (Inl e, setTrash name (t\<lparr>teMoved := moved\<rparr>) (w\<lparr>rwTree := tree\<rparr>))
                               | (Inr _, tree, moved) \<Rightarrow>
                                   (Inr (Some (tmRunId m)),
                                    setTrash name (t\<lparr>teMoved := moved, teCompleted := True\<rparr>) (w\<lparr>rwTree := tree\<rparr>))))))))"

fun recoverNames :: "RetentionEnv \<Rightarrow> string list \<Rightarrow> RetentionWorld \<Rightarrow> string list res \<times> RetentionWorld" where
  "recoverNames env [] w = (Inr [], w)"
| "recoverNames env (n # ns) w =
     (case recoverIntent env n w of
        (Inl e, w) \<Rightarrow> (Inl e, w)
      | (Inr r, w) \<Rightarrow>
          (case recoverNames env ns w of
             (Inl e, w) \<Rightarrow> (Inl e, w)
           | (Inr rs, w) \<Rightarrow> (Inr ((case r of None \<Rightarrow> [] | Some x \<Rightarrow> [x]) @ rs), w)))"

definition recoverTrashIntents :: "RetentionEnv \<Rightarrow> RetentionWorld \<Rightarrow> string list res \<times> RetentionWorld" where
  "recoverTrashIntents env w = recoverNames env (sort (map fst (rwTrash w))) w"

subsection \<open>What a move leaves\<close>

lemma moveEntry_cases:
  "fst s p = None \<Longrightarrow> moveEntry p s = s"
  "fst s p = Some t \<Longrightarrow> moveEntry p s = ((fst s)(p := None), (snd s)(p \<mapsto> t))"
  by (simp_all add: moveEntry_def)

lemma fold_moveEntry:
  "fold moveEntry ps (t, m) =
     ((\<lambda>p. if p \<in> set ps then None else t p), (\<lambda>p. if p \<in> set ps \<and> t p \<noteq> None then t p else m p))"
proof (induction ps arbitrary: t m)
  case Nil
  then show ?case by simp
next
  case (Cons p ps)
  show ?case
  proof (cases "t p")
    case None
    then show ?thesis by (auto simp: moveEntry_cases Cons.IH intro!: ext)
  next
    case (Some x)
    then show ?thesis by (auto simp: moveEntry_cases Cons.IH intro!: ext)
  qed
qed

lemma movedPrefix_eq:
  "movedPrefix n ps tree = ((\<lambda>p. if p \<in> set (take n ps) then None else tree p), (\<lambda>p. if p \<in> set (take n ps) then tree p else None))"
  by (auto simp: movedPrefix_def fold_moveEntry intro!: ext)

lemma filter_eq_member: "distinct xs \<Longrightarrow> x \<in> set xs \<Longrightarrow> filter (\<lambda>p. p = x) xs = [x]"
  by (induction xs) (auto simp: filter_empty_conv)

lemma trashOrder_set [simp]: "set (trashOrder run paths) = set paths"
  by (auto simp: trashOrder_def)

lemma trashOrder_distinct: "distinct paths \<Longrightarrow> distinct (trashOrder run paths)"
  by (auto simp: trashOrder_def)

text \<open>The loop of recovery over entries that are each in exactly one place.\<close>

lemma recoverEntries_append:
  "recoverEntries m (ps @ qs) s =
     (case recoverEntries m ps s of (Inl e, s') \<Rightarrow> (Inl e, s') | (Inr _, s') \<Rightarrow> recoverEntries m qs s')"
  by (induction ps arbitrary: s) (auto split: sum.split prod.split)

lemma recoverEntries_ok:
  assumes "distinct ps" and "\<forall>p \<in> set ps. (fst s p = None) \<noteq> (snd s p = None)"
    and "LeaseFile (tmRunId m) \<notin> set ps" and "fst s (LeaseFile (tmRunId m)) \<noteq> None"
  shows "recoverEntries m ps s = (Inr (), fold moveEntry ps s)"
  using assms
proof (induction ps arbitrary: s)
  case Nil
  then show ?case by simp
next
  case (Cons p ps)
  have "recoverEntry m p s = Inr (moveEntry p s)"
    using Cons.prems by (auto simp: recoverEntry_def moveEntry_cases split: option.splits)
  moreover have "recoverEntries m ps (moveEntry p s) = (Inr (), fold moveEntry ps (moveEntry p s))"
    using Cons.prems by (intro Cons.IH; cases "fst s p") (auto simp: moveEntry_cases)
  ultimately show ?case by simp
qed

text \<open>
  The state in which recovery finds an interrupted move: the run's entries, all present before the
  move, are split between the store and the trash, and acquiring the lease has put a lease record
  back into the store.
\<close>

definition splitState :: "RetentionEnv \<Rightarrow> nat \<Rightarrow> RetentionRun \<Rightarrow> StorePath list \<Rightarrow> (StorePath \<Rightarrow> fsTree option)
    \<Rightarrow> (StorePath \<Rightarrow> fsTree option) \<times> (StorePath \<Rightarrow> fsTree option)" where
  "splitState env n run paths tree =
     ((fst (movedPrefix n (trashOrder run paths) tree))
        (LeaseFile (rtRunId run) \<mapsto> reLeaseFile env (rtRunId run)),
      snd (movedPrefix n (trashOrder run paths) tree))"

lemma recoverIntent_crashed:
  assumes "map_of (rwTrash w) name = None" and "\<not> reLeaseHeld env (rtRunId run)"
    and "checkTrashManifest (trashManifest run paths refs)" and "removeHandoffRefs env refs = Inr ()"
  shows "recoverIntent env name (crashedMove n name run paths refs w) =
     (let m = trashManifest run paths refs; w1 = crashedMove n name run paths refs w;
          s = splitState env n run paths (rwTree w);
          t = \<lparr>teManifest = Some (encoded m), teMoved = snd s, teCompleted = False\<rparr> in
      case recoverEntries m (recoveryOrder m) s of
        (Inl e, tree, moved) \<Rightarrow> (Inl e, setTrash name (t\<lparr>teMoved := moved\<rparr>) (w1\<lparr>rwTree := tree\<rparr>))
      | (Inr _, tree, moved) \<Rightarrow>
          (Inr (Some (rtRunId run)), setTrash name (t\<lparr>teMoved := moved, teCompleted := True\<rparr>) (w1\<lparr>rwTree := tree\<rparr>)))"
proof -
  obtain tree moved where mp: "movedPrefix n (trashOrder run paths) (rwTree w) = (tree, moved)" by fastforce
  have look: "map_of (rwTrash (crashedMove n name run paths refs w)) name
      = Some \<lparr>teManifest = Some (encoded (trashManifest run paths refs)), teMoved = moved, teCompleted = False\<rparr>"
    using assms(1) by (simp add: crashedMove_def mp map_add_def)
  show ?thesis
    using assms(2-4) mp
    by (simp add: recoverIntent_def look acquireForRetention_def splitState_def Let_def)
      (simp add: crashedMove_def trashManifest_def setTrash_def split: prod.split sum.split)
qed

lemma recoveryOrder_eq:
  assumes "distinct paths" "LeaseFile (rtRunId run) \<in> set paths" "RunRecordFile (rtRunId run) \<in> set paths"
  shows "recoveryOrder (trashManifest run paths refs) =
     filter (\<lambda>p. p \<noteq> LeaseFile (rtRunId run) \<and> p \<noteq> RunRecordFile (rtRunId run)) (trashOrder run paths)
     @ [LeaseFile (rtRunId run), RunRecordFile (rtRunId run)]"
  using assms trashOrder_distinct [OF assms(1)]
  by (simp add: recoveryOrder_def trashManifest_def filter_eq_member)

lemma split_one_place:
  assumes "\<forall>p \<in> set paths. tree p \<noteq> None" "p \<in> set paths" "p \<noteq> LeaseFile (rtRunId run)"
  shows "(fst (splitState env n run paths tree) p = None) \<noteq> (snd (splitState env n run paths tree) p = None)"
  using assms by (auto simp: splitState_def movedPrefix_eq)

lemma recover_prefix:
  fixes run :: RetentionRun
  assumes "distinct paths" and "\<forall>p \<in> set paths. tree p \<noteq> None"
  defines "others \<equiv> filter (\<lambda>p. p \<noteq> LeaseFile (rtRunId run) \<and> p \<noteq> RunRecordFile (rtRunId run)) (trashOrder run paths)"
  shows "recoverEntries (trashManifest run paths refs) others (splitState env n run paths tree)
    = (Inr (), fold moveEntry others (splitState env n run paths tree))"
proof (rule recoverEntries_ok)
  show "distinct others" using trashOrder_distinct [OF assms(1)] by (simp add: others_def)
  show "\<forall>p \<in> set others. (fst (splitState env n run paths tree) p = None) \<noteq> (snd (splitState env n run paths tree) p = None)"
    using split_one_place [OF assms(2)] by (simp add: others_def)
qed (auto simp: others_def trashManifest_def splitState_def)

lemma setTrash_lookup:
  "map_of (rwTrash w) name \<noteq> None \<Longrightarrow> map_of (rwTrash (setTrash name t w)) name = Some t"
proof -
  have "map_of (map (\<lambda>e. if fst e = name then (name, t) else e) d) name = map_option (\<lambda>_. t) (map_of d name)" for d
    by (induction d) auto
  then show "map_of (rwTrash w) name \<noteq> None \<Longrightarrow> map_of (rwTrash (setTrash name t w)) name = Some t"
    by (auto simp: setTrash_def)
qed

lemma crashedMove_lookup: "map_of (rwTrash (crashedMove n name run paths refs w)) name \<noteq> None"
  by (auto simp: crashedMove_def map_add_def split: prod.split option.split)


text \<open>
  A move interrupted later is never completed. When the crash comes after the run's lease record
  was moved, even when every entry is moved and only the completion mark is missing, recovery writes
  a new lease record, finds it both in the store and in the trash and fails; the intent stays as it
  is, so every later recovery fails in the same way and with it every sweep that is not a dry run.
\<close>

theorem interrupted_move_stays_stuck:
  assumes "w1 = crashedMove n name run paths refs w"
    and "distinct paths" and "\<forall>p \<in> set paths. rwTree w p \<noteq> None"
    and "LeaseFile (rtRunId run) \<in> set paths" and "RunRecordFile (rtRunId run) \<in> set paths"
    and "LeaseFile (rtRunId run) \<in> set (take n (trashOrder run paths))"
    and "map_of (rwTrash w) name = None" and "\<not> reLeaseHeld env (rtRunId run)"
    and "checkTrashManifest (trashManifest run paths refs)" and "removeHandoffRefs env refs = Inr ()"
    and "recoverIntent env name w1 = (r, w2)"
  shows "r = Inl (Err ''retention trash recovery found duplicate state'')
    \<and> fst (recoverIntent env name w2) = Inl (Err ''retention trash recovery found duplicate state'')"
proof -
  let ?m = "trashManifest run paths refs" and ?s = "splitState env n run paths (rwTree w)"
  let ?L = "LeaseFile (rtRunId run)" and ?R = "RunRecordFile (rtRunId run)"
  let ?dup = "Inl (Err ''retention trash recovery found duplicate state'') :: unit res"
  define others where "others = filter (\<lambda>p. p \<noteq> ?L \<and> p \<noteq> ?R) (trashOrder run paths)"
  have o: "set others = set paths - {?L, ?R}" "distinct others"
    using trashOrder_distinct [OF assms(2)] by (auto simp: others_def)
  have stuck: "recoverEntries ?m (others @ [?L, ?R]) s = (?dup, fold moveEntry others s)"
    if "\<forall>p \<in> set others. (fst s p = None) \<noteq> (snd s p = None)" "fst s ?L \<noteq> None" "snd s ?L \<noteq> None" for s
  proof -
    have "recoverEntries ?m others s = (Inr (), fold moveEntry others s)"
      using that o by (intro recoverEntries_ok) (auto simp: trashManifest_def)
    moreover have "fst (fold moveEntry others s) ?L = fst s ?L" "snd (fold moveEntry others s) ?L = snd s ?L"
      using fold_moveEntry [of others "fst s" "snd s"] o(1) by simp_all
    then have "recoverEntry ?m ?L (fold moveEntry others s)
        = Inl (Err ''retention trash recovery found duplicate state'')"
      using that(2,3) by (simp only: recoverEntry_def) (auto split: option.split)
    ultimately show ?thesis by (simp add: recoverEntries_append)
  qed
  have order: "recoveryOrder ?m = others @ [?L, ?R]"
    using recoveryOrder_eq [OF assms(2,4,5)] by (simp add: others_def)
  have L: "fst ?s ?L \<noteq> None" "snd ?s ?L \<noteq> None"
    using assms(3,4,6) by (auto simp: splitState_def movedPrefix_eq)
  have one: "\<forall>p \<in> set others. (fst ?s p = None) \<noteq> (snd ?s p = None)"
    using split_one_place [OF assms(3)] o by auto
  obtain tree moved where tm: "fold moveEntry others ?s = (tree, moved)" by fastforce
  let ?t = "\<lparr>teManifest = Some (encoded ?m), teMoved = moved, teCompleted = False\<rparr>"
  have w2: "r = Inl (Err ''retention trash recovery found duplicate state'')"
    "w2 = setTrash name ?t (w1\<lparr>rwTree := tree\<rparr>)"
    using assms(11) stuck [OF one L] tm unfolding assms(1) recoverIntent_crashed [OF assms(7-10)]
    by (simp_all add: Let_def order)
  have t: "map_of (rwTrash w2) name = Some ?t"
    unfolding w2(2) by (rule setTrash_lookup) (use crashedMove_lookup in \<open>simp add: assms(1)\<close>)
  have tree: "tree = (\<lambda>p. if p \<in> set others then None else fst ?s p)"
     "moved = (\<lambda>p. if p \<in> set others \<and> fst ?s p \<noteq> None then fst ?s p else snd ?s p)"
    using fold_moveEntry [of others "fst ?s" "snd ?s"] tm by auto
  have mf: "tmRunId ?m = rtRunId run" "tmHandoffRefs ?m = refs" "rwTree w2 = tree"
    by (simp_all add: trashManifest_def w2(2) setTrash_def)
  let ?s' = "(tree(?L \<mapsto> reLeaseFile env (rtRunId run)), moved)"
  have "recoverEntries ?m (others @ [?L, ?R]) ?s' = (?dup, fold moveEntry others ?s')"
    using one L o by (intro stuck) (auto simp: tree)
  then have "fst (recoverIntent env name w2) = Inl (Err ''retention trash recovery found duplicate state'')"
    using t assms(8-10) mf by (simp add: recoverIntent_def acquireForRetention_def order split: prod.split)
  then show ?thesis using w2(1) by blast
qed

definition demoRetentionRun :: RetentionRun where
  "demoRetentionRun = \<lparr>rtRunId = ''run_1'', rtStatus = Completed, rtTerminalAt = Some ''t'', rtAttempts = [],
     rtWorktrees = [], rtRetained = False\<rparr>"

definition demoRetentionPaths :: "StorePath list" where
  "demoRetentionPaths = [RunDir ''run_1'', RunRecordFile ''run_1'', LeaseFile ''run_1'']"

definition demoRetentionWorld :: RetentionWorld where
  "demoRetentionWorld = \<lparr>rwTree = (\<lambda>p. if p \<in> set demoRetentionPaths then Some (FsFile (1, 2) 10) else None),
     rwOperations = [], rwPins = [], rwTrash = []\<rparr>"

definition demoRetentionEnv :: RetentionEnv where
  "demoRetentionEnv = \<lparr>reLeaseHeld = (\<lambda>_. False), reLeaseFile = (\<lambda>_. FsFile (1, 3) 200), reReadWorktree = (\<lambda>_. Inl Enoent),
     reInspectRef = (\<lambda>_. Inr ()), reRemoveRef = (\<lambda>_. Inr ()), reParseDate = (\<lambda>_. Some 0), reLocaleKey = (\<lambda>s. s)\<rparr>"

lemma demo_retention:
  "distinct demoRetentionPaths" "\<forall>p \<in> set demoRetentionPaths. rwTree demoRetentionWorld p \<noteq> None"
  "LeaseFile (rtRunId demoRetentionRun) \<in> set demoRetentionPaths"
  "RunRecordFile (rtRunId demoRetentionRun) \<in> set demoRetentionPaths"
  "map_of (rwTrash demoRetentionWorld) name = None" "\<not> reLeaseHeld demoRetentionEnv (rtRunId demoRetentionRun)"
  "checkTrashManifest (trashManifest demoRetentionRun demoRetentionPaths [])"
  "removeHandoffRefs demoRetentionEnv [] = Inr ()"
  "take 1 (trashOrder demoRetentionRun demoRetentionPaths) = [RunDir ''run_1'']"
  "take 2 (trashOrder demoRetentionRun demoRetentionPaths) = [RunDir ''run_1'', LeaseFile ''run_1'']"
  by (simp_all add: demoRetentionPaths_def demoRetentionWorld_def demoRetentionRun_def demoRetentionEnv_def
      checkTrashManifest_def trashManifest_def trashOrder_def checkRunId_def startsWith_def lowerAlnum_def
      is_digit_def numeral_2_eq_2)


theorem interrupted_move_stays_stuck_witness:
  "fst (recoverIntent demoRetentionEnv ''t'' (crashedMove 2 ''t'' demoRetentionRun demoRetentionPaths [] demoRetentionWorld))
     = Inl (Err ''retention trash recovery found duplicate state'')"
proof -
  obtain r w2 where r: "recoverIntent demoRetentionEnv ''t''
      (crashedMove 2 ''t'' demoRetentionRun demoRetentionPaths [] demoRetentionWorld) = (r, w2)" by fastforce
  have "LeaseFile (rtRunId demoRetentionRun) \<in> set (take 2 (trashOrder demoRetentionRun demoRetentionPaths))"
    unfolding demo_retention(10) by (simp add: demoRetentionRun_def)
  from interrupted_move_stays_stuck [OF refl demo_retention(1-4) this demo_retention(5-8) r] show ?thesis
    unfolding r by simp
qed

end
