(* ===== verification/ServiceQueries.thy ===== *)
theory ServiceQueries
  imports ServiceRuns Retention
begin

section \<open>Summaries, logs and lists of runs (\<open>src/service.ts\<close>)\<close>

text \<open>
  What the service tells about its runs without changing them. Pages of logs and of runs are cut at
  decimal cursors. The summary of a run says which operations are open to it; the facts it is built from
  are those the operations check again.
\<close>

subsection \<open>Cursors and pages\<close>

text \<open>
  \<open>Number(cursor)\<close> is compared with the cursor's own text, so only the plain decimal notation of a safe
  integer passes.
\<close>

definition parseCursor :: "string \<Rightarrow> nat option" where
  "parseCursor s = (let n = readNat s in if int n \<le> MAX_SAFE_INTEGER \<and> showNat n = s then Some n else None)"

record 'a Page =
  pgItems :: "'a list"
  pgNextCursor :: "string option"
  pgTotal :: nat

definition pageAt :: "'a list \<Rightarrow> nat \<Rightarrow> nat \<Rightarrow> 'a Page" where
  "pageAt xs offset limit =
     (let page = take limit (drop offset xs); next = offset + length page in
      \<lparr>pgItems = page, pgNextCursor = (if next < length xs then Some (showNat next) else None), pgTotal = length xs\<rparr>)"

record LogOptions =
  loCursor :: "string option"
  loLimit :: "int option"
  loTail :: "int option"

definition logLimit :: "LogOptions \<Rightarrow> int" where
  "logLimit opts = (case loLimit opts of Some n \<Rightarrow> n | None \<Rightarrow> (case loTail opts of Some n \<Rightarrow> n | None \<Rightarrow> 100))"

definition logOffset :: "LogOptions \<Rightarrow> nat \<Rightarrow> nat res" where
  "logOffset opts n_events =
     (case loTail opts of
        Some n \<Rightarrow> if n < 1 \<or> n > 500 then Inl (Err ''log tail must be an integer from 1 to 500'')
                  else Inr (nat (max 0 (int n_events - n)))
      | None \<Rightarrow>
          (case loCursor opts of
             None \<Rightarrow> Inr 0
           | Some c \<Rightarrow> (case parseCursor c of None \<Rightarrow> Inl (Err ''invalid log cursor'') | Some n \<Rightarrow> Inr n)))"

definition readLogs :: "ServiceEvent list \<Rightarrow> LogOptions \<Rightarrow> ServiceEvent Page res" where
  "readLogs es opts =
     (if loCursor opts \<noteq> None \<and> loTail opts \<noteq> None
      then Inl (Err ''log cursor and tail are mutually exclusive'')
      else if logLimit opts < 1 \<or> logLimit opts > 500
      then Inl (Err ''log limit must be an integer from 1 to 500'')
      else andThen (logOffset opts (length es)) (\<lambda>offset. Inr (pageAt es offset (nat (logLimit opts)))))"

subsection \<open>The summary of a run\<close>

record RunSummary =
  smRunId :: string
  smAttemptId :: string
  smOwnerId :: string
  smAgentName :: string
  smAgentDisplayName :: string
  smGoalPreview :: string
  smStatus :: RunStatus
  smRepositoryRoot :: string
  smWorkspaceMode :: WorkspaceMode
  smCreatedAt :: int
  smUpdatedAt :: int
  smUsage :: "Usage option"
  smPinned :: bool
  smControllable :: bool
  smRetryable :: bool
  smRetryAt :: "int option"
  smResumable :: bool
  smRetainedWorktree :: bool
  smRequiresAttention :: bool
  smAvailableActions :: "RunAction list"

fun collapseSpaces :: "string \<Rightarrow> string" where
  "collapseSpaces [] = []"
| "collapseSpaces (c # s) =
     (if is_space c then CHR '' '' # collapseSpaces (dropWhile is_space s) else c # collapseSpaces s)"

definition latestTerminal :: "ServiceEvent list \<Rightarrow> ServiceEvent option" where
  "latestTerminal es = findLast (\<lambda>e. seData e = AttemptFailed) es"

text \<open>What the run has left: runtime, tokens and cost.\<close>

definition budgetLeft :: "ActiveRun \<Rightarrow> bool" where
  "budgetLeft run =
     (let l = planLimits (avPlan run); r = map_option exResult (avResult run);
          runtime = cumulativeRuntimeMs l - (case r of None \<Rightarrow> 0 | Some r \<Rightarrow> runtimeMs r);
          tokens = (case r of None \<Rightarrow> limitTotalTokens l | Some r \<Rightarrow> remainingTotalTokens (limitTotalTokens l) (usage r));
          cost = limitCost l - (case r of None \<Rightarrow> 0 | Some r \<Rightarrow> usageCost (usage r))
      in runtime \<ge> 1000 \<and> (case tokens of None \<Rightarrow> True | Some n \<Rightarrow> n \<ge> 1) \<and> cost > 0)"

definition handoffCommitOf :: "ActiveRun \<Rightarrow> string option" where
  "handoffCommitOf run = Option.bind (Option.bind (avResult run) exHandoff) wtHandoffCommit"

definition retryKindOf :: "ActiveRun \<Rightarrow> RetryClass option" where
  "retryKindOf run = map_option failureRetry (Option.bind (avResult run) (\<lambda>e. failure (exResult e)))"

definition isRetryable :: "ActiveRun \<Rightarrow> bool" where
  "isRetryable run =
     (avStatus run = Failed \<and> avResult run \<noteq> None
      \<and> (retryKindOf run = Some RetryManual \<or> retryKindOf run = Some RetryBackoff)
      \<and> handoffCommitOf run = None \<and> retries (planLimits (avPlan run)) > 0 \<and> budgetLeft run)"

definition isResumable :: "ActiveRun \<Rightarrow> bool" where
  "isResumable run =
     (avStatus run = Interrupted \<and> Option.bind (avResult run) exSessionFile \<noteq> None
      \<and> retryKindOf run = Some RetryResume \<and> resumes (planLimits (avPlan run)) > 0 \<and> budgetLeft run)"

definition retryAtOf :: "ActiveRun \<Rightarrow> AttemptRecord list \<Rightarrow> ServiceEvent list \<Rightarrow> int option" where
  "retryAtOf run attempts es =
     (let ordinal = (case lastOpt attempts of None \<Rightarrow> 0 | Some a \<Rightarrow> arOrdinal a);
          delay = retryDelayMs (Option.bind (avResult run) (\<lambda>e. failure (exResult e))) (nat ordinal)
      in if delay > 0 then map_option (\<lambda>e. seTime e + delay) (latestTerminal es) else None)"

definition isAbandonable :: "ActiveRun \<Rightarrow> bool \<Rightarrow> bool" where
  "isAbandonable run canRelease =
     (avStatus run = Interrupted
      \<and> (case avResult run of None \<Rightarrow> False | Some e \<Rightarrow> outcomeProved (sandboxCleanup (exResult e))) \<and> canRelease)"

text \<open>A run the service knows: in memory, its journal, its attempts as they are listed.\<close>

record RunEntry =
  qeRun :: ActiveRun
  qeJournal :: ServiceJournal
  qeAttempts :: "AttemptRecord list res"

definition summarizeRun ::
  "('g, 'p) ServiceHost \<Rightarrow> 'g WtWorld \<Rightarrow> string list \<Rightarrow> RunEntry \<Rightarrow> RunSummary res" where
  "summarizeRun h g pinnedRuns q =
     (let run = qeRun q; plan = avPlan run; es = sjEvents (qeJournal q) in
      andThen (qeAttempts q) (\<lambda>attempts.
      andThen (retainedWorktree h g attempts) (\<lambda>retained.
        let pinned = planRunId plan \<in> set pinnedRuns;
            controllable = (avStatus run = Active \<and> avControl run);
            retryAt = retryAtOf run attempts es;
            canRelease = canReleaseRunWorktrees h g plan attempts
        in Inr \<lparr>smRunId = planRunId plan,
             smAttemptId = (case lastOpt attempts of None \<Rightarrow> planAttemptId plan | Some a \<Rightarrow> arAttemptId a),
             smOwnerId = avOwnerId run, smAgentName = planAgent plan, smAgentDisplayName = planAgentDisplayName plan,
             smGoalPreview = take 240 (collapseSpaces (goal (planTask plan))),
             smStatus = avStatus run, smRepositoryRoot = rwRepositoryRoot (avWorkspace run),
             smWorkspaceMode = workspaceMode (planWorkspace plan), smCreatedAt = avCreatedAt run,
             smUpdatedAt = (case lastOpt es of None \<Rightarrow> avCreatedAt run | Some e \<Rightarrow> seTime e),
             smUsage = map_option (\<lambda>e. usage (exResult e)) (avResult run),
             smPinned = pinned, smControllable = controllable, smRetryable = isRetryable run, smRetryAt = retryAt,
             smResumable = isResumable run, smRetainedWorktree = retained,
             smRequiresAttention = (avStatus run \<in> set [Active, Stopping, Interrupted, CleanupBlocked]),
             smAvailableActions = availableRunActions
               \<lparr>raStatus = avStatus run, raPinned = pinned, raControllable = controllable, raRetryable = isRetryable run,
                raRetryAvailable = (isRetryable run \<and> (case retryAt of None \<Rightarrow> True | Some t \<Rightarrow> t \<le> shNow h)),
                raResumable = isResumable run, raAbandonable = isAbandonable run canRelease,
                raRetainedWorktree = retained, raWorkspaceReleasable = canRelease,
                raHasOutput = (Option.bind (avResult run) (\<lambda>e. resultOutput (exResult e)) \<noteq> None),
                raHasHandoff = (handoffCommitOf run \<noteq> None)\<rparr>\<rparr>)))"

subsection \<open>Lists of runs\<close>

record RunQuery =
  rqRepositoryRoot :: "string option"
  rqOwnerId :: "string option"
  rqStatuses :: "RunStatus list option"
  rqSearch :: "string option"
  rqLimit :: "int option"
  rqCursor :: "string option"

text \<open>\<open>qtLower\<close> is \<open>toLowerCase\<close> on all of Unicode, \<open>qtLocaleKey\<close> orders as \<open>localeCompare\<close> does.\<close>

record QueryText =
  qtLower :: "string \<Rightarrow> string"
  qtLocaleKey :: "string \<Rightarrow> string"

definition runPriority :: "RunStatus \<Rightarrow> nat" where
  "runPriority s = (case s of Active \<Rightarrow> 0 | Stopping \<Rightarrow> 1 | CleanupBlocked \<Rightarrow> 2 | Interrupted \<Rightarrow> 3 | Failed \<Rightarrow> 4
     | Cancelled \<Rightarrow> 5 | Abandoned \<Rightarrow> 6 | Completed \<Rightarrow> 7 | Queued \<Rightarrow> 8)"

text \<open>Stable sorts by the less important keys first give the order by all three.\<close>

definition orderRuns :: "(string \<Rightarrow> string) \<Rightarrow> RunSummary list \<Rightarrow> RunSummary list" where
  "orderRuns localeKey rs =
     sort_key (\<lambda>s. runPriority (smStatus s)) (sort_key (\<lambda>s. - smUpdatedAt s) (sort_key (\<lambda>s. localeKey (smRunId s)) rs))"

definition runMatches :: "RunQuery \<Rightarrow> RunEntry \<Rightarrow> bool" where
  "runMatches q e =
     ((case rqRepositoryRoot q of None \<Rightarrow> True | Some r \<Rightarrow> rwRepositoryRoot (avWorkspace (qeRun e)) = r)
      \<and> (case rqOwnerId q of None \<Rightarrow> True | Some r \<Rightarrow> avOwnerId (qeRun e) = r)
      \<and> (case rqStatuses q of None \<Rightarrow> True | Some ss \<Rightarrow> avStatus (qeRun e) \<in> set ss))"

fun statusText :: "RunStatus \<Rightarrow> string" where
  "statusText Queued = ''queued''"
| "statusText Active = ''active''"
| "statusText Stopping = ''stopping''"
| "statusText Completed = ''completed''"
| "statusText Failed = ''failed''"
| "statusText Cancelled = ''cancelled''"
| "statusText Abandoned = ''abandoned''"
| "statusText Interrupted = ''interrupted''"
| "statusText CleanupBlocked = ''cleanup-blocked''"

definition searchRuns :: "QueryText \<Rightarrow> string option \<Rightarrow> RunSummary list \<Rightarrow> RunSummary list res" where
  "searchRuns qt search rs =
     (case map_option (\<lambda>s. qtLower qt (trim s)) search of
        None \<Rightarrow> Inr rs
      | Some [] \<Rightarrow> Inr rs
      | Some s \<Rightarrow>
          if length s > 512 then Inl (Err ''run search exceeds byte limit'')
          else Inr (filter (\<lambda>r. contains (qtLower qt (join [newline]
                 [smRunId r, smAgentDisplayName r, smGoalPreview r, smRepositoryRoot r, statusText (smStatus r)])) s) rs))"

definition runListOffset :: "RunQuery \<Rightarrow> nat res" where
  "runListOffset q =
     (case rqCursor q of
        None \<Rightarrow> Inr 0
      | Some c \<Rightarrow> (case parseCursor c of None \<Rightarrow> Inl (Err ''invalid run list cursor'') | Some n \<Rightarrow> Inr n))"

definition runListLimit :: "RunQuery \<Rightarrow> int" where
  "runListLimit q = (case rqLimit q of None \<Rightarrow> 50 | Some n \<Rightarrow> n)"

definition matchingRuns ::
  "QueryText \<Rightarrow> ('g, 'p) ServiceHost \<Rightarrow> 'g WtWorld \<Rightarrow> RetentionWorld \<Rightarrow> RunEntry list \<Rightarrow> RunQuery \<Rightarrow> RunSummary list res" where
  "matchingRuns qt h g rw runs q =
     andThen (listPins None rw) (\<lambda>pins.
     andThen (mapRes (summarizeRun h g (map pinRunId pins)) (filter (runMatches q) runs)) (\<lambda>summaries.
     andThen (searchRuns qt (rqSearch q) summaries) (\<lambda>found. Inr (orderRuns (qtLocaleKey qt) found))))"

definition listRuns ::
  "QueryText \<Rightarrow> ('g, 'p) ServiceHost \<Rightarrow> 'g WtWorld \<Rightarrow> RetentionWorld \<Rightarrow> RunEntry list \<Rightarrow> RunQuery \<Rightarrow> RunSummary Page res" where
  "listRuns qt h g rw runs q =
     (if runListLimit q < 1 \<or> runListLimit q > 100 then Inl (Err ''run list limit must be an integer from 1 to 100'')
      else andThen (runListOffset q) (\<lambda>offset.
           andThen (matchingRuns qt h g rw runs q) (\<lambda>rs. Inr (pageAt rs offset (nat (runListLimit q))))))"

subsection \<open>What retention is told\<close>

definition isTerminalEvent :: "ServiceEvent \<Rightarrow> bool" where
  "isTerminalEvent e =
     (case seData e of AttemptCompleted \<Rightarrow> True | AttemptFailed \<Rightarrow> True | RunReconciled _ \<Rightarrow> True
      | StartupReconciled \<Rightarrow> True | RunAbandoned _ \<Rightarrow> True | _ \<Rightarrow> False)"

text \<open>\<open>isoText\<close> is the text of a time.\<close>

definition retentionRun :: "(int \<Rightarrow> string) \<Rightarrow> ('g, 'p) ServiceHost \<Rightarrow> 'g WtWorld \<Rightarrow> RunEntry \<Rightarrow> RetentionRun res" where
  "retentionRun isoText h g q =
     andThen (qeAttempts q) (\<lambda>attempts.
     andThen (retainedWorktree h g attempts) (\<lambda>retained.
       Inr \<lparr>rtRunId = planRunId (avPlan (qeRun q)), rtStatus = avStatus (qeRun q),
            rtTerminalAt = map_option (\<lambda>e. isoText (seTime e)) (findLast isTerminalEvent (sjEvents (qeJournal q))),
            rtAttempts = map arAttemptId attempts, rtWorktrees = worktreeAttempts attempts, rtRetained = retained\<rparr>))"

definition retentionRuns ::
  "(int \<Rightarrow> string) \<Rightarrow> ('g, 'p) ServiceHost \<Rightarrow> 'g WtWorld \<Rightarrow> RunEntry list \<Rightarrow> RetentionRun list res" where
  "retentionRuns isoText h g runs = mapRes (retentionRun isoText h g) runs"

subsection \<open>Pages in order are the whole log\<close>

lemma parseCursor_showNat [simp]: "int n \<le> MAX_SAFE_INTEGER \<Longrightarrow> parseCursor (showNat n) = Some n"
  by (simp add: parseCursor_def showNat_val Let_def)

text \<open>A reader that follows the cursors from the first page.\<close>

fun followLogs :: "nat \<Rightarrow> ServiceEvent list \<Rightarrow> int \<Rightarrow> string option \<Rightarrow> ServiceEvent list res" where
  "followLogs 0 es limit c = Inl (Err ''too many pages'')"
| "followLogs (Suc fuel) es limit c =
     andThen (readLogs es \<lparr>loCursor = c, loLimit = Some limit, loTail = None\<rparr>) (\<lambda>p.
       case pgNextCursor p of
         None \<Rightarrow> Inr (pgItems p)
       | Some c \<Rightarrow> andThen (followLogs fuel es limit (Some c)) (\<lambda>rest. Inr (pgItems p @ rest)))"

lemma followLogs_from:
  assumes "1 \<le> limit" and "limit \<le> 500" and "int (length es) \<le> MAX_SAFE_INTEGER"
  shows "offset \<le> length es \<Longrightarrow> length es - offset < fuel \<Longrightarrow> (c = None \<and> offset = 0) \<or> c = Some (showNat offset)
    \<Longrightarrow> followLogs fuel es limit c = Inr (drop offset es)"
proof (induction fuel arbitrary: offset c)
  case 0
  then show ?case by simp
next
  case (Suc fuel)
  let ?l = "nat limit"
  have l: "0 < ?l" using assms(1) by simp
  have "int offset \<le> MAX_SAFE_INTEGER" using assms(3) Suc.prems(1) by linarith
  then have page: "readLogs es \<lparr>loCursor = c, loLimit = Some limit, loTail = None\<rparr> = Inr (pageAt es offset ?l)"
    using assms(1,2) Suc.prems(3) by (auto simp: readLogs_def logLimit_def logOffset_def)
  show ?case
  proof (cases "offset + length (take ?l (drop offset es)) < length es")
    case True
    then have nx: "offset + length (take ?l (drop offset es)) = offset + ?l" by (simp add: min_def split: if_splits)
    have "followLogs fuel es limit (Some (showNat (offset + ?l))) = Inr (drop (offset + ?l) es)"
      using True nx l Suc.prems by (intro Suc.IH) auto
    moreover have "take ?l (drop offset es) @ drop (offset + ?l) es = drop offset es"
      by (metis add.commute append_take_drop_id drop_drop)
    ultimately show ?thesis using page True nx by (simp add: pageAt_def Let_def)
  next
    case False
    then have "take ?l (drop offset es) = drop offset es" by (auto simp: min_def split: if_splits)
    then show ?thesis using page False by (simp add: pageAt_def Let_def)
  qed
qed


definition demoLog :: "ServiceEvent list" where
  "demoLog = map (\<lambda>n. \<lparr>seSequence = n, seTime = n, seData = OtherEvent\<rparr>) [1, 2, 3]"


text \<open>
  The list shows every run that matches once, those that need attention before those that have ended.
\<close>

lemma orderRuns_permutes: "mset (orderRuns k rs) = mset rs"
  by (simp add: orderRuns_def)

lemma orderRuns_attention_first: "sorted (map (\<lambda>s. runPriority (smStatus s)) (orderRuns k rs))"
  by (simp add: orderRuns_def)

end
