(* ===== verification/Paths.thy ===== *)
theory Paths
  imports Prelude
begin

section \<open>Relative paths (\<open>path.posix\<close> of \<open>node:path\<close>)\<close>

text \<open>
  \<open>normalize\<close> and \<open>join\<close> of the runtime's path library, and the paths that stay inside a directory:
  relative ones with no empty, \<open>.\<close> or \<open>..\<close> component. Of those, \<open>normalize\<close> changes nothing and
  \<open>join\<close> is concatenation.
\<close>

abbreviation slash :: char where
  "slash \<equiv> CHR ''/''"

text \<open>One component, onto the reversed list of those before it.\<close>

definition pushPart :: "bool \<Rightarrow> string \<Rightarrow> string list \<Rightarrow> string list" where
  "pushPart absolute c acc =
     (if c = [] \<or> c = ''.'' then acc
      else if c \<noteq> ''..'' then c # acc
      else (case acc of
          [] \<Rightarrow> if absolute then [] else [c]
        | d # ds \<Rightarrow> if d = ''..'' then c # acc else ds))"

definition normParts :: "bool \<Rightarrow> string list \<Rightarrow> string list" where
  "normParts absolute ps = rev (fold (pushPart absolute) ps [])"

definition posixNormalize :: "string \<Rightarrow> string" where
  "posixNormalize s =
     (if s = [] then ''.''
      else (let absolute = (hd s = slash); trailing = (List.last s = slash);
                ps = normParts absolute (splitOn slash s)
            in if ps = [] then (if absolute then ''/'' else if trailing then ''./'' else ''.'')
               else (if absolute then ''/'' else []) @ joinWith ''/'' ps @ (if trailing then ''/'' else [])))"

definition posixJoin :: "string \<Rightarrow> string \<Rightarrow> string" where
  "posixJoin a b = posixNormalize (joinWith ''/'' (filter (\<lambda>s. s \<noteq> []) [a, b]))"

text \<open>The name of a directory entry.\<close>

definition properName :: "string \<Rightarrow> bool" where
  "properName c = (c \<noteq> [] \<and> c \<noteq> ''.'' \<and> c \<noteq> ''..'' \<and> slash \<notin> set c)"

definition inside :: "string \<Rightarrow> bool" where
  "inside p = (\<forall>c \<in> set (splitOn slash p). properName c)"

lemma inside_name: "properName c \<Longrightarrow> inside c"
  by (simp add: inside_def properName_def splitOn_no_sep)

lemma normParts_proper: "\<forall>c \<in> set ps. properName c \<Longrightarrow> normParts absolute ps = ps"
proof -
  have "fold (pushPart absolute) ps acc = rev ps @ acc" if "\<forall>c \<in> set ps. properName c" for acc
    using that by (induction ps arbitrary: acc) (auto simp: properName_def pushPart_def)
  then show "\<forall>c \<in> set ps. properName c \<Longrightarrow> normParts absolute ps = ps" by (simp add: normParts_def)
qed

definition part :: "string \<Rightarrow> bool" where
  "part c = (c \<noteq> [] \<and> c \<noteq> ''.'' \<and> slash \<notin> set c)"

lemma pushPart_parts:
  assumes "\<forall>c \<in> set acc. part c" "slash \<notin> set p"
  shows "\<forall>c \<in> set (pushPart absolute p acc). part c"
proof -
  have dots: "part ''..''" by (simp add: part_def)
  have "part p" if "p \<noteq> []" "p \<noteq> ''.''" using that assms(2) by (simp add: part_def)
  then show ?thesis using assms(1) dots unfolding pushPart_def by (cases acc) simp_all
qed

lemma normParts_parts:
  assumes "\<forall>c \<in> set ps. slash \<notin> set c"
  shows "\<forall>c \<in> set (normParts absolute ps). part c"
proof -
  have "\<forall>c \<in> set (fold (pushPart absolute) ps []). part c"
    by (rule fold_invariant [where P = "\<lambda>acc. \<forall>c \<in> set acc. part c"]) (use assms pushPart_parts in blast, simp)
  then show ?thesis unfolding normParts_def set_rev .
qed

lemma last_join: "cs \<noteq> [] \<Longrightarrow> \<forall>c \<in> set cs. part c \<Longrightarrow> joinWith ''/'' cs \<noteq> [] \<and> List.last (joinWith ''/'' cs) \<noteq> slash"
proof (induction cs)
  case (Cons c cs)
  have "c \<noteq> []" "List.last c \<noteq> slash" using Cons.prems(2) by (auto simp: part_def dest: last_in_set)
  then show ?case using Cons by (cases cs) auto
qed simp

lemma proper_part: "properName c \<Longrightarrow> part c"
  by (simp add: properName_def part_def)

lemma inside_ends:
  assumes "inside p"
  shows "p \<noteq> []" "hd p \<noteq> slash" "List.last p \<noteq> slash"
proof -
  obtain w ws where s: "splitOn slash p = w # ws" using splitOn_Cons by blast
  have w: "w \<noteq> []" "slash \<notin> set w" using assms s by (auto simp: inside_def properName_def)
  have p: "p = joinWith ''/'' (w # ws)" using joinWith_splitOn [of slash p] s by simp
  show "p \<noteq> []" "hd p \<noteq> slash" using w p by (cases ws; cases w; auto)+
  show "List.last p \<noteq> slash" using last_join [of "w # ws"] assms s proper_part unfolding p inside_def
    by (metis p list.distinct(1))
qed

lemma posixNormalize_Nil: "posixNormalize [] = ''.''"
  by (simp add: posixNormalize_def)

lemma normalize_inside: "inside p \<Longrightarrow> posixNormalize p = p"
  using inside_ends [of p] normParts_proper [of "splitOn slash p" False] joinWith_splitOn [of slash p]
  by (simp add: posixNormalize_def Let_def inside_def)

lemma join_inside:
  assumes "a = [] \<or> inside a" and "inside b"
  shows "posixJoin a b = (if a = [] then b else a @ ''/'' @ b)" "inside (posixJoin a b)"
proof -
  have "inside (a @ slash # b)" if "inside a"
  proof -
    have "splitOn slash (a @ slash # b) = splitOn slash a @ splitOn slash b"
    proof (induction a)
      case (Cons c a)
      then show ?case by (cases "splitOn slash a") auto
    qed simp
    then show ?thesis using that assms(2) by (auto simp: inside_def)
  qed
  then show "posixJoin a b = (if a = [] then b else a @ ''/'' @ b)"
    using assms inside_ends(1) [of a] inside_ends(1) [of b] by (auto simp: posixJoin_def normalize_inside)
  then show "inside (posixJoin a b)"
    using assms \<open>inside a \<Longrightarrow> inside (a @ slash # b)\<close> by auto
qed

text \<open>The components of a normalized relative path without \<open>..\<close>.\<close>

lemma normalized_inside:
  assumes "p = posixNormalize s" and "p \<noteq> ''.''" and "hd p \<noteq> slash" and "List.last s \<noteq> slash"
    and "''..'' \<notin> set (splitOn slash p)"
  shows "inside p"
proof -
  have s: "s \<noteq> []" using assms(1,2) by (auto simp: posixNormalize_def)
  let ?ps = "normParts False (splitOn slash s)"
  have rel: "hd s \<noteq> slash" using assms(1,3) s by (auto simp: posixNormalize_def Let_def split: if_splits)
  have p: "p = joinWith ''/'' ?ps" "?ps \<noteq> []"
    using assms s rel by (auto simp: posixNormalize_def Let_def split: if_splits)
  have parts: "\<forall>c \<in> set ?ps. part c"
    using normParts_parts [of "splitOn slash s" False] splitOn_free by auto
  then have "splitOn slash p = ?ps" using splitOn_joinWith [of ?ps slash] p by (auto simp: part_def)
  then show ?thesis using parts assms(5) by (auto simp: inside_def properName_def part_def)
qed

end
