(* ===== verification/Resources.thy ===== *)
theory Resources
  imports Identity Paths
begin

section \<open>Digests of files and directory trees (\<open>src/preflight/resources.ts\<close>)\<close>

text \<open>
  A resource is named by a digest: a file by its content, a directory by the list of its entries, walked
  in the order of their names. What a path leads to is a tree; the host resolves paths.
\<close>

datatype hostNode =
    HostFile string bool        \<comment> \<open>content, executable\<close>
  | HostDir "(string \<times> hostNode) list"
  | HostLink string
  | HostSpecial

record HostFiles =
  hfRealpath :: "string \<Rightarrow> string res"
  hfNode :: "string \<Rightarrow> hostNode res"            \<comment> \<open>\<open>lstat\<close> and what is read there\<close>
  hfSha256 :: "string \<Rightarrow> string"

record ResourceDigest =
  rdPath :: string
  rdSha256 :: string
  rdFiles :: int
  rdBytes :: int

record ResourceDigestLimits =
  dlMaxFiles :: int
  dlMaxBytes :: int

definition DEFAULT_LIMITS :: ResourceDigestLimits where
  "DEFAULT_LIMITS = \<lparr>dlMaxFiles = 10000, dlMaxBytes = 64 * 1024 * 1024\<rparr>"

definition validateLimits :: "ResourceDigestLimits \<Rightarrow> unit res" where
  "validateLimits l =
     (if dlMaxFiles l < 1 \<or> dlMaxFiles l > MAX_SAFE_INTEGER then Inl (Err ''maxFiles must be a positive safe integer'')
      else if dlMaxBytes l < 1 \<or> dlMaxBytes l > MAX_SAFE_INTEGER
      then Inl (Err ''maxBytes must be a positive safe integer'') else Inr ())"

definition digestFileResource :: "HostFiles \<Rightarrow> ResourceDigestLimits \<Rightarrow> string \<Rightarrow> ResourceDigest res" where
  "digestFileResource fs limits p =
     andThen (validateLimits limits) (\<lambda>_.
     andThen (hfRealpath fs p) (\<lambda>canonical.
     andThen (hfNode fs canonical) (\<lambda>node.
       case node of
         HostFile content _ \<Rightarrow>
           if int (length content) > dlMaxBytes limits then Inl (Err ''resource exceeds byte limit'')
           else Inr \<lparr>rdPath = canonical, rdSha256 = hfSha256 fs content, rdFiles = 1, rdBytes = int (length content)\<rparr>
       | _ \<Rightarrow> Inl (Err ''resource is not a file''))))"

subsection \<open>Walking a tree\<close>

record TreeEntry =
  tePath :: string
  teIsDir :: bool
  teExecutable :: bool
  teBytes :: int
  teSha256 :: "string option"

record WalkState =
  wkEntries :: "TreeEntry list"
  wkFiles :: int
  wkBytes :: int

definition childPath :: "string \<Rightarrow> string \<Rightarrow> string" where
  "childPath dir name = (if dir = [] then name else posixJoin dir name)"

definition pushDirectory :: "string \<Rightarrow> WalkState \<Rightarrow> WalkState" where
  "pushDirectory p s = s\<lparr>wkEntries := wkEntries s @
     [\<lparr>tePath = p, teIsDir = True, teExecutable = False, teBytes = 0, teSha256 = None\<rparr>]\<rparr>"

definition pushFile :: "(string \<Rightarrow> string) \<Rightarrow> ResourceDigestLimits \<Rightarrow> string \<Rightarrow> string \<Rightarrow> bool \<Rightarrow> WalkState \<Rightarrow> WalkState res" where
  "pushFile contentSha256 limits p content x s =
     (if wkFiles s + 1 > dlMaxFiles limits then Inl (Err ''resource exceeds file limit'')
      else if wkBytes s + int (length content) > dlMaxBytes limits then Inl (Err ''resource exceeds byte limit'')
      else Inr \<lparr>wkEntries = wkEntries s @
                  [\<lparr>tePath = p, teIsDir = False, teExecutable = x, teBytes = int (length content),
                    teSha256 = Some (contentSha256 content)\<rparr>],
                wkFiles = wkFiles s + 1, wkBytes = wkBytes s + int (length content)\<rparr>)"

text \<open>Every directory is read in the order of its names.\<close>

fun sortedTree :: "hostNode \<Rightarrow> hostNode" where
  "sortedTree (HostDir es) = HostDir (sort_key fst (map (\<lambda>e. (fst e, sortedTree (snd e))) es))"
| "sortedTree t = t"

function walk ::
  "(string \<Rightarrow> string) \<Rightarrow> ResourceDigestLimits \<Rightarrow> string \<Rightarrow> (string \<times> hostNode) list \<Rightarrow> WalkState \<Rightarrow> WalkState res" where
  "walk c limits dir [] s = Inr s"
| "walk c limits dir ((name, HostLink target) # es) s = Inl (Err (''resource symlink denied: '' @ childPath dir name))"
| "walk c limits dir ((name, HostSpecial) # es) s = Inl (Err (''unsupported resource entry: '' @ childPath dir name))"
| "walk c limits dir ((name, HostDir ch) # es) s =
     andThen (walk c limits (childPath dir name) ch (pushDirectory (childPath dir name) s)) (\<lambda>s. walk c limits dir es s)"
| "walk c limits dir ((name, HostFile content x) # es) s =
     andThen (pushFile c limits (childPath dir name) content x s) (\<lambda>s. walk c limits dir es s)"
  by pat_completeness auto

termination
  by (relation "measure (\<lambda>(_, _, _, es, _). size_list (size_prod (\<lambda>_. 0) size) es)") auto

definition entryJs :: "TreeEntry \<Rightarrow> jsval" where
  "entryJs e = vobj [(''path'', Some (VStr (tePath e))), (''type'', Some (VStr (if teIsDir e then ''directory'' else ''file''))),
     (''executable'', Some (VBool (teExecutable e))), (''bytes'', Some (vint (teBytes e))),
     (''sha256'', map_option VStr (teSha256 e))]"

definition digestTreeResource ::
  "(string \<Rightarrow> string) \<Rightarrow> HostFiles \<Rightarrow> ResourceDigestLimits \<Rightarrow> string \<Rightarrow> ResourceDigest res" where
  "digestTreeResource sha fs limits p =
     andThen (validateLimits limits) (\<lambda>_.
     andThen (hfRealpath fs p) (\<lambda>canonical.
     andThen (hfNode fs canonical) (\<lambda>node.
       case sortedTree node of
         HostDir es \<Rightarrow>
           andThen (walk (hfSha256 fs) limits [] es \<lparr>wkEntries = [], wkFiles = 0, wkBytes = 0\<rparr>) (\<lambda>s.
           andThen (canonicalSha256 sha (VArr (map entryJs (wkEntries s)))) (\<lambda>d.
             Inr \<lparr>rdPath = canonical, rdSha256 = d, rdFiles = wkFiles s, rdBytes = wkBytes s\<rparr>))
       | _ \<Rightarrow> Inl (Err ''resource is not a directory''))))"

subsection \<open>The digest of a tree determines the tree\<close>

text \<open>
  What a walk lists, without its limits, and a tree with each file's content replaced by its digest and
  length. Names are those a directory can hold, each once.
\<close>

function listing :: "(string \<Rightarrow> string) \<Rightarrow> string \<Rightarrow> (string \<times> hostNode) list \<Rightarrow> TreeEntry list" where
  "listing c dir [] = []"
| "listing c dir ((name, HostDir ch) # es) =
     \<lparr>tePath = childPath dir name, teIsDir = True, teExecutable = False, teBytes = 0, teSha256 = None\<rparr>
       # listing c (childPath dir name) ch @ listing c dir es"
| "listing c dir ((name, HostFile content x) # es) =
     \<lparr>tePath = childPath dir name, teIsDir = False, teExecutable = x, teBytes = int (length content),
      teSha256 = Some (c content)\<rparr> # listing c dir es"
| "listing c dir ((name, HostLink target) # es) = listing c dir es"
| "listing c dir ((name, HostSpecial) # es) = listing c dir es"
  by pat_completeness auto

termination
  by (relation "measure (\<lambda>(_, _, es). size_list (size_prod (\<lambda>_. 0) size) es)") auto

fun properNode :: "hostNode \<Rightarrow> bool" where
  "properNode (HostDir es) = (\<forall>e \<in> set es. properName (fst e) \<and> properNode (snd e))"
| "properNode (HostFile _ _) = True"
| "properNode _ = False"

text \<open>Two trees with the same names, the same executable bits, and files of the same digests and lengths.\<close>

fun sameNode :: "(string \<Rightarrow> string) \<Rightarrow> hostNode \<Rightarrow> hostNode \<Rightarrow> bool" where
  "sameNode c (HostFile a x) (HostFile b y) = (c a = c b \<and> length a = length b \<and> x = y)"
| "sameNode c (HostDir es) (HostDir fs) = list_all2 (\<lambda>e f. fst e = fst f \<and> sameNode c (snd e) (snd f)) es fs"
| "sameNode c _ _ = False"

lemma walk_listing: "walk c limits dir es s = Inr s' \<Longrightarrow> wkEntries s' = wkEntries s @ listing c dir es"
  by (induction c limits dir es s arbitrary: s' rule: walk.induct)
    (auto simp: pushDirectory_def pushFile_def split: if_splits)

definition under :: "string \<Rightarrow> string \<Rightarrow> bool" where
  "under dir q = (dir = [] \<or> (\<exists>t. q = dir @ slash # t))"

definition dirPath :: "string \<Rightarrow> bool" where
  "dirPath dir = (dir = [] \<or> inside dir)"

lemma childPath_eq:
  assumes "dirPath dir" and "properName n"
  shows "childPath dir n = (if dir = [] then n else dir @ slash # n)" "inside (childPath dir n)"
  using assms join_inside [of dir n] inside_name [of n] by (auto simp: childPath_def dirPath_def)

lemma childPath_inj:
  "dirPath dir \<Longrightarrow> properName m \<Longrightarrow> properName n \<Longrightarrow> childPath dir m = childPath dir n \<longleftrightarrow> m = n"
  by (auto simp: childPath_eq split: if_splits)

lemma child_under: "dirPath dir \<Longrightarrow> properName n \<Longrightarrow> under dir (childPath dir n)"
  by (auto simp: under_def childPath_eq)

lemma under_child: "dirPath dir \<Longrightarrow> properName n \<Longrightarrow> under (childPath dir n) q \<Longrightarrow> under dir q"
  using inside_ends(1) [of "childPath dir n"] childPath_eq(2) [of dir n]
  by (auto simp: under_def childPath_eq(1) split: if_splits)

lemma sibling_not_under:
  assumes "dirPath dir" and "properName m" and "properName n"
  shows "\<not> under (childPath dir n) (childPath dir m)"
proof
  assume "under (childPath dir n) (childPath dir m)"
  then obtain t where "childPath dir m = childPath dir n @ slash # t"
    using inside_ends(1) childPath_eq(2) [OF assms(1,3)] by (auto simp: under_def)
  then have "m = n @ slash # t" using assms by (auto simp: childPath_eq split: if_splits)
  then show False using assms(2) by (simp add: properName_def)
qed

definition properEntries :: "(string \<times> hostNode) list \<Rightarrow> bool" where
  "properEntries es = (\<forall>e \<in> set es. properName (fst e) \<and> properNode (snd e))"

definition above :: "string \<Rightarrow> TreeEntry list \<Rightarrow> bool" where
  "above dir r = (case r of [] \<Rightarrow> True | e # _ \<Rightarrow> \<not> under dir (tePath e))"

lemma listing_head:
  assumes "dirPath dir" and "properEntries ((n, t) # es)"
  shows "\<exists>e rest. listing c dir ((n, t) # es) = e # rest \<and> tePath e = childPath dir n"
  using assms by (cases t) (auto simp: properEntries_def)

lemma above_rest:
  assumes "dirPath dir" and "properName n" and "properEntries es" and "above dir r"
  shows "above (childPath dir n) (listing c dir es @ r)"
proof (cases es)
  case Nil
  then show ?thesis using assms under_child [OF assms(1,2)] by (auto simp: above_def split: list.splits)
next
  case (Cons e es')
  then obtain x rest where "listing c dir es = x # rest" "tePath x = childPath dir (fst e)"
    using listing_head [OF assms(1), of "fst e" "snd e" es' c] assms(3) by fastforce
  moreover have "properName (fst e)" using assms(3) Cons by (simp add: properEntries_def)
  ultimately show ?thesis using sibling_not_under [OF assms(1) _ assms(2)] by (simp add: above_def)
qed

lemma above_empty:
  assumes "above dir (listing c dir es @ r)" and "dirPath dir" and "properEntries es"
  shows "es = []"
proof (rule ccontr)
  assume "es \<noteq> []"
  then obtain n t es' where es: "es = (n, t) # es'" by (cases es) auto
  then obtain x rest where "listing c dir es = x # rest" "tePath x = childPath dir n"
    using listing_head [OF assms(2)] assms(3) by metis
  moreover have "properName n" using assms(3) es by (simp add: properEntries_def)
  ultimately show False using assms(1) child_under [OF assms(2)] by (simp add: above_def)
qed

lemma listing_injective:
  assumes "listing c dir es @ r = listing c dir es' @ r'" and "dirPath dir"
    and "properEntries es" and "properEntries es'" and "above dir r" and "above dir r'"
  shows "list_all2 (\<lambda>e f. fst e = fst f \<and> sameNode c (snd e) (snd f)) es es' \<and> r = r'"
  using assms
proof (induction c dir es arbitrary: es' r r' rule: listing.induct)
  case (1 c dir)
  then have "above dir (listing c dir es' @ r')" by simp
  then have "es' = []" using above_empty 1(2,4) by blast
  then show ?case using 1(1) by simp
next
  case (2 c dir n ch es)
  have n: "properName n" and ch: "properEntries ch" and es: "properEntries es"
    using 2(5) by (auto simp: properEntries_def)
  have "\<not> above dir r'" if "es' = []" using 2(3) that child_under [OF 2(4) n] by (auto simp: above_def)
  then obtain n' t' es'' where es': "es' = (n', t') # es''" using 2(8) by (cases es') auto
  have n': "properName n'" and pt: "properNode t'" and pe: "properEntries es''"
    using 2(6) es' by (auto simp: properEntries_def)
  obtain ch' where t': "t' = HostDir ch'" and nn: "n' = n"
    using 2(3) es' pt childPath_inj [OF 2(4) n n'] by (cases t') auto
  have ch': "properEntries ch'" using pt t' by (auto simp: properEntries_def)
  have eq: "listing c (childPath dir n) ch @ (listing c dir es @ r) = listing c (childPath dir n) ch' @ (listing c dir es'' @ r')"
    using 2(3) es' t' nn by simp
  have d: "dirPath (childPath dir n)" using childPath_eq(2) [OF 2(4) n] by (simp add: dirPath_def)
  have a: "above (childPath dir n) (listing c dir es @ r)" "above (childPath dir n) (listing c dir es'' @ r')"
    using above_rest [OF 2(4) n es 2(7)] above_rest [OF 2(4) n pe 2(8)] by blast+
  from 2(1) [OF eq d ch ch' a] have one: "list_all2 (\<lambda>e f. fst e = fst f \<and> sameNode c (snd e) (snd f)) ch ch'"
    and rest: "listing c dir es @ r = listing c dir es'' @ r'" by blast+
  from 2(2) [OF rest 2(4) es pe 2(7,8)] show ?case using one es' t' nn by simp
next
  case (3 c dir n b x es)
  have n: "properName n" and es: "properEntries es" using 3(4) by (auto simp: properEntries_def)
  have "\<not> above dir r'" if "es' = []" using 3(2) that child_under [OF 3(3) n] by (auto simp: above_def)
  then obtain n' t' es'' where es': "es' = (n', t') # es''" using 3(7) by (cases es') auto
  have n': "properName n'" and pt: "properNode t'" and pe: "properEntries es''"
    using 3(5) es' by (auto simp: properEntries_def)
  obtain b' x' where t': "t' = HostFile b' x'" and nn: "n' = n"
    using 3(2) es' pt childPath_inj [OF 3(3) n n'] by (cases t') auto
  have rest: "listing c dir es @ r = listing c dir es'' @ r'" and same: "c b = c b'" "length b = length b'" "x = x'"
    using 3(2) es' t' nn by auto
  from 3(1) [OF rest 3(3) es pe 3(6,7)] show ?case using same es' t' nn by simp
qed (auto simp: properEntries_def)

fun namesProper :: "hostNode \<Rightarrow> bool" where
  "namesProper (HostDir es) = (\<forall>e \<in> set es. properName (fst e) \<and> namesProper (snd e))"
| "namesProper t = True"

lemma sortedTree_names: "namesProper t \<Longrightarrow> namesProper (sortedTree t)"
  by (induction t rule: sortedTree.induct) auto

text \<open>A walk that returns met only files and directories.\<close>

definition namesIn :: "(string \<times> hostNode) list \<Rightarrow> bool" where
  "namesIn es = (\<forall>e \<in> set es. properName (fst e) \<and> namesProper (snd e))"

lemma entries_Cons [simp]:
  "properEntries ((n, t) # es) \<longleftrightarrow> properName n \<and> properNode t \<and> properEntries es"
  "namesIn ((n, t) # es) \<longleftrightarrow> properName n \<and> namesProper t \<and> namesIn es"
  by (auto simp: properEntries_def namesIn_def)

lemma entries_dir [simp]: "properNode (HostDir es) = properEntries es" "namesProper (HostDir es) = namesIn es"
  by (auto simp: properEntries_def namesIn_def)

lemmas [simp del] = properNode.simps(1) namesProper.simps(1)

lemma walk_proper: "walk c limits dir es s = Inr s' \<Longrightarrow> namesIn es \<Longrightarrow> properEntries es"
  by (induction c limits dir es s arbitrary: s' rule: walk.induct) (auto simp: properEntries_def [of "[]"])

lemma wf_entryJs [simp]: "wf_js (entryJs e)"
  unfolding entryJs_def by (rule wf_vobj) (auto split: option.splits)

lemma same_entryJs: "same (entryJs e) (entryJs f) \<Longrightarrow> f = e"
  unfolding entryJs_def
  by (drule vobj_same) (auto split: if_splits intro!: TreeEntry.equality)

lemma same_entries: "same (VArr (map entryJs es)) (VArr (map entryJs fs)) \<Longrightarrow> fs = es"
proof -
  assume "same (VArr (map entryJs es)) (VArr (map entryJs fs))"
  then consider "map entryJs fs = map entryJs es" | "list_all2 same (map entryJs es) (map entryJs fs)"
    by (auto simp: same_VArr)
  then have "list_all2 same (map entryJs es) (map entryJs fs)"
    by cases (simp_all add: list.rel_refl same_refl)
  then show ?thesis using same_entryJs by (induction es arbitrary: fs) (auto simp: list_all2_Cons1 list_all2_map1 list_all2_map2)
qed

text \<open>The text a tree is digested from.\<close>

definition treeText :: "(string \<Rightarrow> string) \<Rightarrow> hostNode \<Rightarrow> string res" where
  "treeText c t = (case sortedTree t of HostDir es \<Rightarrow> canonicalJson (VArr (map entryJs (listing c [] es))) | _ \<Rightarrow> Inl Enoent)"

lemma digestTree_Inr:
  assumes "digestTreeResource sha fs limits p = Inr d"
  shows "\<exists>t es s. hfNode fs (rdPath d) = Inr t \<and> sortedTree t = HostDir es \<and> treeText (hfSha256 fs) t = Inr s
    \<and> rdSha256 d = sha s \<and> (namesProper t \<longrightarrow> properEntries es)"
proof -
  from assms obtain path t where p: "hfNode fs path = Inr t"
    and c: "(case sortedTree t of
         HostDir es \<Rightarrow>
           andThen (walk (hfSha256 fs) limits [] es \<lparr>wkEntries = [], wkFiles = 0, wkBytes = 0\<rparr>) (\<lambda>s.
           andThen (canonicalSha256 sha (VArr (map entryJs (wkEntries s)))) (\<lambda>d.
             Inr \<lparr>rdPath = path, rdSha256 = d, rdFiles = wkFiles s, rdBytes = wkBytes s\<rparr>))
       | _ \<Rightarrow> Inl (Err ''resource is not a directory'')) = Inr d"
    unfolding digestTreeResource_def andThen_eq_Inr by blast
  then obtain es where es: "sortedTree t = HostDir es" by (cases "sortedTree t") auto
  then obtain w s where w: "walk (hfSha256 fs) limits [] es \<lparr>wkEntries = [], wkFiles = 0, wkBytes = 0\<rparr> = Inr w"
    "canonicalJson (VArr (map entryJs (wkEntries w))) = Inr s" "rdPath d = path" "rdSha256 d = sha s"
    using c by (auto simp: canonicalSha256_def)
  have "namesProper t \<longrightarrow> properEntries es"
    using walk_proper [OF w(1)] sortedTree_names [of t] es by auto
  moreover have "treeText (hfSha256 fs) t = Inr s" using walk_listing [OF w(1)] es w(2) by (simp add: treeText_def)
  ultimately show ?thesis using p es w by blast
qed

text \<open>
  C31: The digest of a directory determines the directory. Two trees with the same digest hold the same
  names at every level, in every directory the same executable bits, and files of the same content
  digests and lengths, unless the two canonical texts that were hashed collide.
\<close>

theorem tree_digest_determines_tree:
  assumes "digestTreeResource sha fs l p = Inr d" and "digestTreeResource sha fs' l' q = Inr d'"
    and "rdSha256 d = rdSha256 d'" and "hfSha256 fs' = hfSha256 fs"
    and "hfNode fs (rdPath d) = Inr t" and "hfNode fs' (rdPath d') = Inr t'" and "namesProper t" and "namesProper t'"
    and "\<And>s u. treeText (hfSha256 fs) t = Inr s \<Longrightarrow> treeText (hfSha256 fs) t' = Inr u \<Longrightarrow> sha s = sha u \<Longrightarrow> s = u"
  shows "sameNode (hfSha256 fs) (sortedTree t) (sortedTree t')"
proof -
  let ?c = "hfSha256 fs"
  from digestTree_Inr [OF assms(1)] obtain es s where a: "sortedTree t = HostDir es" "treeText ?c t = Inr s"
    "rdSha256 d = sha s" "properEntries es" using assms(5,7) by auto
  from digestTree_Inr [OF assms(2)] obtain es' u where b: "sortedTree t' = HostDir es'" "treeText ?c t' = Inr u"
    "rdSha256 d' = sha u" "properEntries es'" using assms(4,6,8) by auto
  have "s = u" using assms(3,9) a b by simp
  then have "same (VArr (map entryJs (listing ?c [] es))) (VArr (map entryJs (listing ?c [] es')))"
    using a(1,2) b(1,2) by (intro canonicalJson_same) (auto simp: treeText_def wf_jss_iff)
  then have "listing ?c [] es' @ [] = listing ?c [] es @ []" using same_entries by simp
  then have "list_all2 (\<lambda>e f. fst e = fst f \<and> sameNode ?c (snd e) (snd f)) es es'"
    using listing_injective [of ?c "[]" es "[]" es' "[]"] a(4) b(4) by (simp add: dirPath_def above_def)
  then show ?thesis using a(1) b(1) by simp
qed

definition demoTree :: hostNode where
  "demoTree = HostDir [(''b'', HostFile ''x'' True), (''a'', HostDir [(''c'', HostFile ''y'' False)])]"

definition demoFiles :: HostFiles where
  "demoFiles = \<lparr>hfRealpath = Inr, hfNode = \<lambda>_. Inr demoTree, hfSha256 = id\<rparr>"

lemma demo_digest: "isOk (digestTreeResource id demoFiles DEFAULT_LIMITS ''/s'')"
  by code_simp

theorem tree_digest_determines_tree_witness: "sameNode id (sortedTree demoTree) (sortedTree demoTree)"
proof -
  obtain d where d: "digestTreeResource id demoFiles DEFAULT_LIMITS ''/s'' = Inr d"
    using demo_digest by (auto simp: isOk_iff)
  have "namesProper demoTree" by (simp add: demoTree_def properName_def namesIn_def)
  then show ?thesis
    using tree_digest_determines_tree [OF d d, of demoTree demoTree] by (simp add: demoFiles_def)
qed

end
