(* ===== verification/Agents.thy ===== *)
theory Agents
  imports Resources Compile
begin

section \<open>Agent definitions (\<open>src/preflight/agents.ts\<close>, \<open>src/preflight/package-manifest.ts\<close>)\<close>

text \<open>
  An agent is a Markdown file: YAML frontmatter under a closed schema, then its prompt. Discovery reads
  the directories of its sources in the order of their scopes, so that a later scope's definition of a
  name replaces an earlier one's. What the YAML library makes of a text is a parameter: nothing when it
  refuses it, and of a value that is not of the schema's shape only that.
\<close>

subsection \<open>Frontmatter\<close>

record AgentFrontmatter =
  fmName :: string
  fmModel :: "ExactModelRequest option"
  fmAllowedModels :: "string list option"
  fmTools :: "string list"
  fmSkills :: "string list"
  fmScopes :: "ContextScope list"
  fmModes :: "WorkspaceMode list"
  fmLimits :: RunLimits
  fmMemoryBytes :: "int option"

definition DEFAULT_MEMORY_BYTES :: int where "DEFAULT_MEMORY_BYTES = MIN_MEMORY_BYTES"

text \<open>A route is \<open>provider/id:thinking\<close> on one line.\<close>

definition routeText :: "string \<Rightarrow> bool" where
  "routeText s = (CHR 0x0A \<notin> set s \<and> CHR 0x0D \<notin> set s
     \<and> (\<exists>i \<in> set [1..<length s - 1]. s ! i = CHR ''/''))"

definition isModelRoute :: "string \<Rightarrow> bool" where
  "isModelRoute s =
     (length s \<le> 512
      \<and> list_ex (\<lambda>t. endsWith s (CHR '':'' # thinkingText t) \<and> routeText (take (length s - length (thinkingText t) - 1) s))
          [ThinkOff, ThinkMinimal, ThinkLow, ThinkMedium, ThinkHigh, ThinkXhigh])"

definition checkFrontmatter :: "AgentFrontmatter \<Rightarrow> bool" where
  "checkFrontmatter f =
     (checkResourceName (fmName f)
      \<and> (case fmModel f of None \<Rightarrow> True | Some m \<Rightarrow> checkModel m)
      \<and> (case fmAllowedModels f of None \<Rightarrow> True
           | Some ms \<Rightarrow> list_all (\<lambda>m. isModelRoute m \<or> m = INHERIT_MODEL \<or> m = HOST_MODEL) ms
               \<and> length ms \<le> 64 \<and> distinct ms)
      \<and> checkNames (fmTools f) \<and> checkNames (fmSkills f)
      \<and> length (fmScopes f) \<le> 2 \<and> distinct (fmScopes f)
      \<and> 1 \<le> length (fmModes f) \<and> length (fmModes f) \<le> 2 \<and> distinct (fmModes f)
      \<and> checkLimits (fmLimits f)
      \<and> (case fmMemoryBytes f of None \<Rightarrow> True | Some n \<Rightarrow> checkMemoryBytes n))"

fun unixLines :: "string \<Rightarrow> string" where
  "unixLines [] = []"
| "unixLines [c] = [c]"
| "unixLines (c # d # s) =
     (if c = CHR 0x0D \<and> d = CHR 0x0A then CHR 0x0A # unixLines s else c # unixLines (d # s))"

fun indexOf :: "string \<Rightarrow> string \<Rightarrow> nat option" where
  "indexOf p [] = (if p = [] then Some 0 else None)"
| "indexOf p (c # s) = (if startsWith (c # s) p then Some 0 else map_option Suc (indexOf p s))"

definition fenceOpen :: string where "fenceOpen = ''---'' @ [newline]"
definition fenceClose :: string where "fenceClose = newline # ''---'' @ [newline]"

text \<open>The text between the fences and the prompt after them.\<close>

definition splitFrontmatter :: "(string \<Rightarrow> AgentFrontmatter option option) \<Rightarrow> string \<Rightarrow> (AgentFrontmatter option \<times> string) res" where
  "splitFrontmatter yaml content =
     (let normalized = unixLines content in
      if \<not> startsWith normalized fenceOpen then Inl (DiscoveryErr ''agent definition requires YAML frontmatter'')
      else (case indexOf fenceClose (drop 4 normalized) of
              None \<Rightarrow> Inl (DiscoveryErr ''agent frontmatter is unterminated'')
            | Some end \<Rightarrow>
                (case yaml (take end (drop 4 normalized)) of
                   None \<Rightarrow> Inl (DiscoveryErr ''invalid agent YAML'')
                 | Some metadata \<Rightarrow>
                     (let prompt = trim (drop (4 + end + 5) normalized) in
                      if prompt = [] then Inl (DiscoveryErr ''agent prompt is empty'')
                      else if int (length prompt) > 256 * 1024 then Inl (DiscoveryErr ''agent prompt exceeds byte limit'')
                      else Inr (metadata, prompt)))))"

definition admittedModels :: "AgentFrontmatter \<Rightarrow> string list res" where
  "admittedModels f =
     (case fmModel f of
        None \<Rightarrow>
          (let allowed = (case fmAllowedModels f of None \<Rightarrow> [] | Some ms \<Rightarrow> ms) in
           if INHERIT_MODEL \<notin> set allowed \<and> HOST_MODEL \<notin> set allowed
           then Inl (DiscoveryErr ''agent definition names no model and its allowedModels admit neither inherit nor host'')
           else Inr allowed)
      | Some m \<Rightarrow>
          (let allowed = (case fmAllowedModels f of None \<Rightarrow> [modelKey m] | Some ms \<Rightarrow> ms) in
           if modelKey m \<notin> set allowed then Inl (DiscoveryErr ''default model exceeds agent model ceiling'')
           else Inr allowed))"

subsection \<open>Loading and discovering\<close>

record AgentHost =
  ahReaddir :: "string \<Rightarrow> string list res"
  ahFiles :: HostFiles
  ahYaml :: "string \<Rightarrow> AgentFrontmatter option option"

definition readTextFile :: "HostFiles \<Rightarrow> string \<Rightarrow> string res" where
  "readTextFile fs p =
     andThen (hfRealpath fs p) (\<lambda>canonical. andThen (hfNode fs canonical) (\<lambda>node.
       case node of HostFile content _ \<Rightarrow> Inr content | _ \<Rightarrow> Inl (Err ''not a file'')))"

definition agentFrom :: "AgentFrontmatter \<Rightarrow> string \<Rightarrow> AgentScope \<Rightarrow> ResourceDigest \<Rightarrow> string list \<Rightarrow> AgentDefinition" where
  "agentFrom f prompt scope digest allowed =
     \<lparr>agentName = fmName f, agentDisplay = fmName f, agentPrompt = prompt, agentScope = scope,
      agentSource = rdPath digest, agentSha256 = rdSha256 digest, defaultModel = fmModel f,
      allowedModels = allowed, agentTools = fmTools f, agentSkills = fmSkills f, agentScopes = fmScopes f,
      agentModes = fmModes f, limitCeiling = fmLimits f,
      memoryCeilingBytes = (case fmMemoryBytes f of None \<Rightarrow> DEFAULT_MEMORY_BYTES | Some n \<Rightarrow> n)\<rparr>"

definition validFrontmatter :: "string \<Rightarrow> AgentFrontmatter option \<Rightarrow> AgentFrontmatter res" where
  "validFrontmatter filePath metadata =
     (case metadata of
        None \<Rightarrow> Inl (DiscoveryErr (''invalid agent frontmatter: '' @ filePath))
      | Some f \<Rightarrow> if checkFrontmatter f then Inr f else Inl (DiscoveryErr (''invalid agent frontmatter: '' @ filePath)))"

text \<open>\<open>directory/entry\<close>, where \<open>entry\<close> ends in \<open>.md\<close>.\<close>

definition loadAgent :: "AgentHost \<Rightarrow> string \<Rightarrow> string \<Rightarrow> AgentScope \<Rightarrow> AgentDefinition res" where
  "loadAgent h directory entry scope =
     (let filePath = posixJoin directory entry in
      andThen (readTextFile (ahFiles h) filePath) (\<lambda>content.
      andThen (splitFrontmatter (ahYaml h) content) (\<lambda>split.
      andThen (validFrontmatter filePath (fst split)) (\<lambda>f.
      andThen (require (entry = fmName f @ ''.md'') (DiscoveryErr (''agent name does not match file: '' @ filePath))) (\<lambda>_.
      andThen (digestFileResource (ahFiles h) DEFAULT_LIMITS filePath) (\<lambda>digest.
      andThen (admittedModels f) (\<lambda>allowed.
        Inr (agentFrom f (snd split) scope digest allowed))))))))"

record AgentSource =
  srcScope :: AgentScope
  srcDirectory :: string
  srcTrusted :: bool

fun scopePriority :: "AgentScope \<Rightarrow> nat" where
  "scopePriority AgentBuiltin = 0"
| "scopePriority AgentPackage = 1"
| "scopePriority AgentGlobal = 2"
| "scopePriority AgentProject = 3"

record Discovery =
  dsSelected :: "string \<Rightarrow> AgentDefinition option"
  dsIdentities :: "(AgentScope \<times> string) list"

definition addAgent :: "AgentHost \<Rightarrow> AgentSource \<Rightarrow> string \<Rightarrow> Discovery \<Rightarrow> Discovery res" where
  "addAgent h src entry d =
     andThen (loadAgent h (srcDirectory src) entry (srcScope src)) (\<lambda>agent.
     andThen (require ((srcScope src, agentName agent) \<notin> set (dsIdentities d))
       (DiscoveryErr (''duplicate agent in scope: '' @ agentScopeText (srcScope src) @ '':'' @ agentName agent))) (\<lambda>_.
       Inr \<lparr>dsSelected = (dsSelected d)(agentName agent \<mapsto> agent),
            dsIdentities = (srcScope src, agentName agent) # dsIdentities d\<rparr>))"

definition addSource :: "AgentHost \<Rightarrow> AgentSource \<Rightarrow> Discovery \<Rightarrow> Discovery res" where
  "addSource h src d =
     (if srcScope src = AgentProject \<and> \<not> srcTrusted src then Inl (DiscoveryErr ''project agent source is not trusted'')
      else (case ahReaddir h (srcDirectory src) of
              Inl Enoent \<Rightarrow> Inr d
            | Inl e \<Rightarrow> Inl e
            | Inr names \<Rightarrow> foldRes (addAgent h src) (sort (filter (\<lambda>n. endsWith n ''.md'') names)) d))"

definition discoverAgents :: "AgentHost \<Rightarrow> AgentSource list \<Rightarrow> (string \<Rightarrow> AgentDefinition option) res" where
  "discoverAgents h sources =
     andThen (foldRes (addSource h) (sort_key (\<lambda>s. scopePriority (srcScope s)) sources)
               \<lparr>dsSelected = (\<lambda>_. None), dsIdentities = []\<rparr>) (\<lambda>d. Inr (dsSelected d))"

text \<open>\<open>resolveRequestedAgent\<close> of the service: a request may bring its own directories.\<close>

definition isAbsolutePath :: "string \<Rightarrow> bool" where
  "isAbsolutePath p = startsWith p ''/''"

definition packageSource :: "string \<Rightarrow> AgentSource" where
  "packageSource directory = \<lparr>srcScope = AgentPackage, srcDirectory = directory, srcTrusted = True\<rparr>"

definition resolveRequestedAgent ::
  "AgentHost \<Rightarrow> (string \<Rightarrow> AgentDefinition option) \<Rightarrow> string \<Rightarrow> string list \<Rightarrow> AgentDefinition option res" where
  "resolveRequestedAgent h agents name roots =
     (case find (\<lambda>d. \<not> isAbsolutePath d) roots of
        Some d \<Rightarrow> Inl (Err (''agent root must be absolute: '' @ d))
      | None \<Rightarrow>
          if roots = [] then Inr (agents name)
          else andThen (discoverAgents h (map packageSource roots)) (\<lambda>supplied.
            Inr (case supplied name of Some a \<Rightarrow> Some a | None \<Rightarrow> agents name)))"

subsection \<open>Package manifests\<close>

text \<open>\<open>path.relative\<close> of two absolute paths, and the check every loader makes with it.\<close>

definition pathParts :: "string \<Rightarrow> string list" where
  "pathParts p = normParts True (splitOn slash p)"

fun commonPrefix :: "string list \<Rightarrow> string list \<Rightarrow> nat" where
  "commonPrefix (a # as) (b # bs) = (if a = b then Suc (commonPrefix as bs) else 0)"
| "commonPrefix _ _ = 0"

definition posixRelative :: "string \<Rightarrow> string \<Rightarrow> string" where
  "posixRelative origin target =
     (let f = pathParts origin; t = pathParts target; k = commonPrefix f t in
      joinWith ''/'' (replicate (length f - k) ''..'' @ drop k t))"

definition isInside :: "string \<Rightarrow> string \<Rightarrow> bool" where
  "isInside parent candidate =
     (let r = posixRelative parent candidate in r = [] \<or> (r \<noteq> ''..'' \<and> \<not> startsWith r ''../'' \<and> \<not> isAbsolutePath r))"

definition posixDirname :: "string \<Rightarrow> string" where
  "posixDirname p = (let ps = splitOn slash p in if length ps \<le> 2 then ''/'' else joinWith ''/'' (butlast ps))"

record PackageManifest =
  pmAgentDirectories :: "string list"

definition checkPackageManifest :: "PackageManifest \<Rightarrow> bool" where
  "checkPackageManifest m =
     (list_all (\<lambda>d. 1 \<le> length d \<and> length d \<le> 1024) (pmAgentDirectories m)
      \<and> 1 \<le> length (pmAgentDirectories m) \<and> length (pmAgentDirectories m) \<le> 16 \<and> distinct (pmAgentDirectories m))"

definition parsePackageManifest :: "PackageManifest decoded \<Rightarrow> PackageManifest res" where
  "parsePackageManifest d =
     (case d of
        NotJson \<Rightarrow> Inl (Err ''invalid package agent manifest JSON'')
      | Decoded revision v \<Rightarrow>
          andThen (case revision of None \<Rightarrow> Inr ()
                     | Some n \<Rightarrow> require (n = CONTRACT_REVISION) (IncompatibleRevision n)) (\<lambda>_.
            case v of
              None \<Rightarrow> Inl (Err ''invalid package agent manifest schema'')
            | Some m \<Rightarrow> if checkPackageManifest m then Inr m else Inl (Err ''invalid package agent manifest schema'')))"

definition addPackageDirectory :: "HostFiles \<Rightarrow> string \<Rightarrow> string \<Rightarrow> string list \<Rightarrow> string list res" where
  "addPackageDirectory fs packageRoot configured found =
     (if isAbsolutePath configured then Inl (Err ''package agent directory must be relative'')
      else (case hfRealpath fs (posixJoin packageRoot configured) of
              Inl _ \<Rightarrow> Inl (Err (''package agent directory unavailable: '' @ configured))
            | Inr directory \<Rightarrow>
                if \<not> isInside packageRoot directory
                then Inl (Err (''package agent directory escapes package: '' @ configured))
                else andThen (hfNode fs directory) (\<lambda>node.
                  if (case node of HostDir _ \<Rightarrow> False | _ \<Rightarrow> True)
                  then Inl (Err (''package agent source is not a directory: '' @ configured))
                  else if directory \<in> set found
                  then Inl (Err (''duplicate canonical package agent directory: '' @ configured))
                  else Inr (found @ [directory]))))"

definition discoverPackageAgentSources ::
  "HostFiles \<Rightarrow> (string \<Rightarrow> PackageManifest decoded) \<Rightarrow> string \<Rightarrow> (ResourceDigest \<times> AgentSource list) res" where
  "discoverPackageAgentSources fs parseManifest manifestPath =
     andThen (hfNode fs manifestPath) (\<lambda>node.
       if (case node of HostLink _ \<Rightarrow> True | _ \<Rightarrow> False) then Inl (Err ''package agent manifest symlink denied'')
       else andThen (digestFileResource fs \<lparr>dlMaxFiles = 1, dlMaxBytes = 256 * 1024\<rparr> manifestPath) (\<lambda>manifest.
            andThen (readTextFile fs (rdPath manifest)) (\<lambda>content.
            andThen (parsePackageManifest (parseManifest content)) (\<lambda>m.
            andThen (foldRes (addPackageDirectory fs (posixDirname (rdPath manifest))) (pmAgentDirectories m) []) (\<lambda>found.
              Inr (manifest, map packageSource found))))))"

subsection \<open>Which definition a name gets\<close>

lemma foldRes_prefix:
  assumes "foldRes f xs s = Inr s'" and "I [] s"
    and "\<And>pre x post s s'. xs = pre @ x # post \<Longrightarrow> I pre s \<Longrightarrow> f x s = Inr s' \<Longrightarrow> I (pre @ [x]) s'"
  shows "I xs s'"
proof -
  have "foldRes f ys t = Inr s' \<Longrightarrow> xs = zs @ ys \<Longrightarrow> I zs t \<Longrightarrow> I xs s'" for ys zs t
  proof (induction ys arbitrary: zs t)
    case (Cons y ys)
    then obtain u where u: "f y t = Inr u" "foldRes f ys u = Inr s'" by auto
    show ?case using Cons.IH [OF u(2), of "zs @ [y]"] assms(3) [OF Cons.prems(2,3) u(1)] Cons.prems(2) by simp
  qed simp
  then show ?thesis using assms(1,2) by blast
qed

lemma admittedModels_Inr:
  "admittedModels f = Inr ms \<Longrightarrow>
     (case fmModel f of Some m \<Rightarrow> modelKey m \<in> set ms | None \<Rightarrow> INHERIT_MODEL \<in> set ms \<or> HOST_MODEL \<in> set ms)"
  by (auto simp: admittedModels_def Let_def split: option.splits if_splits)

lemma loadAgent_Inr:
  assumes "loadAgent h dir entry scope = Inr a"
  shows "agentScope a = scope \<and> entry = agentName a @ ''.md''
    \<and> (case defaultModel a of Some m \<Rightarrow> modelKey m \<in> set (allowedModels a)
        | None \<Rightarrow> INHERIT_MODEL \<in> set (allowedModels a) \<or> HOST_MODEL \<in> set (allowedModels a))"
proof -
  from assms obtain f where "admittedModels f = Inr (allowedModels a)" "defaultModel a = fmModel f"
    "entry = fmName f @ ''.md''" "agentName a = fmName f" "agentScope a = scope"
    by (auto simp: loadAgent_def Let_def agentFrom_def)
  then show ?thesis using admittedModels_Inr by fastforce
qed

text \<open>
  Of the sources read so far, every definition selected comes from one of them under its scope, and every
  definition one of them has was selected or replaced by one of a scope at least as high.
\<close>

definition fromSources :: "AgentHost \<Rightarrow> AgentSource list \<Rightarrow> (string \<Rightarrow> AgentDefinition option) \<Rightarrow> bool" where
  "fromSources h srcs m =
     (\<forall>n a. m n = Some a \<longrightarrow> agentName a = n
        \<and> (\<exists>s \<in> set srcs. agentScope a = srcScope s \<and> loadAgent h (srcDirectory s) (n @ ''.md'') (srcScope s) = Inr a))"

definition covers :: "AgentScope \<Rightarrow> string \<Rightarrow> (string \<Rightarrow> AgentDefinition option) \<Rightarrow> bool" where
  "covers scope n m = (\<exists>a. m n = Some a \<and> scopePriority scope \<le> scopePriority (agentScope a))"

definition offers :: "AgentHost \<Rightarrow> AgentSource \<Rightarrow> string \<Rightarrow> bool" where
  "offers h s n = (\<exists>names. ahReaddir h (srcDirectory s) = Inr names \<and> n @ ''.md'' \<in> set names)"

definition offersIn :: "string list \<Rightarrow> string \<Rightarrow> bool" where
  "offersIn names n = (n @ ''.md'' \<in> set names)"

lemma addAgent_Inr:
  assumes "addAgent h s entry d = Inr d'"
  shows "\<exists>a. loadAgent h (srcDirectory s) entry (srcScope s) = Inr a \<and> dsSelected d' = (dsSelected d)(agentName a \<mapsto> a)
    \<and> agentScope a = srcScope s \<and> entry = agentName a @ ''.md''"
  using assms loadAgent_Inr by (fastforce simp: addAgent_def require_def split: if_splits)

text \<open>Within one source: what was there stays or is replaced by this source, whose scope is at least as high.\<close>

definition ranked :: "nat \<Rightarrow> (string \<Rightarrow> AgentDefinition option) \<Rightarrow> bool" where
  "ranked k m = (\<forall>n a. m n = Some a \<longrightarrow> scopePriority (agentScope a) \<le> k)"

lemma addEntries:
  assumes "foldRes (addAgent h s) entries d = Inr d'" and "fromSources h srcs (dsSelected d)"
    and "ranked (scopePriority (srcScope s)) (dsSelected d)"
  shows "fromSources h (srcs @ [s]) (dsSelected d') \<and> ranked (scopePriority (srcScope s)) (dsSelected d')
    \<and> (\<forall>scope n. covers scope n (dsSelected d) \<longrightarrow> covers scope n (dsSelected d'))
    \<and> (\<forall>n. n @ ''.md'' \<in> set entries \<longrightarrow> covers (srcScope s) n (dsSelected d'))"
proof -
  define I where "I pre e \<longleftrightarrow> fromSources h (srcs @ [s]) (dsSelected e) \<and> ranked (scopePriority (srcScope s)) (dsSelected e)
    \<and> (\<forall>scope n. covers scope n (dsSelected d) \<longrightarrow> covers scope n (dsSelected e))
    \<and> (\<forall>n. n @ ''.md'' \<in> set pre \<longrightarrow> covers (srcScope s) n (dsSelected e))" for pre :: "string list" and e :: Discovery
  have "I entries d'"
  proof (rule foldRes_prefix [OF assms(1)])
    show "I [] d" using assms(2,3) by (auto simp: I_def fromSources_def)
  next
    fix pre x post e e'
    assume I: "I pre e" and step: "addAgent h s x e = Inr e'"
    from addAgent_Inr [OF step] obtain a where a: "loadAgent h (srcDirectory s) x (srcScope s) = Inr a"
      "dsSelected e' = (dsSelected e)(agentName a \<mapsto> a)" "agentScope a = srcScope s" "x = agentName a @ ''.md''" by blast
    have "fromSources h (srcs @ [s]) (dsSelected e')" using I a by (auto simp: I_def fromSources_def)
    moreover have r: "ranked (scopePriority (srcScope s)) (dsSelected e')" using I a by (auto simp: I_def ranked_def)
    moreover have mono: "covers scope n (dsSelected e')" if "covers scope n (dsSelected e)" for scope n
      using that I a by (auto simp: covers_def I_def ranked_def intro: order_trans)
    moreover have "covers (srcScope s) n (dsSelected e')" if "n @ ''.md'' \<in> set (pre @ [x])" for n
    proof (cases "n @ ''.md'' \<in> set pre")
      case True
      then show ?thesis using I mono by (auto simp: I_def)
    next
      case False
      then have "n = agentName a" using that a(4) by auto
      then show ?thesis using a by (auto simp: covers_def)
    qed
    ultimately show "I (pre @ [x]) e'" using I by (auto simp: I_def)
  qed
  then show ?thesis by (auto simp: I_def)
qed

text \<open>What holds of a discovery after some of its sources, read in the order of their scopes.\<close>

definition discovered :: "AgentHost \<Rightarrow> AgentSource list \<Rightarrow> Discovery \<Rightarrow> bool" where
  "discovered h before d =
     (fromSources h before (dsSelected d)
      \<and> (\<forall>s \<in> set before. srcScope s = AgentProject \<longrightarrow> srcTrusted s)
      \<and> (\<forall>s \<in> set before. \<forall>n. offers h s n \<longrightarrow> covers (srcScope s) n (dsSelected d)))"

lemma addSource_discovered:
  assumes "addSource h s d = Inr d'" and "discovered h before d"
    and "\<forall>t \<in> set before. scopePriority (srcScope t) \<le> scopePriority (srcScope s)"
  shows "discovered h (before @ [s]) d'"
proof -
  have trusted: "srcScope s = AgentProject \<longrightarrow> srcTrusted s" using assms(1) by (auto simp: addSource_def split: if_splits)
  have ranked: "ranked (scopePriority (srcScope s)) (dsSelected d)"
    using assms(2,3) by (fastforce simp: discovered_def fromSources_def ranked_def)
  show ?thesis
  proof (cases "ahReaddir h (srcDirectory s)")
    case (Inl e)
    then have "d' = d" "\<not> offers h s n" for n using assms(1) by (auto simp: addSource_def offers_def split: error.splits if_splits)
    then show ?thesis using assms(2) trusted by (auto simp: discovered_def fromSources_def)
  next
    case (Inr names)
    then have "foldRes (addAgent h s) (sort (filter (\<lambda>n. endsWith n ''.md'') names)) d = Inr d'"
      using assms(1) by (auto simp: addSource_def split: if_splits)
    from addEntries [OF this _ ranked, of before] assms(2) have *:
      "fromSources h (before @ [s]) (dsSelected d')"
      "\<And>scope n. covers scope n (dsSelected d) \<Longrightarrow> covers scope n (dsSelected d')"
      "\<And>n. n @ ''.md'' \<in> set names \<Longrightarrow> covers (srcScope s) n (dsSelected d')"
      by (auto simp: discovered_def endsWith_def)
    then show ?thesis using assms(2) trusted Inr by (auto simp: discovered_def offers_def)
  qed
qed

text \<open>
  C21: A name is resolved by the scope of its sources: builtin, package, global, project, later ones
  winning. The definition selected comes from a file of that name in one of the sources and carries that
  source's scope; every source that has the name is of that scope or a lower one; no untrusted project
  source was read; and its default model, when it has one, is one its own fence admits.
\<close>

theorem agents_resolved_by_precedence:
  assumes "discoverAgents h sources = Inr m" and "m n = Some a"
  shows "(\<exists>s \<in> set sources. agentScope a = srcScope s \<and> loadAgent h (srcDirectory s) (n @ ''.md'') (srcScope s) = Inr a)
    \<and> (\<forall>s \<in> set sources. (srcScope s = AgentProject \<longrightarrow> srcTrusted s)
         \<and> (offers h s n \<longrightarrow> scopePriority (srcScope s) \<le> scopePriority (agentScope a)))
    \<and> (case defaultModel a of Some d \<Rightarrow> modelKey d \<in> set (allowedModels a)
       | None \<Rightarrow> INHERIT_MODEL \<in> set (allowedModels a) \<or> HOST_MODEL \<in> set (allowedModels a))"
proof -
  let ?srcs = "sort_key (\<lambda>s. scopePriority (srcScope s)) sources"
  from assms(1) obtain d where d: "foldRes (addSource h) ?srcs \<lparr>dsSelected = (\<lambda>_. None), dsIdentities = []\<rparr> = Inr d"
    "m = dsSelected d" by (auto simp: discoverAgents_def)
  have "discovered h ?srcs d"
  proof (rule foldRes_prefix [OF d(1)])
    show "discovered h [] \<lparr>dsSelected = \<lambda>_. None, dsIdentities = []\<rparr>" by (simp add: discovered_def fromSources_def)
  next
    fix pre x post e e'
    assume "?srcs = pre @ x # post" "discovered h pre e" "addSource h x e = Inr e'"
    moreover have "sorted (map (\<lambda>s. scopePriority (srcScope s)) ?srcs)" by simp
    ultimately show "discovered h (pre @ [x]) e'"
      by (intro addSource_discovered) (auto simp: sorted_append)
  qed
  then have *: "fromSources h ?srcs m" "\<And>s. s \<in> set sources \<Longrightarrow> srcScope s = AgentProject \<Longrightarrow> srcTrusted s"
    "\<And>s. s \<in> set sources \<Longrightarrow> offers h s n \<Longrightarrow> covers (srcScope s) n m"
    by (auto simp: discovered_def d(2))
  from *(1) assms(2) obtain s where s: "s \<in> set sources" "agentScope a = srcScope s"
    "loadAgent h (srcDirectory s) (n @ ''.md'') (srcScope s) = Inr a" by (auto simp: fromSources_def)
  moreover have "offers h t n \<longrightarrow> scopePriority (srcScope t) \<le> scopePriority (agentScope a)" if "t \<in> set sources" for t
    using *(3) [OF that] assms(2) by (auto simp: covers_def)
  ultimately show ?thesis using *(2) loadAgent_Inr [OF s(3)] by blast
qed

definition demoFrontmatter :: AgentFrontmatter where
  "demoFrontmatter = \<lparr>fmName = ''a'', fmModel = None, fmAllowedModels = Some [''inherit''], fmTools = [''read''], fmSkills = [],
     fmScopes = [], fmModes = [ReadOnly], fmLimits = planLimits demoPlan, fmMemoryBytes = None\<rparr>"

definition demoAgentHost :: AgentHost where
  "demoAgentHost = \<lparr>ahReaddir = \<lambda>d. if d = ''/none'' then Inl Enoent else Inr [''b.txt'', ''a.md''],
     ahFiles = \<lparr>hfRealpath = Inr, hfNode = \<lambda>p. Inr (HostFile (fenceOpen @ ''x'' @ fenceClose @ p) False), hfSha256 = id\<rparr>,
     ahYaml = \<lambda>_. Some (Some demoFrontmatter)\<rparr>"

definition demoSources :: "AgentSource list" where
  "demoSources = [\<lparr>srcScope = AgentProject, srcDirectory = ''/p'', srcTrusted = True\<rparr>,
     \<lparr>srcScope = AgentBuiltin, srcDirectory = ''/b'', srcTrusted = True\<rparr>,
     \<lparr>srcScope = AgentGlobal, srcDirectory = ''/none'', srcTrusted = True\<rparr>]"

lemma demo_discovery:
  "case discoverAgents demoAgentHost demoSources of Inl _ \<Rightarrow> False
   | Inr m \<Rightarrow> map_option agentPrompt (m ''a'') = Some ''/p/a.md''"
  by code_simp

lemma demo_offers: "offers demoAgentHost (demoSources ! 0) ''a''"
  by (simp add: offers_def demoSources_def demoAgentHost_def)

theorem agents_resolved_by_precedence_witness:
  "\<exists>m a. discoverAgents demoAgentHost demoSources = Inr m \<and> m ''a'' = Some a \<and> scopePriority (agentScope a) \<ge> 3"
proof -
  obtain m a where d: "discoverAgents demoAgentHost demoSources = Inr m" "m ''a'' = Some a"
    using demo_discovery by (auto split: sum.splits)
  have "demoSources ! 0 \<in> set demoSources" "srcScope (demoSources ! 0) = AgentProject" by (simp_all add: demoSources_def)
  then have "scopePriority AgentProject \<le> scopePriority (agentScope a)"
    using agents_resolved_by_precedence [OF d] demo_offers by metis
  then show ?thesis using d by auto
qed

subsection \<open>Package directories stay inside the package\<close>

lemma pathParts_proper: "c \<in> set (pathParts p) \<Longrightarrow> properName c"
proof -
  have *: "\<forall>c \<in> set (fold (pushPart True) ps acc). properName c"
    if "\<forall>c \<in> set ps. slash \<notin> set c" and "\<forall>c \<in> set acc. properName c" for ps acc
    using that
  proof (induction ps arbitrary: acc)
    case (Cons p ps)
    have "\<forall>c \<in> set (pushPart True p acc). properName c"
      using Cons.prems by (auto simp: pushPart_def properName_def split: list.splits if_splits)
    then show ?case using Cons by simp
  qed simp
  assume "c \<in> set (pathParts p)"
  then show "properName c"
    using * [of "splitOn slash p" "[]"] splitOn_free by (auto simp: pathParts_def normParts_def)
qed

lemma commonPrefix_take: "commonPrefix as bs \<le> length as \<and> take (commonPrefix as bs) bs = take (commonPrefix as bs) as"
  by (induction as bs rule: commonPrefix.induct) auto

lemma joinWith_slash_head:
  "ps \<noteq> [] \<Longrightarrow> joinWith ''/'' ps = hd ps \<or> (\<exists>t. joinWith ''/'' ps = hd ps @ slash # t)"
  by (cases ps; cases "tl ps") auto

lemma first_component:
  assumes "hd (splitOn slash r) = c" and "properName c"
  shows "r \<noteq> ''..'' \<and> \<not> startsWith r ''../'' \<and> \<not> isAbsolutePath r"
proof -
  have "hd (splitOn slash r) = ''..''" if "startsWith r ''../''"
  proof -
    have "r = ''../'' @ drop (length ''../'') r"
      using that append_take_drop_id [of "length ''../''" r] by (simp only: startsWith_def)
    then obtain t where "r = ''../'' @ t" by blast
    then show ?thesis by simp
  qed
  moreover have "hd (splitOn slash r) = []" if "isAbsolutePath r"
    using that by (cases r) (auto simp: isAbsolutePath_def startsWith_def)
  moreover have "hd (splitOn slash ''..'') = ''..''" by simp
  ultimately show ?thesis using assms by (auto simp: properName_def)
qed

text \<open>Inside means that the parent's components begin the candidate's.\<close>

lemma isInside_iff: "isInside parent candidate \<longleftrightarrow> take (length (pathParts parent)) (pathParts candidate) = pathParts parent"
proof -
  let ?f = "pathParts parent" and ?t = "pathParts candidate"
  let ?k = "commonPrefix ?f ?t"
  let ?ps = "replicate (length ?f - ?k) ''..'' @ drop ?k ?t"
  note k = commonPrefix_take [of ?f ?t]
  have rel: "posixRelative parent candidate = joinWith ''/'' ?ps" by (simp add: posixRelative_def Let_def)
  show ?thesis
  proof (cases "?k = length ?f")
    case True
    then have all: "?ps = drop ?k ?t" by simp
    have "isInside parent candidate"
    proof (cases "?ps = []")
      case True
      then show ?thesis by (simp add: isInside_def rel Let_def)
    next
      case False
      have proper: "\<forall>c \<in> set ?ps. properName c" using pathParts_proper all by (metis in_set_dropD)
      then have "splitOn slash (joinWith ''/'' ?ps) = ?ps"
        using splitOn_joinWith [of ?ps slash] False by (simp add: properName_def)
      then show ?thesis using first_component [of "joinWith ''/'' ?ps"] proper hd_in_set [OF False]
        by (simp add: isInside_def rel Let_def)
    qed
    then show ?thesis using k True by simp
  next
    case False
    then have "?ps \<noteq> []" "hd ?ps = ''..''" using k by (cases "length ?f - ?k"; simp)+
    then have "\<not> isInside parent candidate"
      using joinWith_slash_head [of ?ps] by (auto simp: isInside_def rel Let_def startsWith_def)
    moreover have "take (length ?f) ?t \<noteq> ?f"
    proof
      assume "take (length ?f) ?t = ?f"
      moreover have "take (length as) bs = as \<Longrightarrow> commonPrefix as bs = length as" for as bs
        by (induction as bs rule: commonPrefix.induct) auto
      ultimately show False using False by blast
    qed
    ultimately show ?thesis by simp
  qed
qed

text \<open>
  The agent directories of a package are inside the package. Every source a manifest yields is a
  trusted directory at package scope whose resolved path is the manifest's directory or below it, and no
  two of them are the same directory.
\<close>

theorem package_sources_stay_inside:
  assumes "discoverPackageAgentSources fs parseManifest p = Inr (manifest, sources)"
  shows "distinct (map srcDirectory sources)
    \<and> (\<forall>s \<in> set sources. srcScope s = AgentPackage \<and> (\<exists>es. hfNode fs (srcDirectory s) = Inr (HostDir es))
         \<and> take (length (pathParts (posixDirname (rdPath manifest)))) (pathParts (srcDirectory s))
             = pathParts (posixDirname (rdPath manifest)))"
proof -
  let ?root = "posixDirname (rdPath manifest)"
  have "\<exists>(m :: PackageManifest) found. foldRes (addPackageDirectory fs ?root) (pmAgentDirectories m) [] = Inr found \<and> sources = map packageSource found"
    using assms by (fastforce simp: discoverPackageAgentSources_def split: if_splits)
  then obtain m :: PackageManifest and found where found: "foldRes (addPackageDirectory fs ?root) (pmAgentDirectories m) [] = Inr found"
    and sources: "sources = map packageSource found" by blast
  have "distinct found \<and> (\<forall>d \<in> set found. isInside ?root d \<and> (\<exists>es. hfNode fs d = Inr (HostDir es)))"
  proof (rule foldRes_invariant [OF found])
    fix c s s'
    assume "distinct s \<and> (\<forall>d \<in> set s. isInside ?root d \<and> (\<exists>es. hfNode fs d = Inr (HostDir es)))"
      and "addPackageDirectory fs ?root c s = Inr s'"
    then show "distinct s' \<and> (\<forall>d \<in> set s'. isInside ?root d \<and> (\<exists>es. hfNode fs d = Inr (HostDir es)))"
      by (auto simp: addPackageDirectory_def split: if_splits sum.splits hostNode.splits)
  qed simp
  then show ?thesis unfolding sources isInside_iff by (auto simp: packageSource_def comp_def)
qed

definition demoPackage :: HostFiles where
  "demoPackage = \<lparr>hfRealpath = Inr,
     hfNode = \<lambda>p. Inr (if p = ''/pkg/m'' then HostFile ''{}'' False else HostDir []), hfSha256 = id\<rparr>"

definition demoManifest :: "string \<Rightarrow> PackageManifest decoded" where
  "demoManifest _ = encoded \<lparr>pmAgentDirectories = [''agents'', ''./more'']\<rparr>"

lemma demo_package:
  "case discoverPackageAgentSources demoPackage demoManifest ''/pkg/m'' of Inl _ \<Rightarrow> False
   | Inr (_, s) \<Rightarrow> map srcDirectory s = [''/pkg/agents'', ''/pkg/more'']"
  by code_simp

theorem package_sources_stay_inside_witness:
  "\<exists>m s. discoverPackageAgentSources demoPackage demoManifest ''/pkg/m'' = Inr (m, s) \<and> distinct (map srcDirectory s)"
proof -
  obtain m s where d: "discoverPackageAgentSources demoPackage demoManifest ''/pkg/m'' = Inr (m, s)"
    using demo_package by (auto split: sum.splits prod.splits)
  then show ?thesis using package_sources_stay_inside [OF d] by blast
qed

end
