(* ===== verification/WorkspacePreflight.thy ===== *)
theory WorkspacePreflight
  imports Agents Worktrees Lineage
begin

section \<open>The workspace before a launch (\<open>src/preflight/workspace.ts\<close>)\<close>

text \<open>
  What a run will work on is named by two digests: of the place in the repository and of the state of its
  checkout, the baseline. A launch, a retry and a resume compute them again and refuse when they differ.
  Git's answers are a host's.
\<close>

definition MAX_UNTRACKED_FILES :: int where "MAX_UNTRACKED_FILES = 10000"
definition MAX_UNTRACKED_BYTES :: int where "MAX_UNTRACKED_BYTES = 256 * 1024 * 1024"

datatype commitLookup = CommitFound string | CommitUnknown | CommitFailed

record WorkspaceHost =
  whFiles :: HostFiles
  whToplevel :: "string \<Rightarrow> string res"                        \<comment> \<open>\<open>rev-parse --show-toplevel\<close>\<close>
  whHead :: "string \<Rightarrow> string res"
  whStatus :: "string \<Rightarrow> string res"
  whDiff :: "string \<Rightarrow> string res"
  whUntracked :: "string \<Rightarrow> string res"
  whRevParse :: "string \<Rightarrow> string \<Rightarrow> commitLookup"
  whRefsAt :: "string \<Rightarrow> string \<Rightarrow> string res"              \<comment> \<open>hand-off refs that point at a commit\<close>
  whParents :: "string \<Rightarrow> string \<Rightarrow> string res"

subsection \<open>Base64\<close>

definition base64Alphabet :: string where
  "base64Alphabet = ''ABCDEFGHIJKLMNOPQRSTUVWXYZabcdefghijklmnopqrstuvwxyz0123456789+/''"

definition base64Digit :: "nat \<Rightarrow> char" where
  "base64Digit n = base64Alphabet ! n"

definition byte :: "char \<Rightarrow> nat" where "byte c = of_char c"

fun base64 :: "string \<Rightarrow> string" where
  "base64 [] = []"
| "base64 [a] = [base64Digit (byte a div 4), base64Digit (byte a mod 4 * 16), CHR ''='', CHR ''='']"
| "base64 [a, b] = [base64Digit (byte a div 4), base64Digit (byte a mod 4 * 16 + byte b div 16),
     base64Digit (byte b mod 16 * 4), CHR ''='']"
| "base64 (a # b # c # s) =
     [base64Digit (byte a div 4), base64Digit (byte a mod 4 * 16 + byte b div 16),
      base64Digit (byte b mod 16 * 4 + byte c div 64), base64Digit (byte c mod 64)] @ base64 s"

lemma base64Digit_inj: "m < 64 \<Longrightarrow> n < 64 \<Longrightarrow> base64Digit m = base64Digit n \<longleftrightarrow> m = n"
proof -
  have "distinct base64Alphabet" "length base64Alphabet = 64" by (simp_all add: base64Alphabet_def)
  then show "m < 64 \<Longrightarrow> n < 64 \<Longrightarrow> base64Digit m = base64Digit n \<longleftrightarrow> m = n"
    unfolding base64Digit_def by (simp add: nth_eq_iff_index_eq)
qed

lemma base64Digit_pad: "n < 64 \<Longrightarrow> base64Digit n \<noteq> CHR ''=''"
proof -
  have "CHR ''='' \<notin> set base64Alphabet" "length base64Alphabet = 64" by (simp_all add: base64Alphabet_def)
  then show "n < 64 \<Longrightarrow> base64Digit n \<noteq> CHR ''=''" unfolding base64Digit_def by (metis nth_mem)
qed

lemma byte_bound [simp]: "byte c < 256"
  by (simp add: byte_def)

lemma byte_inj [simp]: "byte a = byte b \<longleftrightarrow> a = b"
  by (simp add: byte_def)

lemma byte_parts: "byte c div 4 < 64" "byte c div 16 < 16" "byte c div 64 < 4"
  using byte_bound [of c] by (simp_all add: less_mult_imp_div_less)

lemma byte_rests: "byte c mod 4 < 4" "byte c mod 16 < 16" "byte c mod 64 < 64"
  by simp_all

lemma sextets [simp]:
  "byte a div 4 < 64" "byte a mod 4 * 16 < 64" "byte a mod 4 * 16 + byte b div 16 < 64" "byte b mod 16 * 4 < 64"
  "byte b mod 16 * 4 + byte c div 64 < 64" "byte c mod 64 < 64"
  using byte_parts(1) [of a] byte_parts(2) [of b] byte_parts(3) [of c] byte_rests(1) [of a] byte_rests(2) [of b]
    byte_rests(3) [of c] by linarith+

lemma split_sum: "m * k + (x :: nat) = m' * k + y \<Longrightarrow> x < k \<Longrightarrow> y < k \<Longrightarrow> m = m' \<and> x = y"
proof -
  assume e: "m * k + x = m' * k + y" and x: "x < k" and y: "y < k"
  have "(m * k + x) div k = m" "(m' * k + y) div k = m'" using x y by simp_all
  then have "m = m'" by (simp only: e)
  then show "m = m' \<and> x = y" using e by simp
qed

lemma div_mod_eq: "(m :: nat) div k = n div k \<Longrightarrow> m mod k = n mod k \<Longrightarrow> m = n"
  by (metis div_mult_mod_eq)

lemma sextets_determine:
  "byte a div 4 = byte a' div 4 \<Longrightarrow> byte a mod 4 * 16 + byte b div 16 = byte a' mod 4 * 16 + byte b' div 16 \<Longrightarrow>
     a = a' \<and> byte b div 16 = byte b' div 16"
  "byte b div 16 = byte b' div 16 \<Longrightarrow> byte b mod 16 * 4 + byte c div 64 = byte b' mod 16 * 4 + byte c' div 64 \<Longrightarrow>
     b = b' \<and> byte c div 64 = byte c' div 64"
proof -
  note b = byte_parts(2) [of b] byte_parts(2) [of b'] byte_parts(3) [of c] byte_parts(3) [of c']
  show "byte a div 4 = byte a' div 4 \<Longrightarrow> byte a mod 4 * 16 + byte b div 16 = byte a' mod 4 * 16 + byte b' div 16 \<Longrightarrow>
     a = a' \<and> byte b div 16 = byte b' div 16"
    using split_sum [of "byte a mod 4" 16 _ "byte a' mod 4"] b(1,2) div_mod_eq byte_inj by blast
  show "byte b div 16 = byte b' div 16 \<Longrightarrow> byte b mod 16 * 4 + byte c div 64 = byte b' mod 16 * 4 + byte c' div 64 \<Longrightarrow>
     b = b' \<and> byte c div 64 = byte c' div 64"
    using split_sum [of "byte b mod 16" 4 _ "byte b' mod 16"] b(3,4) div_mod_eq byte_inj by blast
qed

lemma base64_inj: "base64 s = base64 t \<Longrightarrow> s = t"
proof (induction s arbitrary: t rule: base64.induct)
  case 1
  then show ?case by (cases t rule: base64.cases) auto
next
  case (2 a)
  then show ?case
    by (cases t rule: base64.cases) (auto simp: base64Digit_inj base64Digit_pad base64Digit_pad [symmetric] dest: div_mod_eq)
next
  case (3 a b)
  show ?case
  proof (cases t rule: base64.cases)
    case (3 a' b')
    then have e: "byte a div 4 = byte a' div 4" "byte a mod 4 * 16 + byte b div 16 = byte a' mod 4 * 16 + byte b' div 16"
      "byte b mod 16 = byte b' mod 16" using 3 \<open>base64 [a, b] = base64 t\<close> by (simp_all add: base64Digit_inj)
    then show ?thesis using sextets_determine(1) [OF e(1,2)] div_mod_eq 3 byte_inj by blast
  qed (use \<open>base64 [a, b] = base64 t\<close> in \<open>simp_all add: base64Digit_pad base64Digit_pad [symmetric]\<close>)
next
  case (4 a b c s)
  show ?case
  proof (cases t rule: base64.cases)
    case (4 a' b' c' s')
    then have e: "byte a div 4 = byte a' div 4" "byte a mod 4 * 16 + byte b div 16 = byte a' mod 4 * 16 + byte b' div 16"
      "byte b mod 16 * 4 + byte c div 64 = byte b' mod 16 * 4 + byte c' div 64" "byte c mod 64 = byte c' mod 64"
      "base64 s = base64 s'"
      using \<open>base64 (a # b # c # s) = base64 t\<close> by (simp_all add: base64Digit_inj)
    note one = sextets_determine(1) [OF e(1,2)]
    note two = sextets_determine(2) [OF conjunct2 [OF one] e(3)]
    have "c = c'" using div_mod_eq [OF conjunct2 [OF two] e(4)] by simp
    then show ?thesis using one two e(5) 4 \<open>\<And>t. base64 s = base64 t \<Longrightarrow> s = t\<close> by blast
  qed (use \<open>base64 (a # b # c # s) = base64 t\<close> in \<open>simp_all add: base64Digit_pad base64Digit_pad [symmetric]\<close>)
qed

subsection \<open>The state of a checkout\<close>

definition gitOutput :: "string res \<Rightarrow> string res" where
  "gitOutput r = (case r of Inl _ \<Rightarrow> Inl (Err ''git preflight failed'') | Inr s \<Rightarrow> Inr s)"

definition posixResolve :: "string \<Rightarrow> string \<Rightarrow> string" where
  "posixResolve dir p = ''/'' @ joinWith ''/'' (pathParts (if isAbsolutePath p then p else dir @ ''/'' @ p))"

record UntrackedEntry =
  unPath :: string
  unIsLink :: bool
  unSha256 :: string

definition addUntracked :: "HostFiles \<Rightarrow> string \<Rightarrow> string \<Rightarrow> int \<times> UntrackedEntry list \<Rightarrow> (int \<times> UntrackedEntry list) res" where
  "addUntracked fs rootDir p acc =
     (let absolute = posixResolve rootDir p in
      if \<not> isInside rootDir absolute then Inl (Err ''untracked path escapes repository'')
      else andThen (hfNode fs absolute) (\<lambda>node.
           andThen (case node of
                      HostLink target \<Rightarrow> Inr (target, True)
                    | HostFile content _ \<Rightarrow> Inr (content, False)
                    | _ \<Rightarrow> Inl (Err (''unsupported untracked entry: '' @ p))) (\<lambda>(content, link).
             let bytes = fst acc + int (length content) in
             if bytes > MAX_UNTRACKED_BYTES then Inl (Err ''untracked files exceed byte limit'')
             else Inr (bytes, snd acc @ [\<lparr>unPath = p, unIsLink = link, unSha256 = hfSha256 fs content\<rparr>]))))"

definition digestUntracked :: "HostFiles \<Rightarrow> string \<Rightarrow> string list \<Rightarrow> UntrackedEntry list res" where
  "digestUntracked fs rootDir paths =
     (if int (length paths) > MAX_UNTRACKED_FILES then Inl (Err ''untracked files exceed count limit'')
      else andThen (foldRes (addUntracked fs rootDir) (sort paths) (0, [])) (\<lambda>acc. Inr (snd acc)))"

text \<open>What the baseline is the digest of; the last part only for a dirty checkout.\<close>

record Baseline =
  blHead :: string
  blStartAt :: "string option"
  blChanges :: "(string \<times> string \<times> UntrackedEntry list) option"     \<comment> \<open>status, diff, untracked\<close>

definition untrackedJs :: "UntrackedEntry \<Rightarrow> jsval" where
  "untrackedJs e = vobj [(''path'', Some (VStr (unPath e))),
     (''type'', Some (VStr (if unIsLink e then ''symlink'' else ''file''))), (''sha256'', Some (VStr (unSha256 e)))]"

definition baselineJs :: "Baseline \<Rightarrow> jsval" where
  "baselineJs b = vobj [(''head'', Some (VStr (blHead b))), (''startAt'', map_option VStr (blStartAt b)),
     (''status'', map_option (\<lambda>c. VStr (base64 (fst c))) (blChanges b)),
     (''diff'', map_option (\<lambda>c. VStr (base64 (fst (snd c)))) (blChanges b)),
     (''untracked'', map_option (\<lambda>c. VArr (map untrackedJs (snd (snd c)))) (blChanges b))]"

definition checkoutChanges :: "WorkspaceHost \<Rightarrow> string \<Rightarrow> string \<Rightarrow> (string \<times> string \<times> UntrackedEntry list) option res" where
  "checkoutChanges h rootDir status =
     (if status = [] then Inr None
      else andThen (gitOutput (whDiff h rootDir)) (\<lambda>diff.
           andThen (gitOutput (whUntracked h rootDir)) (\<lambda>others.
           andThen (digestUntracked (whFiles h) rootDir (filter (\<lambda>p. p \<noteq> []) (splitOn (CHR 0x00) others))) (\<lambda>untracked.
             Inr (Some (status, diff, untracked))))))"

subsection \<open>Preflight\<close>

definition repeatWorkspaceRequest :: "RunWorkspace \<Rightarrow> WorkspaceRequest" where
  "repeatWorkspaceRequest w = \<lparr>requestMode = rwMode w, requestCwd = rwCwd w, requestStartAt = truthy (rwStartAt w)\<rparr>"

text \<open>\<open>split(/\s+/)\<close> of a trimmed text.\<close>

function wordsOf :: "string \<Rightarrow> string list" where
  "wordsOf s = (if dropWhile (\<lambda>c. \<not> is_space c) s = [] then [s]
     else takeWhile (\<lambda>c. \<not> is_space c) s # wordsOf (dropWhile is_space (dropWhile (\<lambda>c. \<not> is_space c) s)))"
  by pat_completeness auto

termination
proof (relation "measure length")
  fix s :: string assume "dropWhile (\<lambda>c. \<not> is_space c) s \<noteq> []"
  then have "is_space (hd (dropWhile (\<lambda>c. \<not> is_space c) s))" using hd_dropWhile by blast
  then have "length (dropWhile is_space (dropWhile (\<lambda>c. \<not> is_space c) s)) < length (dropWhile (\<lambda>c. \<not> is_space c) s)"
    using \<open>dropWhile _ s \<noteq> []\<close> by (cases "dropWhile (\<lambda>c. \<not> is_space c) s") (auto simp: length_dropWhile_le le_imp_less_Suc)
  also have "\<dots> \<le> length s" by (rule length_dropWhile_le)
  finally show "(dropWhile is_space (dropWhile (\<lambda>c. \<not> is_space c) s), s) \<in> measure length" by simp
qed simp

declare wordsOf.simps [simp del]

definition matchesHandoffRef :: "string \<Rightarrow> bool" where
  "matchesHandoffRef s =
     (startsWith s HANDOFF_REF_PREFIX
      \<and> (case splitOn CHR ''/'' (drop (length HANDOFF_REF_PREFIX) s) of
           [r, a] \<Rightarrow> startsWith r ''run_'' \<and> drop 4 r \<noteq> [] \<and> list_all lowerAlnum (drop 4 r)
             \<and> startsWith a ''attempt_'' \<and> drop 8 a \<noteq> [] \<and> list_all lowerAlnum (drop 8 a)
         | _ \<Rightarrow> False))"

definition verifyStartAt :: "WorkspaceHost \<Rightarrow> string \<Rightarrow> string \<Rightarrow> string \<Rightarrow> unit res" where
  "verifyStartAt h rootDir startAt head =
     andThen (case whRevParse h rootDir startAt of
                CommitFound c \<Rightarrow> require (trim c = startAt) (Err ''workspace startAt commit does not exist in the repository'')
              | CommitUnknown \<Rightarrow> Inl (Err ''workspace startAt commit does not exist in the repository'')
              | CommitFailed \<Rightarrow> Inl (Err ''git preflight failed: rev-parse'')) (\<lambda>_.
     andThen (gitOutput (whRefsAt h rootDir startAt)) (\<lambda>refs.
     andThen (require (list_ex matchesHandoffRef (filter (\<lambda>r. r \<noteq> []) (splitOn newline refs)))
                (Err ''workspace startAt is not the target of a hand-off ref in this repository'')) (\<lambda>_.
     andThen (gitOutput (whParents h rootDir startAt)) (\<lambda>out.
       let ps = wordsOf (trim out) in
       require (length ps = 2 \<and> ps ! 1 = head)
         (Err ''workspace startAt must have exactly one parent, the repository HEAD'')))))"

definition hostPathJs :: "string \<Rightarrow> string \<Rightarrow> jsval" where
  "hostPathJs rootDir relativeCwd = vobj [(''repositoryRoot'', Some (VStr rootDir)), (''relativeCwd'', Some (VStr relativeCwd))]"

definition relativeCwdOf :: "string \<Rightarrow> string \<Rightarrow> string" where
  "relativeCwdOf rootDir cwd = (let r = posixRelative rootDir cwd in if r = [] then ''.'' else r)"

definition verifyRequestedStart :: "WorkspaceHost \<Rightarrow> string \<Rightarrow> string option \<Rightarrow> string \<Rightarrow> unit res" where
  "verifyRequestedStart h rootDir startAt head = (case startAt of None \<Rightarrow> Inr () | Some c \<Rightarrow> verifyStartAt h rootDir c head)"

text \<open>The two digests and the resolved workspace.\<close>

definition resolvedWorkspace ::
  "(string \<Rightarrow> string) \<Rightarrow> WorkspaceRequest \<Rightarrow> string \<Rightarrow> string \<Rightarrow> bool \<Rightarrow> Baseline \<Rightarrow> RunWorkspace res" where
  "resolvedWorkspace sha request cwd rootDir dirty b =
     andThen (canonicalSha256 sha (baselineJs b)) (\<lambda>baseline.
     andThen (canonicalSha256 sha (hostPathJs rootDir (relativeCwdOf rootDir cwd))) (\<lambda>hostPath.
       Inr \<lparr>rwMode = requestMode request, rwRepositoryRoot = rootDir, rwCwd = cwd, rwRelativeCwd = relativeCwdOf rootDir cwd,
            rwHead = blHead b, rwDirty = dirty, rwHostPath = hostPath, rwBaseline = baseline,
            rwStartAt = blStartAt b\<rparr>))"

definition preflightWorkspace :: "(string \<Rightarrow> string) \<Rightarrow> WorkspaceHost \<Rightarrow> WorkspaceRequest \<Rightarrow> RunWorkspace res" where
  "preflightWorkspace sha h request =
     andThen (hfRealpath (whFiles h) (requestCwd request)) (\<lambda>cwd.
     andThen (gitOutput (whToplevel h cwd)) (\<lambda>toplevel.
     andThen (hfRealpath (whFiles h) (trim toplevel)) (\<lambda>rootDir.
     andThen (require (isInside rootDir cwd) (Err ''cwd is outside repository root'')) (\<lambda>_.
     andThen (gitOutput (whHead h rootDir)) (\<lambda>out.
     andThen (verifyRequestedStart h rootDir (requestStartAt request) (trim out)) (\<lambda>_.
     andThen (gitOutput (whStatus h rootDir)) (\<lambda>status.
     andThen (require (requestMode request = Worktree \<longrightarrow> status = []) (Err ''worktree workspace requires a clean repository'')) (\<lambda>_.
     andThen (checkoutChanges h rootDir status) (\<lambda>changes.
       resolvedWorkspace sha request cwd rootDir (status \<noteq> [])
         \<lparr>blHead = trim out, blStartAt = truthy (requestStartAt request), blChanges = changes\<rparr>)))))))))"

lemma resolvedWorkspace_Inr:
  assumes "resolvedWorkspace sha request cwd rootDir dirty b = Inr w"
  shows "rwMode w = requestMode request \<and> rwRepositoryRoot w = rootDir \<and> rwCwd w = cwd \<and> rwHead w = blHead b
    \<and> rwDirty w = dirty \<and> rwStartAt w = blStartAt b
    \<and> (\<exists>s. canonicalJson (baselineJs b) = Inr s \<and> rwBaseline w = sha s)"
  using assms by (auto simp: resolvedWorkspace_def canonicalSha256_def)

lemma preflightWorkspace_Inr:
  assumes "preflightWorkspace sha h request = Inr w"
  shows "\<exists>status changes. verifyRequestedStart h (rwRepositoryRoot w) (requestStartAt request) (rwHead w) = Inr ()
    \<and> isInside (rwRepositoryRoot w) (rwCwd w) \<and> (rwMode w = Worktree \<longrightarrow> \<not> rwDirty w)
    \<and> gitOutput (whStatus h (rwRepositoryRoot w)) = Inr status
    \<and> checkoutChanges h (rwRepositoryRoot w) status = Inr changes
    \<and> (\<exists>s. canonicalJson (baselineJs \<lparr>blHead = rwHead w, blStartAt = rwStartAt w, blChanges = changes\<rparr>) = Inr s
           \<and> rwBaseline w = sha s)"
proof -
  from assms obtain cwd rootDir out status changes where
    "isInside rootDir cwd" "verifyRequestedStart h rootDir (requestStartAt request) (trim out) = Inr ()"
    "gitOutput (whStatus h rootDir) = Inr status" "requestMode request = Worktree \<longrightarrow> status = []"
    "checkoutChanges h rootDir status = Inr changes"
    and w: "resolvedWorkspace sha request cwd rootDir (status \<noteq> [])
       \<lparr>blHead = trim out, blStartAt = truthy (requestStartAt request), blChanges = changes\<rparr> = Inr w"
    unfolding preflightWorkspace_def by auto
  with resolvedWorkspace_Inr [OF w] show ?thesis by auto
qed

subsection \<open>What a preflight establishes\<close>

text \<open>
  C19: A workspace passes preflight only in the state its mode requires. A worktree's repository is clean;
  the directory is inside the repository; and a run that starts at a hand-off starts at a commit that
  exists, that a hand-off ref of the repository points at, and whose only parent is the current HEAD.
\<close>

theorem preflight_workspace_is_sound:
  assumes "preflightWorkspace sha h request = Inr w"
  shows "(rwMode w = Worktree \<longrightarrow> \<not> rwDirty w) \<and> isInside (rwRepositoryRoot w) (rwCwd w)
    \<and> (\<forall>c. requestStartAt request = Some c \<longrightarrow>
         (\<exists>out refs parents. whRevParse h (rwRepositoryRoot w) c = CommitFound out \<and> trim out = c
            \<and> whRefsAt h (rwRepositoryRoot w) c = Inr refs \<and> (\<exists>r \<in> set (splitOn newline refs). matchesHandoffRef r)
            \<and> whParents h (rwRepositoryRoot w) c = Inr parents \<and> (\<exists>x. wordsOf (trim parents) = [x, rwHead w])))"
proof -
  have out: "gitOutput r = Inr s \<longleftrightarrow> r = Inr s" for r s by (auto simp: gitOutput_def split: sum.splits)
  have start: "verifyStartAt h rootDir c hd = Inr () \<Longrightarrow> \<exists>out refs parents. whRevParse h rootDir c = CommitFound out \<and> trim out = c
      \<and> whRefsAt h rootDir c = Inr refs \<and> (\<exists>r \<in> set (splitOn newline refs). matchesHandoffRef r)
      \<and> whParents h rootDir c = Inr parents \<and> (\<exists>x. wordsOf (trim parents) = [x, hd])" for rootDir c hd
    by (auto simp: verifyStartAt_def Let_def out list_ex_iff length_Suc_conv numeral_2_eq_2 split: commitLookup.splits)
  have "verifyRequestedStart h (rwRepositoryRoot w) (requestStartAt request) (rwHead w) = Inr ()"
    and rest: "isInside (rwRepositoryRoot w) (rwCwd w)" "rwMode w = Worktree \<longrightarrow> \<not> rwDirty w"
    using preflightWorkspace_Inr [OF assms] by blast+
  then have "verifyStartAt h (rwRepositoryRoot w) c (rwHead w) = Inr ()" if "requestStartAt request = Some c" for c
    using that by (simp add: verifyRequestedStart_def)
  then show ?thesis using start rest by blast
qed

definition demoWorkspaceHost :: WorkspaceHost where
  "demoWorkspaceHost = \<lparr>whFiles = \<lparr>hfRealpath = Inr, hfNode = \<lambda>_. Inr (HostFile ''n'' False), hfSha256 = id\<rparr>,
     whToplevel = \<lambda>_. Inr (''/r'' @ [newline]), whHead = \<lambda>_. Inr (replicate 40 CHR ''a'' @ [newline]),
     whStatus = \<lambda>_. Inr ''?? n'', whDiff = \<lambda>_. Inr [], whUntracked = \<lambda>_. Inr (''n'' @ [CHR 0x00]),
     whRevParse = \<lambda>_ c. CommitFound c,
     whRefsAt = \<lambda>_ _. Inr (handoffRefName ''run_a'' ''attempt_b''),
     whParents = \<lambda>_ c. Inr (c @ '' '' @ replicate 40 CHR ''a'')\<rparr>"

definition demoStartRequest :: WorkspaceRequest where
  "demoStartRequest = \<lparr>requestMode = ReadOnly, requestCwd = ''/r/sub'', requestStartAt = Some (replicate 40 CHR ''b'')\<rparr>"

lemma demo_workspace:
  "case preflightWorkspace id demoWorkspaceHost demoStartRequest of Inl _ \<Rightarrow> False
   | Inr w \<Rightarrow> rwRelativeCwd w = ''sub'' \<and> rwDirty w"
  by code_simp

theorem preflight_workspace_is_sound_witness:
  "\<exists>w. preflightWorkspace id demoWorkspaceHost demoStartRequest = Inr w \<and> isInside (rwRepositoryRoot w) (rwCwd w)"
proof -
  obtain w where w: "preflightWorkspace id demoWorkspaceHost demoStartRequest = Inr w"
    using demo_workspace by (auto split: sum.splits)
  then show ?thesis using preflight_workspace_is_sound [OF w] by blast
qed

subsection \<open>The baseline determines the checkout\<close>

definition checkoutBaseline :: "WorkspaceHost \<Rightarrow> RunWorkspace \<Rightarrow> Baseline res" where
  "checkoutBaseline h w =
     andThen (gitOutput (whStatus h (rwRepositoryRoot w))) (\<lambda>status.
     andThen (checkoutChanges h (rwRepositoryRoot w) status) (\<lambda>changes.
       Inr \<lparr>blHead = rwHead w, blStartAt = rwStartAt w, blChanges = changes\<rparr>))"

lemma wf_untrackedJs [simp]: "wf_js (untrackedJs e)"
  unfolding untrackedJs_def by (rule wf_vobj) auto

lemma wf_baselineJs [simp]: "wf_js (baselineJs b)"
  unfolding baselineJs_def by (rule wf_vobj) (auto simp: wf_jss_iff)

lemma same_untrackedJs: "same (untrackedJs e) (untrackedJs f) \<Longrightarrow> f = e"
  unfolding untrackedJs_def by (drule vobj_same) (auto split: if_splits intro!: UntrackedEntry.equality)

lemma same_untracked: "same (VArr (map untrackedJs es)) (VArr (map untrackedJs fs)) \<Longrightarrow> fs = es"
proof -
  assume "same (VArr (map untrackedJs es)) (VArr (map untrackedJs fs))"
  then consider "map untrackedJs fs = map untrackedJs es" | "list_all2 same (map untrackedJs es) (map untrackedJs fs)"
    by (auto simp: same_VArr)
  then have "list_all2 same (map untrackedJs es) (map untrackedJs fs)"
    by cases (simp_all add: list.rel_refl same_refl)
  then show ?thesis using same_untrackedJs
    by (induction es arbitrary: fs) (auto simp: list_all2_Cons1 list_all2_map1 list_all2_map2)
qed

lemma same_baselineJs:
  assumes "same (baselineJs b) (baselineJs b')" shows "b' = b"
proof -
  let ?c = "blChanges b" and ?c' = "blChanges b'"
  have "list_all2 (rel_option same)
     [Some (VStr (blHead b)), map_option VStr (blStartAt b), map_option (\<lambda>c. VStr (base64 (fst c))) ?c,
      map_option (\<lambda>c. VStr (base64 (fst (snd c)))) ?c, map_option (\<lambda>c. VArr (map untrackedJs (snd (snd c)))) ?c]
     [Some (VStr (blHead b')), map_option VStr (blStartAt b'), map_option (\<lambda>c. VStr (base64 (fst c))) ?c',
      map_option (\<lambda>c. VStr (base64 (fst (snd c)))) ?c', map_option (\<lambda>c. VArr (map untrackedJs (snd (snd c)))) ?c']"
    using vobj_same [OF assms [unfolded baselineJs_def]] by simp
  then have head: "blHead b' = blHead b" and st: "rel_option (\<lambda>x y. y = x) (blStartAt b) (blStartAt b')"
    and c: "rel_option (\<lambda>x y. same (VStr (base64 (fst x))) (VStr (base64 (fst y)))) ?c ?c'"
      "rel_option (\<lambda>x y. same (VStr (base64 (fst (snd x)))) (VStr (base64 (fst (snd y))))) ?c ?c'"
      "rel_option (\<lambda>x y. same (VArr (map untrackedJs (snd (snd x)))) (VArr (map untrackedJs (snd (snd y))))) ?c ?c'"
    by (simp_all add: option.rel_map)
  have "blStartAt b' = blStartAt b" using st by (cases "blStartAt b"; cases "blStartAt b'") simp_all
  moreover have "?c' = ?c"
    using c base64_inj same_untracked by (cases ?c; cases ?c') (auto simp: prod_eq_iff)
  ultimately show ?thesis using head by (intro Baseline.equality) simp_all
qed

lemma checkoutBaseline_of:
  assumes "preflightWorkspace sha h r = Inr w"
  shows "\<exists>b s. checkoutBaseline h w = Inr b \<and> canonicalJson (baselineJs b) = Inr s \<and> rwBaseline w = sha s"
proof -
  from preflightWorkspace_Inr [OF assms] show ?thesis unfolding checkoutBaseline_def by fastforce
qed

text \<open>
  C20: The baseline digest determines the checkout. Two preflights with the same baseline digest saw the
  same HEAD, the same start commit and the same status, and for a dirty checkout the same diff and the
  same digests of its untracked files, unless the two canonical texts that were hashed collide.
\<close>

theorem baseline_determines_checkout:
  assumes "preflightWorkspace sha h r = Inr w" and "preflightWorkspace sha h' r' = Inr w'" and "rwBaseline w = rwBaseline w'"
    and "\<And>b b' s u. checkoutBaseline h w = Inr b \<Longrightarrow> checkoutBaseline h' w' = Inr b' \<Longrightarrow>
           canonicalJson (baselineJs b) = Inr s \<Longrightarrow> canonicalJson (baselineJs b') = Inr u \<Longrightarrow> sha s = sha u \<Longrightarrow> s = u"
  shows "\<exists>b. checkoutBaseline h w = Inr b \<and> checkoutBaseline h' w' = Inr b"
proof -
  obtain b s where b: "checkoutBaseline h w = Inr b" "canonicalJson (baselineJs b) = Inr s" "rwBaseline w = sha s"
    using checkoutBaseline_of [OF assms(1)] by blast
  obtain b' u where b': "checkoutBaseline h' w' = Inr b'" "canonicalJson (baselineJs b') = Inr u" "rwBaseline w' = sha u"
    using checkoutBaseline_of [OF assms(2)] by blast
  have "sha s = sha u" using assms(3) unfolding b(3) b'(3) .
  then have "s = u" by (rule assms(4) [OF b(1) b'(1) b(2) b'(2)])
  then have "same (baselineJs b) (baselineJs b')"
    using canonicalJson_same [OF wf_baselineJs wf_baselineJs b(2)] b'(2) by blast
  then show ?thesis using same_baselineJs b(1) b'(1) by blast
qed

theorem baseline_determines_checkout_witness:
  "\<exists>w b. preflightWorkspace id demoWorkspaceHost demoStartRequest = Inr w \<and> checkoutBaseline demoWorkspaceHost w = Inr b"
proof -
  obtain w where w: "preflightWorkspace id demoWorkspaceHost demoStartRequest = Inr w"
    using demo_workspace by (auto split: sum.splits)
  have "\<exists>b. checkoutBaseline demoWorkspaceHost w = Inr b \<and> checkoutBaseline demoWorkspaceHost w = Inr b"
    by (rule baseline_determines_checkout [OF w w refl]) simp
  then show ?thesis using w by blast
qed

end
