(* ===== verification/Projections.thy ===== *)
theory Projections
  imports WorkspacePreflight ServicePlans
begin

section \<open>Context files, skills, forks and models (\<open>src/preflight/context-files.ts\<close>, \<open>skills.ts\<close>, \<open>context.ts\<close>, \<open>models.ts\<close>)\<close>

text \<open>
  What a run is shown beside its workspace: context files of the scopes it asks for, the catalog of skills,
  the conversation it forks from and the model it runs on. Which files and skills exist, the session and
  the models are what the coding agent's library answers; these are parameters.
\<close>

subsection \<open>Context files\<close>

definition MAX_CONTEXT_FILES :: int where "MAX_CONTEXT_FILES = 16"
definition MAX_CONTEXT_FILE_BYTES :: int where "MAX_CONTEXT_FILE_BYTES = 256 * 1024"
definition MAX_CONTEXT_TOTAL_BYTES :: int where "MAX_CONTEXT_TOTAL_BYTES = 512 * 1024"

text \<open>\<open>phDecode\<close> is a fatal UTF-8 decoder: nothing for bytes that are not a text.\<close>

record ProjectionHost =
  phFiles :: HostFiles
  phContextFiles :: "string list"            \<comment> \<open>paths the library discovers, in its order\<close>
  phDecode :: "string \<Rightarrow> string option"

record ContextOptions =
  coWorkspaceRoot :: string
  coAgentDir :: string
  coProjectTrusted :: bool
  coScopes :: "ContextScope list"

record ProjectedContextFile =
  cfScope :: ContextScope
  cfHostPath :: string
  cfGuestPath :: string
  cfContent :: string
  cfGrant :: ResourceGrant

definition posixBasename :: "string \<Rightarrow> string" where
  "posixBasename p = List.last (splitOn slash p)"

definition isLink :: "hostNode \<Rightarrow> bool" where
  "isLink n = (case n of HostLink _ \<Rightarrow> True | _ \<Rightarrow> False)"

text \<open>One discovered file: its scope and its resolved path, or none when the scope is not asked for.\<close>

definition selectContextFile ::
  "HostFiles \<Rightarrow> string \<Rightarrow> string \<Rightarrow> ContextScope list \<Rightarrow> string \<Rightarrow> (ContextScope \<times> string) list \<Rightarrow> (ContextScope \<times> string) list res" where
  "selectContextFile fs agentDir rootDir scopes source acc =
     andThen (hfRealpath fs (posixDirname source)) (\<lambda>sourceDir.
       let logical = posixJoin sourceDir (posixBasename source);
           scope = (if sourceDir = agentDir then ScopeGlobal else ScopeProject) in
       andThen (hfNode fs source) (\<lambda>node.
       andThen (hfRealpath fs source) (\<lambda>canonical.
         if scope = ScopeProject \<and> isInside rootDir logical \<and> (isLink node \<or> \<not> isInside rootDir canonical)
         then Inl (Err (''repository context file cannot escape through a symlink: '' @ source))
         else Inr (if scope \<in> set scopes then acc @ [(scope, canonical)] else acc))))"

record ContextAcc =
  caBytes :: int
  caFiles :: "ProjectedContextFile list"

definition projectContextFile :: "ProjectionHost \<Rightarrow> ContextScope \<times> string \<Rightarrow> ContextAcc \<Rightarrow> ContextAcc res" where
  "projectContextFile h selected acc =
     andThen (digestFileResource (phFiles h) \<lparr>dlMaxFiles = 1, dlMaxBytes = MAX_CONTEXT_FILE_BYTES\<rparr> (snd selected)) (\<lambda>digest.
     andThen (readTextFile (phFiles h) (rdPath digest)) (\<lambda>bytes.
       case phDecode h bytes of
         None \<Rightarrow> Inl (Err (''context file is not valid UTF-8: '' @ rdPath digest))
       | Some content \<Rightarrow>
           (let total_bytes = caBytes acc + int (length bytes);
                name = scopeText (fst selected) @ ''-'' @ showNat (length (caFiles acc)) @ ''-'' @ take 12 (rdSha256 digest) in
            if total_bytes > MAX_CONTEXT_TOTAL_BYTES then Inl (Err ''context files exceed total byte limit'')
            else Inr \<lparr>caBytes = total_bytes, caFiles = caFiles acc @
              [\<lparr>cfScope = fst selected, cfHostPath = rdPath digest,
                cfGuestPath = ''/context/'' @ name @ ''/'' @ posixBasename (rdPath digest), cfContent = content,
                cfGrant = \<lparr>resourceKind = KindContext, resourceName = name, resourceSource = rdPath digest,
                  resourceSha256 = rdSha256 digest\<rparr>\<rparr>]\<rparr>)))"

definition discoverAndProjectContextFiles :: "ProjectionHost \<Rightarrow> ContextOptions \<Rightarrow> ProjectedContextFile list res" where
  "discoverAndProjectContextFiles h opts =
     (if coScopes opts = [] then Inr []
      else if ScopeProject \<in> set (coScopes opts) \<and> \<not> coProjectTrusted opts
      then Inl (Err ''project context requires a trusted project'')
      else andThen (hfRealpath (phFiles h) (coAgentDir opts)) (\<lambda>agentDir.
           andThen (hfRealpath (phFiles h) (coWorkspaceRoot opts)) (\<lambda>rootDir.
           andThen (foldRes (selectContextFile (phFiles h) agentDir rootDir (coScopes opts)) (phContextFiles h) []) (\<lambda>selected.
             if int (length selected) > MAX_CONTEXT_FILES then Inl (Err ''context file count exceeds limit'')
             else andThen (foldRes (projectContextFile h) selected \<lparr>caBytes = 0, caFiles = []\<rparr>) (\<lambda>acc. Inr (caFiles acc))))))"

subsection \<open>Skills\<close>

definition MAX_PRELOAD_BYTES :: int where "MAX_PRELOAD_BYTES = 256 * 1024"

record DiscoveredSkill =
  dkName :: string
  dkDescription :: string
  dkBaseDir :: string
  dkFilePath :: string

record ProjectedSkill =
  psName :: string
  psDescription :: string
  psHostBaseDir :: string
  psHostFilePath :: string
  psGuestBaseDir :: string
  psGuestFilePath :: string
  psSha256 :: string

definition isSkillName :: "string \<Rightarrow> bool" where
  "isSkillName s = (case s of [] \<Rightarrow> False
     | c # t \<Rightarrow> (is_digit c \<or> is_lower c) \<and> list_all (\<lambda>c. is_digit c \<or> is_lower c \<or> c = CHR ''-'') t \<and> length t \<le> 63)"

definition projectSkill :: "(string \<Rightarrow> string) \<Rightarrow> HostFiles \<Rightarrow> DiscoveredSkill \<Rightarrow> ProjectedSkill list \<Rightarrow> ProjectedSkill list res" where
  "projectSkill sha fs k acc =
     (if \<not> isSkillName (dkName k) then Inl (Err (''invalid discovered skill name: '' @ dkName k))
      else if dkName k \<in> psName ` set acc then Inl (Err (''duplicate discovered skill: '' @ dkName k))
      else andThen (hfRealpath fs (dkBaseDir k)) (\<lambda>baseDir.
           andThen (hfRealpath fs (dkFilePath k)) (\<lambda>filePath.
             if \<not> isInside baseDir filePath then Inl (Err (''skill file escapes base directory: '' @ dkName k))
             else andThen (digestTreeResource sha fs DEFAULT_LIMITS baseDir) (\<lambda>digest.
               let guest = ''/skills/'' @ take 16 (rdSha256 digest) @ ''/'' @ dkName k in
               Inr (acc @ [\<lparr>psName = dkName k, psDescription = dkDescription k, psHostBaseDir = baseDir,
                 psHostFilePath = filePath, psGuestBaseDir = guest,
                 psGuestFilePath = posixJoin guest (posixRelative baseDir filePath), psSha256 = rdSha256 digest\<rparr>])))))"

definition preloadSection :: "HostFiles \<Rightarrow> ProjectedSkill list \<Rightarrow> string \<Rightarrow> int \<times> string list \<Rightarrow> (int \<times> string list) res" where
  "preloadSection fs catalog name acc =
     (case find (\<lambda>k. psName k = name) catalog of
        None \<Rightarrow> Inl (Err (''preload skill not found: '' @ name))
      | Some k \<Rightarrow>
          andThen (readTextFile fs (psHostFilePath k)) (\<lambda>content.
            let bytes = fst acc + int (length content) in
            if bytes > MAX_PRELOAD_BYTES then Inl (Err ''preloaded skills exceed byte limit'')
            else Inr (bytes, snd acc @ [''<preloaded_skill name='' @ showStr name @ '' path='' @ showStr (psGuestFilePath k)
              @ ''>'' @ [newline] @ content @ [newline] @ ''</preloaded_skill>''])))"

definition discoverAndProjectSkills ::
  "(string \<Rightarrow> string) \<Rightarrow> HostFiles \<Rightarrow> DiscoveredSkill list \<Rightarrow> string list \<Rightarrow> (ProjectedSkill list \<times> string) res" where
  "discoverAndProjectSkills sha fs discoveredSkills preloadSkills =
     andThen (foldRes (projectSkill sha fs) discoveredSkills []) (\<lambda>found.
       let catalog = sort_key psName found in
       andThen (foldRes (preloadSection fs catalog) (unique preloadSkills) (0, [])) (\<lambda>acc.
         Inr (catalog, join [newline, newline] (snd acc))))"

definition catalogSkill :: "ProjectedSkill \<Rightarrow> CatalogSkill" where
  "catalogSkill k = \<lparr>skName = psName k, skHostFilePath = psHostFilePath k, skSha256 = psSha256 k\<rparr>"

subsection \<open>Forked context\<close>

definition MAX_FORK_MESSAGES :: nat where "MAX_FORK_MESSAGES = 100"
definition MAX_FORK_BYTES :: int where "MAX_FORK_BYTES = 256 * 1024"

text \<open>A session as the library opens it: its header's id, the ids of its context entries, its messages.\<close>

record ParentSession =
  pnId :: "string option"
  pnEntryIds :: "string list"
  pnMessages :: "jsval list"

definition projectForkContext ::
  "(string \<Rightarrow> string) \<Rightarrow> HostFiles \<Rightarrow> (string \<Rightarrow> ParentSession res) \<Rightarrow> (jsval list \<Rightarrow> string) \<Rightarrow> string \<Rightarrow> string
     \<Rightarrow> (ForkContextGrant \<times> string \<times> jsval list) res" where
  "projectForkContext sha fs openSession serialize parentId parentFile =
     andThen (digestFileResource fs \<lparr>dlMaxFiles = 1, dlMaxBytes = 16 * 1024 * 1024\<rparr> parentFile) (\<lambda>digest.
     andThen (openSession (rdPath digest)) (\<lambda>session.
       if pnId session \<noteq> Some parentId then Inl (Err ''parent session identity mismatch'')
       else if length (pnEntryIds session) > MAX_FORK_MESSAGES then Inl (Err ''fork context exceeds entry limit'')
       else if length (pnMessages session) > MAX_FORK_MESSAGES then Inl (Err ''fork context exceeds message limit'')
       else if int (length (serialize (pnMessages session))) > MAX_FORK_BYTES then Inl (Err ''fork context exceeds byte limit'')
       else andThen (canonicalSha256 sha (vobj [(''messageIds'', Some (vstrs (pnEntryIds session))),
                (''messages'', Some (VArr (pnMessages session)))])) (\<lambda>d.
            Inr (\<lparr>parentSessionId = parentId, parentSessionSha256 = rdSha256 digest, messageIds = pnEntryIds session,
                  projectionSha256 = d\<rparr>, rdPath digest, pnMessages session))))"

subsection \<open>The exact model\<close>

datatype ModelFailure = ModelNotFound | AuthenticationUnavailable | ThinkingUnsupported

text \<open>The runtime: the thinking levels of a known model, and the models its credentials reach, when it can tell.\<close>

record ModelRuntime =
  mrLevels :: "string \<Rightarrow> string \<Rightarrow> Thinking list option"
  mrAvailable :: "string \<Rightarrow> (string \<times> string) list option"

definition resolveExactPiModel :: "ModelRuntime \<Rightarrow> ExactModelRequest \<Rightarrow> ModelFailure + ExactModelRequest" where
  "resolveExactPiModel rt m =
     (case mrLevels rt (provider m) (modelId m) of
        None \<Rightarrow> Inl ModelNotFound
      | Some levels \<Rightarrow>
          if thinking m \<notin> set levels then Inl ThinkingUnsupported
          else (case mrAvailable rt (provider m) of
                  None \<Rightarrow> Inl AuthenticationUnavailable
                | Some models \<Rightarrow> if (provider m, modelId m) \<in> set models then Inr m else Inl AuthenticationUnavailable))"

subsection \<open>What a projection establishes\<close>

lemma projectSkill_Inr:
  assumes "projectSkill sha fs k acc = Inr acc'"
  shows "\<exists>p. acc' = acc @ [p] \<and> psName p = dkName k \<and> isSkillName (psName p) \<and> psName p \<notin> psName ` set acc
    \<and> isInside (psHostBaseDir p) (psHostFilePath p)
    \<and> (\<exists>d. digestTreeResource sha fs DEFAULT_LIMITS (psHostBaseDir p) = Inr d \<and> psSha256 p = rdSha256 d)"
  using assms by (auto simp: projectSkill_def Let_def split: if_splits)

text \<open>A skill of a catalog: its file is in its directory, its digest is its directory's.\<close>

definition soundSkill :: "(string \<Rightarrow> string) \<Rightarrow> HostFiles \<Rightarrow> ProjectedSkill \<Rightarrow> bool" where
  "soundSkill sha fs p =
     (isSkillName (psName p) \<and> isInside (psHostBaseDir p) (psHostFilePath p)
      \<and> (\<exists>d. digestTreeResource sha fs DEFAULT_LIMITS (psHostBaseDir p) = Inr d \<and> psSha256 p = rdSha256 d))"

lemma projectSkill_step:
  assumes "map psName acc = map dkName pre \<and> distinct (map psName acc) \<and> (\<forall>p \<in> set acc. soundSkill sha fs p)"
    and "projectSkill sha fs k acc = Inr acc'"
  shows "map psName acc' = map dkName (pre @ [k]) \<and> distinct (map psName acc') \<and> (\<forall>p \<in> set acc'. soundSkill sha fs p)"
proof -
  obtain p where p: "acc' = acc @ [p]" "psName p = dkName k" "psName p \<notin> psName ` set acc" "soundSkill sha fs p"
    using projectSkill_Inr [OF assms(2)] unfolding soundSkill_def by blast
  moreover have "psName ` set acc = dkName ` set pre" using assms(1) by (metis image_set)
  ultimately show ?thesis using assms(1) by auto
qed

text \<open>
  The skill catalog is exact. Projecting the skills of a host yields them all, each name once and in
  the order of names; every skill's file lies inside its own directory, its digest is the digest of that
  whole directory, and every skill to preload is in the catalog.
\<close>

theorem skill_catalog_is_exact:
  assumes "discoverAndProjectSkills sha fs ks preloads = Inr (catalog, prompt)"
  shows "mset (map psName catalog) = mset (map dkName ks) \<and> distinct (map psName catalog) \<and> sorted (map psName catalog)
    \<and> (\<forall>p \<in> set catalog. soundSkill sha fs p) \<and> set preloads \<subseteq> psName ` set catalog"
proof -
  from assms obtain found acc where found: "foldRes (projectSkill sha fs) ks [] = Inr found"
    and acc: "foldRes (preloadSection fs catalog) (unique preloads) (0, []) = Inr acc" and catalog: "catalog = sort_key psName found"
    by (auto simp: discoverAndProjectSkills_def Let_def)
  have *: "map psName found = map dkName ks \<and> distinct (map psName found) \<and> (\<forall>p \<in> set found. soundSkill sha fs p)"
  proof (rule foldRes_prefix [OF found, where I = "\<lambda>pre acc. map psName acc = map dkName pre \<and> distinct (map psName acc)
          \<and> (\<forall>p \<in> set acc. soundSkill sha fs p)"])
    fix pre :: "DiscoveredSkill list" and k :: DiscoveredSkill and post acc acc'
    assume "map psName acc = map dkName pre \<and> distinct (map psName acc) \<and> (\<forall>p \<in> set acc. soundSkill sha fs p)"
      "projectSkill sha fs k acc = Inr acc'"
    then show "map psName acc' = map dkName (pre @ [k]) \<and> distinct (map psName acc') \<and> (\<forall>p \<in> set acc'. soundSkill sha fs p)"
      by (rule projectSkill_step)
  qed simp
  have "\<forall>n \<in> set (unique preloads). n \<in> psName ` set catalog"
  proof (rule foldRes_prefix [OF acc, where I = "\<lambda>pre _. \<forall>n \<in> set pre. n \<in> psName ` set catalog"])
    fix pre n post s s'
    assume "\<forall>m \<in> set pre. m \<in> psName ` set catalog" "preloadSection fs catalog n s = Inr s'"
    then show "\<forall>m \<in> set (pre @ [n]). m \<in> psName ` set catalog"
      by (auto simp: preloadSection_def find_Some_iff split: option.splits)
  qed simp
  moreover have "mset (map psName catalog) = mset (map psName found)" unfolding catalog mset_map by (simp only: mset_sort)
  moreover have "distinct (map psName catalog)"
    using * calculation(2) by (metis mset_eq_imp_distinct_iff)
  ultimately show ?thesis using * by (auto simp: catalog)
qed

definition fileBytes :: "HostFiles \<Rightarrow> ProjectedContextFile \<Rightarrow> int" where
  "fileBytes fs f = (case readTextFile fs (cfHostPath f) of Inl _ \<Rightarrow> 0 | Inr bytes \<Rightarrow> int (length bytes))"

definition soundContextFile :: "ProjectionHost \<Rightarrow> ProjectedContextFile \<Rightarrow> bool" where
  "soundContextFile h f =
     (resourceKind (cfGrant f) = KindContext \<and> resourceSource (cfGrant f) = cfHostPath f
      \<and> (\<exists>bytes. readTextFile (phFiles h) (cfHostPath f) = Inr bytes \<and> phDecode h bytes = Some (cfContent f)))"

lemma projectContextFile_Inr:
  assumes "projectContextFile h selected acc = Inr acc'"
  shows "\<exists>f. caFiles acc' = caFiles acc @ [f] \<and> cfScope f = fst selected \<and> soundContextFile h f
    \<and> caBytes acc' = caBytes acc + fileBytes (phFiles h) f \<and> caBytes acc' \<le> MAX_CONTEXT_TOTAL_BYTES"
  using assms
  by (auto simp: projectContextFile_def Let_def soundContextFile_def fileBytes_def split: option.splits if_splits)

lemma projectContextFile_step:
  assumes "map cfScope (caFiles acc) = map fst pre \<and> (\<forall>f \<in> set (caFiles acc). soundContextFile h f)
      \<and> caBytes acc = (\<Sum>f \<leftarrow> caFiles acc. fileBytes (phFiles h) f) \<and> caBytes acc \<le> MAX_CONTEXT_TOTAL_BYTES"
    and "projectContextFile h x acc = Inr acc'"
  shows "map cfScope (caFiles acc') = map fst (pre @ [x]) \<and> (\<forall>f \<in> set (caFiles acc'). soundContextFile h f)
      \<and> caBytes acc' = (\<Sum>f \<leftarrow> caFiles acc'. fileBytes (phFiles h) f) \<and> caBytes acc' \<le> MAX_CONTEXT_TOTAL_BYTES"
  using projectContextFile_Inr [OF assms(2)] assms(1) by auto

lemma selectContextFile_scope:
  "selectContextFile fs agentDir rootDir scopes p acc = Inr acc' \<Longrightarrow> \<forall>x \<in> set acc. fst x \<in> set scopes
     \<Longrightarrow> \<forall>x \<in> set acc'. fst x \<in> set scopes"
  by (auto simp: selectContextFile_def Let_def split: if_splits)

text \<open>
  Context files stay within bounds. At most 16 files are projected, each of a scope that was asked
  for, project files only in a trusted project; their bytes together are within the total limit; each is a
  text, and its grant names the resolved path it was read from.
\<close>

theorem context_files_within_bounds:
  assumes "discoverAndProjectContextFiles h opts = Inr files"
  shows "int (length files) \<le> MAX_CONTEXT_FILES \<and> (\<Sum>f \<leftarrow> files. fileBytes (phFiles h) f) \<le> MAX_CONTEXT_TOTAL_BYTES
    \<and> (\<forall>f \<in> set files. cfScope f \<in> set (coScopes opts) \<and> soundContextFile h f)
    \<and> (ScopeProject \<in> cfScope ` set files \<longrightarrow> coProjectTrusted opts)"
proof (cases "coScopes opts = []")
  case True
  then show ?thesis using assms
    by (simp add: discoverAndProjectContextFiles_def MAX_CONTEXT_FILES_def MAX_CONTEXT_TOTAL_BYTES_def)
next
  case False
  then obtain agentDir rootDir selected acc where
    sel: "foldRes (selectContextFile (phFiles h) agentDir rootDir (coScopes opts)) (phContextFiles h) [] = Inr selected"
    and n: "int (length selected) \<le> MAX_CONTEXT_FILES"
    and acc: "foldRes (projectContextFile h) selected \<lparr>caBytes = 0, caFiles = []\<rparr> = Inr acc" and files: "files = caFiles acc"
    and trusted: "ScopeProject \<in> set (coScopes opts) \<longrightarrow> coProjectTrusted opts"
    using assms by (auto simp: discoverAndProjectContextFiles_def split: if_splits)
  have scopes: "\<forall>x \<in> set selected. fst x \<in> set (coScopes opts)"
  proof (rule foldRes_invariant [OF sel])
    fix x s s' assume "\<forall>x \<in> set s. fst x \<in> set (coScopes opts)"
      "selectContextFile (phFiles h) agentDir rootDir (coScopes opts) x s = Inr s'"
    then show "\<forall>x \<in> set s'. fst x \<in> set (coScopes opts)" using selectContextFile_scope by blast
  qed simp
  have "map cfScope (caFiles acc) = map fst selected \<and> (\<forall>f \<in> set (caFiles acc). soundContextFile h f)
      \<and> caBytes acc = (\<Sum>f \<leftarrow> caFiles acc. fileBytes (phFiles h) f) \<and> caBytes acc \<le> MAX_CONTEXT_TOTAL_BYTES"
  proof (rule foldRes_prefix [OF acc, where I = "\<lambda>pre acc. map cfScope (caFiles acc) = map fst pre
      \<and> (\<forall>f \<in> set (caFiles acc). soundContextFile h f)
      \<and> caBytes acc = (\<Sum>f \<leftarrow> caFiles acc. fileBytes (phFiles h) f) \<and> caBytes acc \<le> MAX_CONTEXT_TOTAL_BYTES"])
    fix pre :: "(ContextScope \<times> string) list" and x :: "ContextScope \<times> string" and post acc acc'
    assume "map cfScope (caFiles acc) = map fst pre \<and> (\<forall>f \<in> set (caFiles acc). soundContextFile h f)
      \<and> caBytes acc = (\<Sum>f \<leftarrow> caFiles acc. fileBytes (phFiles h) f) \<and> caBytes acc \<le> MAX_CONTEXT_TOTAL_BYTES"
      "projectContextFile h x acc = Inr acc'"
    then show "map cfScope (caFiles acc') = map fst (pre @ [x]) \<and> (\<forall>f \<in> set (caFiles acc'). soundContextFile h f)
      \<and> caBytes acc' = (\<Sum>f \<leftarrow> caFiles acc'. fileBytes (phFiles h) f) \<and> caBytes acc' \<le> MAX_CONTEXT_TOTAL_BYTES"
      by (rule projectContextFile_step)
  qed (simp add: MAX_CONTEXT_TOTAL_BYTES_def)
  moreover from this have "length files = length selected" "cfScope ` set files = fst ` set selected"
    unfolding files by (metis length_map, metis image_set)
  moreover have "cfScope ` set files \<subseteq> set (coScopes opts)" using scopes calculation(3) by auto
  ultimately show ?thesis using n trusted files by auto
qed

definition demoProjection :: ProjectionHost where
  "demoProjection = \<lparr>phFiles = \<lparr>hfRealpath = Inr,
       hfNode = \<lambda>p. Inr (if p = ''/s'' then HostDir [(''SKILL.md'', HostFile ''do'' False)] else HostFile ''text'' False), hfSha256 = id\<rparr>,
     phContextFiles = [''/agent/A.md'', ''/repo/A.md''], phDecode = Some\<rparr>"

definition demoContext :: ContextOptions where
  "demoContext = \<lparr>coWorkspaceRoot = ''/repo'', coAgentDir = ''/agent'', coProjectTrusted = True, coScopes = [ScopeProject]\<rparr>"

lemma demo_context:
  "case discoverAndProjectContextFiles demoProjection demoContext of Inl _ \<Rightarrow> False
   | Inr fs \<Rightarrow> map cfGuestPath fs = [''/context/project-0-text/A.md'']"
  by code_simp

theorem context_files_within_bounds_witness:
  "\<exists>files. discoverAndProjectContextFiles demoProjection demoContext = Inr files \<and> int (length files) \<le> MAX_CONTEXT_FILES"
proof -
  obtain files where f: "discoverAndProjectContextFiles demoProjection demoContext = Inr files"
    using demo_context by (auto split: sum.splits)
  then show ?thesis using context_files_within_bounds [OF f] by blast
qed

definition demoSkills :: "DiscoveredSkill list" where
  "demoSkills = [\<lparr>dkName = ''b'', dkDescription = [], dkBaseDir = ''/s'', dkFilePath = ''/s/SKILL.md''\<rparr>,
     \<lparr>dkName = ''a'', dkDescription = [], dkBaseDir = ''/s'', dkFilePath = ''/s/SKILL.md''\<rparr>]"

lemma demo_skills:
  "case discoverAndProjectSkills id (phFiles demoProjection) demoSkills [''a''] of Inl _ \<Rightarrow> False
   | Inr (catalog, _) \<Rightarrow> map psName catalog = [''a'', ''b'']"
  by code_simp

theorem skill_catalog_is_exact_witness:
  "\<exists>catalog prompt. discoverAndProjectSkills id (phFiles demoProjection) demoSkills [''a''] = Inr (catalog, prompt)
     \<and> distinct (map psName catalog)"
proof -
  obtain catalog prompt where c: "discoverAndProjectSkills id (phFiles demoProjection) demoSkills [''a''] = Inr (catalog, prompt)"
    using demo_skills by (auto split: sum.splits prod.splits)
  then show ?thesis using skill_catalog_is_exact [OF c] by blast
qed

end
