(* ===== verification/ServiceLaunch.thy ===== *)
theory ServiceLaunch
  imports Projections ServiceQueries "HOL-Library.AList"
begin

section \<open>Launching, retrying and resuming runs (\<open>src/service.ts\<close>)\<close>

text \<open>
  How an attempt comes to run. A preflight compiles a plan from the request and what the host shows;
  launching it, retrying and resuming a run ask the host again and refuse when anything has changed since;
  then the attempt's records are written under the run's lease and the plan is handed to the attempt
  runner. The operations of one service are serialized (\<open>runExclusive\<close>), so each is one step here. What
  the attempt itself does is in \<open>Attempt\<close>; here it appends to the run's journal and settles in the end.
\<close>

subsection \<open>The host, the stores and the service's memory\<close>

record OwnerRegistration =
  owId :: string
  owParentSession :: "string option"
  owParentFile :: "string option"

text \<open>
  What an operation is told by its surroundings: digests, file sizes and fresh ids are parameters as in
  the stores; \<open>lhSkills\<close> and \<open>lhProjection\<close> are what the coding agent's library discovers in a working
  directory, \<open>lhExecution\<close> whether the execution dependencies load.
\<close>

record ('g, 'p) LaunchHost =
  lhSha :: "string \<Rightarrow> string"
  lhLocaleKey :: "string \<Rightarrow> string"
  lhDigest32 :: "string \<Rightarrow> string \<Rightarrow> 32 word"
  lhRoot :: string
  lhOperationKey :: "string \<Rightarrow> string \<Rightarrow> string"
  lhService :: "('g, 'p) ServiceHost"
  lhAgents :: "string \<Rightarrow> AgentDefinition option"
  lhAgentHost :: AgentHost
  lhWorkspaces :: WorkspaceHost
  lhSkills :: "string \<Rightarrow> bool \<Rightarrow> DiscoveredSkill list"
  lhProjection :: "string \<Rightarrow> bool \<Rightarrow> ProjectionHost"
  lhAgentDir :: string
  lhTrusted :: "string \<Rightarrow> bool"
  lhOpenSession :: "string \<Rightarrow> ParentSession res"
  lhSerialize :: "jsval list \<Rightarrow> string"
  lhCompile :: CompileHost
  lhCheckSchema :: "jsval \<Rightarrow> unit res"
  lhImplementation :: "string \<times> string"
  lhTools :: "HostToolDeclaration list"
  lhExecution :: "ResolvedSandbox res"
  lhMaxTaskCost :: rat
  lhTtlMs :: int
  lhIso :: "int \<Rightarrow> string"
  lhParse :: "string \<Rightarrow> int"
  lhFreshId :: string
  lhLeaseBytes :: int
  lhOperationBytes :: int
  lhRunBytes :: int
  lhAttemptBytes :: int

definition lhNow :: "('g, 'p) LaunchHost \<Rightarrow> int" where "lhNow h = shNow (lhService h)"
definition lhFiles :: "('g, 'p) LaunchHost \<Rightarrow> HostFiles" where "lhFiles h = ahFiles (lhAgentHost h)"

text \<open>The skills and context files of a prepared preflight are read again before they are used.\<close>

record PreparedPreflight =
  ppIdentity :: string
  ppExpiresAt :: int
  ppPlan :: AgentLaunchPlan
  ppOwnerId :: string
  ppRequestSha256 :: string
  ppAgent :: AgentDefinition
  ppAgentRoots :: "string list"
  ppWorkspace :: RunWorkspace

datatype ReceiptState = AcceptedBySession | Missed | ReceiptFailed

text \<open>A run in memory, with its lease, the worktree of its attempt and the control receipts it has given.\<close>

record LiveRun = ActiveRun +
  lvLease :: RunLeaseRecord
  lvWorktree :: "WorktreeRecord option"
  lvReceipts :: "string \<Rightarrow> ReceiptState option"

text \<open>What \<open>startAttempt\<close> is given, and what it hands to the attempt runner.\<close>

record StartInput =
  siOwnerId :: string
  siPlan :: AgentLaunchPlan
  siAgent :: AgentDefinition
  siWorkspace :: RunWorkspace
  siSkills :: "ProjectedSkill list"
  siContextFiles :: "ProjectedContextFile list"
  siFork :: "ForkContextGrant option"
  siKind :: AttemptKind
  siExpected :: "RunStatus option"
  siOrdinal :: int
  siParent :: "string option"
  siRootPlan :: AgentLaunchPlan
  siResumeFile :: "string option"
  siResumeMessage :: "string option"
  siExistingWorktree :: "WorktreeRecord option"
  siContinueFrom :: "WorktreeRecord option"

record StartedAttempt =
  atInput :: StartInput
  atLease :: RunLeaseRecord
  atWorktree :: "WorktreeRecord option"
  atSnapshot :: "SnapshotRecord option"
  atPath :: string
  atTools :: "HostToolDeclaration list"

text \<open>A text delivered to a session: run, attempt, operation and text.\<close>

record DeliveredText =
  dvRunId :: string
  dvAttemptId :: string
  dvOperationId :: string
  dvText :: string

record 'g LaunchWorld =
  lwStore :: AttemptStore
  lwOperations :: "OperationRecord storedFile dir"
  lwRunFiles :: "RunRecord storedFile listing"
  lwGit :: "'g WtWorld"
  lwJournals :: "string \<Rightarrow> ServiceJournal"
  lwPreflights :: "(string \<times> PreparedPreflight) list"
  lwRuns :: "(string \<times> LiveRun) list"
  lwStarted :: "StartedAttempt list"
  lwDelivered :: "DeliveredText list"
  lwEmitted :: "(string \<times> RunStatus) list"

record RunReceipt =
  rpRunId :: string
  rpAttemptId :: string
  rpStatus :: RunStatus

subsection \<open>Drift: what the host shows now\<close>

definition assertAgentDigest :: "('g, 'p) LaunchHost \<Rightarrow> string \<Rightarrow> AgentDefinition \<Rightarrow> unit res" where
  "assertAgentDigest h refusal agent =
     (if isAbsolutePath (agentSource agent)
      then andThen (digestFileResource (lhFiles h) DEFAULT_LIMITS (agentSource agent)) (\<lambda>d.
             require (rdSha256 d = agentSha256 agent) (Err refusal))
      else Inr ())"

definition assertSameAgent :: "('g, 'p) LaunchHost \<Rightarrow> PreparedPreflight \<Rightarrow> unit res" where
  "assertSameAgent h p =
     andThen (resolveRequestedAgent (lhAgentHost h) (lhAgents h) (agentName (ppAgent p)) (ppAgentRoots p)) (\<lambda>current.
       case current of
         None \<Rightarrow> Inl (Err ''agent changed after preflight'')
       | Some a \<Rightarrow>
           if agentSource a \<noteq> agentSource (ppAgent p) \<or> agentSha256 a \<noteq> agentSha256 (ppAgent p)
           then Inl (Err ''agent changed after preflight'')
           else assertAgentDigest h ''agent changed after preflight'' a)"

definition sameWorkspace :: "('g, 'p) LaunchHost \<Rightarrow> string \<Rightarrow> RunWorkspace \<Rightarrow> RunWorkspace res" where
  "sameWorkspace h refusal prior =
     andThen (preflightWorkspace (lhSha h) (lhWorkspaces h) (repeatWorkspaceRequest prior)) (\<lambda>current.
       if rwHostPath current \<noteq> rwHostPath prior \<or> rwBaseline current \<noteq> rwBaseline prior
       then Inl (Err refusal) else Inr current)"

definition skillsIn :: "('g, 'p) LaunchHost \<Rightarrow> string \<Rightarrow> string list \<Rightarrow> ProjectedSkill list res" where
  "skillsIn h cwd preload =
     andThen (discoverAndProjectSkills (lhSha h) (lhFiles h) (lhSkills h cwd (lhTrusted h cwd)) preload) (\<lambda>s. Inr (fst s))"

definition contextFilesIn :: "('g, 'p) LaunchHost \<Rightarrow> RunWorkspace \<Rightarrow> ContextScope list \<Rightarrow> ProjectedContextFile list res" where
  "contextFilesIn h w scopes =
     (let trusted = lhTrusted h (rwCwd w) in
      discoverAndProjectContextFiles (lhProjection h (rwCwd w) trusted)
        \<lparr>coWorkspaceRoot = rwRepositoryRoot w, coAgentDir = lhAgentDir h, coProjectTrusted = trusted, coScopes = scopes\<rparr>)"

definition sameSkills :: "('g, 'p) LaunchHost \<Rightarrow> AgentLaunchPlan \<Rightarrow> string \<Rightarrow> ProjectedSkill list res" where
  "sameSkills h plan cwd =
     andThen (skillsIn h cwd (planSkills plan)) (\<lambda>skills.
     andThen (assertSkillProjection (lhSha h) plan (map catalogSkill skills)) (\<lambda>_. Inr skills))"

definition sameContextFiles :: "('g, 'p) LaunchHost \<Rightarrow> AgentLaunchPlan \<Rightarrow> RunWorkspace \<Rightarrow> ProjectedContextFile list res" where
  "sameContextFiles h plan w =
     andThen (contextFilesIn h w (planScopes plan)) (\<lambda>files.
     andThen (assertContextFileProjection (lhSha h) (lhLocaleKey h) plan (map cfGrant files)) (\<lambda>_. Inr files))"

definition forkContextOf :: "('g, 'p) LaunchHost \<Rightarrow> OwnerRegistration \<Rightarrow> string \<Rightarrow> ForkContextGrant res" where
  "forkContextOf h owner refusal =
     (case (truthy (owParentSession owner), truthy (owParentFile owner)) of
        (Some s, Some f) \<Rightarrow> andThen (projectForkContext (lhSha h) (lhFiles h) (lhOpenSession h) (lhSerialize h) s f)
          (\<lambda>x. Inr (fst x))
      | _ \<Rightarrow> Inl (Err refusal))"

definition sameFork ::
  "('g, 'p) LaunchHost \<Rightarrow> OwnerRegistration \<Rightarrow> AgentLaunchPlan \<Rightarrow> string \<Rightarrow> string \<Rightarrow> ForkContextGrant option res" where
  "sameFork h owner plan refusal changed =
     (if planContextMode plan \<noteq> ForkContext then Inr None
      else andThen (forkContextOf h owner refusal) (\<lambda>g.
           andThen (canonicalSha256 (lhSha h) (forkJs g)) (\<lambda>a.
           andThen (canonicalSha256 (lhSha h) (case planForkContext plan of None \<Rightarrow> VUndefined | Some f \<Rightarrow> forkJs f)) (\<lambda>b.
             if a \<noteq> b then Inl (Err changed) else Inr (Some g)))))"

subsection \<open>Preflight\<close>

text \<open>\<open>requestJs\<close> is the request as a JavaScript value; the ids of run and attempt are its digests.\<close>

definition dropExpired :: "int \<Rightarrow> (string \<times> PreparedPreflight) list \<Rightarrow> (string \<times> PreparedPreflight) list" where
  "dropExpired now ps = filter (\<lambda>p. ppExpiresAt (snd p) > now) ps"

definition resolvedOf :: "RunWorkspace \<Rightarrow> ResolvedWorkspace" where
  "resolvedOf w = \<lparr>workspaceMode = rwMode w, hostPathSha256 = rwHostPath w, baselineSha256 = rwBaseline w,
     workspaceStartAt = rwStartAt w\<rparr>"

definition preflightFork :: "('g, 'p) LaunchHost \<Rightarrow> OwnerRegistration \<Rightarrow> SubagentRequest \<Rightarrow> ForkContextGrant option res" where
  "preflightFork h owner request =
     (if requestContextMode request \<noteq> ForkContext then Inr None
      else andThen (forkContextOf h owner ''fork context requires an authorized parent session'') (\<lambda>g. Inr (Some g)))"

definition requestedAgent :: "('g, 'p) LaunchHost \<Rightarrow> SubagentRequest \<Rightarrow> AgentDefinition res" where
  "requestedAgent h request =
     andThen (resolveRequestedAgent (lhAgentHost h) (lhAgents h) (requestAgent request)
               (case agentRoots request of None \<Rightarrow> [] | Some r \<Rightarrow> r)) (\<lambda>a.
       case a of None \<Rightarrow> Inl (Err (''agent not found: '' @ requestAgent request)) | Some a \<Rightarrow> Inr a)"

definition requestSchemaOk :: "('g, 'p) LaunchHost \<Rightarrow> SubagentRequest \<Rightarrow> unit res" where
  "requestSchemaOk h request = (case requestOutputSchema request of None \<Rightarrow> Inr () | Some s \<Rightarrow> lhCheckSchema h s)"

text \<open>From the agent and the workspace to the plan.\<close>

definition compileRequest ::
  "('g, 'p) LaunchHost \<Rightarrow> OwnerRegistration \<Rightarrow> jsval \<Rightarrow> SubagentRequest \<Rightarrow> AgentDefinition \<Rightarrow> RunWorkspace
     \<Rightarrow> (DeterministicIds \<times> AgentLaunchPlan) res" where
  "compileRequest h owner requestJs request agent workspace =
     andThen (skillsIn h (rwCwd workspace) (unique (agentSkills agent @ requestSkills request))) (\<lambda>skills.
     andThen (contextFilesIn h workspace (unique (agentScopes agent @ requestScopes request))) (\<lambda>files.
     andThen (preflightFork h owner request) (\<lambda>fork.
     andThen (deterministicIds (lhSha h) (owId owner) requestJs) (\<lambda>ids.
     andThen (lhExecution h) (\<lambda>sandbox.
     andThen (toolResources (lhSha h) agent request (lhImplementation h) (lhTools h) (map catalogSkill skills) (map cfGrant files)) (\<lambda>resources.
     andThen (compileLaunchPlan (lhSha h) (lhLocaleKey h) (lhCompile h)
        \<lparr>inputOwnerId = owId owner, inputRunId = idRunId ids, inputAttemptId = idAttemptId ids, inputRequest = request,
         inputAgent = agent, inputResources = resources, inputContextResources = map cfGrant files,
         inputWorkspace = resolvedOf workspace, inputSandbox = sandbox, inputForkContext = fork\<rparr>) (\<lambda>plan.
       Inr (ids, plan))))))))"

definition prepareRequest ::
  "('g, 'p) LaunchHost \<Rightarrow> OwnerRegistration \<Rightarrow> jsval \<Rightarrow> SubagentRequest \<Rightarrow> PreparedPreflight res" where
  "prepareRequest h owner requestJs request =
     andThen (requestSchemaOk h request) (\<lambda>_.
     andThen (requestedAgent h request) (\<lambda>agent.
     andThen (preflightWorkspace (lhSha h) (lhWorkspaces h) (requestWorkspace request)) (\<lambda>workspace.
     andThen (compileRequest h owner requestJs request agent workspace) (\<lambda>(ids, plan).
       Inr \<lparr>ppIdentity = planIdentity plan, ppExpiresAt = lhNow h + lhTtlMs h, ppPlan = plan, ppOwnerId = owId owner,
            ppRequestSha256 = idRequestSha256 ids, ppAgent = agent,
            ppAgentRoots = (case agentRoots request of None \<Rightarrow> [] | Some r \<Rightarrow> r), ppWorkspace = workspace\<rparr>))))"

definition preflight ::
  "('g, 'p) LaunchHost \<Rightarrow> OwnerRegistration \<Rightarrow> jsval \<Rightarrow> SubagentRequest \<Rightarrow> 'g LaunchWorld
     \<Rightarrow> (string \<times> PreparedPreflight) res \<times> 'g LaunchWorld" where
  "preflight h owner requestJs request w =
     (if limitCost (requestLimits request) > lhMaxTaskCost h
      then (Inl (Err ''task cost limit exceeds service policy maximum''), w)
      else (let w = w\<lparr>lwPreflights := dropExpired (lhNow h) (lwPreflights w)\<rparr> in
        if length (lwPreflights w) \<ge> 256 then (Inl (Err ''preflight capacity exhausted''), w)
        else (case prepareRequest h owner requestJs request of
                Inl e \<Rightarrow> (Inl e, w)
              | Inr p \<Rightarrow> (Inr (lhFreshId h, p), w\<lparr>lwPreflights := AList.update (lhFreshId h) p (lwPreflights w)\<rparr>))))"

subsection \<open>Starting an attempt\<close>

definition takeLease :: "('g, 'p) LaunchHost \<Rightarrow> string \<Rightarrow> 'g LaunchWorld \<Rightarrow> RunLeaseRecord res \<times> 'g LaunchWorld" where
  "takeLease h runId w =
     (case acquireRunLease (lhDigest32 h) (lhRoot h @ ''/leases'') runId (lhFreshId h) (lhLeaseBytes h) (awLeases (lwStore w)) of
        (r, l) \<Rightarrow> (r, w\<lparr>lwStore := (lwStore w)\<lparr>awLeases := l\<rparr>\<rparr>))"

definition closeLease :: "RunLeaseRecord \<Rightarrow> 'g LaunchWorld \<Rightarrow> unit res \<times> 'g LaunchWorld" where
  "closeLease lease w =
     (Inr (), w\<lparr>lwStore := (lwStore w)\<lparr>awLeases := releaseRunLease lease (awLeases (lwStore w))\<rparr>\<rparr>)"

definition underLease :: "RunLeaseRecord \<Rightarrow> 'g LaunchWorld \<Rightarrow> unit res" where
  "underLease lease w = assertCurrent lease (awLeases (lwStore w))"

text \<open>Worktree operations ask for the lease of the attempt.\<close>

definition onWorkspace ::
  "('g, 'p) LaunchHost \<Rightarrow> RunLeaseRecord \<Rightarrow> ('g GitHost \<Rightarrow> 'g WtWorld \<Rightarrow> 'a res \<times> 'g WtWorld) \<Rightarrow> 'g LaunchWorld
     \<Rightarrow> 'a res \<times> 'g LaunchWorld" where
  "onWorkspace h lease m w =
     (case m ((shGit (lhService h))\<lparr>ghLease := \<lambda>_. underLease lease w\<rparr>) (lwGit w) of (r, g) \<Rightarrow> (r, w\<lparr>lwGit := g\<rparr>))"

definition appendRun :: "('g, 'p) LaunchHost \<Rightarrow> RunLeaseRecord \<Rightarrow> ServiceEventData \<Rightarrow> 'g LaunchWorld \<Rightarrow> unit res \<times> 'g LaunchWorld" where
  "appendRun h lease d w =
     (case underLease lease w of
        Inl e \<Rightarrow> (Inl e, w)
      | Inr _ \<Rightarrow> (Inr (), w\<lparr>lwJournals := (lwJournals w)(lrRunId lease := appended (lhNow h) d (lwJournals w (lrRunId lease)))\<rparr>))"

definition snapshotRun :: "RunLeaseRecord \<Rightarrow> RunExecution \<Rightarrow> 'g LaunchWorld \<Rightarrow> unit res \<times> 'g LaunchWorld" where
  "snapshotRun lease e w =
     (case underLease lease w of
        Inl err \<Rightarrow> (Inl err, w)
      | Inr _ \<Rightarrow> (Inr (), w\<lparr>lwJournals := (lwJournals w)(lrRunId lease := snapshotted (snapshotOf e) (lwJournals w (lrRunId lease)))\<rparr>))"

definition checkExpected :: "StartInput \<Rightarrow> 'g LaunchWorld \<Rightarrow> unit res" where
  "checkExpected i w =
     (case siExpected i of None \<Rightarrow> Inr () | Some s \<Rightarrow> assertDurableStatus s (lwJournals w (planRunId (siPlan i))))"

definition announceContinuation :: "('g, 'p) LaunchHost \<Rightarrow> RunLeaseRecord \<Rightarrow> StartInput \<Rightarrow> 'g LaunchWorld \<Rightarrow> unit res \<times> 'g LaunchWorld" where
  "announceContinuation h lease i =
     (case siContinueFrom i of None \<Rightarrow> okS () | Some _ \<Rightarrow> appendRun h lease (ResumeAtHandoff (planAttemptId (siPlan i))))"

definition runRecordStep :: "('g, 'p) LaunchHost \<Rightarrow> StartInput \<Rightarrow> 'g LaunchWorld \<Rightarrow> RunRecord res \<times> 'g LaunchWorld" where
  "runRecordStep h i w =
     (if siKind i = InitialAttempt
      then (case createRunRecord (lhSha h) (siOwnerId i) (siRootPlan i) (siWorkspace i) (lhIso h (lhNow h)) (lhRunBytes h) (lwRunFiles w) of
              (r, d) \<Rightarrow> (r, w\<lparr>lwRunFiles := d\<rparr>))
      else (readRunRecord (lhSha h) (planRunId (siPlan i)) (lwRunFiles w), w))"

definition worktreeStep ::
  "('g, 'p) LaunchHost \<Rightarrow> RunLeaseRecord \<Rightarrow> StartInput \<Rightarrow> 'g LaunchWorld \<Rightarrow> WorktreeRecord option res \<times> 'g LaunchWorld" where
  "worktreeStep h lease i =
     (if workspaceMode (planWorkspace (siPlan i)) = Worktree \<and> siExistingWorktree i = None
      then bindS (onWorkspace h lease (\<lambda>g. createAttemptWorktree g (lhSha h)
             \<lparr>woRoot = lhRoot h @ ''/workspace'', woRunId = planRunId (siPlan i), woAttemptId = planAttemptId (siPlan i),
              woWorkspace = siWorkspace i, woLeaseRun = lrRunId lease, woContinueFrom = siContinueFrom i,
              woNow = lhIso h (lhNow h)\<rparr>)) (\<lambda>r. okS (Some r))
      else okS (siExistingWorktree i))"

definition snapshotStep ::
  "('g, 'p) LaunchHost \<Rightarrow> RunLeaseRecord \<Rightarrow> StartInput \<Rightarrow> 'g LaunchWorld \<Rightarrow> SnapshotRecord option res \<times> 'g LaunchWorld" where
  "snapshotStep h lease i =
     (if workspaceMode (planWorkspace (siPlan i)) = ReadOnly \<and> rwStartAt (siWorkspace i) \<noteq> None
      then bindS (onWorkspace h lease (\<lambda>g. createReadOnlySnapshot g
             \<lparr>soTrees = lhRoot h @ ''/workspace/snapshots/trees'', soRecords = lhRoot h @ ''/workspace/snapshots/records'',
              soRunId = planRunId (siPlan i), soAttemptId = planAttemptId (siPlan i), soWorkspace = siWorkspace i,
              soLeaseRun = lrRunId lease, soNow = lhIso h (lhNow h)\<rparr>)) (\<lambda>r. okS (Some r))
      else okS None)"

definition workspacePathOf :: "StartInput \<Rightarrow> WorktreeRecord option \<Rightarrow> SnapshotRecord option \<Rightarrow> string" where
  "workspacePathOf i worktree snapshot =
     (case (case worktree of Some r \<Rightarrow> Some (wtPath r) | None \<Rightarrow> map_option snPath snapshot) of
        None \<Rightarrow> rwCwd (siWorkspace i)
      | Some p \<Rightarrow> if p = [] then rwCwd (siWorkspace i)
                  else if rwRelativeCwd (siWorkspace i) = ''.'' then p else posixJoin p (rwRelativeCwd (siWorkspace i)))"

definition attemptRecordStep ::
  "('g, 'p) LaunchHost \<Rightarrow> RunLeaseRecord \<Rightarrow> StartInput \<Rightarrow> WorktreeRecord option \<Rightarrow> 'g LaunchWorld \<Rightarrow> AttemptRecord res \<times> 'g LaunchWorld" where
  "attemptRecordStep h lease i worktree w =
     (case createAttempt (lhSha h) lease
             \<lparr>aiOwnerId = siOwnerId i, aiPlan = siPlan i, aiOrdinal = siOrdinal i, aiKind = siKind i, aiParent = siParent i,
              aiWorktree = map_option wtAttemptId worktree, aiNow = lhIso h (lhNow h), aiBytes = lhAttemptBytes h\<rparr> (lwStore w) of
        (r, s) \<Rightarrow> (r, w\<lparr>lwStore := s\<rparr>))"

text \<open>The run goes into memory as active and its plan to the attempt runner, with the host tools it names.\<close>

definition handOver ::
  "('g, 'p) LaunchHost \<Rightarrow> RunLeaseRecord \<Rightarrow> StartInput \<Rightarrow> RunRecord \<Rightarrow> WorktreeRecord option \<Rightarrow> SnapshotRecord option
     \<Rightarrow> 'g LaunchWorld \<Rightarrow> RunReceipt res \<times> 'g LaunchWorld" where
  "handOver h lease i record worktree snapshot w =
     (let plan = siPlan i; runId = planRunId plan;
          run = \<lparr>avOwnerId = siOwnerId i, avPlan = plan, avWorkspace = siWorkspace i, avResult = None, avStatus = Active,
                 avCreatedAt = lhParse h (rrCreatedAt record), avControl = False, avLeaseHeld = True,
                 lvLease = lease, lvWorktree = worktree, lvReceipts = \<lambda>_. None\<rparr>;
          started = \<lparr>atInput = i, atLease = lease, atWorktree = worktree, atSnapshot = snapshot,
                     atPath = workspacePathOf i worktree snapshot,
                     atTools = List.map_filter (hostToolOf (lhTools h)) (planTools plan)\<rparr>
      in (Inr \<lparr>rpRunId = runId, rpAttemptId = planAttemptId plan, rpStatus = Active\<rparr>,
          w\<lparr>lwStarted := lwStarted w @ [started], lwRuns := AList.update runId run (lwRuns w),
            lwEmitted := lwEmitted w @ [(runId, Active)]\<rparr>))"

definition launchStep ::
  "('g, 'p) LaunchHost \<Rightarrow> RunLeaseRecord \<Rightarrow> StartInput \<Rightarrow> RunRecord \<Rightarrow> WorktreeRecord option \<Rightarrow> SnapshotRecord option
     \<Rightarrow> 'g LaunchWorld \<Rightarrow> RunReceipt res \<times> 'g LaunchWorld" where
  "launchStep h lease i record worktree snapshot =
     bindS (attemptRecordStep h lease i worktree) (\<lambda>_.
     bindS (readS (\<lambda>_. lhExecution h)) (\<lambda>_.
     handOver h lease i record worktree snapshot))"

text \<open>Before the attempt is launched nothing mounts its snapshot; removing it is tried, not required.\<close>

definition undoSnapshot ::
  "('g, 'p) LaunchHost \<Rightarrow> RunLeaseRecord \<Rightarrow> SnapshotRecord option \<Rightarrow> 'g LaunchWorld \<Rightarrow> unit res \<times> 'g LaunchWorld" where
  "undoSnapshot h lease snapshot =
     (case snapshot of
        None \<Rightarrow> okS ()
      | Some s \<Rightarrow> catchS (onWorkspace h lease (\<lambda>g. removeReadOnlySnapshot g (lrRunId lease) s)) (\<lambda>_. okS ()))"

definition startUnderLease ::
  "('g, 'p) LaunchHost \<Rightarrow> RunLeaseRecord \<Rightarrow> StartInput \<Rightarrow> 'g LaunchWorld \<Rightarrow> RunReceipt res \<times> 'g LaunchWorld" where
  "startUnderLease h lease i =
     bindS (readS (checkExpected i)) (\<lambda>_.
     bindS (announceContinuation h lease i) (\<lambda>_.
     bindS (readS (\<lambda>_. assertHostToolProjection (siPlan i) (lhTools h))) (\<lambda>_.
     bindS (runRecordStep h i) (\<lambda>record.
     bindS (worktreeStep h lease i) (\<lambda>worktree.
     bindS (snapshotStep h lease i) (\<lambda>snapshot.
     catchS (launchStep h lease i record worktree snapshot)
       (\<lambda>e. bindS (undoSnapshot h lease snapshot) (\<lambda>_. failS e))))))))"

definition startAttempt ::
  "('g, 'p) LaunchHost \<Rightarrow> StartInput \<Rightarrow> 'g LaunchWorld \<Rightarrow> RunReceipt res \<times> 'g LaunchWorld" where
  "startAttempt h i =
     bindS (takeLease h (planRunId (siPlan i))) (\<lambda>lease.
     catchS (startUnderLease h lease i) (\<lambda>e. bindS (closeLease lease) (\<lambda>_. failS e)))"

subsection \<open>Launching\<close>

definition ownedRun :: "string \<Rightarrow> string \<Rightarrow> 'g LaunchWorld \<Rightarrow> LiveRun res" where
  "ownedRun owner runId w =
     (case map_of (lwRuns w) runId of
        None \<Rightarrow> Inl (Err ''run not found'')
      | Some r \<Rightarrow> if avOwnerId r \<noteq> owner then Inl (Err ''run not found'') else Inr r)"

text \<open>A preflight is found, not expired and of the identity the caller approved; an expired one is forgotten.\<close>

definition preparedFor ::
  "('g, 'p) LaunchHost \<Rightarrow> OwnerRegistration \<Rightarrow> string \<Rightarrow> string \<Rightarrow> 'g LaunchWorld \<Rightarrow> PreparedPreflight res \<times> 'g LaunchWorld" where
  "preparedFor h owner preflightId identity w =
     (case map_of (lwPreflights w) preflightId of
        None \<Rightarrow> (Inl (Err ''preflight not found''), w)
      | Some p \<Rightarrow>
          if ppOwnerId p \<noteq> owId owner then (Inl (Err ''preflight not found''), w)
          else if ppExpiresAt p \<le> lhNow h
          then (Inl (Err ''preflight expired''), w\<lparr>lwPreflights := AList.delete preflightId (lwPreflights w)\<rparr>)
          else if ppIdentity p \<noteq> identity then (Inl (Err ''preflight identity mismatch''), w)
          else (Inr p, w))"

text \<open>Everything the plan was compiled from is asked for again.\<close>

definition unchangedSincePreflight :: "('g, 'p) LaunchHost \<Rightarrow> OwnerRegistration \<Rightarrow> PreparedPreflight \<Rightarrow> StartInput res" where
  "unchangedSincePreflight h owner p =
     (let plan = ppPlan p in
      andThen (assertSameAgent h p) (\<lambda>_.
      andThen (resolveModel (lhCompile h) (planModel plan)) (\<lambda>_.
      andThen (sameWorkspace h ''workspace changed after preflight'' (ppWorkspace p)) (\<lambda>current.
      andThen (sameSkills h plan (rwCwd current)) (\<lambda>skills.
      andThen (sameContextFiles h plan current) (\<lambda>files.
      andThen (sameFork h owner plan ''fork context authorization was lost'' ''fork context changed after preflight'') (\<lambda>fork.
        Inr \<lparr>siOwnerId = owId owner, siPlan = plan, siAgent = ppAgent p, siWorkspace = ppWorkspace p, siSkills = skills,
             siContextFiles = files, siFork = fork, siKind = InitialAttempt, siExpected = None, siOrdinal = 0,
             siParent = None, siRootPlan = plan, siResumeFile = None, siResumeMessage = None,
             siExistingWorktree = None, siContinueFrom = None\<rparr>)))))))"

definition operationOf :: "('g, 'p) LaunchHost \<Rightarrow> string \<Rightarrow> string \<Rightarrow> string \<Rightarrow> string \<Rightarrow> OperationRecord" where
  "operationOf h owner operation requestSha256 runId =
     \<lparr>opOwnerId = owner, opOperationId = operation, opRequestSha256 = requestSha256, opRunId = runId,
      opCreatedAt = lhIso h (lhNow h)\<rparr>"

text \<open>A claim whose record conflicts throws \<open>OperationConflictError\<close>.\<close>

definition claimStep :: "('g, 'p) LaunchHost \<Rightarrow> OperationRecord \<Rightarrow> 'g LaunchWorld \<Rightarrow> unit res \<times> 'g LaunchWorld" where
  "claimStep h r w =
     (case claimOperation (lhOperationKey h) r (lhOperationBytes h) (lwOperations w) of
        (Inl (ClaimFailed e), d) \<Rightarrow> (Inl e, w\<lparr>lwOperations := d\<rparr>)
      | (Inl (OperationConflict _), d) \<Rightarrow> (Inl (Err ''operation conflict''), w\<lparr>lwOperations := d\<rparr>)
      | (Inr _, d) \<Rightarrow> (Inr (), w\<lparr>lwOperations := d\<rparr>))"

definition launchPrepared ::
  "('g, 'p) LaunchHost \<Rightarrow> OwnerRegistration \<Rightarrow> PreparedPreflight \<Rightarrow> StartInput \<Rightarrow> 'g LaunchWorld \<Rightarrow> RunReceipt res \<times> 'g LaunchWorld" where
  "launchPrepared h owner p i w =
     (let plan = ppPlan p in
      case map_of (lwRuns w) (planRunId plan) of
        Some run \<Rightarrow>
          if avOwnerId run \<noteq> owId owner then (Inl (Err ''run ownership mismatch''), w)
          else (Inr \<lparr>rpRunId = planRunId (avPlan run), rpAttemptId = planAttemptId (avPlan run), rpStatus = avStatus run\<rparr>, w)
      | None \<Rightarrow>
          bindS (claimStep h (operationOf h (owId owner) (planOperationId plan) (ppRequestSha256 p) (planRunId plan))) (\<lambda>_.
          startAttempt h i) w)"

definition launch ::
  "('g, 'p) LaunchHost \<Rightarrow> OwnerRegistration \<Rightarrow> string \<Rightarrow> string \<Rightarrow> 'g LaunchWorld \<Rightarrow> RunReceipt res \<times> 'g LaunchWorld" where
  "launch h owner preflightId identity =
     bindS (preparedFor h owner preflightId identity) (\<lambda>p.
     bindS (readS (\<lambda>_. unchangedSincePreflight h owner p)) (\<lambda>i.
     launchPrepared h owner p i))"

definition findByOperation ::
  "('g, 'p) LaunchHost \<Rightarrow> OwnerRegistration \<Rightarrow> string \<Rightarrow> 'g LaunchWorld \<Rightarrow> RunReceipt option res" where
  "findByOperation h owner operation w =
     andThen (findOperation (lhOperationKey h) (owId owner) operation (lwOperations w)) (\<lambda>found.
       case found of
         None \<Rightarrow> Inr None
       | Some r \<Rightarrow>
           (case map_of (lwRuns w) (opRunId r) of
              Some run \<Rightarrow> Inr (Some \<lparr>rpRunId = opRunId r, rpAttemptId = planAttemptId (avPlan run), rpStatus = avStatus run\<rparr>)
            | None \<Rightarrow>
                (case readRunRecord (lhSha h) (opRunId r) (lwRunFiles w) of
                   Inl Enoent \<Rightarrow> Inl (Corruption ''operation claim has no durable run record'')
                 | Inl e \<Rightarrow> Inl e
                 | Inr p \<Rightarrow>
                     if rrOwnerId p \<noteq> owId owner \<or> planOperationId (rrPlan p) \<noteq> operation \<or> planRunId (rrPlan p) \<noteq> opRunId r
                     then Inl (Corruption ''operation claim and run record do not match'')
                     else Inr (Some \<lparr>rpRunId = opRunId r, rpAttemptId = planAttemptId (rrPlan p), rpStatus = Active\<rparr>))))"

subsection \<open>Retrying\<close>

definition retryPermitted :: "LiveRun \<Rightarrow> RunExecution res" where
  "retryPermitted run =
     (case avResult run of
        None \<Rightarrow> Inl (Err ''run is not retryable'')
      | Some e \<Rightarrow>
          if avStatus run \<noteq> Failed then Inl (Err ''run is not retryable'')
          else if (case failure (exResult e) of None \<Rightarrow> True
                   | Some f \<Rightarrow> failureRetry f \<noteq> RetryManual \<and> failureRetry f \<noteq> RetryBackoff)
          then Inl (Err ''failure classification does not permit retry'')
          else if Option.bind (exHandoff e) wtHandoffCommit \<noteq> None
          then Inl (Err ''retry would discard the hand-off of the run'')
          else Inr e)"

definition currentAttempt :: "('g, 'p) LaunchHost \<Rightarrow> AgentLaunchPlan \<Rightarrow> AttemptStore \<Rightarrow> AttemptRecord res" where
  "currentAttempt h plan st =
     andThen (latestAttempt (lhSha h) (planRunId plan) st) (\<lambda>latest.
       case latest of
         None \<Rightarrow> Inl (Err ''attempt history mismatch'')
       | Some a \<Rightarrow> if arAttemptId a \<noteq> planAttemptId plan then Inl (Err ''attempt history mismatch'') else Inr a)"

definition retryDue :: "int \<Rightarrow> RunExecution \<Rightarrow> AttemptRecord \<Rightarrow> ServiceEvent list \<Rightarrow> unit res" where
  "retryDue now e latest es =
     (let delay = retryDelayMs (failure (exResult e)) (nat (arOrdinal latest)) in
      if delay \<le> 0 then Inr ()
      else (case latestTerminal es of
              None \<Rightarrow> Inl (Err ''retry terminal evidence is unavailable'')
            | Some t \<Rightarrow> if seTime t + delay > now then Inl (RetryBackoffUntil (seTime t + delay)) else Inr ()))"

definition planAgentNow :: "('g, 'p) LaunchHost \<Rightarrow> AgentLaunchPlan \<Rightarrow> AgentDefinition" where
  "planAgentNow h plan = (case lhAgents h (planAgent plan) of Some a \<Rightarrow> a | None \<Rightarrow> agentFromPlan plan)"

text \<open>The host is asked again for all that an earlier attempt of the run was given.\<close>

definition unchangedSince ::
  "('g, 'p) LaunchHost \<Rightarrow> string \<Rightarrow> AgentLaunchPlan \<Rightarrow> RunWorkspace
     \<Rightarrow> (RunWorkspace \<times> AgentDefinition \<times> ProjectedSkill list \<times> ProjectedContextFile list) res" where
  "unchangedSince h before plan prior =
     andThen (sameWorkspace h (''workspace changed before '' @ before) prior) (\<lambda>workspace.
     andThen (assertAgentDigest h (''agent changed before '' @ before) (planAgentNow h plan)) (\<lambda>_.
     andThen (resolveModel (lhCompile h) (planModel plan)) (\<lambda>_.
     andThen (sameSkills h plan (rwCwd workspace)) (\<lambda>skills.
     andThen (sameContextFiles h plan workspace) (\<lambda>files.
       Inr (workspace, planAgentNow h plan, skills, files))))))"

definition retryGuards :: "('g, 'p) LaunchHost \<Rightarrow> LiveRun \<Rightarrow> AttemptStore \<Rightarrow> ServiceEvent list \<Rightarrow> (RunExecution \<times> AttemptRecord) res" where
  "retryGuards h run st es =
     andThen (retryPermitted run) (\<lambda>e.
     andThen (currentAttempt h (avPlan run) st) (\<lambda>latest.
     andThen (retryDue (lhNow h) e latest es) (\<lambda>_. Inr (e, latest))))"

definition retryInput :: "('g, 'p) LaunchHost \<Rightarrow> OwnerRegistration \<Rightarrow> LiveRun \<Rightarrow> 'g LaunchWorld \<Rightarrow> StartInput res" where
  "retryInput h owner run w =
     (let plan = avPlan run; runId = planRunId plan in
      andThen (retryGuards h run (lwStore w) (sjEvents (lwJournals w runId))) (\<lambda>(e, latest).
      andThen (readRunRecord (lhSha h) runId (lwRunFiles w)) (\<lambda>rootRecord.
      andThen (unchangedSince h ''retry'' plan (avWorkspace run)) (\<lambda>(workspace, agent, skills, files).
      andThen (sameFork h owner plan ''fork retry requires the authorized parent session'' ''fork context changed before retry'') (\<lambda>fork.
      andThen (retryPlan (lhSha h) plan (exResult e) (arOrdinal latest + 1)) (\<lambda>next.
        Inr \<lparr>siOwnerId = owId owner, siPlan = next, siAgent = agent, siWorkspace = workspace, siSkills = skills,
             siContextFiles = files, siFork = fork, siKind = RetryAttempt, siExpected = Some Failed,
             siOrdinal = arOrdinal latest + 1, siParent = Some (arAttemptId latest), siRootPlan = rrPlan rootRecord,
             siResumeFile = None, siResumeMessage = None, siExistingWorktree = None, siContinueFrom = None\<rparr>))))))"

definition retry :: "('g, 'p) LaunchHost \<Rightarrow> OwnerRegistration \<Rightarrow> string \<Rightarrow> 'g LaunchWorld \<Rightarrow> RunReceipt res \<times> 'g LaunchWorld" where
  "retry h owner runId =
     bindS (readS (ownedRun (owId owner) runId)) (\<lambda>run.
     bindS (readS (retryInput h owner run)) (\<lambda>i. startAttempt h i))"

subsection \<open>Resuming\<close>

definition resumePermitted :: "LiveRun \<Rightarrow> bool \<Rightarrow> (RunExecution \<times> string) res" where
  "resumePermitted run continuing =
     andThen
       (if continuing then
          (if workspaceMode (planWorkspace (avPlan run)) \<noteq> Worktree
           then Inl (Err ''resume at hand-off requires a worktree run'')
           else if \<not> isOk (transitionRunStatus (avStatus run) EvResumeAtHandoff)
           then Inl (Err ''resume at hand-off requires a completed, failed, or cancelled run'')
           else require (truthy (Option.bind (Option.bind (avResult run) exHandoff) wtHandoffCommit) \<noteq> None)
                  (Err ''run has no exported hand-off to continue from''))
        else
          (if avStatus run \<noteq> Interrupted \<or> truthy (Option.bind (avResult run) exSessionFile) = None
           then Inl (Err ''run is not resumable'')
           else require (Option.bind (avResult run) (\<lambda>e. map_option failureRetry (failure (exResult e))) = Some RetryResume)
                  (Err ''failure classification does not permit resume''))) (\<lambda>_.
     case avResult run of
       None \<Rightarrow> Inl (Err ''run has no retained session to resume'')
     | Some e \<Rightarrow> (case truthy (exSessionFile e) of
                    None \<Rightarrow> Inl (Err ''run has no retained session to resume'')
                  | Some f \<Rightarrow> Inr (e, f)))"

definition retainedSession :: "('g, 'p) LaunchHost \<Rightarrow> ServiceEvent list \<Rightarrow> string \<Rightarrow> string res" where
  "retainedSession h es f =
     (case observeSessionEvidence (lhService h) es (Some f) of
        SessionValid path \<Rightarrow> Inr path
      | _ \<Rightarrow> Inl (Err ''retained session identity is unproved''))"

definition continuedHandoff ::
  "('g, 'p) LaunchHost \<Rightarrow> string \<Rightarrow> RunExecution \<Rightarrow> 'g LaunchWorld \<Rightarrow> WorktreeRecord option res" where
  "continuedHandoff h runId e w =
     (case exHandoff e of
        None \<Rightarrow> Inl (Err ''durable handoff identity mismatch'')
      | Some carried \<Rightarrow>
          andThen (readAttemptWorktree (lhService h) (wtAttemptId carried) (lwGit w)) (\<lambda>r.
            case r of
              None \<Rightarrow> Inl (Err ''durable handoff identity mismatch'')
            | Some r \<Rightarrow> if sameHandoff runId carried r then Inr (Some r)
                        else Inl (Err ''durable handoff identity mismatch'')))"

definition retainedWorktreeOf ::
  "('g, 'p) LaunchHost \<Rightarrow> string \<Rightarrow> AttemptRecord \<Rightarrow> 'g LaunchWorld \<Rightarrow> WorktreeRecord option res" where
  "retainedWorktreeOf h runId latest w =
     andThen (readWorktreeRecord (shRecordPath (lhService h)
               (case arWorktree latest of Some a \<Rightarrow> a | None \<Rightarrow> arAttemptId latest)) (lwGit w)) (\<lambda>r.
       if wtRunId r \<noteq> runId \<or> Some (wtAttemptId r) \<noteq> arWorktree latest \<or> truthy (wtReleasedAt r) \<noteq> None
       then Inl (Err ''retained worktree identity is invalid for resume'')
       else (case observeWorktree (shGit (lhService h)) r (wwGit (lwGit w)) of
               ObservedClean \<Rightarrow> Inr (Some r)
             | ObservedDirty \<Rightarrow> Inr (Some r)
             | _ \<Rightarrow> Inl (Err ''retained worktree is unavailable for resume'')))"

text \<open>The worktree the attempt runs in, or the hand-off its new worktree starts at.\<close>

definition resumeWorktrees ::
  "('g, 'p) LaunchHost \<Rightarrow> AgentLaunchPlan \<Rightarrow> RunExecution \<Rightarrow> AttemptRecord \<Rightarrow> bool \<Rightarrow> 'g LaunchWorld
     \<Rightarrow> (WorktreeRecord option \<times> WorktreeRecord option) res" where
  "resumeWorktrees h plan e latest continuing w =
     (if continuing then andThen (continuedHandoff h (planRunId plan) e w) (\<lambda>r. Inr (None, r))
      else if workspaceMode (planWorkspace plan) = Worktree
      then andThen (retainedWorktreeOf h (planRunId plan) latest w) (\<lambda>r. Inr (r, None))
      else Inr (None, None))"

definition resumeInput ::
  "('g, 'p) LaunchHost \<Rightarrow> OwnerRegistration \<Rightarrow> LiveRun \<Rightarrow> ResumeInput option \<Rightarrow> 'g LaunchWorld \<Rightarrow> StartInput res" where
  "resumeInput h owner run input w =
     (let plan = avPlan run; runId = planRunId plan; continuing = (input \<noteq> None) in
      andThen (resumePermitted run continuing) (\<lambda>(prior, file).
      andThen (currentAttempt h plan (lwStore w)) (\<lambda>latest.
      andThen (resumePlan (lhSha h) plan (exResult prior) (arOrdinal latest + 1) continuing) (\<lambda>next.
      andThen (readRunRecord (lhSha h) runId (lwRunFiles w)) (\<lambda>rootRecord.
      andThen (retainedSession h (sjEvents (lwJournals w runId)) file) (\<lambda>session.
      andThen (unchangedSince h ''resume'' plan (avWorkspace run)) (\<lambda>(workspace, agent, skills, files).
      andThen (resumeWorktrees h plan prior latest continuing w) (\<lambda>(existing, from).
        Inr \<lparr>siOwnerId = owId owner, siPlan = next, siAgent = agent, siWorkspace = workspace, siSkills = skills,
             siContextFiles = files, siFork = None, siKind = ResumeAttempt, siExpected = Some (avStatus run),
             siOrdinal = arOrdinal latest + 1, siParent = Some (arAttemptId latest), siRootPlan = rrPlan rootRecord,
             siResumeFile = Some session, siResumeMessage = Option.bind input riMessage,
             siExistingWorktree = existing, siContinueFrom = from\<rparr>))))))))"

definition checkResumeInput :: "ResumeInput option \<Rightarrow> unit res" where
  "checkResumeInput input = (case input of None \<Rightarrow> Inr () | Some i \<Rightarrow> assertResumeInput i)"

definition resume ::
  "('g, 'p) LaunchHost \<Rightarrow> OwnerRegistration \<Rightarrow> string \<Rightarrow> ResumeInput option \<Rightarrow> 'g LaunchWorld \<Rightarrow> RunReceipt res \<times> 'g LaunchWorld" where
  "resume h owner runId input =
     bindS (readS (\<lambda>_. checkResumeInput input)) (\<lambda>_.
     bindS (readS (ownedRun (owId owner) runId)) (\<lambda>run.
     bindS (readS (resumeInput h owner run input)) (\<lambda>i. startAttempt h i)))"

subsection \<open>While the attempt runs, and its end\<close>

definition putRun :: "string \<Rightarrow> LiveRun \<Rightarrow> 'g LaunchWorld \<Rightarrow> 'g LaunchWorld" where
  "putRun runId run w = w\<lparr>lwRuns := AList.update runId run (lwRuns w)\<rparr>"

definition announce :: "string \<Rightarrow> RunStatus \<Rightarrow> 'g LaunchWorld \<Rightarrow> 'g LaunchWorld" where
  "announce runId s w = w\<lparr>lwEmitted := lwEmitted w @ [(runId, s)]\<rparr>"

text \<open>The attempt appends to the journal under its lease.\<close>

definition attemptEvent :: "('g, 'p) LaunchHost \<Rightarrow> string \<Rightarrow> ServiceEventData \<Rightarrow> 'g LaunchWorld \<Rightarrow> unit res \<times> 'g LaunchWorld" where
  "attemptEvent h runId d w =
     (case map_of (lwRuns w) runId of
        None \<Rightarrow> (Inl (Err ''run not found''), w) | Some run \<Rightarrow> appendRun h (lvLease run) d w)"

definition registerControl :: "string \<Rightarrow> bool \<Rightarrow> 'g LaunchWorld \<Rightarrow> 'g LaunchWorld" where
  "registerControl runId present w =
     (case map_of (lwRuns w) runId of
        None \<Rightarrow> w
      | Some run \<Rightarrow> announce runId (avStatus run) (putRun runId (run\<lparr>avControl := present\<rparr>) w))"

text \<open>A hand-off of an earlier attempt stays the run's hand-off when this attempt captured none.\<close>

definition settledExecution :: "('g, 'p) LaunchHost \<Rightarrow> LiveRun \<Rightarrow> RunExecution \<Rightarrow> 'g LaunchWorld \<Rightarrow> RunExecution res" where
  "settledExecution h run e w =
     (if exHandoff e = None \<and> lvWorktree run \<noteq> None
      then andThen (listAttempts (lhSha h) (planRunId (avPlan run)) (lwStore w)) (\<lambda>attempts.
           andThen (carriedHandoff (lhService h) (lwGit w) attempts (lvWorktree run)) (\<lambda>carried.
             Inr (case carried of None \<Rightarrow> e | Some c \<Rightarrow> e\<lparr>exHandoff := Some c\<rparr>)))
      else Inr e)"

definition settleAttempt ::
  "('g, 'p) LaunchHost \<Rightarrow> string \<Rightarrow> RunExecution \<Rightarrow> 'g LaunchWorld \<Rightarrow> RunExecution res \<times> 'g LaunchWorld" where
  "settleAttempt h runId executed w =
     (case map_of (lwRuns w) runId of
        None \<Rightarrow> (Inl (Err ''run not found''), w)
      | Some run \<Rightarrow>
          (case bindS (readS (settledExecution h run executed)) (\<lambda>e. bindS (snapshotRun (lvLease run) e) (\<lambda>_. okS e)) w of
             (Inl err, w) \<Rightarrow>
               (Inl err, announce runId CleanupBlocked (putRun runId (run\<lparr>avStatus := CleanupBlocked\<rparr>) w))
           | (Inr e, w) \<Rightarrow>
               (let status = resultStatus (exResult e); blocked = (status = CleanupBlocked);
                    run = run\<lparr>avResult := Some e, avStatus := status, avLeaseHeld := blocked\<rparr>;
                    w = (if blocked then w else snd (closeLease (lvLease run) w))
                in (Inr e, announce runId status (putRun runId run w)))))"

text \<open>The attempt runner itself threw.\<close>

definition failAttempt :: "string \<Rightarrow> 'g LaunchWorld \<Rightarrow> 'g LaunchWorld" where
  "failAttempt runId w =
     (case map_of (lwRuns w) runId of
        None \<Rightarrow> w
      | Some run \<Rightarrow> announce runId CleanupBlocked (putRun runId (run\<lparr>avStatus := CleanupBlocked\<rparr>) w))"

subsection \<open>Steering and following up\<close>

datatype ControlKind = SteerText | FollowUpText

fun controlKindText :: "ControlKind \<Rightarrow> string" where
  "controlKindText SteerText = ''steer''" | "controlKindText FollowUpText = ''follow-up''"

definition checkControl :: "string \<Rightarrow> string \<Rightarrow> bool" where
  "checkControl operation text =
     (trim operation \<noteq> [] \<and> length operation \<le> 256 \<and> trim text \<noteq> [] \<and> int (length text) \<le> 64 * 1024)"

definition controlDigest :: "(string \<Rightarrow> string) \<Rightarrow> ControlKind \<Rightarrow> string \<Rightarrow> string res" where
  "controlDigest sha k text =
     canonicalSha256 sha (vobj [(''kind'', Some (VStr (controlKindText k))), (''text'', Some (VStr text))])"

text \<open>\<open>accepts\<close> is whether the session takes the text. An error of either write of the journal is an error.\<close>

definition deliverText ::
  "('g, 'p) LaunchHost \<Rightarrow> LiveRun \<Rightarrow> bool \<Rightarrow> string \<Rightarrow> string \<Rightarrow> 'g LaunchWorld \<Rightarrow> ReceiptState res \<times> 'g LaunchWorld" where
  "deliverText h run accepts operation text =
     catchS
       (bindS (checkS accepts (Err ''not accepted'')) (\<lambda>_.
        bindS (\<lambda>w. (Inr (), w\<lparr>lwDelivered := lwDelivered w @
                [\<lparr>dvRunId = planRunId (avPlan run), dvAttemptId = planAttemptId (avPlan run), dvOperationId = operation,
                  dvText = text\<rparr>]\<rparr>)) (\<lambda>_.
        bindS (appendRun h (lvLease run) (ControlAccepted operation)) (\<lambda>_. okS AcceptedBySession))))
       (\<lambda>_. bindS (appendRun h (lvLease run) (ControlFailed operation)) (\<lambda>_. okS ReceiptFailed))"

definition answerControl ::
  "('g, 'p) LaunchHost \<Rightarrow> string \<Rightarrow> LiveRun \<Rightarrow> bool \<Rightarrow> string \<Rightarrow> string \<Rightarrow> 'g LaunchWorld \<Rightarrow> ReceiptState res \<times> 'g LaunchWorld" where
  "answerControl h runId run accepts operation text w =
     (case lvReceipts run operation of
        Some r \<Rightarrow> (Inr r, w)
      | None \<Rightarrow>
          (case (if avStatus run \<noteq> Active \<or> \<not> avControl run then (Inr Missed, w)
                 else deliverText h run accepts operation text w) of
             (Inl e, w) \<Rightarrow> (Inl e, w)
           | (Inr r, w) \<Rightarrow> (Inr r, putRun runId (run\<lparr>lvReceipts := (lvReceipts run)(operation \<mapsto> r)\<rparr>) w)))"

definition deliverControl ::
  "('g, 'p) LaunchHost \<Rightarrow> OwnerRegistration \<Rightarrow> string \<Rightarrow> ControlKind \<Rightarrow> bool \<Rightarrow> string \<Rightarrow> string \<Rightarrow> 'g LaunchWorld
     \<Rightarrow> ReceiptState res \<times> 'g LaunchWorld" where
  "deliverControl h owner runId k accepts operation text =
     bindS (checkS (checkControl operation text) (Err ''invalid control input'')) (\<lambda>_.
     bindS (readS (ownedRun (owId owner) runId)) (\<lambda>run.
     bindS (readS (\<lambda>_. controlDigest (lhSha h) k text)) (\<lambda>d.
     bindS (claimStep h (operationOf h (owId owner) operation d runId)) (\<lambda>_.
     answerControl h runId run accepts operation text))))"

subsection \<open>Stopping, forgetting and describing runs\<close>

definition interruptRun :: "OwnerRegistration \<Rightarrow> string \<Rightarrow> 'g LaunchWorld \<Rightarrow> RunReceipt res \<times> 'g LaunchWorld" where
  "interruptRun owner runId w =
     (case ownedRun (owId owner) runId w of
        Inl e \<Rightarrow> (Inl e, w)
      | Inr run \<Rightarrow>
          (let stop = (avStatus run = Active); status = (if stop then Stopping else avStatus run)
           in (Inr \<lparr>rpRunId = runId, rpAttemptId = planAttemptId (avPlan run), rpStatus = status\<rparr>,
               if stop then announce runId Stopping (putRun runId (run\<lparr>avStatus := Stopping\<rparr>) w) else w)))"

definition stopping :: "RunStatus \<Rightarrow> bool" where "stopping s = (s = Active \<or> s = Stopping)"

definition shutdown :: "'g LaunchWorld \<Rightarrow> 'g LaunchWorld" where
  "shutdown w =
     w\<lparr>lwRuns := map (\<lambda>(k, run). (k, if stopping (avStatus run) then run\<lparr>avStatus := Stopping\<rparr> else run)) (lwRuns w),
       lwEmitted := lwEmitted w @ map (\<lambda>(k, run). (planRunId (avPlan run), Stopping))
         (filter (\<lambda>(k, run). stopping (avStatus run)) (lwRuns w))\<rparr>"

text \<open>After a sweep that was not a dry run; \<open>removed\<close> are the runs it moved to the trash or recovered from it.\<close>

definition forgetRuns :: "string list \<Rightarrow> 'g LaunchWorld \<Rightarrow> 'g LaunchWorld" where
  "forgetRuns removed w =
     w\<lparr>lwRuns := filter (\<lambda>e. fst e \<notin> set removed) (lwRuns w),
       lwPreflights := filter (\<lambda>e. planRunId (ppPlan (snd e)) \<notin> set removed) (lwPreflights w)\<rparr>"

record RunView =
  vwReceipt :: RunReceipt
  vwResult :: "RunExecution option"

definition statusOf :: "OwnerRegistration \<Rightarrow> string \<Rightarrow> 'g LaunchWorld \<Rightarrow> RunView res" where
  "statusOf owner runId w =
     andThen (ownedRun (owId owner) runId w) (\<lambda>run.
       Inr \<lparr>vwReceipt = \<lparr>rpRunId = runId, rpAttemptId = planAttemptId (avPlan run), rpStatus = avStatus run\<rparr>,
            vwResult = avResult run\<rparr>)"

text \<open>A service that has just started, on empty stores.\<close>

definition emptyService :: "'g WtWorld \<Rightarrow> 'g LaunchWorld" where
  "emptyService g = \<lparr>lwStore = emptyAttempts, lwOperations = \<lambda>_. None, lwRunFiles = [], lwGit = g,
     lwJournals = \<lambda>_. \<lparr>sjEvents = [], sjSnapshot = None\<rparr>, lwPreflights = [], lwRuns = [], lwStarted = [],
     lwDelivered = [], lwEmitted = []\<rparr>"

end
