(* ===== verification/LaunchDemo.thy ===== *)
theory LaunchDemo
  imports ServiceLaunch
begin

section \<open>A launch, concretely\<close>

text \<open>
  A host, a prepared preflight and the world after launching it: the inputs the properties of launches
  are applied to.
\<close>

definition launchFiles :: HostFiles where
  "launchFiles = \<lparr>hfRealpath = Inr, hfNode = \<lambda>_. Inr (HostFile ''p'' False), hfSha256 = \<lambda>_. replicate 64 CHR ''a''\<rparr>"

definition cleanWorkspaceHost :: WorkspaceHost where
  "cleanWorkspaceHost = demoWorkspaceHost\<lparr>whFiles := launchFiles, whStatus := \<lambda>_. Inr []\<rparr>"

definition demoCheckout :: RunWorkspace where
  "demoCheckout = \<lparr>rwMode = ReadOnly, rwRepositoryRoot = ''/r'', rwCwd = ''/r'', rwRelativeCwd = ''.'',
     rwHead = replicate 40 CHR ''a'', rwDirty = False, rwHostPath = replicate 64 CHR ''f'',
     rwBaseline = replicate 64 CHR ''f'', rwStartAt = None\<rparr>"

definition launchPlan :: AgentLaunchPlan where
  "launchPlan = compiledPlan\<lparr>planWorkspace := resolvedOf demoCheckout\<rparr>"

definition demoPrepared :: PreparedPreflight where
  "demoPrepared = \<lparr>ppIdentity = planIdentity launchPlan, ppExpiresAt = 10, ppPlan = launchPlan, ppOwnerId = ''owner'',
     ppRequestSha256 = replicate 64 CHR ''f'', ppAgent = demoAgent, ppAgentRoots = [], ppWorkspace = demoCheckout\<rparr>"

definition launchHost :: "(demoGitState, unit) LaunchHost" where
  "launchHost = \<lparr>lhSha = demoSha, lhLocaleKey = \<lambda>s. s, lhDigest32 = \<lambda>_ _. 0, lhRoot = ''/store'',
     lhOperationKey = \<lambda>a b. a @ b, lhService = demoServiceHost,
     lhAgents = \<lambda>n. if n = ''a'' then Some demoAgent else None,
     lhAgentHost = \<lparr>ahReaddir = \<lambda>_. Inr [], ahFiles = launchFiles, ahYaml = \<lambda>_. None\<rparr>,
     lhWorkspaces = cleanWorkspaceHost, lhSkills = \<lambda>_ _. [],
     lhProjection = \<lambda>_ _. \<lparr>phFiles = launchFiles, phContextFiles = [], phDecode = Some\<rparr>, lhAgentDir = ''/agents'',
     lhTrusted = \<lambda>_. False, lhOpenSession = \<lambda>_. Inl Enoent, lhSerialize = \<lambda>_. [], lhCompile = demoHost,
     lhCheckSchema = \<lambda>_. Inr (), lhImplementation = (''i'', replicate 64 CHR ''a''), lhTools = [],
     lhExecution = Inr (planSandbox launchPlan), lhMaxTaskCost = 10, lhTtlMs = 1000, lhIso = \<lambda>_. ''t'', lhParse = \<lambda>_. 0,
     lhFreshId = ''l'', lhLeaseBytes = 100, lhOperationBytes = 100, lhRunBytes = 4000, lhAttemptBytes = 4000\<rparr>"

definition demoOwner :: OwnerRegistration where
  "demoOwner = \<lparr>owId = ''owner'', owParentSession = None, owParentFile = None\<rparr>"

definition demoStart :: StartInput where
  "demoStart = \<lparr>siOwnerId = ''owner'', siPlan = launchPlan, siAgent = demoAgent, siWorkspace = demoCheckout, siSkills = [],
     siContextFiles = [], siFork = None, siKind = InitialAttempt, siExpected = None, siOrdinal = 0,
     siParent = None, siRootPlan = launchPlan, siResumeFile = None, siResumeMessage = None,
     siExistingWorktree = None, siContinueFrom = None\<rparr>"

lemma launchPlan_fields:
  "planRunId launchPlan = ''run_1''" "planAttemptId launchPlan = ''attempt_1''" "planOwnerId launchPlan = ''owner''"
  "planOperationId launchPlan = ''op''" "planWorkspace launchPlan = resolvedOf demoCheckout"
  "planIdentity launchPlan = replicate 64 CHR ''f''" "planTools launchPlan = [''read'']" "planSkills launchPlan = []"
  "planScopes launchPlan = []" "planContextMode launchPlan = FreshContext" "planOutputSchema launchPlan = None"
  by (simp_all add: launchPlan_def compiledPlan_def planFor_def draftPlan_def Let_def demoInput_def unique_def demoAgent_def demoGrant_def)

lemma launchPlan_resources: "planResources launchPlan = [demoGrant KindAgent ''a'', demoGrant KindTool ''read'']"
  by code_simp

lemma launchPlan_verifies: "verifyLaunchPlanIdentity demoSha launchPlan = Inr True"
proof -
  have "canonicalSha256 demoSha (draftJs launchPlan) = Inr (replicate 64 CHR ''f'')"
    by (rule demoSha_plain, rule plain_draftJs) (simp add: launchPlan_fields)
  then show ?thesis by (simp add: verifyLaunchPlanIdentity_def launchPlan_fields)
qed

lemma launchPlan_valid: "checkPlan launchPlan"
  using compiledPlan_valid
  by (simp add: launchPlan_def checkPlan_def resolvedOf_def demoCheckout_def checkStartAt_def)

lemma demo_skill_catalog: "sameSkills launchHost launchPlan ''/r'' = Inr []"
  by (simp add: sameSkills_def skillsIn_def launchPlan_fields discoverAndProjectSkills_def launchHost_def unique_def
     assertSkillProjection_def launchPlan_resources demoGrant_def demoSha_plain Let_def)

lemma demo_files: "sameContextFiles launchHost launchPlan demoCheckout = Inr []"
  by (simp add: sameContextFiles_def contextFilesIn_def discoverAndProjectContextFiles_def launchPlan_fields Let_def
     assertContextFileProjection_def launchPlan_resources demoGrant_def demoSha_plain launchHost_def)

lemma demo_unchanged: "unchangedSincePreflight launchHost demoOwner demoPrepared = Inr demoStart"
proof -
  have agent: "assertSameAgent launchHost demoPrepared = Inr ()" by code_simp
  have workspace: "sameWorkspace launchHost ''workspace changed after preflight'' demoCheckout = Inr demoCheckout" by code_simp
  have fork: "sameFork launchHost demoOwner launchPlan a b = Inr None" for a b
    by (simp add: sameFork_def launchPlan_fields)
  show ?thesis
    using agent workspace demo_skill_catalog demo_files fork
    by (simp add: unchangedSincePreflight_def demoPrepared_def demoStart_def demoOwner_def demoCheckout_def launchHost_def demoHost_def Let_def)
qed

text \<open>The records of the attempt, as they are written and as they are found.\<close>

definition launchRunRecord :: RunRecord where
  "launchRunRecord = \<lparr>rrOwnerId = ''owner'', rrPlan = launchPlan, rrWorkspace = demoCheckout, rrCreatedAt = ''t''\<rparr>"

definition launchAttempt :: AttemptRecord where
  "launchAttempt = \<lparr>arOwnerId = ''owner'', arRunId = ''run_1'', arAttemptId = ''attempt_1'', arOrdinal = 0, arKind = InitialAttempt,
     arParent = None, arWorktree = None, arPlan = launchPlan, arCreatedAt = ''t''\<rparr>"

definition stored :: "int \<Rightarrow> 'a \<Rightarrow> 'a storedFile" where
  "stored n r = \<lparr>fileSize = n, fileIsFile = True, fileValue = encoded r\<rparr>"

lemma demo_ids: "checkRunId ''run_1''" "checkAttemptId ''attempt_1''" "checkIdentity ''owner''" "checkIdentity ''op''"
  by code_simp+

lemma launchRunRecord_valid: "checkRunRecord launchRunRecord"
  by (simp add: checkRunRecord_def launchRunRecord_def launchPlan_valid demo_ids demoCheckout_def checkPath_def checkStartAt_def
     checkCommitId_def list_all_rep is_hex_def is_digit_def)

lemma createRun_first:
  "createRunRecord demoSha ''owner'' launchPlan demoCheckout ''t'' 4000 [] = (Inr launchRunRecord, [(''run_1'', stored 4000 launchRunRecord)])"
  using launchRunRecord_valid
  by (simp add: createRunRecord_def launchPlan_fields launchPlan_verifies launchRunRecord_def MAX_RUN_RECORD_BYTES_def demo_ids
      linkEntry_def stored_def Let_def)

lemma readRun_first: "readRunRecord demoSha ''run_1'' [(''run_1'', stored 4000 launchRunRecord)] = Inr launchRunRecord"
  by (simp add: readRunRecord_def demo_ids readEntry_def stored_def MAX_RUN_RECORD_BYTES_def runRecordMatches_def launchRunRecord_def
     launchPlan_fields launchPlan_verifies resolvedOf_def demoCheckout_def)

lemma createRun_again:
  "createRunRecord demoSha ''owner'' launchPlan demoCheckout ''t'' 4000 [(''run_1'', stored 4000 launchRunRecord)]
     = (Inr launchRunRecord, [(''run_1'', stored 4000 launchRunRecord)])"
  using launchRunRecord_valid readRun_first
  by (simp add: createRunRecord_def launchPlan_fields launchPlan_verifies launchRunRecord_def MAX_RUN_RECORD_BYTES_def demo_ids
      linkEntry_def Let_def)

lemma launchAttempt_valid: "checkAttemptRecord launchAttempt"
  by (simp add: checkAttemptRecord_def launchAttempt_def launchPlan_valid demo_ids checkOptionalAttempt_def)

definition launchLease :: "int \<Rightarrow> RunLeaseRecord" where
  "launchLease n = \<lparr>lrRunId = ''run_1'', lrLeaseId = ''l'', lrGeneration = n, lrPort = 20000\<rparr>"

text \<open>The leases while that lease is held, and when it has been released.\<close>

definition leasesHeld :: "int \<Rightarrow> LeaseWorld" where
  "leasesHeld n = \<lparr>leasePorts = [20000 \<mapsto> ''l''], leaseFiles = [''run_1'' \<mapsto> stored 100 (launchLease n)]\<rparr>"

definition leasesFree :: "int \<Rightarrow> LeaseWorld" where
  "leasesFree n = \<lparr>leasePorts = \<lambda>_. None, leaseFiles = [''run_1'' \<mapsto> stored 100 (launchLease n)]\<rparr>"

lemma lease_again:
  "acquireRunLease (\<lambda>_ _. 0) d ''run_1'' ''l'' 100 (leasesFree n) = (Inr (launchLease (n + 1)), leasesHeld (n + 1))"
  by (simp add: acquireRunLease_def demo_ids RunLease.leasePort_def leasesFree_def leasesHeld_def readLeaseRecord_def stored_def
      LEASE_MAX_RECORD_BYTES_def launchLease_def Let_def renameOver_def)

lemma lease_first:
  "acquireRunLease (\<lambda>_ _. 0) d ''run_1'' ''l'' 100 \<lparr>leasePorts = \<lambda>_. None, leaseFiles = \<lambda>_. None\<rparr>
     = (Inr (launchLease 1), leasesHeld 1)"
  by (simp add: acquireRunLease_def demo_ids RunLease.leasePort_def leasesHeld_def readLeaseRecord_def stored_def
      launchLease_def Let_def renameOver_def)

lemma lease_current: "assertCurrent (launchLease n) (leasesHeld n) = Inr ()"
  by (simp add: assertCurrent_def launchLease_def leasesHeld_def readLeaseRecord_def stored_def LEASE_MAX_RECORD_BYTES_def)

lemma lease_released: "releaseRunLease (launchLease n) (leasesHeld n) = leasesFree n"
  by (simp add: releaseRunLease_def launchLease_def leasesHeld_def leasesFree_def)

definition launchCreation :: AttemptCreation where
  "launchCreation = \<lparr>aiOwnerId = ''owner'', aiPlan = launchPlan, aiOrdinal = 0, aiKind = InitialAttempt, aiParent = None,
     aiWorktree = None, aiNow = ''t'', aiBytes = 4000\<rparr>"

definition attemptStoreOf :: "int \<Rightarrow> AttemptRecord list \<Rightarrow> AttemptStore" where
  "attemptStoreOf n rs = \<lparr>awLeases = leasesHeld n,
     awFiles = (\<lambda>_. [])(''run_1'' := map (\<lambda>r. (arAttemptId r, stored 4000 r)) rs)\<rparr>"

lemma no_attempts: "attemptStoreOf n [] = \<lparr>awLeases = leasesHeld n, awFiles = \<lambda>_. []\<rparr>"
  by (simp add: attemptStoreOf_def fun_eq_iff)

lemma attemptStore_leases: "(attemptStoreOf n rs)\<lparr>awLeases := ls, awLeases := leasesHeld m\<rparr> = attemptStoreOf m rs"
  "(attemptStoreOf n rs)\<lparr>awLeases := leasesHeld m\<rparr> = attemptStoreOf m rs"
  by (simp_all add: attemptStoreOf_def)

lemma attemptOf_launch: "attemptOf launchCreation = launchAttempt"
  by (simp add: attemptOf_def launchCreation_def launchAttempt_def launchPlan_fields truthy_def)

lemma attempt_first:
  "createAttempt demoSha (launchLease n) launchCreation (attemptStoreOf n []) = (Inr launchAttempt, attemptStoreOf n [launchAttempt])"
proof -
  have "arRunId launchAttempt = ''run_1''" "arAttemptId launchAttempt = ''attempt_1''" "arKind launchAttempt = InitialAttempt"
    "arOrdinal launchAttempt = 0" "arParent launchAttempt = None" by (simp_all add: launchAttempt_def)
  moreover have "aiPlan launchCreation = launchPlan" "aiBytes launchCreation = 4000" by (simp_all add: launchCreation_def)
  moreover have "awLeases (attemptStoreOf n rs) = leasesHeld n" "awFiles (attemptStoreOf n []) r = []" for rs r
    by (simp_all add: attemptStoreOf_def)
  moreover have "lrRunId (launchLease n) = ''run_1''" by (simp add: launchLease_def)
  ultimately show ?thesis
    by (simp add: createAttempt_def Let_def attemptOf_launch launchPlan_fields lease_current launchAttempt_valid launchPlan_verifies
        readAttempt_def readEntry_def latestAttempt_def listAttempts_def demo_ids lastOpt_def checkLineage_def linkEntry_def
        MAX_ATTEMPT_RECORD_BYTES_def)
      (simp add: attemptStoreOf_def stored_def launchAttempt_def)
qed

lemma attempt_again:
  "createAttempt demoSha (launchLease n) launchCreation (attemptStoreOf n [launchAttempt]) = (Inr launchAttempt, attemptStoreOf n [launchAttempt])"
proof -
  have "readAttempt demoSha ''attempt_1'' [(''attempt_1'', stored 4000 launchAttempt)] = Inr launchAttempt"
    by (simp add: readAttempt_def readEntry_def stored_def MAX_ATTEMPT_RECORD_BYTES_def launchAttempt_def launchPlan_fields launchPlan_verifies)
  moreover have "arRunId launchAttempt = ''run_1''" "arAttemptId launchAttempt = ''attempt_1''" by (simp_all add: launchAttempt_def)
  moreover have "aiPlan launchCreation = launchPlan" by (simp add: launchCreation_def)
  moreover have "awLeases (attemptStoreOf n rs) = leasesHeld n" "awFiles (attemptStoreOf n [launchAttempt]) ''run_1'' = [(''attempt_1'', stored 4000 launchAttempt)]" for rs
    by (simp_all add: attemptStoreOf_def launchAttempt_def)
  moreover have "lrRunId (launchLease n) = ''run_1''" by (simp add: launchLease_def)
  ultimately show ?thesis
    by (simp add: createAttempt_def Let_def attemptOf_launch launchPlan_fields lease_current launchAttempt_valid launchPlan_verifies sameAttempt_def)
qed

text \<open>A launch in the checkout itself, from its parts.\<close>

lemma startAttempt_read_only:
  assumes "acquireRunLease (lhDigest32 h) (lhRoot h @ ''/leases'') (planRunId (siPlan i)) (lhFreshId h) (lhLeaseBytes h) (awLeases (lwStore w))
      = (Inr lease, ls)"
    and "siExpected i = None" and "siContinueFrom i = None" and "siExistingWorktree i = None"
    and "assertHostToolProjection (siPlan i) (lhTools h) = Inr ()"
    and "siKind i = InitialAttempt"
    and "createRunRecord (lhSha h) (siOwnerId i) (siRootPlan i) (siWorkspace i) (lhIso h (lhNow h)) (lhRunBytes h) (lwRunFiles w) = (Inr rd, runs)"
    and "workspaceMode (planWorkspace (siPlan i)) = ReadOnly" and "rwStartAt (siWorkspace i) = None"
    and "createAttempt (lhSha h) lease
             \<lparr>aiOwnerId = siOwnerId i, aiPlan = siPlan i, aiOrdinal = siOrdinal i, aiKind = siKind i, aiParent = siParent i,
              aiWorktree = None, aiNow = lhIso h (lhNow h), aiBytes = lhAttemptBytes h\<rparr>
             (lwStore w\<lparr>awLeases := ls\<rparr>) = (Inr r, st)"
    and "lhExecution h = Inr sandbox"
  shows "startAttempt h i w = handOver h lease i rd None None (w\<lparr>lwStore := st, lwRunFiles := runs\<rparr>)"
  using assms
  by (simp add: startAttempt_def startUnderLease_def takeLease_def bindS_def catchS_def readS_def okS_def checkExpected_def
      announceContinuation_def runRecordStep_def worktreeStep_def snapshotStep_def launchStep_def attemptRecordStep_def
      handOver_def Let_def)

lemma launch_read_only:
  assumes "preparedFor h owner pid identity w = (Inr p, w)" and "unchangedSincePreflight h owner p = Inr i"
    and "map_of (lwRuns w) (planRunId (ppPlan p)) = None"
    and "claimStep h (operationOf h (owId owner) (planOperationId (ppPlan p)) (ppRequestSha256 p) (planRunId (ppPlan p))) w = (Inr (), w')"
  shows "launch h owner pid identity w = startAttempt h i w'"
  using assms by (simp add: launch_def launchPrepared_def bindS_def readS_def Let_def)

definition launchOperation :: OperationRecord where
  "launchOperation = operationOf launchHost ''owner'' ''op'' (replicate 64 CHR ''f'') ''run_1''"

lemma launchOperation_valid: "checkOperation launchOperation"
  by (simp add: checkOperation_def launchOperation_def operationOf_def demo_ids)

lemma claim_first:
  assumes "lwOperations w = (\<lambda>_. None)"
  shows "claimStep launchHost launchOperation w = (Inr (), w\<lparr>lwOperations := [''ownerop'' \<mapsto> stored 100 launchOperation]\<rparr>)"
proof -
  have "lhOperationKey launchHost (opOwnerId launchOperation) (opOperationId launchOperation) = ''ownerop''"
    by (simp add: launchHost_def launchOperation_def operationOf_def)
  moreover have "lhOperationBytes launchHost = 100" by (simp add: launchHost_def)
  ultimately show ?thesis using assms
    by (simp add: claimStep_def claimOperation_def launchOperation_valid Let_def linkFile_def stored_def)
qed

lemma claim_again:
  assumes "lwOperations w = [''ownerop'' \<mapsto> stored 100 launchOperation]"
  shows "claimStep launchHost launchOperation w = (Inr (), w)"
proof -
  have "lhOperationKey launchHost (opOwnerId launchOperation) (opOperationId launchOperation) = ''ownerop''"
    by (simp add: launchHost_def launchOperation_def operationOf_def)
  moreover have "lhOperationBytes launchHost = 100" by (simp add: launchHost_def)
  ultimately show ?thesis using assms
    by (simp add: claimStep_def claimOperation_def launchOperation_valid Let_def linkFile_def stored_def readOperation_def readEntry_def
        OPERATION_MAX_RECORD_BYTES_def)
qed

text \<open>The stores before the launch and after it, whatever else the world holds.\<close>

definition noLeases :: LeaseWorld where
  "noLeases = \<lparr>leasePorts = \<lambda>_. None, leaseFiles = \<lambda>_. None\<rparr>"

definition unlaunched :: "'g LaunchWorld \<Rightarrow> bool" where
  "unlaunched w = (lwStore w = \<lparr>awLeases = noLeases, awFiles = \<lambda>_. []\<rparr> \<and> lwRunFiles w = [] \<and> lwOperations w = (\<lambda>_. None)
     \<and> lwPreflights w = [(''pf'', demoPrepared)] \<and> lwRuns w = [])"

definition launchedBefore :: "int \<Rightarrow> 'g LaunchWorld \<Rightarrow> bool" where
  "launchedBefore n w = (lwStore w = attemptStoreOf n [launchAttempt]\<lparr>awLeases := leasesFree n\<rparr>
     \<and> lwRunFiles w = [(''run_1'', stored 4000 launchRunRecord)] \<and> lwOperations w = [''ownerop'' \<mapsto> stored 100 launchOperation]
     \<and> lwPreflights w = [(''pf'', demoPrepared)] \<and> lwRuns w = [])"

definition launchedRun :: "int \<Rightarrow> LiveRun" where
  "launchedRun n = \<lparr>avOwnerId = ''owner'', avPlan = launchPlan, avWorkspace = demoCheckout, avResult = None, avStatus = Active,
     avCreatedAt = 0, avControl = False, avLeaseHeld = True, lvLease = launchLease n, lvWorktree = None, lvReceipts = \<lambda>_. None\<rparr>"

definition launchStarted :: "int \<Rightarrow> StartedAttempt" where
  "launchStarted n = \<lparr>atInput = demoStart, atLease = launchLease n, atWorktree = None, atSnapshot = None, atPath = ''/r'', atTools = []\<rparr>"

definition afterLaunch :: "int \<Rightarrow> 'g LaunchWorld \<Rightarrow> 'g LaunchWorld" where
  "afterLaunch n w = w\<lparr>lwStore := attemptStoreOf n [launchAttempt], lwRunFiles := [(''run_1'', stored 4000 launchRunRecord)],
     lwOperations := [''ownerop'' \<mapsto> stored 100 launchOperation], lwStarted := lwStarted w @ [launchStarted n],
     lwRuns := [(''run_1'', launchedRun n)], lwEmitted := lwEmitted w @ [(''run_1'', Active)]\<rparr>"

definition launchReceipt :: RunReceipt where
  "launchReceipt = \<lparr>rpRunId = ''run_1'', rpAttemptId = ''attempt_1'', rpStatus = Active\<rparr>"

lemma host_facts:
  "lhSha launchHost = demoSha" "lhDigest32 launchHost = (\<lambda>_ _. 0)" "lhFreshId launchHost = ''l''" "lhLeaseBytes launchHost = 100"
  "lhRunBytes launchHost = 4000" "lhAttemptBytes launchHost = 4000" "lhIso launchHost x = ''t''" "lhParse launchHost y = 0"
  "lhTools launchHost = []" "lhExecution launchHost = Inr (planSandbox launchPlan)" "lhNow launchHost = 0"
  by (simp_all add: launchHost_def lhNow_def demoServiceHost_def)

lemma start_facts:
  "siPlan demoStart = launchPlan" "siOwnerId demoStart = ''owner''" "siRootPlan demoStart = launchPlan"
  "siWorkspace demoStart = demoCheckout" "siKind demoStart = InitialAttempt" "siExpected demoStart = None"
  "siContinueFrom demoStart = None" "siExistingWorktree demoStart = None" "siOrdinal demoStart = 0" "siParent demoStart = None"
  by (simp_all add: demoStart_def)

lemma demo_handOver:
  assumes "lwRuns w = []"
  shows "handOver launchHost (launchLease n) demoStart launchRunRecord None None w =
     (Inr launchReceipt, w\<lparr>lwStarted := lwStarted w @ [launchStarted n], lwRuns := [(''run_1'', launchedRun n)],
        lwEmitted := lwEmitted w @ [(''run_1'', Active)]\<rparr>)"
  using assms
  by (simp add: handOver_def Let_def start_facts launchPlan_fields host_facts launchStarted_def launchedRun_def launchReceipt_def
      workspacePathOf_def demoCheckout_def hostToolOf_def List.map_filter_def)

lemma demo_start:
  assumes "acquireRunLease (\<lambda>_ _. 0) (lhRoot launchHost @ ''/leases'') ''run_1'' ''l'' 100 (awLeases (lwStore w)) = (Inr (launchLease n), leasesHeld n)"
    and "createRunRecord demoSha ''owner'' launchPlan demoCheckout ''t'' 4000 (lwRunFiles w) = (Inr launchRunRecord, runs)"
    and "createAttempt demoSha (launchLease n) launchCreation (lwStore w\<lparr>awLeases := leasesHeld n\<rparr>) = (Inr r, st)"
    and "lwRuns w = []"
  shows "startAttempt launchHost demoStart w = (Inr launchReceipt, w\<lparr>lwStore := st, lwRunFiles := runs,
     lwStarted := lwStarted w @ [launchStarted n], lwRuns := [(''run_1'', launchedRun n)], lwEmitted := lwEmitted w @ [(''run_1'', Active)]\<rparr>)"
proof -
  have tools: "assertHostToolProjection launchPlan [] = Inr ()"
    by (simp add: assertHostToolProjection_def launchPlan_fields assertHostTool_def IMPLEMENTED_TOOLS_def)
  have "startAttempt launchHost demoStart w =
     handOver launchHost (launchLease n) demoStart launchRunRecord None None (w\<lparr>lwStore := st, lwRunFiles := runs\<rparr>)"
    using assms(1-3) tools
    by (intro startAttempt_read_only [where sandbox = "planSandbox launchPlan"])
      (simp_all add: start_facts host_facts launchPlan_fields launchCreation_def resolvedOf_def demoCheckout_def)
  then show ?thesis using demo_handOver assms(4) by simp
qed

lemma demo_prepared:
  assumes "lwPreflights w = [(''pf'', demoPrepared)]"
  shows "preparedFor launchHost demoOwner ''pf'' (replicate 64 CHR ''f'') w = (Inr demoPrepared, w)"
  using assms by (simp add: preparedFor_def demoPrepared_def demoOwner_def host_facts launchPlan_fields)

lemma prepared_operation:
  "ppPlan demoPrepared = launchPlan"
  "operationOf launchHost (owId demoOwner) (planOperationId launchPlan) (ppRequestSha256 demoPrepared) (planRunId launchPlan)
     = launchOperation"
  by (simp_all add: launchOperation_def demoOwner_def demoPrepared_def launchPlan_fields)

lemma first_launch:
  assumes "unlaunched w"
  shows "launch launchHost demoOwner ''pf'' (replicate 64 CHR ''f'') w = (Inr launchReceipt, afterLaunch 1 w)"
proof -
  let ?w = "w\<lparr>lwOperations := [''ownerop'' \<mapsto> stored 100 launchOperation]\<rparr>"
  have s: "lwStore w = \<lparr>awLeases = noLeases, awFiles = \<lambda>_. []\<rparr>" "lwRunFiles w = []" "lwOperations w = (\<lambda>_. None)"
    "lwPreflights w = [(''pf'', demoPrepared)]" "lwRuns w = []" using assms by (simp_all add: unlaunched_def)
  have "launch launchHost demoOwner ''pf'' (replicate 64 CHR ''f'') w = startAttempt launchHost demoStart ?w"
    by (rule launch_read_only [OF demo_prepared [OF s(4)] demo_unchanged]) (simp_all add: prepared_operation claim_first [OF s(3)] s(5))
  also have "\<dots> = (Inr launchReceipt, afterLaunch 1 w)"
    using lease_first attempt_first [of 1, unfolded no_attempts] s
    by (subst demo_start [of _ 1 _ launchAttempt], simp_all add: createRun_first afterLaunch_def noLeases_def)
      (rule LaunchWorld.equality; simp)
  finally show ?thesis .
qed

lemma second_launch:
  assumes "launchedBefore n w"
  shows "launch launchHost demoOwner ''pf'' (replicate 64 CHR ''f'') w = (Inr launchReceipt, afterLaunch (n + 1) w)"
proof -
  have s: "lwStore w = attemptStoreOf n [launchAttempt]\<lparr>awLeases := leasesFree n\<rparr>"
    "lwRunFiles w = [(''run_1'', stored 4000 launchRunRecord)]" "lwOperations w = [''ownerop'' \<mapsto> stored 100 launchOperation]"
    "lwPreflights w = [(''pf'', demoPrepared)]" "lwRuns w = []" using assms by (simp_all add: launchedBefore_def)
  have "launch launchHost demoOwner ''pf'' (replicate 64 CHR ''f'') w = startAttempt launchHost demoStart w"
    by (rule launch_read_only [OF demo_prepared [OF s(4)] demo_unchanged]) (simp_all add: prepared_operation claim_again [OF s(3)] s(5))
  also have "\<dots> = (Inr launchReceipt, afterLaunch (n + 1) w)"
    using lease_again attempt_again [of "n + 1"] s
    by (subst demo_start [of _ "n + 1" _ launchAttempt], simp_all add: createRun_again afterLaunch_def attemptStore_leases)
      (rule LaunchWorld.equality; simp)
  finally show ?thesis .
qed

end
