(* ===== verification/LaunchSafety.thy ===== *)
theory LaunchSafety
  imports LaunchDemo
begin

section \<open>What starting attempts leaves behind (\<open>src/service.ts\<close>)\<close>

text \<open>
  Attempts are started by launches, retries and resumes, in any order, by any number of services on the
  same stores. The stores only grow, an attempt is handed over after its records are durable, and a retry
  or a resume always starts an attempt that no one has started before.
\<close>

subsection \<open>Steps that only add to the stores\<close>

definition attemptsInOrder :: "(string \<Rightarrow> string) \<Rightarrow> 'g LaunchWorld \<Rightarrow> bool" where
  "attemptsInOrder sha w = (\<forall>r. attemptsOk sha r (awFiles (lwStore w) r))"

definition sameMemory :: "'g LaunchWorld \<Rightarrow> 'g LaunchWorld \<Rightarrow> bool" where
  "sameMemory w w' = (lwPreflights w' = lwPreflights w \<and> lwRuns w' = lwRuns w \<and> lwStarted w' = lwStarted w)"

definition recordsKept :: "'g LaunchWorld \<Rightarrow> 'g LaunchWorld \<Rightarrow> bool" where
  "recordsKept w w' =
     ((\<forall>r k f. map_of (awFiles (lwStore w) r) k = Some f \<longrightarrow> map_of (awFiles (lwStore w') r) k = Some f)
      \<and> (\<forall>k f. map_of (lwRunFiles w) k = Some f \<longrightarrow> map_of (lwRunFiles w') k = Some f)
      \<and> (\<forall>k f. lwOperations w k = Some f \<longrightarrow> lwOperations w' k = Some f))"

definition quiet :: "(string \<Rightarrow> string) \<Rightarrow> 'g LaunchWorld \<Rightarrow> 'g LaunchWorld \<Rightarrow> bool" where
  "quiet sha w w' = (sameMemory w w' \<and> recordsKept w w' \<and> (attemptsInOrder sha w \<longrightarrow> attemptsInOrder sha w'))"

lemma quiet_refl [simp]: "quiet sha w w"
  by (simp add: quiet_def sameMemory_def recordsKept_def)

lemma quiet_trans: "quiet sha w w' \<Longrightarrow> quiet sha w' w'' \<Longrightarrow> quiet sha w w''"
  unfolding quiet_def sameMemory_def recordsKept_def by simp

text \<open>A relation between the states before and after a step, whatever its outcome.\<close>

definition along :: "('s \<Rightarrow> 's \<Rightarrow> bool) \<Rightarrow> ('s \<Rightarrow> 'r \<times> 's) \<Rightarrow> bool" where
  "along R m = (\<forall>s. R s (snd (m s)))"

lemma alongD: "along R m \<Longrightarrow> m s = (r, t) \<Longrightarrow> R s t"
  unfolding along_def by (metis snd_conv)

lemma along_snd: "along R m \<Longrightarrow> R s (snd (m s))"
  by (simp add: along_def)

text \<open>Where it only matters when the step throws.\<close>

definition alongErrors :: "('s \<Rightarrow> 's \<Rightarrow> bool) \<Rightarrow> ('s \<Rightarrow> 'a res \<times> 's) \<Rightarrow> bool" where
  "alongErrors R m = (\<forall>s e t. m s = (Inl e, t) \<longrightarrow> R s t)"

locale step_relation =
  fixes R :: "'s \<Rightarrow> 's \<Rightarrow> bool"
  assumes refl: "R s s"
    and trans: "R s t \<Longrightarrow> R t u \<Longrightarrow> R s u"
begin

lemma basic: "along R (okS a)" "along R (failS e)" "along R (readS f)" "along R (checkS c e)"
  by (simp_all add: along_def okS_def failS_def readS_def checkS_def refl)

lemma bindS:
  assumes m: "along R m" and f: "\<And>a. along R (f a)"
  shows "along R (bindS m f)"
proof -
  have "R s (snd (Prelude.bindS m f s))" for s
  proof (cases "m s")
    case (Pair r t)
    then have "R s t" using m by (rule alongD [rotated])
    moreover have "R t (snd (f a t))" for a using f by (simp add: along_def)
    ultimately show ?thesis using Pair by (cases r) (auto simp: bindS_def intro: trans)
  qed
  then show ?thesis by (simp add: along_def)
qed

lemma catchS:
  assumes m: "along R m" and f: "\<And>e. along R (f e)"
  shows "along R (catchS m f)"
proof -
  have "R s (snd (Prelude.catchS m f s))" for s
  proof (cases "m s")
    case (Pair r t)
    then have "R s t" using m by (rule alongD [rotated])
    moreover have "R t (snd (f e t))" for e using f by (simp add: along_def)
    ultimately show ?thesis using Pair by (cases r) (auto simp: catchS_def intro: trans)
  qed
  then show ?thesis by (simp add: along_def)
qed

lemma errors: "along R m \<Longrightarrow> alongErrors R m"
  by (auto simp: alongErrors_def dest: alongD)

lemma errors_bindS: "along R m \<Longrightarrow> (\<And>a. alongErrors R (f a)) \<Longrightarrow> alongErrors R (bindS m f)"
  unfolding alongErrors_def bindS_def
  by (auto split: prod.splits sum.splits dest: alongD intro: trans)

lemma errors_catchS:
  assumes m: "alongErrors R m" and f: "\<And>e. along R (f e)"
  shows "alongErrors R (catchS m f)"
proof -
  have "R s t" if c: "Prelude.catchS m f s = (Inl e, t)" for s e t
  proof -
    from c obtain e' s' where "m s = (Inl e', s')" "f e' s' = (Inl e, t)"
      by (auto simp: catchS_def split: prod.splits sum.splits)
    then show ?thesis using m alongD [OF f] unfolding alongErrors_def by (blast intro: trans)
  qed
  then show ?thesis unfolding alongErrors_def by blast
qed

end

interpretation quiet: step_relation "quiet sha" for sha
  by unfold_locales (auto intro: quiet_trans)

abbreviation quietly :: "(string \<Rightarrow> string) \<Rightarrow> ('g LaunchWorld \<Rightarrow> 'r \<times> 'g LaunchWorld) \<Rightarrow> bool" where
  "quietly sha m \<equiv> along (quiet sha) m"

text \<open>Steps that leave the attempt records alone.\<close>

definition sameAttempts :: "'g LaunchWorld \<Rightarrow> 'g LaunchWorld \<Rightarrow> bool" where
  "sameAttempts w w' = (awFiles (lwStore w') = awFiles (lwStore w))"

interpretation attempts_kept: step_relation sameAttempts
  by unfold_locales (auto simp: sameAttempts_def)

lemma quietly_steps:
  "quietly sha (takeLease h runId)" "quietly sha (closeLease lease)" "quietly sha (onWorkspace h lease m)"
  "quietly sha (appendRun h lease d)" "quietly sha (snapshotRun lease e)"
  by (auto simp: along_def quiet_def sameMemory_def recordsKept_def attemptsInOrder_def takeLease_def closeLease_def
      onWorkspace_def appendRun_def snapshotRun_def split: prod.splits sum.splits)

lemma createRunRecord_keeps:
  "map_of d k = Some f \<Longrightarrow> map_of (snd (createRunRecord sha owner plan ws now bytes d)) k = Some f"
  using createRun_keeps [of d k f sha "\<lparr>rcOwner = owner, rcPlan = plan, rcWorkspace = ws, rcNow = now, rcBytes = bytes\<rparr>"]
  by (simp add: createRun_def)

lemma quietly_runRecord: "quietly sha (runRecordStep h i)"
proof -
  have "quiet sha w (w\<lparr>lwRunFiles := snd (createRunRecord s owner plan ws now bytes (lwRunFiles w))\<rparr>)"
    for w :: "'a LaunchWorld" and s owner plan ws now bytes
    using createRunRecord_keeps by (simp add: quiet_def sameMemory_def recordsKept_def attemptsInOrder_def)
  moreover have "snd (runRecordStep h i w) = w \<or> (\<exists>s owner plan ws now bytes.
      snd (runRecordStep h i w) = w\<lparr>lwRunFiles := snd (createRunRecord s owner plan ws now bytes (lwRunFiles w))\<rparr>)"
    for w :: "'a LaunchWorld"
    unfolding runRecordStep_def by (auto split: prod.splits) (metis snd_conv)
  ultimately show ?thesis unfolding along_def by (metis quiet_refl)
qed

lemma quietly_claim: "quietly sha (claimStep h r)"
proof -
  have "lwOperations w k = Some f \<Longrightarrow> snd (claimOperation (lhOperationKey h) r (lhOperationBytes h) (lwOperations w)) k = Some f"
    for w :: "'a LaunchWorld" and k f
    using claim_dir [of "lhOperationKey h" r "lhOperationBytes h" "lwOperations w"] fs.create_keeps
    by (cases "checkOperation r") simp_all
  moreover have "snd (claimStep h r w) = w\<lparr>lwOperations :=
      snd (claimOperation (lhOperationKey h) r (lhOperationBytes h) (lwOperations w))\<rparr>" for w :: "'a LaunchWorld"
    unfolding claimStep_def by (auto split: prod.splits sum.splits claimError.splits)
  ultimately show ?thesis
    by (simp add: along_def quiet_def sameMemory_def recordsKept_def attemptsInOrder_def)
qed

lemma createAttempt_keeps:
  "map_of (awFiles w r) k = Some f \<Longrightarrow> map_of (awFiles (snd (createAttempt sha lease i w)) r) k = Some f"
  by (auto simp: createAttempt_def Let_def linkEntry_def map_add_def split: sum.splits prod.splits if_splits option.splits)

lemma quietly_attemptRecord:
  assumes "siOwnerId i = planOwnerId (siPlan i)" and "lhSha h = sha"
  shows "quietly sha (attemptRecordStep h lease i worktree)"
proof -
  have "quiet sha w (snd (attemptRecordStep h lease i worktree w))" for w
  proof -
    let ?c = "\<lparr>aiOwnerId = siOwnerId i, aiPlan = siPlan i, aiOrdinal = siOrdinal i, aiKind = siKind i, aiParent = siParent i,
      aiWorktree = map_option wtAttemptId worktree, aiNow = lhIso h (lhNow h), aiBytes = lhAttemptBytes h\<rparr>"
    have s: "snd (attemptRecordStep h lease i worktree w) = w\<lparr>lwStore := snd (createAttempt sha lease ?c (lwStore w))\<rparr>"
      using assms(2) by (simp add: attemptRecordStep_def split: prod.splits)
    moreover have "attemptsInOrder sha w \<Longrightarrow> attemptsInOrder sha (w\<lparr>lwStore := snd (createAttempt sha lease ?c (lwStore w))\<rparr>)"
      using createAttempt_ok [of sha ?c "lwStore w" _ lease] assms(1) by (simp add: attemptsInOrder_def)
    ultimately show ?thesis
      using createAttempt_keeps by (fastforce simp: quiet_def sameMemory_def recordsKept_def)
  qed
  then show ?thesis by (simp add: along_def)
qed

lemma quietly_worktree: "quietly sha (worktreeStep h lease i)"
  unfolding worktreeStep_def by (auto intro!: quiet.bindS quietly_steps quiet.basic)

lemma quietly_snapshot: "quietly sha (snapshotStep h lease i)"
  unfolding snapshotStep_def by (auto intro!: quiet.bindS quietly_steps quiet.basic)

lemma quietly_announce: "quietly sha (announceContinuation h lease i)"
  unfolding announceContinuation_def by (auto intro!: quietly_steps quiet.basic split: option.splits)

lemma quietly_undo: "quietly sha (undoSnapshot h lease s)"
  unfolding undoSnapshot_def by (auto intro!: quiet.catchS quietly_steps quiet.basic split: option.splits)

lemma sameAttempts_steps:
  "along sameAttempts (takeLease h runId)" "along sameAttempts (onWorkspace h lease m)" "along sameAttempts (appendRun h lease d)"
  "along sameAttempts (runRecordStep h i)" "along sameAttempts (claimStep h r)"
  by (auto simp: along_def sameAttempts_def takeLease_def onWorkspace_def appendRun_def runRecordStep_def claimStep_def
      split: prod.splits sum.splits claimError.splits)

lemma sameAttempts_more:
  "along sameAttempts (worktreeStep h lease i)" "along sameAttempts (snapshotStep h lease i)"
  "along sameAttempts (announceContinuation h lease i)"
  unfolding worktreeStep_def snapshotStep_def announceContinuation_def
  by (auto intro!: attempts_kept.bindS sameAttempts_steps attempts_kept.basic split: option.splits)

lemma handOver_Inr: "handOver h lease i rd wt sn w \<noteq> (Inl e, w')"
  by (simp add: handOver_def Let_def)

lemma startAttempt_error:
  assumes "siOwnerId i = planOwnerId (siPlan i)" and "lhSha h = sha"
  shows "alongErrors (quiet sha) (startAttempt h i)"
proof -
  have "alongErrors (quiet sha) (launchStep h lease i rd wt sn)" for lease rd wt sn
    unfolding launchStep_def
    by (intro quiet.errors_bindS quietly_attemptRecord assms quiet.basic) (simp add: alongErrors_def handOver_Inr)
  then have "alongErrors (quiet sha) (startUnderLease h lease i)" for lease
    unfolding startUnderLease_def
    by (intro quiet.errors_bindS quiet.errors_catchS quiet.bindS quiet.basic quietly_announce quietly_runRecord
        quietly_worktree quietly_snapshot quietly_undo)
  then show ?thesis
    unfolding startAttempt_def
    by (intro quiet.errors_bindS quiet.errors_catchS quiet.bindS quiet.basic quietly_steps)
qed

lemma runRecordStep_present:
  assumes "runRecordStep h i w = (Inr rd, w')" and "siKind i = InitialAttempt \<longrightarrow> siRootPlan i = siPlan i"
  shows "map_of (lwRunFiles w') (planRunId (siPlan i)) \<noteq> None"
  using assms
  by (auto simp: runRecordStep_def createRunRecord_def readRunRecord_def Let_def linkEntry_def map_add_def
      split: if_splits prod.splits sum.splits bool.splits option.splits)

text \<open>What a start consists of: quiet steps, the attempt's record, the hand-over.\<close>

lemma startAttempt_Inr:
  assumes "startAttempt h i w = (Inr receipt, w')" and "siKind i = InitialAttempt \<longrightarrow> siRootPlan i = siPlan i"
  obtains lease w1 w2 rd wt sn r where "quiet sha w w1" "sameAttempts w w1" "checkExpected i w = Inr ()"
    "map_of (lwRunFiles w1) (planRunId (siPlan i)) \<noteq> None"
    "attemptRecordStep h lease i wt w1 = (Inr r, w2)" "handOver h lease i rd wt sn w2 = (Inr receipt, w')"
proof -
  from assms obtain lease wa wb wc wd we rd wt sn r w2 where
    t: "takeLease h (planRunId (siPlan i)) w = (Inr lease, wa)"
    and exp: "checkExpected i wa = Inr ()"
    and ann: "announceContinuation h lease i wa = (Inr (), wb)"
    and rec: "runRecordStep h i wb = (Inr rd, wc)"
    and wt: "worktreeStep h lease i wc = (Inr wt, wd)"
    and sn: "snapshotStep h lease i wd = (Inr sn, we)"
    and att: "attemptRecordStep h lease i wt we = (Inr r, w2)"
    and hand: "handOver h lease i rd wt sn w2 = (Inr receipt, w')"
    by (auto simp: startAttempt_def startUnderLease_def launchStep_def catchS_Inr)
  note q = alongD [OF quietly_steps(1) t] alongD [OF quietly_announce ann] alongD [OF quietly_runRecord rec]
    alongD [OF quietly_worktree wt] alongD [OF quietly_snapshot sn]
  have "quiet sha w we" for sha using q [of sha] quiet_trans by blast
  moreover have "sameAttempts w we"
    using alongD [OF sameAttempts_steps(1) t] alongD [OF sameAttempts_more(3) ann] alongD [OF sameAttempts_steps(4) rec]
      alongD [OF sameAttempts_more(1) wt] alongD [OF sameAttempts_more(2) sn] by (simp add: sameAttempts_def)
  moreover have "checkExpected i w = Inr ()"
    using exp t by (auto simp: takeLease_def checkExpected_def split: prod.splits option.splits)
  moreover have "map_of (lwRunFiles we) (planRunId (siPlan i)) \<noteq> None"
  proof -
    from runRecordStep_present [OF rec assms(2)] obtain f where "map_of (lwRunFiles wc) (planRunId (siPlan i)) = Some f" by blast
    moreover have "quiet id wc we" using q(4,5) quiet_trans by blast
    ultimately show ?thesis by (simp add: quiet_def recordsKept_def)
  qed
  ultimately show ?thesis using att hand that by blast
qed

subsection \<open>The attempt's record\<close>

lemma sameAttempt_Inr [simp]:
  "sameAttempt existing r = Inr x \<longleftrightarrow> x = existing \<and> arOwnerId existing = arOwnerId r
     \<and> planIdentity (arPlan existing) = planIdentity (arPlan r) \<and> arOrdinal existing = arOrdinal r
     \<and> arKind existing = arKind r \<and> arWorktree existing = arWorktree r"
  by (auto simp: sameAttempt_def)

lemma readAttempt_same: "map_of d' a = map_of d a \<Longrightarrow> readAttempt sha a d' = readAttempt sha a d"
  by (simp add: readAttempt_def readEntry_def)

lemma readAttempt_present: "readAttempt sha a d = Inr x \<Longrightarrow> \<exists>f. map_of d a = Some f"
  by (auto simp: readAttempt_def)

lemma readAttempt_kept:
  assumes "readAttempt sha a (awFiles (lwStore w) r) = Inr x" and "recordsKept w w'"
  shows "readAttempt sha a (awFiles (lwStore w') r) = Inr x"
proof -
  from readAttempt_present [OF assms(1)] obtain f where f: "map_of (awFiles (lwStore w) r) a = Some f" by blast
  then have "map_of (awFiles (lwStore w') r) a = Some f" using assms(2) by (simp add: recordsKept_def)
  then have "map_of (awFiles (lwStore w') r) a = map_of (awFiles (lwStore w) r) a" using f by simp
  from readAttempt_same [OF this] show ?thesis using assms(1) by simp
qed

definition creationOf :: "('g, 'p) LaunchHost \<Rightarrow> StartInput \<Rightarrow> WorktreeRecord option \<Rightarrow> AttemptCreation" where
  "creationOf h i wt = \<lparr>aiOwnerId = siOwnerId i, aiPlan = siPlan i, aiOrdinal = siOrdinal i, aiKind = siKind i, aiParent = siParent i,
     aiWorktree = map_option wtAttemptId wt, aiNow = lhIso h (lhNow h), aiBytes = lhAttemptBytes h\<rparr>"

lemma attemptRecordStep_eq:
  "attemptRecordStep h lease i wt w =
     (fst (createAttempt (lhSha h) lease (creationOf h i wt) (lwStore w)),
      w\<lparr>lwStore := snd (createAttempt (lhSha h) lease (creationOf h i wt) (lwStore w))\<rparr>)"
  by (simp add: attemptRecordStep_def creationOf_def split: prod.splits)

text \<open>The record is durable after the step; when it was there before, it is of the same plan, kind and place.\<close>

lemma attemptRecordStep_Inr:
  assumes ok: "attemptsInOrder (lhSha h) w" and owner: "siOwnerId i = planOwnerId (siPlan i)"
    and step: "attemptRecordStep h lease i wt w = (Inr r, w')"
  shows "readAttempt (lhSha h) (planAttemptId (siPlan i)) (awFiles (lwStore w') (planRunId (siPlan i))) = Inr r
     \<and> planIdentity (arPlan r) = planIdentity (siPlan i) \<and> arOrdinal r = siOrdinal i \<and> arKind r = siKind i"
    and "(\<exists>rs. list_all2 (attemptFile (lhSha h) (planRunId (siPlan i))) (awFiles (lwStore w) (planRunId (siPlan i))) rs
       \<and> lineage rs \<and> r \<in> set rs)
     \<or> map_of (awFiles (lwStore w) (planRunId (siPlan i))) (planAttemptId (siPlan i)) = None"
proof -
  let ?sha = "lhSha h" and ?c = "creationOf h i wt" and ?run = "planRunId (siPlan i)" and ?a = "planAttemptId (siPlan i)"
  have c: "createAttempt ?sha lease ?c (lwStore w) = (Inr r, lwStore w')"
    using step by (auto simp: attemptRecordStep_eq prod_eq_iff)
  have f: "aiPlan ?c = siPlan i" "aiOwnerId ?c = siOwnerId i" "aiOrdinal ?c = siOrdinal i" "aiKind ?c = siKind i"
    by (simp_all add: creationOf_def)
  from ok obtain rs where rs: "list_all2 (attemptFile ?sha ?run) (awFiles (lwStore w) ?run) rs" "lineage rs"
    unfolding attemptsInOrder_def attemptsOk_def by blast
  have cases: "lwStore w' = lwStore w \<and> r \<in> set rs \<or>
    (\<exists>x. r = attemptOf ?c \<and> lineage (rs @ [r]) \<and> attemptFile ?sha ?run (arAttemptId r, x) r
       \<and> lwStore w' = (lwStore w)\<lparr>awFiles := (awFiles (lwStore w))(?run := awFiles (lwStore w) ?run @ [(arAttemptId r, x)])\<rparr>)"
    using createAttempt_cases [of ?sha ?c "lwStore w" rs lease "Inr r" "lwStore w'"] rs owner c f by simp
  have there: "\<exists>y. readAttempt ?sha ?a (awFiles (lwStore w) ?run) = Inr y" if "map_of (awFiles (lwStore w) ?run) ?a = Some x" for x
    using list_all2_member [OF rs(1) map_of_SomeD [OF that]] readAttempt_file [OF _ that] by blast
  have read: "readAttempt ?sha ?a (awFiles (lwStore w') ?run) = Inr r \<and> planIdentity (arPlan r) = planIdentity (siPlan i)
      \<and> arOrdinal r = siOrdinal i \<and> arKind r = siKind i" if w': "lwStore w' = lwStore w"
  proof -
    have a: "arAttemptId (attemptOf ?c) = ?a" "arRunId (attemptOf ?c) = ?run" using f by (simp_all add: attemptOf_def)
    have "map_of (awFiles (lwStore w) ?run) ?a \<noteq> None"
    proof
      assume n: "map_of (awFiles (lwStore w) ?run) ?a = None"
      then have "readAttempt ?sha ?a (awFiles (lwStore w) ?run) = Inl Enoent" by (simp add: readAttempt_def readEntry_def)
      with c n have "(lwStore w)\<lparr>awFiles := (awFiles (lwStore w))(?run := awFiles (lwStore w) ?run @ [(?a,
          \<lparr>fileSize = aiBytes ?c, fileIsFile = True, fileValue = encoded (attemptOf ?c)\<rparr>)])\<rparr> = lwStore w'"
        unfolding createAttempt_def Let_def a linkEntry_def by (auto split: sum.splits if_splits)
      then have "length (awFiles (lwStore w') ?run) = Suc (length (awFiles (lwStore w) ?run))"
        by (auto dest!: arg_cong [where f = "\<lambda>s. length (awFiles s ?run)"])
      then show False using w' by simp
    qed
    then obtain y where y: "readAttempt ?sha ?a (awFiles (lwStore w) ?run) = Inr y" using there by blast
    then have "sameAttempt y (attemptOf ?c) = Inr r"
      using c by (auto simp: createAttempt_def Let_def a split: sum.splits)
    then show ?thesis using y w' f by (simp add: attemptOf_def)
  qed
  have names: "map fst (awFiles (lwStore w) ?run) = map arAttemptId rs"
    using rs(1) by (induction rule: list_all2_induct) (auto simp: attemptFile_def)
  have new: "map_of (awFiles (lwStore w) ?run) ?a = None" if "r = attemptOf ?c" "lineage (rs @ [r])"
  proof -
    have "arAttemptId r = ?a" using that(1) f by (simp add: attemptOf_def)
    then have "?a \<notin> set (map fst (awFiles (lwStore w) ?run))" unfolding names using that(2) by (simp add: lineage_snoc)
    then show ?thesis by (simp add: map_of_eq_None_iff)
  qed
  show "readAttempt ?sha ?a (awFiles (lwStore w') ?run) = Inr r \<and> planIdentity (arPlan r) = planIdentity (siPlan i)
      \<and> arOrdinal r = siOrdinal i \<and> arKind r = siKind i"
    using cases
  proof (elim disjE exE conjE)
    fix x
    assume r: "r = attemptOf ?c" "lineage (rs @ [r])" "attemptFile ?sha ?run (arAttemptId r, x) r"
      and w': "lwStore w' = (lwStore w)\<lparr>awFiles := (awFiles (lwStore w))(?run := awFiles (lwStore w) ?run @ [(arAttemptId r, x)])\<rparr>"
    have a: "arAttemptId r = ?a" using r(1) f by (simp add: attemptOf_def)
    then have "map_of (awFiles (lwStore w') ?run) ?a = Some x" using new [OF r(1,2)] w' by (simp add: map_add_def)
    then have "readAttempt ?sha ?a (awFiles (lwStore w') ?run) = Inr r" using readAttempt_file r(3) a by simp
    then show ?thesis using r(1) f by (simp add: attemptOf_def)
  qed (use read in blast)
  show "(\<exists>rs. list_all2 (attemptFile ?sha ?run) (awFiles (lwStore w) ?run) rs \<and> lineage rs \<and> r \<in> set rs)
     \<or> map_of (awFiles (lwStore w) ?run) ?a = None"
    using cases
  proof (elim disjE exE conjE)
    assume "r \<in> set rs"
    then show ?thesis using rs by (intro disjI1 exI [of _ rs] conjI)
  next
    fix x assume "r = attemptOf ?c" "lineage (rs @ [r])"
    from new [OF this] show ?thesis by (rule disjI2)
  qed
qed

text \<open>A start that follows the latest attempt makes a record that was not there.\<close>

lemma attemptRecordStep_fresh:
  assumes ok: "attemptsInOrder (lhSha h) w" and owner: "siOwnerId i = planOwnerId (siPlan i)"
    and step: "attemptRecordStep h lease i wt w = (Inr r, w')"
    and latest: "currentAttempt h plan (lwStore w) = Inr l" and run: "planRunId plan = planRunId (siPlan i)"
    and ordinal: "siOrdinal i = arOrdinal l + 1"
  shows "map_of (awFiles (lwStore w) (planRunId (siPlan i))) (planAttemptId (siPlan i)) = None"
proof (rule ccontr)
  assume "map_of (awFiles (lwStore w) (planRunId (siPlan i))) (planAttemptId (siPlan i)) \<noteq> None"
  with attemptRecordStep_Inr(2) [OF ok owner step] obtain rs where
    rs: "list_all2 (attemptFile (lhSha h) (planRunId (siPlan i))) (awFiles (lwStore w) (planRunId (siPlan i))) rs"
      "lineage rs" "r \<in> set rs" by blast
  from latest have "latestAttempt (lhSha h) (planRunId (siPlan i)) (lwStore w) = Inr (Some l)"
    by (auto simp: currentAttempt_def run split: option.splits if_splits)
  moreover from this have "checkRunId (planRunId (siPlan i))"
    by (auto simp: latestAttempt_def listAttempts_def split: if_splits)
  ultimately have "l = List.last rs" "rs \<noteq> []"
    using listAttempts_ok [OF rs(1,2)] by (auto simp: latestAttempt_def lastOpt_def split: if_splits)
  then have "siOrdinal i = int (length rs)" using lineage_last [OF rs(2)] ordinal by simp
  moreover have "arOrdinal r < int (length rs)" using rs(2,3) by (auto simp: lineage_def in_set_conv_nth)
  ultimately show False using attemptRecordStep_Inr(1) [OF ok owner step] by simp
qed

subsection \<open>Starts and their records\<close>

definition startKey :: "StartedAttempt \<Rightarrow> string \<times> string" where
  "startKey s = (planRunId (siPlan (atInput s)), planAttemptId (siPlan (atInput s)))"

definition recordedStart :: "(string \<Rightarrow> string) \<Rightarrow> 'g LaunchWorld \<Rightarrow> StartedAttempt \<Rightarrow> bool" where
  "recordedStart sha w s =
     (let p = siPlan (atInput s) in
      (\<exists>r. readAttempt sha (planAttemptId p) (awFiles (lwStore w) (planRunId p)) = Inr r \<and> planIdentity (arPlan r) = planIdentity p
         \<and> arOrdinal r = siOrdinal (atInput s) \<and> arKind r = siKind (atInput s))
      \<and> map_of (lwRunFiles w) (planRunId p) \<noteq> None)"

definition notTwice :: "StartedAttempt \<Rightarrow> StartedAttempt \<Rightarrow> bool" where
  "notTwice s t = (startKey s = startKey t \<longrightarrow> siKind (atInput s) = InitialAttempt \<and> siKind (atInput t) = InitialAttempt)"

definition ownersAgree :: "(string \<times> LiveRun) list \<Rightarrow> bool" where
  "ownersAgree runs = list_all (\<lambda>e. avOwnerId (snd e) = planOwnerId (avPlan (snd e))) runs"

definition preparedForOwners :: "(string \<times> PreparedPreflight) list \<Rightarrow> bool" where
  "preparedForOwners ps = list_all (\<lambda>e. ppOwnerId (snd e) = planOwnerId (ppPlan (snd e))) ps"

definition launchOk :: "(string \<Rightarrow> string) \<Rightarrow> 'g LaunchWorld \<Rightarrow> bool" where
  "launchOk sha w =
     (attemptsInOrder sha w \<and> preparedForOwners (lwPreflights w)
      \<and> ownersAgree (lwRuns w) \<and> list_all (recordedStart sha w) (lwStarted w) \<and> sorted_wrt notTwice (lwStarted w))"

lemma recordedStart_kept: "recordedStart sha w s \<Longrightarrow> recordsKept w w' \<Longrightarrow> recordedStart sha w' s"
proof -
  assume s: "recordedStart sha w s" and kept: "recordsKept w w'"
  let ?p = "siPlan (atInput s)"
  from s obtain r f where r: "readAttempt sha (planAttemptId ?p) (awFiles (lwStore w) (planRunId ?p)) = Inr r"
    "planIdentity (arPlan r) = planIdentity ?p \<and> arOrdinal r = siOrdinal (atInput s) \<and> arKind r = siKind (atInput s)"
    and f: "map_of (lwRunFiles w) (planRunId ?p) = Some f" unfolding recordedStart_def Let_def by blast
  have "map_of (lwRunFiles w') (planRunId ?p) = Some f" using kept f by (simp add: recordsKept_def)
  then show ?thesis using readAttempt_kept [OF r(1) kept] r(2) by (simp add: recordedStart_def Let_def)
qed

lemma launchOk_quiet:
  assumes "launchOk sha w" and "quiet sha w w'"
  shows "launchOk sha w'"
proof -
  have "recordsKept w w'" using assms(2) by (simp add: quiet_def)
  then have "list_all (recordedStart sha w') (lwStarted w)"
    using assms(1) recordedStart_kept unfolding launchOk_def list_all_iff by blast
  then show ?thesis using assms by (simp add: launchOk_def quiet_def sameMemory_def)
qed

lemma set_update: "set (AList.update k v xs) \<subseteq> insert (k, v) (set xs)"
  by (induction xs) auto

lemma ownersAgree_update: "ownersAgree runs \<Longrightarrow> avOwnerId r = planOwnerId (avPlan r) \<Longrightarrow> ownersAgree (AList.update k r runs)"
  unfolding ownersAgree_def list_all_iff using set_update by fastforce

lemma handOver_facts:
  assumes "handOver h lease i rd wt sn w = (Inr receipt, w')"
  shows "\<exists>s. lwStarted w' = lwStarted w @ [s] \<and> atInput s = i \<and> atLease s = lease"
    "lwStore w' = lwStore w" "lwRunFiles w' = lwRunFiles w" "lwPreflights w' = lwPreflights w" "lwOperations w' = lwOperations w"
    "siOwnerId i = planOwnerId (siPlan i) \<Longrightarrow> ownersAgree (lwRuns w) \<Longrightarrow> ownersAgree (lwRuns w')"
  using assms by (auto simp: handOver_def Let_def intro!: ownersAgree_update)

lemma startAttempt_ok:
  assumes ok: "launchOk sha w" and sha: "lhSha h = sha" and owner: "siOwnerId i = planOwnerId (siPlan i)"
    and root: "siKind i = InitialAttempt \<longrightarrow> siRootPlan i = siPlan i"
    and later: "siKind i \<noteq> InitialAttempt \<longrightarrow> (\<exists>plan l. currentAttempt h plan (lwStore w) = Inr l
      \<and> planRunId plan = planRunId (siPlan i) \<and> siOrdinal i = arOrdinal l + 1)"
  shows "launchOk sha (snd (startAttempt h i w))"
proof (cases "startAttempt h i w")
  case (Pair res w')
  show ?thesis
  proof (cases res)
    case (Inl e)
    then have "quiet sha w w'" using startAttempt_error [OF owner sha] Pair by (simp add: alongErrors_def)
    then show ?thesis using ok Pair launchOk_quiet by simp
  next
    case (Inr receipt)
    obtain lease w1 w2 rd wt sn r where
      q: "quiet sha w w1" and same: "sameAttempts w w1" and "checkExpected i w = Inr ()" and present: "map_of (lwRunFiles w1) (planRunId (siPlan i)) \<noteq> None"
      and att: "attemptRecordStep h lease i wt w1 = (Inr r, w2)" and hand: "handOver h lease i rd wt sn w2 = (Inr receipt, w')"
      by (rule startAttempt_Inr [OF Pair [unfolded Inr] root])
    have ok1: "launchOk sha w1" using launchOk_quiet ok q by blast
    have q2: "quiet sha w1 w2" using alongD [OF quietly_attemptRecord [OF owner sha] att] .
    have ok2: "launchOk sha w2" using launchOk_quiet ok1 q2 by blast
    have order: "attemptsInOrder (lhSha h) w1" using ok1 sha by (simp add: launchOk_def)
    note rec = attemptRecordStep_Inr(1) [OF order owner att, unfolded sha]
    note hand' = handOver_facts [OF hand]
    from hand'(1) obtain s where s: "lwStarted w' = lwStarted w2 @ [s]" "atInput s = i" by blast
    have mem: "lwStore w' = lwStore w2" "lwRunFiles w' = lwRunFiles w2" "lwPreflights w' = lwPreflights w2"
      "ownersAgree (lwRuns w2) \<longrightarrow> ownersAgree (lwRuns w')" using hand'(2-4) hand'(6) owner by simp_all
    have "map_of (lwRunFiles w2) (planRunId (siPlan i)) \<noteq> None" using present q2 by (auto simp: quiet_def recordsKept_def)
    then have new: "recordedStart sha w' s" using rec s(2) mem by (simp add: recordedStart_def Let_def)
    have "recordsKept w2 w'" using hand'(2,3,5) by (simp add: recordsKept_def)
    then have old: "list_all (recordedStart sha w') (lwStarted w2)"
      using ok2 recordedStart_kept unfolding launchOk_def list_all_iff by blast
    have "notTwice t s" if t: "t \<in> set (lwStarted w2)" for t
    proof -
      have started: "lwStarted w2 = lwStarted w1" using q2 by (simp add: quiet_def sameMemory_def)
      then have r1: "recordedStart sha w1 t" using ok1 t by (simp add: launchOk_def list_all_iff)
      have r2: "recordedStart sha w2 t" using ok2 t by (simp add: launchOk_def list_all_iff)
      show ?thesis
      proof (cases "startKey t = startKey s")
        case True
        then have key: "planRunId (siPlan (atInput t)) = planRunId (siPlan i)" "planAttemptId (siPlan (atInput t)) = planAttemptId (siPlan i)"
          using s(2) by (simp_all add: startKey_def)
        have "siKind i = InitialAttempt"
        proof (rule ccontr)
          assume "siKind i \<noteq> InitialAttempt"
          then obtain plan l where "currentAttempt h plan (lwStore w) = Inr l" "planRunId plan = planRunId (siPlan i)"
            "siOrdinal i = arOrdinal l + 1" using later by blast
          moreover have "currentAttempt h plan (lwStore w1) = currentAttempt h plan (lwStore w)"
            using same by (simp add: currentAttempt_def latestAttempt_def listAttempts_def sameAttempts_def)
          ultimately have "map_of (awFiles (lwStore w1) (planRunId (siPlan i))) (planAttemptId (siPlan i)) = None"
            using attemptRecordStep_fresh [OF order owner att] by simp
          then show False using r1 readAttempt_present by (fastforce simp: recordedStart_def Let_def key)
        qed
        then show ?thesis using r2 rec s(2) by (auto simp: notTwice_def recordedStart_def Let_def key)
      qed (simp add: notTwice_def)
    qed
    then show ?thesis using ok2 old new s mem Pair
      by (auto simp: launchOk_def sorted_wrt_append list_all_iff attemptsInOrder_def)
  qed
qed

subsection \<open>Any number of services\<close>

text \<open>
  The operations of services that share the stores. \<open>OpElsewhere\<close> is another service's turn: it has its own
  memory, and meanwhile leases, worktrees and journals have changed in any way.
\<close>

datatype 'g serviceOp =
    OpPreflight OwnerRegistration jsval SubagentRequest
  | OpLaunch OwnerRegistration string string
  | OpRetry OwnerRegistration string
  | OpResume OwnerRegistration string "ResumeInput option"
  | OpEvent string ServiceEventData
  | OpRegister string bool
  | OpSettle string RunExecution
  | OpFail string
  | OpControl OwnerRegistration string ControlKind bool string string
  | OpInterrupt OwnerRegistration string
  | OpShutdown
  | OpForget "string list"
  | OpElsewhere LeaseWorld "'g WtWorld" "string \<Rightarrow> ServiceJournal" "(string \<times> LiveRun) list"
      "(string \<times> PreparedPreflight) list"

fun serviceStep :: "('g, 'p) LaunchHost \<times> 'g serviceOp \<Rightarrow> 'g LaunchWorld \<Rightarrow> 'g LaunchWorld" where
  "serviceStep (h, OpPreflight owner js request) w = snd (preflight h owner js request w)"
| "serviceStep (h, OpLaunch owner pid identity) w = snd (launch h owner pid identity w)"
| "serviceStep (h, OpRetry owner runId) w = snd (retry h owner runId w)"
| "serviceStep (h, OpResume owner runId input) w = snd (resume h owner runId input w)"
| "serviceStep (h, OpEvent runId d) w = snd (attemptEvent h runId d w)"
| "serviceStep (h, OpRegister runId c) w = registerControl runId c w"
| "serviceStep (h, OpSettle runId e) w = snd (settleAttempt h runId e w)"
| "serviceStep (h, OpFail runId) w = failAttempt runId w"
| "serviceStep (h, OpControl owner runId k accepts operation text) w = snd (deliverControl h owner runId k accepts operation text w)"
| "serviceStep (h, OpInterrupt owner runId) w = snd (interruptRun owner runId w)"
| "serviceStep (h, OpShutdown) w = shutdown w"
| "serviceStep (h, OpForget removed) w = forgetRuns removed w"
| "serviceStep (h, OpElsewhere ls g js runs ps) w =
     (if ownersAgree runs \<and> preparedForOwners ps
      then w\<lparr>lwStore := (lwStore w)\<lparr>awLeases := ls\<rparr>, lwGit := g, lwJournals := js, lwRuns := runs, lwPreflights := ps\<rparr>
      else w)"

text \<open>Steps that change neither the records nor what was started.\<close>

lemma launchOk_memory:
  assumes "launchOk sha w" and "awFiles (lwStore w') = awFiles (lwStore w)" and "lwRunFiles w' = lwRunFiles w"
    and "lwStarted w' = lwStarted w" and "ownersAgree (lwRuns w')"
    and "preparedForOwners (lwPreflights w') \<or> set (lwPreflights w') \<subseteq> set (lwPreflights w)"
  shows "launchOk sha w'"
proof -
  have "recordedStart sha w' s = recordedStart sha w s" for s using assms(2,3) by (simp add: recordedStart_def Let_def)
  then show ?thesis using assms
    by (auto simp: launchOk_def attemptsInOrder_def preparedForOwners_def list_all_iff)
qed

lemma plan_ids:
  "retryPlan sha p r n = Inr q \<Longrightarrow> planOwnerId q = planOwnerId p \<and> planRunId q = planRunId p"
  "resumePlan sha p r n c = Inr q \<Longrightarrow> planOwnerId q = planOwnerId p \<and> planRunId q = planRunId p"
  by (auto simp: retryPlan_def resumePlan_def split: if_splits dest!: sealPlan_Inr)

lemma ownedRun_Inr: "ownedRun owner runId w = Inr run \<longleftrightarrow> map_of (lwRuns w) runId = Some run \<and> avOwnerId run = owner"
  by (auto simp: ownedRun_def split: option.splits if_splits)

lemma owned_plan: "launchOk sha w \<Longrightarrow> ownedRun owner runId w = Inr run \<Longrightarrow> planOwnerId (avPlan run) = owner"
  by (auto simp: launchOk_def ownersAgree_def list_all_iff ownedRun_Inr dest!: map_of_SomeD)

lemma retryInput_Inr:
  assumes "retryInput h owner run w = Inr i"
  shows "siOwnerId i = owId owner" "planOwnerId (siPlan i) = planOwnerId (avPlan run)" "planRunId (siPlan i) = planRunId (avPlan run)"
    "siKind i = RetryAttempt" "siExpected i = Some Failed"
    "\<exists>l. currentAttempt h (avPlan run) (lwStore w) = Inr l \<and> siOrdinal i = arOrdinal l + 1"
    "\<exists>e. retryPermitted run = Inr e"
  using assms by (auto simp: retryInput_def retryGuards_def Let_def dest!: plan_ids)

lemma resumeInput_Inr:
  assumes "resumeInput h owner run input w = Inr i"
  shows "siOwnerId i = owId owner" "planOwnerId (siPlan i) = planOwnerId (avPlan run)" "planRunId (siPlan i) = planRunId (avPlan run)"
    "siKind i = ResumeAttempt" "siExpected i = Some (avStatus run)"
    "\<exists>l. currentAttempt h (avPlan run) (lwStore w) = Inr l \<and> siOrdinal i = arOrdinal l + 1"
    "\<exists>e. resumePermitted run (input \<noteq> None) = Inr e"
  using assms by (auto simp: resumeInput_def Let_def dest!: plan_ids)

lemma restart_ok:
  assumes "launchOk sha w" "lhSha h = sha" "ownedRun (owId owner) runId w = Inr run"
  shows "retryInput h owner run w = Inr i \<Longrightarrow> launchOk sha (snd (startAttempt h i w))"
    "resumeInput h owner run input w = Inr i \<Longrightarrow> launchOk sha (snd (startAttempt h i w))"
proof -
  have owner: "planOwnerId (avPlan run) = owId owner" using owned_plan assms by blast
  { assume "retryInput h owner run w = Inr i"
    from retryInput_Inr [OF this] owner show "launchOk sha (snd (startAttempt h i w))"
      by (intro startAttempt_ok assms(1,2)) auto }
  { assume "resumeInput h owner run input w = Inr i"
    from resumeInput_Inr [OF this] owner show "launchOk sha (snd (startAttempt h i w))"
      by (intro startAttempt_ok assms(1,2)) auto }
qed

lemma retry_ok: "launchOk sha w \<Longrightarrow> lhSha h = sha \<Longrightarrow> launchOk sha (snd (retry h owner runId w))"
  by (auto simp: retry_def bindS_def readS_def split: sum.splits intro: restart_ok(1))

lemma resume_ok: "launchOk sha w \<Longrightarrow> lhSha h = sha \<Longrightarrow> launchOk sha (snd (resume h owner runId input w))"
  by (auto simp: resume_def bindS_def readS_def split: sum.splits intro: restart_ok(2))

lemma compile_owner: "compileLaunchPlan sha lk host i = Inr plan \<Longrightarrow> planOwnerId plan = inputOwnerId i"
proof (erule compile_facts, goal_cases)
  case (1 source admission)
  show ?case by (subst 1(4)) (simp add: planFor_def draftPlan_def Let_def)
qed

lemma prepareRequest_owner: "prepareRequest h owner js request = Inr p \<Longrightarrow> ppOwnerId p = planOwnerId (ppPlan p)"
  by (auto simp: prepareRequest_def compileRequest_def dest!: compile_owner)

lemma preflight_ok: 
  assumes ok: "launchOk sha w"
  shows "launchOk sha (snd (preflight h owner js request w))"
proof -
  let ?w = "w\<lparr>lwPreflights := dropExpired (lhNow h) (lwPreflights w)\<rparr>"
  have ok': "launchOk sha ?w"
    by (rule launchOk_memory [OF ok]) (use ok in \<open>auto simp: launchOk_def dropExpired_def\<close>)
  have "launchOk sha (?w\<lparr>lwPreflights := AList.update (lhFreshId h) p (lwPreflights ?w)\<rparr>)" if "ppOwnerId p = planOwnerId (ppPlan p)" for p
  proof -
    have "set (AList.update (lhFreshId h) p (lwPreflights ?w)) \<subseteq> insert (lhFreshId h, p) (set (lwPreflights ?w))" by (rule set_update)
    moreover have "recordedStart sha (?w\<lparr>lwPreflights := ps\<rparr>) s = recordedStart sha ?w s" for ps s
      by (simp add: recordedStart_def Let_def)
    ultimately show ?thesis using ok' that
      by (fastforce simp: launchOk_def preparedForOwners_def list_all_iff attemptsInOrder_def)
  qed
  then show ?thesis using ok ok'
    by (auto simp: preflight_def Let_def split: sum.splits dest!: prepareRequest_owner)
qed

lemma unchanged_Inr:
  assumes "unchangedSincePreflight h owner p = Inr i"
  shows "siOwnerId i = owId owner" "siPlan i = ppPlan p" "siRootPlan i = ppPlan p" "siKind i = InitialAttempt"
  using assms by (auto simp: unchangedSincePreflight_def Let_def)

lemma preparedFor_Inr:
  "preparedFor h owner pid identity w = (Inr p, w') \<Longrightarrow> w' = w \<and> (pid, p) \<in> set (lwPreflights w) \<and> ppOwnerId p = owId owner
     \<and> ppIdentity p = identity \<and> lhNow h < ppExpiresAt p"
  by (auto simp: preparedFor_def split: option.splits if_splits dest: map_of_SomeD)

lemma set_delete: "set (AList.delete k xs) \<subseteq> set xs"
  by (auto simp: AList.delete_eq)

lemma launchOk_owners: "launchOk sha w \<Longrightarrow> ownersAgree (lwRuns w)"
  by (simp add: launchOk_def)

lemma preparedFor_ok:
  assumes "launchOk sha w"
  shows "launchOk sha (snd (preparedFor h owner pid identity w))"
  by (rule launchOk_memory [OF assms])
    (auto simp: preparedFor_def launchOk_owners [OF assms] split: option.splits dest: set_mp [OF set_delete])

lemma launch_ok:
  assumes ok: "launchOk sha w" and sha: "lhSha h = sha"
  shows "launchOk sha (snd (launch h owner pid identity w))"
proof (cases "preparedFor h owner pid identity w")
  case (Pair res w1)
  show ?thesis
  proof (cases res)
    case (Inl e)
    then show ?thesis using preparedFor_ok [OF ok, of h owner pid identity] Pair by (simp add: launch_def bindS_def)
  next
    case (Inr p)
    from preparedFor_Inr [OF Pair [unfolded Inr]] have w1: "w1 = w" and p: "(pid, p) \<in> set (lwPreflights w)"
      and owner: "ppOwnerId p = owId owner" by simp_all
    have plan: "planOwnerId (ppPlan p) = owId owner" using ok p owner by (auto simp: launchOk_def preparedForOwners_def list_all_iff)
    have start: "launchOk sha (snd (startAttempt h i w'))" if "launchOk sha w'" "unchangedSincePreflight h owner p = Inr i" for i w'
      using unchanged_Inr [OF that(2)] plan by (intro startAttempt_ok that(1) sha) auto
    have claim: "launchOk sha w'" if "claimStep h r w = (x, w')" for r x w'
      using launchOk_quiet [OF ok alongD [OF quietly_claim that]] .
    show ?thesis
      using ok start claim w1
      by (auto simp: launch_def launchPrepared_def Let_def Pair Inr bindS_def readS_def split: sum.splits option.splits prod.splits)
  qed
qed

lemma ownersAgree_put:
  "ownersAgree runs \<Longrightarrow> map_of runs k = Some r \<Longrightarrow> avOwnerId r' = avOwnerId r \<Longrightarrow> avPlan r' = avPlan r
     \<Longrightarrow> ownersAgree (AList.update k r' runs)"
  by (rule ownersAgree_update) (auto simp: ownersAgree_def list_all_iff dest!: map_of_SomeD)

lemma launchOk_put:
  assumes "launchOk sha w" and "map_of (lwRuns w) k = Some r" and "avOwnerId r' = avOwnerId r" and "avPlan r' = avPlan r"
  shows "launchOk sha (putRun k r' w)" "launchOk sha (announce k s (putRun k r' w))"
proof -
  have o: "ownersAgree (AList.update k r' (lwRuns w))"
    using ownersAgree_put [OF launchOk_owners [OF assms(1)] assms(2-4)] .
  show "launchOk sha (putRun k r' w)" "launchOk sha (announce k s (putRun k r' w))"
    by (rule launchOk_memory [OF assms(1)]; simp add: putRun_def announce_def o)+
qed

lemma settle_ok:
  assumes ok: "launchOk sha w"
  shows "launchOk sha (snd (settleAttempt h runId e w))"
proof (cases "map_of (lwRuns w) runId")
  case None
  then show ?thesis using ok by (simp add: settleAttempt_def)
next
  case (Some run)
  let ?m = "bindS (readS (settledExecution h run e)) (\<lambda>e. bindS (snapshotRun (lvLease run) e) (\<lambda>_. okS e))"
  obtain res w1 where m: "?m w = (res, w1)" by fastforce
  have "quietly sha ?m" by (intro quiet.bindS quiet.basic quietly_steps)
  then have q: "quiet sha w w1" using alongD [where m = ?m] m by blast
  then have ok1: "launchOk sha w1" and runs: "lwRuns w1 = lwRuns w"
    using launchOk_quiet ok by (blast, simp add: quiet_def sameMemory_def)
  have ok2: "launchOk sha (snd (closeLease l w1))" for l
    by (rule launchOk_quiet [OF ok1 along_snd [OF quietly_steps(2)]])
  have runs2: "lwRuns (snd (closeLease l w1)) = lwRuns w" for l using runs by (simp add: closeLease_def)
  show ?thesis
  proof (cases res)
    case (Inl err)
    show ?thesis unfolding settleAttempt_def Some option.case m [unfolded Inl] prod.case sum.case snd_conv
      using Some runs by (intro launchOk_put(2) [OF ok1]) simp_all
  next
    case (Inr x)
    have "launchOk sha (if b then w1 else snd (closeLease l w1))"
      "lwRuns (if b then w1 else snd (closeLease l w1)) = lwRuns w" for b l using ok1 ok2 runs runs2 by simp_all
    then show ?thesis unfolding settleAttempt_def Some option.case m [unfolded Inr] prod.case sum.case Let_def snd_conv
      using Some by (intro launchOk_put(2)) simp_all
  qed
qed

lemma deliverText_quiet: "quietly sha (deliverText h run accepts operation text)"
  unfolding deliverText_def
  by (intro quiet.bindS quiet.catchS quiet.basic quietly_steps)
    (simp add: along_def quiet_def sameMemory_def recordsKept_def attemptsInOrder_def)

lemma control_ok:
  assumes ok: "launchOk sha w" and run: "map_of (lwRuns w) runId = Some run"
  shows "launchOk sha (snd (answerControl h runId run accepts operation text w))"
proof (cases "lvReceipts run operation")
  case (Some r)
  then show ?thesis using ok by (simp add: answerControl_def)
next
  case None
  obtain res w1 where m: "(if avStatus run \<noteq> Active \<or> \<not> avControl run then (Inr Missed, w) else deliverText h run accepts operation text w)
      = (res, w1)" by fastforce
  have "quiet sha w w1"
    using m alongD [OF deliverText_quiet] by (auto split: if_splits)
  then have ok1: "launchOk sha w1" and "lwRuns w1 = lwRuns w"
    using launchOk_quiet ok by (blast, simp add: quiet_def sameMemory_def)
  then show ?thesis using None m run launchOk_put(1) [OF ok1]
    by (auto simp: answerControl_def split: sum.splits)
qed

lemma deliverControl_ok:
  assumes ok: "launchOk sha w"
  shows "launchOk sha (snd (deliverControl h owner runId k accepts operation text w))"
proof -
  have claim: "launchOk sha w' \<and> lwRuns w' = lwRuns w" if "claimStep h r w = (x, w')" for r x w'
    using alongD [OF quietly_claim that, of sha] launchOk_quiet [OF ok] by (auto simp: quiet_def sameMemory_def)
  then show ?thesis using ok
    by (auto simp: deliverControl_def bindS_def checkS_def readS_def ownedRun_Inr split: sum.splits prod.splits
        intro!: control_ok)
qed

lemma serviceStep_ok:
  assumes "launchOk sha w" and "lhSha (fst op) = sha"
  shows "launchOk sha (serviceStep op w)"
proof (cases op)
  case (Pair h x)
  have sha: "lhSha h = sha" using assms(2) Pair by simp
  show ?thesis
  proof (cases x)
    case (OpEvent runId d)
    have "quietly sha (attemptEvent h runId d)"
      unfolding along_def attemptEvent_def by (auto split: option.splits intro: along_snd [OF quietly_steps(4)])
    from launchOk_quiet [OF assms(1) along_snd [OF this]] show ?thesis using Pair OpEvent by simp
  next
    case OpShutdown
    have "ownersAgree (lwRuns (shutdown w))"
      using launchOk_owners [OF assms(1)] by (auto simp: shutdown_def ownersAgree_def list_all_iff)
    then show ?thesis using Pair OpShutdown
      by (simp, intro launchOk_memory [OF assms(1)]) (simp_all add: shutdown_def)
  next
    case (OpForget removed)
    have "ownersAgree (lwRuns (forgetRuns removed w))"
      using launchOk_owners [OF assms(1)] by (auto simp: forgetRuns_def ownersAgree_def list_all_iff)
    then show ?thesis using Pair OpForget
      by (simp, intro launchOk_memory [OF assms(1)]) (auto simp: forgetRuns_def)
  next
    case (OpElsewhere ls g js runs ps)
    show ?thesis using Pair OpElsewhere assms(1)
      by (auto intro!: launchOk_memory [OF assms(1)])
  next
    case (OpRegister runId c)
    then show ?thesis using Pair assms(1) by (auto simp: registerControl_def split: option.splits intro: launchOk_put(2))
  next
    case (OpFail runId)
    then show ?thesis using Pair assms(1) by (auto simp: failAttempt_def split: option.splits intro: launchOk_put(2))
  next
    case (OpInterrupt owner runId)
    then show ?thesis using Pair assms(1)
      by (auto simp: interruptRun_def Let_def ownedRun_Inr split: sum.splits intro: launchOk_put(2))
  qed (use Pair assms(1) sha in \<open>auto intro: preflight_ok launch_ok retry_ok resume_ok settle_ok deliverControl_ok\<close>)
qed

lemma services_ok:
  "list_all (\<lambda>op. lhSha (fst op) = sha) ops \<Longrightarrow> launchOk sha w \<Longrightarrow> launchOk sha (fold serviceStep ops w)"
  by (induction ops arbitrary: w) (simp_all add: serviceStep_ok)

lemma emptyService_ok: "launchOk sha (emptyService g)"
  by (simp add: launchOk_def emptyService_def emptyAttempts_def attemptsInOrder_def attemptsOk_def lineage_def ownersAgree_def preparedForOwners_def)


text \<open>The run of the demonstration launch: a service launches a prepared preflight and the attempt settles.\<close>

definition demoDone :: RunExecution where
  "demoDone = \<lparr>exResult = demoFailedResult\<lparr>resultStatus := Completed, failure := None\<rparr>, exOutput = ''out'', exSessionFile = None,
     exHandoff = None, exError = None\<rparr>"

definition seatOp :: "LeaseWorld \<Rightarrow> (string \<Rightarrow> ServiceJournal) \<Rightarrow> (demoGitState, unit) LaunchHost \<times> demoGitState serviceOp" where
  "seatOp ls js = (launchHost, OpElsewhere ls demoWtWorld js [] [(''pf'', demoPrepared)])"

definition launchOp :: "(demoGitState, unit) LaunchHost \<times> demoGitState serviceOp" where
  "launchOp = (launchHost, OpLaunch demoOwner ''pf'' (replicate 64 CHR ''f''))"

definition settleOp :: "(demoGitState, unit) LaunchHost \<times> demoGitState serviceOp" where
  "settleOp = (launchHost, OpSettle ''run_1'' demoDone)"

lemma seat_step:
  "serviceStep (seatOp ls js) w = w\<lparr>lwStore := (lwStore w)\<lparr>awLeases := ls\<rparr>, lwGit := demoWtWorld, lwJournals := js, lwRuns := [],
     lwPreflights := [(''pf'', demoPrepared)]\<rparr>"
  by (simp add: seatOp_def ownersAgree_def preparedForOwners_def demoPrepared_def launchPlan_fields)

lemma first_steps:
  "\<exists>js'. fold serviceStep [seatOp noLeases js, launchOp] (emptyService demoWtWorld)
     = afterLaunch 1 ((emptyService demoWtWorld)\<lparr>lwStore := \<lparr>awLeases = noLeases, awFiles = \<lambda>_. []\<rparr>, lwJournals := js',
         lwPreflights := [(''pf'', demoPrepared)]\<rparr>)"
proof -
  let ?w = "(emptyService demoWtWorld)\<lparr>lwStore := \<lparr>awLeases = noLeases, awFiles = \<lambda>_. []\<rparr>, lwJournals := js,
     lwPreflights := [(''pf'', demoPrepared)]\<rparr>"
  have w: "serviceStep (seatOp noLeases js) (emptyService demoWtWorld) = ?w"
    by (simp add: seat_step emptyService_def emptyAttempts_def)
  have "unlaunched ?w" by (simp add: unlaunched_def emptyService_def)
  from first_launch [OF this] w show ?thesis by (auto simp: launchOp_def)
qed


lemma settled_release:
  assumes w: "w = afterLaunch 1 v"
  shows "serviceStep settleOp w = w\<lparr>lwStore := (lwStore w)\<lparr>awLeases := leasesFree 1\<rparr>,
     lwJournals := (lwJournals w)(''run_1'' := snapshotted (snapshotOf demoDone) (lwJournals w ''run_1'')),
     lwRuns := [(''run_1'', (launchedRun 1)\<lparr>avResult := Some demoDone, avStatus := Completed, avLeaseHeld := False\<rparr>)],
     lwEmitted := lwEmitted w @ [(''run_1'', Completed)]\<rparr>"
  by (simp add: settleOp_def settleAttempt_def w afterLaunch_def launchedRun_def settledExecution_def demoDone_def bindS_def readS_def okS_def
      snapshotRun_def underLease_def lease_current attemptStoreOf_def closeLease_def lease_released announce_def putRun_def Let_def)
    (simp add: launchLease_def)

text \<open>
  C12: A finished attempt is started again. Two services hold a preflight of the same request. One launches
  it, the attempt completes and its lease is released; when the other then launches the same operation,
  whatever the journal says by then, the claim, the run record and the attempt record are found to match
  and the completed attempt is handed to the attempt runner a second time, under the same ids.
\<close>

theorem finished_attempt_started_again:
  "\<exists>w v. w = fold serviceStep [seatOp noLeases js, launchOp, settleOp] (emptyService demoWtWorld)
     \<and> map_option avStatus (map_of (lwRuns w) ''run_1'') = Some Completed
     \<and> v = fold serviceStep [seatOp (awLeases (lwStore w)) js', launchOp] w
     \<and> map startKey (lwStarted v) = [(''run_1'', ''attempt_1''), (''run_1'', ''attempt_1'')]
     \<and> map_option avStatus (map_of (lwRuns v) ''run_1'') = Some Active"
proof -
  obtain js'' where first: "fold serviceStep [seatOp noLeases js, launchOp] (emptyService demoWtWorld)
     = afterLaunch 1 ((emptyService demoWtWorld)\<lparr>lwStore := \<lparr>awLeases = noLeases, awFiles = \<lambda>_. []\<rparr>, lwJournals := js'',
         lwPreflights := [(''pf'', demoPrepared)]\<rparr>)" (is "_ = afterLaunch 1 ?s") using first_steps by blast
  define w where "w = fold serviceStep [seatOp noLeases js, launchOp, settleOp] (emptyService demoWtWorld)"
  have w: "w = serviceStep settleOp (afterLaunch 1 ?s)" using first by (simp add: w_def)
  note w = w [unfolded settled_release [OF refl]]
  have "launchedBefore 1 (serviceStep (seatOp (awLeases (lwStore w)) js') w)"
    unfolding seat_step launchedBefore_def by (simp add: w afterLaunch_def attemptStoreOf_def)
  note again = second_launch [OF this]
  show ?thesis
  proof (intro exI conjI)
    show "w = fold serviceStep [seatOp noLeases js, launchOp, settleOp] (emptyService demoWtWorld)" by (rule w_def)
    show "map_option avStatus (map_of (lwRuns w) ''run_1'') = Some Completed" by (simp add: w)
    show "snd (launch launchHost demoOwner ''pf'' (replicate 64 CHR ''f'') (serviceStep (seatOp (awLeases (lwStore w)) js') w))
      = fold serviceStep [seatOp (awLeases (lwStore w)) js', launchOp] w"
      by (simp add: launchOp_def)
    show "map startKey (lwStarted (snd (launch launchHost demoOwner ''pf'' (replicate 64 CHR ''f'')
        (serviceStep (seatOp (awLeases (lwStore w)) js') w)))) = [(''run_1'', ''attempt_1''), (''run_1'', ''attempt_1'')]"
      unfolding again
      by (simp add: seat_step w afterLaunch_def emptyService_def launchStarted_def startKey_def start_facts launchPlan_fields)
    show "map_option avStatus (map_of (lwRuns (snd (launch launchHost demoOwner ''pf'' (replicate 64 CHR ''f'')
        (serviceStep (seatOp (awLeases (lwStore w)) js') w)))) ''run_1'') = Some Active"
      unfolding again by (simp add: afterLaunch_def launchedRun_def)
  qed
qed

end
