(* ===== verification/LaunchRestart.thy ===== *)
theory LaunchRestart
  imports LaunchDemo
begin

section \<open>A retry, concretely\<close>

lemma startAttempt_plain:
  assumes "acquireRunLease (lhDigest32 h) (lhRoot h @ ''/leases'') (planRunId (siPlan i)) (lhFreshId h) (lhLeaseBytes h) (awLeases (lwStore w))
      = (Inr lease, ls)"
    and "checkExpected i w = Inr ()" and "siContinueFrom i = None" and "siExistingWorktree i = None"
    and "assertHostToolProjection (siPlan i) (lhTools h) = Inr ()"
    and "runRecordStep h i (w\<lparr>lwStore := lwStore w\<lparr>awLeases := ls\<rparr>\<rparr>) = (Inr rd, w2)"
    and "workspaceMode (planWorkspace (siPlan i)) = ReadOnly" and "rwStartAt (siWorkspace i) = None"
    and "attemptRecordStep h lease i None w2 = (Inr r, w3)"
  shows "startAttempt h i w =
     (case lhExecution h of Inr _ \<Rightarrow> handOver h lease i rd None None w3 | Inl e \<Rightarrow> (Inl e, snd (closeLease lease w3)))"
proof -
  have "checkExpected i (w\<lparr>lwStore := lwStore w\<lparr>awLeases := ls\<rparr>\<rparr>) = Inr ()"
    using assms(2) by (simp add: checkExpected_def split: option.splits)
  then show ?thesis
  using assms
  by (simp add: startAttempt_def startUnderLease_def takeLease_def bindS_def catchS_def readS_def okS_def failS_def
      announceContinuation_def worktreeStep_def snapshotStep_def launchStep_def handOver_def Let_def undoSnapshot_def closeLease_def
      split: sum.splits)
qed

text \<open>The launched run after its attempt failed in a way that permits a retry.\<close>

definition failedExecution :: RunExecution where
  "failedExecution = \<lparr>exResult = demoFailedResult, exOutput = ''out'', exSessionFile = None, exHandoff = None, exError = None\<rparr>"

definition failedRun :: LiveRun where
  "failedRun = (launchedRun 1)\<lparr>avResult := Some failedExecution, avStatus := Failed, avLeaseHeld := False\<rparr>"

definition failedLike :: "LiveRun \<Rightarrow> bool" where
  "failedLike run = (avPlan run = launchPlan \<and> avWorkspace run = demoCheckout \<and> avStatus run = Failed \<and> avOwnerId run = ''owner''
     \<and> avResult run = Some failedExecution)"

definition quietEvents :: "ServiceEvent list \<Rightarrow> bool" where
  "quietEvents es = list_all (\<lambda>e. seData e = ControlAccepted ''c'') es"

definition failedWorld :: "LiveRun \<Rightarrow> 'g LaunchWorld \<Rightarrow> bool" where
  "failedWorld run w = (lwStore w = attemptStoreOf 1 [launchAttempt]\<lparr>awLeases := leasesFree 1\<rparr>
     \<and> lwRunFiles w = [(''run_1'', stored 4000 launchRunRecord)] \<and> lwRuns w = [(''run_1'', run)] \<and> failedLike run
     \<and> quietEvents (sjEvents (lwJournals w ''run_1''))
     \<and> map_option snd (sjSnapshot (lwJournals w ''run_1'')) = Some (snapshotOf failedExecution))"

lemma quietEvents_facts:
  assumes "quietEvents es"
  shows "\<not> hasPendingAbandonment es" "\<not> (\<exists>e \<in> set es. case seData e of RunAbandoned _ \<Rightarrow> True | _ \<Rightarrow> False)"
proof -
  have "dropWhile (\<lambda>e. seData e \<noteq> RunAbandoning) (List.rev es) = []"
    using assms by (auto simp: quietEvents_def list_all_iff)
  then show "\<not> hasPendingAbandonment es" by (simp add: hasPendingAbandonment_def lastIndexOf_def Let_def)
  show "\<not> (\<exists>e \<in> set es. case seData e of RunAbandoned _ \<Rightarrow> True | _ \<Rightarrow> False)"
    using assms by (auto simp: quietEvents_def list_all_iff)
qed

definition retryOfLaunch :: AgentLaunchPlan where
  "retryOfLaunch = projr (retryPlan demoSha launchPlan demoFailedResult 1)"

lemma launchPlan_limits: "planLimits launchPlan = planLimits demoPlan"
  by (simp add: launchPlan_def compiledPlan_def planFor_def draftPlan_def Let_def demoInput_def)

lemma retryOfLaunch_eq: "retryPlan demoSha launchPlan demoFailedResult 1 = Inr retryOfLaunch"
proof -
  have f: "failure demoFailedResult = Some demoRetryFailure" "failureRetry demoRetryFailure = RetryManual"
    by (simp_all add: demoFailedResult_def demoRetryFailure_def)
  have "\<exists>l. remainingLimits ''retry run-wide budget exhausted'' (planLimits launchPlan) demoFailedResult = Inr l"
    by (simp add: launchPlan_limits demoPlan_def demoFailedResult_def emptyUsage_def)
  then obtain l where l: "remainingLimits ''retry run-wide budget exhausted'' (planLimits launchPlan) demoFailedResult = Inr l" by blast
  have "\<exists>q. retryPlan demoSha launchPlan demoFailedResult 1 = Inr q"
    by (rule retryPlan_ok [OF _ f(1) _ l]) (simp_all add: launchPlan_limits demoPlan_def f launchPlan_fields)
  then show ?thesis by (auto simp: retryOfLaunch_def)
qed

lemma retryOfLaunch_next: "nextPlan demoSha launchPlan demoFailedResult retryOfLaunch"
  using retryOfLaunch_eq by (auto simp: nextPlan_def)

lemma demoSha_ok: "\<forall>s. checkSha256 (demoSha s)" by (simp add: demoSha_def)

lemma retryOfLaunch_valid: "checkPlan retryOfLaunch" "verifyLaunchPlanIdentity demoSha retryOfLaunch = Inr True"
  using nextPlan_check [OF retryOfLaunch_next launchPlan_valid demo_result_ok demoSha_ok] nextPlan_spends [OF retryOfLaunch_next] by simp_all

definition retryId :: string where "retryId = ''attempt_'' @ replicate 48 CHR ''f''"

lemma retryOfLaunch_fields:
  "planAttemptId retryOfLaunch = retryId" "planRunId retryOfLaunch = ''run_1''" "planOwnerId retryOfLaunch = ''owner''"
  "planIdentity retryOfLaunch = replicate 64 CHR ''f''" "planTools retryOfLaunch = [''read'']"
  "planWorkspace retryOfLaunch = resolvedOf demoCheckout"
proof -
  obtain a t where q: "retryOfLaunch = launchPlan\<lparr>planAttemptId := ''attempt_'' @ take 48 (demoSha a), planLimits := planLimits retryOfLaunch,
      planIdentity := demoSha t\<rparr>" using nextPlan_spends [OF retryOfLaunch_next] by blast
  show "planAttemptId retryOfLaunch = retryId" "planRunId retryOfLaunch = ''run_1''" "planOwnerId retryOfLaunch = ''owner''"
    "planIdentity retryOfLaunch = replicate 64 CHR ''f''" "planTools retryOfLaunch = [''read'']"
    "planWorkspace retryOfLaunch = resolvedOf demoCheckout"
    by (subst q, simp add: launchPlan_fields retryId_def demoSha_def)+
qed

definition retryAttempt :: AttemptRecord where
  "retryAttempt = \<lparr>arOwnerId = ''owner'', arRunId = ''run_1'', arAttemptId = retryId, arOrdinal = 1, arKind = RetryAttempt,
     arParent = Some ''attempt_1'', arWorktree = None, arPlan = retryOfLaunch, arCreatedAt = ''t''\<rparr>"

definition retryCreation :: AttemptCreation where
  "retryCreation = \<lparr>aiOwnerId = ''owner'', aiPlan = retryOfLaunch, aiOrdinal = 1, aiKind = RetryAttempt, aiParent = Some ''attempt_1'',
     aiWorktree = None, aiNow = ''t'', aiBytes = 4000\<rparr>"

lemma attemptOf_retry: "attemptOf retryCreation = retryAttempt"
  by (simp add: attemptOf_def retryCreation_def retryAttempt_def retryOfLaunch_fields truthy_def)

lemma retryAttempt_valid: "checkAttemptRecord retryAttempt"
proof -
  have "checkAttemptId retryId" using retryOfLaunch_valid(1) by (simp add: checkPlan_def retryOfLaunch_fields)
  then show ?thesis
    by (simp add: checkAttemptRecord_def retryAttempt_def retryOfLaunch_valid demo_ids checkOptionalAttempt_def)
qed

lemma read_launchAttempt: "readAttempt demoSha ''attempt_1'' [(''attempt_1'', stored 4000 launchAttempt)] = Inr launchAttempt"
  by (simp add: readAttempt_def readEntry_def stored_def MAX_ATTEMPT_RECORD_BYTES_def launchAttempt_def launchPlan_fields launchPlan_verifies)

lemma launch_latest:
  "awFiles st ''run_1'' = [(''attempt_1'', stored 4000 launchAttempt)] \<Longrightarrow> latestAttempt demoSha ''run_1'' st = Inr (Some launchAttempt)"
  by (simp add: latestAttempt_def listAttempts_def demo_ids read_launchAttempt lastOpt_def)

lemma attempt_retry:
  "createAttempt demoSha (launchLease n) retryCreation (attemptStoreOf n [launchAttempt])
     = (Inr retryAttempt, attemptStoreOf n [launchAttempt, retryAttempt])"
proof -
  have a: "arRunId retryAttempt = ''run_1''" "arAttemptId retryAttempt = retryId" "arKind retryAttempt = RetryAttempt"
    "arOrdinal retryAttempt = 1" "arParent retryAttempt = Some ''attempt_1''" by (simp_all add: retryAttempt_def)
  have b: "aiPlan retryCreation = retryOfLaunch" "aiBytes retryCreation = 4000" by (simp_all add: retryCreation_def)
  have c: "awLeases (attemptStoreOf n rs) = leasesHeld n" 
    "awFiles (attemptStoreOf n [launchAttempt]) ''run_1'' = [(''attempt_1'', stored 4000 launchAttempt)]" for rs
    by (simp_all add: attemptStoreOf_def launchAttempt_def)
  have d: "lrRunId (launchLease n) = ''run_1''" by (simp add: launchLease_def)
  have e: "latestAttempt demoSha ''run_1'' (attemptStoreOf n [launchAttempt]) = Inr (Some launchAttempt)"
    "arOrdinal launchAttempt = 0" "arAttemptId launchAttempt = ''attempt_1''"
    using launch_latest c(2) by (simp_all add: launchAttempt_def)
  have "retryId \<noteq> ''attempt_1''" by (auto simp: retryId_def dest: arg_cong [of _ _ length])
  then show ?thesis
    by (simp add: createAttempt_def Let_def attemptOf_retry retryOfLaunch_fields lease_current retryAttempt_valid retryOfLaunch_valid
        readAttempt_def readEntry_def a b c d e checkLineage_def linkEntry_def MAX_ATTEMPT_RECORD_BYTES_def)
      (simp add: attemptStoreOf_def stored_def a e fun_eq_iff)
qed

lemma failed_result_valid: "isRunResult demoFailedResult" by code_simp

text \<open>The host of the retry, whose execution dependencies may or may not load.\<close>

definition retryHost :: "ResolvedSandbox res \<Rightarrow> (demoGitState, unit) LaunchHost" where
  "retryHost ex = launchHost\<lparr>lhExecution := ex\<rparr>"

lemma retryHost_facts:
  "lhSha (retryHost ex) = demoSha" "lhDigest32 (retryHost ex) = (\<lambda>_ _. 0)" "lhFreshId (retryHost ex) = ''l''"
  "lhLeaseBytes (retryHost ex) = 100" "lhAttemptBytes (retryHost ex) = 4000" "lhIso (retryHost ex) x = ''t''"
  "lhParse (retryHost ex) y = 0" "lhTools (retryHost ex) = []" "lhExecution (retryHost ex) = ex" "lhNow (retryHost ex) = 0"
  "lhRoot (retryHost ex) = lhRoot launchHost"
  by (simp_all add: retryHost_def launchHost_def lhNow_def demoServiceHost_def)

lemma unchanged_host:
  "unchangedSince (retryHost ex) what plan prior = unchangedSince launchHost what plan prior"
  "currentAttempt (retryHost ex) plan st = currentAttempt launchHost plan st"
  by (simp_all add: unchangedSince_def sameWorkspace_def assertAgentDigest_def planAgentNow_def sameSkills_def skillsIn_def
     sameContextFiles_def contextFilesIn_def currentAttempt_def lhFiles_def retryHost_def)

lemma demo_unchanged_since:
  "unchangedSince launchHost ''retry'' launchPlan demoCheckout = Inr (demoCheckout, demoAgent, [], [])"
proof -
  have n: "planAgent launchPlan = ''a''" 
    by (simp add: launchPlan_def compiledPlan_def planFor_def draftPlan_def Let_def demoInput_def demoAgent_def)
  have model: "resolveModel (lhCompile launchHost) m = Inr m" for m by (simp add: launchHost_def demoHost_def)
  have cwd: "rwCwd demoCheckout = ''/r''" by (simp add: demoCheckout_def)
  have agent: "planAgentNow launchHost launchPlan = demoAgent" by (simp add: planAgentNow_def n launchHost_def)
  have digest: "assertAgentDigest launchHost r demoAgent = Inr ()" for r
    by (simp add: assertAgentDigest_def demoAgent_def isAbsolutePath_def startsWith_def digestFileResource_def lhFiles_def launchHost_def launchFiles_def
        DEFAULT_LIMITS_def validateLimits_def MAX_SAFE_INTEGER_def)
  have workspace: "sameWorkspace launchHost r demoCheckout = Inr demoCheckout" for r
  proof -
    have "preflightWorkspace (lhSha launchHost) (lhWorkspaces launchHost) (repeatWorkspaceRequest demoCheckout) = Inr demoCheckout" by code_simp
    then show ?thesis by (simp add: sameWorkspace_def)
  qed
  show ?thesis
    using agent digest workspace demo_skill_catalog demo_files
    by (simp add: unchangedSince_def n model cwd)
qed

definition retryStart :: StartInput where
  "retryStart = demoStart\<lparr>siPlan := retryOfLaunch, siKind := RetryAttempt, siExpected := Some Failed, siOrdinal := 1,
     siParent := Some ''attempt_1''\<rparr>"

lemma retryStart_facts:
  "siPlan retryStart = retryOfLaunch" "siOwnerId retryStart = ''owner''" "siRootPlan retryStart = launchPlan"
  "siWorkspace retryStart = demoCheckout" "siKind retryStart = RetryAttempt" "siExpected retryStart = Some Failed"
  "siContinueFrom retryStart = None" "siExistingWorktree retryStart = None" "siOrdinal retryStart = 1"
  "siParent retryStart = Some ''attempt_1''"
  by (simp_all add: retryStart_def demoStart_def)

lemma failedRun_facts:
  "avPlan failedRun = launchPlan" "avWorkspace failedRun = demoCheckout" "avStatus failedRun = Failed" "avOwnerId failedRun = ''owner''"
  "avResult failedRun = Some failedExecution" "failedLike failedRun"
  by (simp_all add: failedRun_def launchedRun_def failedExecution_def failedLike_def)

lemma failedExecution_facts: "exResult failedExecution = demoFailedResult" "exHandoff failedExecution = None"
  by (simp_all add: failedExecution_def)

lemma failed_result: "failure demoFailedResult = Some demoRetryFailure" "failureRetry demoRetryFailure = RetryManual"
  "resultStatus demoFailedResult = Failed"
  by (simp_all add: demoFailedResult_def demoRetryFailure_def)

lemma demo_retryInput:
  assumes "failedWorld run w"
  shows "retryInput (retryHost ex) demoOwner run w = Inr retryStart"
proof -
  have st: "awFiles (lwStore w) ''run_1'' = [(''attempt_1'', stored 4000 launchAttempt)]"
    and runs: "lwRunFiles w = [(''run_1'', stored 4000 launchRunRecord)]"
    using assms by (simp_all add: failedWorld_def attemptStoreOf_def launchAttempt_def)
  have like: "avPlan run = launchPlan" "avWorkspace run = demoCheckout" "avStatus run = Failed" "avResult run = Some failedExecution"
    using assms by (simp_all add: failedWorld_def failedLike_def)
  have permitted: "retryPermitted run = Inr failedExecution"
    by (simp add: retryPermitted_def like failedExecution_facts failed_result)
  have current: "currentAttempt launchHost launchPlan (lwStore w) = Inr launchAttempt"
    using launch_latest [OF st] by (simp add: currentAttempt_def host_facts launchPlan_fields launchAttempt_def)
  have due: "retryDue 0 failedExecution launchAttempt es = Inr ()" for es
    by (simp add: retryDue_def failedExecution_facts failed_result retryDelayMs_def)
  have fork: "sameFork (retryHost ex) demoOwner launchPlan a b = Inr None" for a b
    by (simp add: sameFork_def launchPlan_fields)
  have "arOrdinal launchAttempt = 0" "arAttemptId launchAttempt = ''attempt_1''" "rrPlan launchRunRecord = launchPlan"
    "owId demoOwner = ''owner''" by (simp_all add: launchAttempt_def launchRunRecord_def demoOwner_def)
  then show ?thesis
    using permitted current due fork readRun_first demo_unchanged_since retryOfLaunch_eq
    by (simp add: retryInput_def retryGuards_def Let_def like failedExecution_facts retryHost_facts launchPlan_fields unchanged_host runs
        retryStart_def demoStart_def)
qed

definition retriedRun :: LiveRun where
  "retriedRun = (launchedRun 2)\<lparr>avPlan := retryOfLaunch\<rparr>"

definition retryStarted :: StartedAttempt where
  "retryStarted = (launchStarted 2)\<lparr>atInput := retryStart\<rparr>"

definition afterRetry :: "'g LaunchWorld \<Rightarrow> 'g LaunchWorld" where
  "afterRetry w = w\<lparr>lwStore := attemptStoreOf 2 [launchAttempt, retryAttempt], lwStarted := lwStarted w @ [retryStarted],
     lwRuns := [(''run_1'', retriedRun)], lwEmitted := lwEmitted w @ [(''run_1'', Active)]\<rparr>"

lemma demo_retry:
  assumes w: "failedWorld run w"
  shows "retry (retryHost ex) demoOwner ''run_1'' w =
     (case ex of
        Inr _ \<Rightarrow> (Inr \<lparr>rpRunId = ''run_1'', rpAttemptId = retryId, rpStatus = Active\<rparr>, afterRetry w)
      | Inl e \<Rightarrow> (Inl e, w\<lparr>lwStore := attemptStoreOf 2 [launchAttempt, retryAttempt]\<lparr>awLeases := leasesFree 2\<rparr>\<rparr>))"
proof -
  have s: "lwStore w = attemptStoreOf 1 [launchAttempt]\<lparr>awLeases := leasesFree 1\<rparr>" "lwRuns w = [(''run_1'', run)]" "avOwnerId run = ''owner''"
    "lwRunFiles w = [(''run_1'', stored 4000 launchRunRecord)]" using w by (simp_all add: failedWorld_def failedLike_def)
  have "ownedRun (owId demoOwner) ''run_1'' w = Inr run"
    by (simp add: ownedRun_def s demoOwner_def)
  then have "retry (retryHost ex) demoOwner ''run_1'' w = startAttempt (retryHost ex) retryStart w"
    using demo_retryInput [OF w] by (simp add: retry_def bindS_def readS_def)
  also have "\<dots> = (case lhExecution (retryHost ex) of
        Inr _ \<Rightarrow> handOver (retryHost ex) (launchLease 2) retryStart launchRunRecord None None
                   (w\<lparr>lwStore := attemptStoreOf 2 [launchAttempt, retryAttempt]\<rparr>)
      | Inl e \<Rightarrow> (Inl e, snd (closeLease (launchLease 2) (w\<lparr>lwStore := attemptStoreOf 2 [launchAttempt, retryAttempt]\<rparr>))))"
  proof (rule startAttempt_plain [where ls = "leasesHeld 2" and ?w2.0 = "w\<lparr>lwStore := attemptStoreOf 2 [launchAttempt]\<rparr>" and r = retryAttempt])
    show "checkExpected retryStart w = Inr ()"
    proof -
      have j: "quietEvents (sjEvents (lwJournals w ''run_1''))"
        "map_option snd (sjSnapshot (lwJournals w ''run_1'')) = Some (snapshotOf failedExecution)" using w by (simp_all add: failedWorld_def)
      show ?thesis
        using quietEvents_facts [OF j(1)] j(2) failed_result_valid
        by (auto simp: checkExpected_def retryStart_facts retryOfLaunch_fields assertDurableStatus_def snapshotOf_def failedExecution_facts failed_result)
    qed
    show "assertHostToolProjection (siPlan retryStart) (lhTools (retryHost ex)) = Inr ()"
      by (simp add: assertHostToolProjection_def retryStart_facts retryOfLaunch_fields assertHostTool_def IMPLEMENTED_TOOLS_def)
    show "runRecordStep (retryHost ex) retryStart (w\<lparr>lwStore := lwStore w\<lparr>awLeases := leasesHeld 2\<rparr>\<rparr>)
        = (Inr launchRunRecord, w\<lparr>lwStore := attemptStoreOf 2 [launchAttempt]\<rparr>)"
      using readRun_first by (simp add: runRecordStep_def retryStart_facts retryOfLaunch_fields retryHost_facts s attemptStore_leases)
    show "attemptRecordStep (retryHost ex) (launchLease 2) retryStart None (w\<lparr>lwStore := attemptStoreOf 2 [launchAttempt]\<rparr>)
        = (Inr retryAttempt, w\<lparr>lwStore := attemptStoreOf 2 [launchAttempt, retryAttempt]\<rparr>)"
      using attempt_retry [of 2] by (simp add: attemptRecordStep_def retryStart_facts retryHost_facts retryCreation_def)
  qed (use lease_again [of _ 1] in \<open>simp_all add: retryStart_facts retryOfLaunch_fields retryHost_facts s resolvedOf_def demoCheckout_def\<close>)
  also have "\<dots> = (case ex of
        Inr _ \<Rightarrow> (Inr \<lparr>rpRunId = ''run_1'', rpAttemptId = retryId, rpStatus = Active\<rparr>, afterRetry w)
      | Inl e \<Rightarrow> (Inl e, w\<lparr>lwStore := attemptStoreOf 2 [launchAttempt, retryAttempt]\<lparr>awLeases := leasesFree 2\<rparr>\<rparr>))"
  proof -
    have "awLeases (attemptStoreOf 2 rs) = leasesHeld 2" for rs by (simp add: attemptStoreOf_def)
    then show ?thesis
      by (simp add: retryHost_facts closeLease_def lease_released handOver_def Let_def retryStart_facts retryOfLaunch_fields
          s afterRetry_def retriedRun_def launchedRun_def retryStarted_def launchStarted_def workspacePathOf_def hostToolOf_def
          List.map_filter_def split: sum.splits)
        (simp add: demoCheckout_def)
  qed
  finally show ?thesis .
qed

end
