(* ===== verification/LaunchGuards.thy ===== *)
theory LaunchGuards
  imports LaunchSafety LaunchRestart
begin

section \<open>What a launch, a retry and a resume require (\<open>src/service.ts\<close>)\<close>

subsection \<open>A launch starts what was approved\<close>

lemma startAttempt_started:
  assumes "startAttempt h i w = (Inr receipt, w')" and "siKind i = InitialAttempt \<longrightarrow> siRootPlan i = siPlan i"
  shows "\<exists>s. lwStarted w' = lwStarted w @ [s] \<and> atInput s = i \<and> assertCurrent (atLease s) (awLeases (lwStore w')) = Inr ()
     \<and> lrRunId (atLease s) = planRunId (siPlan i) \<and> checkExpected i w = Inr ()
     \<and> receipt = \<lparr>rpRunId = planRunId (siPlan i), rpAttemptId = planAttemptId (siPlan i), rpStatus = Active\<rparr>"
proof -
  obtain lease w1 w2 rd wt sn r where q: "quiet id w w1" "checkExpected i w = Inr ()"
    and att: "attemptRecordStep h lease i wt w1 = (Inr r, w2)" and hand: "handOver h lease i rd wt sn w2 = (Inr receipt, w')"
    by (rule startAttempt_Inr [OF assms, of id])
  have c: "createAttempt (lhSha h) lease (creationOf h i wt) (lwStore w1) = (Inr r, lwStore w2)"
    using att by (auto simp: attemptRecordStep_eq prod_eq_iff)
  have leases: "awLeases (snd (createAttempt (lhSha h) lease (creationOf h i wt) (lwStore w1))) = awLeases (lwStore w1)"
    by (auto simp: createAttempt_def Let_def split: sum.splits if_splits prod.splits)
  have cur: "assertCurrent lease (awLeases (lwStore w1)) = Inr () \<and> lrRunId lease = planRunId (siPlan i)"
    using c by (auto simp: createAttempt_def creationOf_def Let_def split: sum.splits)
  have "awLeases (lwStore w2) = awLeases (lwStore w1)" using leases c by simp
  then have "assertCurrent lease (awLeases (lwStore w')) = Inr ()"
    using cur handOver_facts(2) [OF hand] by simp
  moreover obtain s where "lwStarted w' = lwStarted w2 @ [s]" "atInput s = i" "atLease s = lease"
    using handOver_facts(1) [OF hand] by blast
  moreover have "lwStarted w2 = lwStarted w"
    using att q(1) by (auto simp: attemptRecordStep_eq quiet_def sameMemory_def)
  moreover have "receipt = \<lparr>rpRunId = planRunId (siPlan i), rpAttemptId = planAttemptId (siPlan i), rpStatus = Active\<rparr>"
    using hand by (auto simp: handOver_def Let_def)
  ultimately show ?thesis using cur q(2) by auto
qed

lemma startAttempt_not_started:
  assumes "startAttempt h i w = (Inl e, w')" and "siOwnerId i = planOwnerId (siPlan i)"
  shows "lwStarted w' = lwStarted w"
  using startAttempt_error [OF assms(2) refl, of h] assms(1) by (auto simp: alongErrors_def quiet_def sameMemory_def)

text \<open>What the host shows at the launch, in the terms of the preflight.\<close>

definition asPrepared :: "('g, 'p) LaunchHost \<Rightarrow> PreparedPreflight \<Rightarrow> StartInput \<Rightarrow> bool" where
  "asPrepared h p i =
     ((\<exists>a. resolveRequestedAgent (lhAgentHost h) (lhAgents h) (agentName (ppAgent p)) (ppAgentRoots p) = Inr (Some a)
          \<and> agentSource a = agentSource (ppAgent p) \<and> agentSha256 a = agentSha256 (ppAgent p))
      \<and> (\<exists>now. preflightWorkspace (lhSha h) (lhWorkspaces h) (repeatWorkspaceRequest (ppWorkspace p)) = Inr now
          \<and> rwHostPath now = rwHostPath (ppWorkspace p) \<and> rwBaseline now = rwBaseline (ppWorkspace p)
          \<and> assertSkillProjection (lhSha h) (ppPlan p) (map catalogSkill (siSkills i)) = Inr ()
          \<and> assertContextFileProjection (lhSha h) (lhLocaleKey h) (ppPlan p) (map cfGrant (siContextFiles i)) = Inr ()))"

lemma unchanged_asPrepared: "unchangedSincePreflight h owner p = Inr i \<Longrightarrow> asPrepared h p i"
  by (auto simp: unchangedSincePreflight_def asPrepared_def Let_def assertSameAgent_def sameWorkspace_def sameSkills_def
      sameContextFiles_def split: option.splits if_splits)

text \<open>
  C9: A launch starts exactly what was approved. When a launch starts an attempt, it is one, of the plan
  of a preflight of that owner that has not expired and has the identity the caller named; the agent, the
  workspace, the skills and the context files the host shows at that moment have the digests of the
  preflight; and the attempt holds the current lease of its run.
\<close>

theorem launched_as_approved:
  assumes "launch h owner pid identity w = (Inr receipt, w')" and "lwStarted w' \<noteq> lwStarted w"
  shows "\<exists>p s. map_of (lwPreflights w) pid = Some p \<and> ppOwnerId p = owId owner \<and> lhNow h < ppExpiresAt p
     \<and> ppIdentity p = identity \<and> lwStarted w' = lwStarted w @ [s] \<and> siPlan (atInput s) = ppPlan p
     \<and> siWorkspace (atInput s) = ppWorkspace p \<and> siAgent (atInput s) = ppAgent p \<and> asPrepared h p (atInput s)
     \<and> lrRunId (atLease s) = planRunId (ppPlan p) \<and> assertCurrent (atLease s) (awLeases (lwStore w')) = Inr ()
     \<and> receipt = \<lparr>rpRunId = planRunId (ppPlan p), rpAttemptId = planAttemptId (ppPlan p), rpStatus = Active\<rparr>"
proof -
  from assms(1) obtain p w1 i where p: "preparedFor h owner pid identity w = (Inr p, w1)"
    and i: "unchangedSincePreflight h owner p = Inr i" and l: "launchPrepared h owner p i w1 = (Inr receipt, w')"
    by (auto simp: launch_def)
  have w1: "w1 = w" and pre: "map_of (lwPreflights w) pid = Some p" "ppOwnerId p = owId owner" "lhNow h < ppExpiresAt p" "ppIdentity p = identity"
    using p by (auto simp: preparedFor_def split: option.splits if_splits)
  have none: "map_of (lwRuns w) (planRunId (ppPlan p)) = None"
    using l w1 assms(2) by (auto simp: launchPrepared_def Let_def split: option.splits if_splits)
  then obtain w2 where c: "claimStep h (operationOf h (owId owner) (planOperationId (ppPlan p)) (ppRequestSha256 p) (planRunId (ppPlan p))) w = (Inr (), w2)"
    and s: "startAttempt h i w2 = (Inr receipt, w')"
    using l w1 by (auto simp: launchPrepared_def Let_def)
  have "lwStarted w2 = lwStarted w" using alongD [OF quietly_claim c, of id] by (simp add: quiet_def sameMemory_def)
  moreover have "siPlan i = ppPlan p" "siWorkspace i = ppWorkspace p" "siAgent i = ppAgent p" "siKind i = InitialAttempt \<longrightarrow> siRootPlan i = siPlan i"
    using i by (auto simp: unchangedSincePreflight_def Let_def)
  ultimately show ?thesis using startAttempt_started [OF s] pre unchanged_asPrepared [OF i] by auto
qed

definition freshSeat :: "demoGitState LaunchWorld" where
  "freshSeat = (emptyService demoWtWorld)\<lparr>lwStore := \<lparr>awLeases = noLeases, awFiles = \<lambda>_. []\<rparr>, lwPreflights := [(''pf'', demoPrepared)]\<rparr>"

lemma launch_freshSeat:
  "launch launchHost demoOwner ''pf'' (replicate 64 CHR ''f'') freshSeat = (Inr launchReceipt, afterLaunch 1 freshSeat)"
  by (rule first_launch) (simp add: unlaunched_def freshSeat_def emptyService_def)

theorem launched_as_approved_witness:
  "\<exists>p s. lwStarted (afterLaunch 1 freshSeat) = lwStarted freshSeat @ [s] \<and> ppIdentity p = replicate 64 CHR ''f''
     \<and> siPlan (atInput s) = ppPlan p \<and> asPrepared launchHost p (atInput s)"
proof -
  have "lwStarted (afterLaunch 1 freshSeat) \<noteq> lwStarted freshSeat" by (simp add: afterLaunch_def)
  from launched_as_approved [OF launch_freshSeat this] show ?thesis by (elim exE conjE, intro exI conjI) assumption+
qed

subsection \<open>A restart is a transition of the reducer\<close>

text \<open>The statuses from which the reducer lets a run start again, and what the service asks for.\<close>

lemma retry_transition: "retryPermitted run = Inr e \<Longrightarrow> transitionRunStatus (avStatus run) EvRetry = Inr Queued"
  by (auto simp: retryPermitted_def transitionRunStatus_def split: option.splits if_splits)

lemma resume_transition:
  "resumePermitted run c = Inr e \<Longrightarrow> transitionRunStatus (avStatus run) (if c then EvResumeAtHandoff else EvResume) = Inr Queued"
  by (cases "avStatus run")
    (auto simp: resumePermitted_def transitionRunStatus_def isOk_def invalid_def split: option.splits if_splits)

definition restartEvent :: "ResumeInput option option \<Rightarrow> RunTransitionEvent" where
  "restartEvent input = (case input of None \<Rightarrow> EvRetry | Some None \<Rightarrow> EvResume | Some (Some _) \<Rightarrow> EvResumeAtHandoff)"

text \<open>A retry, or a resume with its input.\<close>

definition restart ::
  "('g, 'p) LaunchHost \<Rightarrow> OwnerRegistration \<Rightarrow> string \<Rightarrow> ResumeInput option option \<Rightarrow> 'g LaunchWorld \<Rightarrow> RunReceipt res \<times> 'g LaunchWorld" where
  "restart h owner runId input = (case input of None \<Rightarrow> retry h owner runId | Some i \<Rightarrow> resume h owner runId i)"

lemma restart_cases:
  assumes "restart h owner runId input w = (res, w')"
  obtains e where "res = Inl e" "w' = w"
  | run i where "ownedRun (owId owner) runId w = Inr run" "startAttempt h i w = (res, w')"
      "retryInput h owner run w = Inr i \<or> (\<exists>x. resumeInput h owner run x w = Inr i)"
      "siKind i \<noteq> InitialAttempt" "siOwnerId i = owId owner" "planOwnerId (siPlan i) = planOwnerId (avPlan run)"
      "planRunId (siPlan i) = planRunId (avPlan run)" "siExpected i = Some (avStatus run)"
      "\<exists>l. currentAttempt h (avPlan run) (lwStore w) = Inr l \<and> siOrdinal i = arOrdinal l + 1 \<and> siParent i = Some (arAttemptId l)"
      "transitionRunStatus (avStatus run) (restartEvent input) = Inr Queued"
proof (cases input)
  case None
  then have r: "retry h owner runId w = (res, w')" using assms by (simp add: restart_def)
  show ?thesis
  proof (cases "ownedRun (owId owner) runId w")
    case (Inr run)
    show ?thesis
    proof (cases "retryInput h owner run w")
      case i: (Inr i)
      have par: "\<exists>l. currentAttempt h (avPlan run) (lwStore w) = Inr l \<and> siOrdinal i = arOrdinal l + 1 \<and> siParent i = Some (arAttemptId l)"
        using i by (auto simp: retryInput_def retryGuards_def Let_def)
      obtain e where e: "retryPermitted run = Inr e" using retryInput_Inr(7) [OF i] by blast
      have st: "avStatus run = Failed" using e by (auto simp: retryPermitted_def split: option.splits if_splits)
      show ?thesis using r Inr i par retryInput_Inr [OF i] st retry_transition [OF e] None
        by (intro that(2) [of run i]) (auto simp: retry_def bindS_def readS_def restartEvent_def)
    qed (use r Inr that(1) in \<open>auto simp: retry_def bindS_def readS_def\<close>)
  qed (use r that(1) in \<open>auto simp: retry_def bindS_def readS_def\<close>)
next
  case (Some x)
  then have r: "resume h owner runId x w = (res, w')" using assms by (simp add: restart_def)
  show ?thesis
  proof (cases "ownedRun (owId owner) runId w")
    case (Inr run)
    show ?thesis
    proof (cases "resumeInput h owner run x w")
      case i: (Inr i)
      have par: "\<exists>l. currentAttempt h (avPlan run) (lwStore w) = Inr l \<and> siOrdinal i = arOrdinal l + 1 \<and> siParent i = Some (arAttemptId l)"
        using i by (auto simp: resumeInput_def Let_def)
      obtain e where "resumePermitted run (x \<noteq> None) = Inr e" using resumeInput_Inr(7) [OF i] by blast
      from resume_transition [OF this] have t: "transitionRunStatus (avStatus run) (restartEvent input) = Inr Queued"
        using Some by (cases x) (simp_all add: restartEvent_def)
      show ?thesis
      proof (cases "checkResumeInput x")
        case ok: (Inr u)
        have st: "startAttempt h i w = (res, w')" using r Inr i ok by (simp add: resume_def bindS_def readS_def)
        show ?thesis
          by (rule that(2) [OF Inr st _ _ _ _ _ _ par t]) (use i resumeInput_Inr(1-5) [OF i] in auto)
      qed (use r that(1) in \<open>auto simp: resume_def bindS_def readS_def\<close>)
    qed (use r Inr that(1) in \<open>auto simp: resume_def bindS_def readS_def split: sum.splits\<close>)
  qed (use r that(1) in \<open>auto simp: resume_def bindS_def readS_def split: sum.splits\<close>)
qed

text \<open>
  C10: Every restart is a transition of the lifecycle reducer, of the run in memory and of the run on disk.
  When a retry or a resume starts an attempt, the reducer allows it: its event leads from the status of
  the run to \<open>Queued\<close>; the journal's durable status is that same status; and the attempt follows the
  latest attempt of the run, which is the one of the plan in memory.
\<close>

theorem restarts_follow_the_reducer:
  assumes "restart h owner runId input w = (Inr receipt, w')"
  shows "\<exists>run s l. ownedRun (owId owner) runId w = Inr run \<and> transitionRunStatus (avStatus run) (restartEvent input) = Inr Queued
     \<and> assertDurableStatus (avStatus run) (lwJournals w (planRunId (avPlan run))) = Inr ()
     \<and> lwStarted w' = lwStarted w @ [s] \<and> planRunId (siPlan (atInput s)) = planRunId (avPlan run)
     \<and> latestAttempt (lhSha h) (planRunId (avPlan run)) (lwStore w) = Inr (Some l) \<and> arAttemptId l = planAttemptId (avPlan run)
     \<and> siOrdinal (atInput s) = arOrdinal l + 1 \<and> siParent (atInput s) = Some (arAttemptId l)
     \<and> assertCurrent (atLease s) (awLeases (lwStore w')) = Inr ()"
  using assms
proof (rule restart_cases)
  fix run i
  assume run: "ownedRun (owId owner) runId w = Inr run" and s: "startAttempt h i w = (Inr receipt, w')" and k: "siKind i \<noteq> InitialAttempt"
    and same: "planRunId (siPlan i) = planRunId (avPlan run)" and x: "siExpected i = Some (avStatus run)"
    and l: "\<exists>l. currentAttempt h (avPlan run) (lwStore w) = Inr l \<and> siOrdinal i = arOrdinal l + 1 \<and> siParent i = Some (arAttemptId l)"
    and t: "transitionRunStatus (avStatus run) (restartEvent input) = Inr Queued"
  obtain st where st: "lwStarted w' = lwStarted w @ [st]" "atInput st = i" "assertCurrent (atLease st) (awLeases (lwStore w')) = Inr ()"
    "checkExpected i w = Inr ()" using startAttempt_started [OF s] k by blast
  have "assertDurableStatus (avStatus run) (lwJournals w (planRunId (avPlan run))) = Inr ()"
    using st(4) x same by (simp add: checkExpected_def)
  moreover obtain l where "latestAttempt (lhSha h) (planRunId (avPlan run)) (lwStore w) = Inr (Some l)" "arAttemptId l = planAttemptId (avPlan run)"
    "siOrdinal i = arOrdinal l + 1" "siParent i = Some (arAttemptId l)"
    using l by (auto simp: currentAttempt_def split: option.splits if_splits)
  ultimately show ?thesis using run t st same by blast
qed simp

definition failedSeat :: "demoGitState LaunchWorld" where
  "failedSeat = freshSeat\<lparr>lwStore := attemptStoreOf 1 [launchAttempt]\<lparr>awLeases := leasesFree 1\<rparr>,
     lwRunFiles := [(''run_1'', stored 4000 launchRunRecord)], lwRuns := [(''run_1'', failedRun)],
     lwJournals := \<lambda>_. \<lparr>sjEvents = [], sjSnapshot = Some (0, snapshotOf failedExecution)\<rparr>\<rparr>"

lemma failedSeat_failed: "failedWorld failedRun failedSeat"
  by (simp add: failedWorld_def failedSeat_def failedRun_facts quietEvents_def)

lemma failedSeat_ok: "launchOk demoSha failedSeat"
proof -
  have f: "attemptFile demoSha ''run_1'' (''attempt_1'', stored 4000 launchAttempt) launchAttempt"
    using launchAttempt_valid
    by (simp add: attemptFile_def stored_def launchAttempt_def MAX_ATTEMPT_RECORD_BYTES_def launchPlan_fields launchPlan_verifies)
  have "attemptsOk demoSha r (awFiles (lwStore failedSeat) r)" for r
  proof (cases "r = ''run_1''")
    case True
    have "awFiles (lwStore failedSeat) r = [(''attempt_1'', stored 4000 launchAttempt)]"
      by (simp add: True failedSeat_def attemptStoreOf_def launchAttempt_def)
    moreover have "lineage [launchAttempt]" by (simp add: lineage_def launchAttempt_def)
    ultimately show ?thesis unfolding attemptsOk_def using f True by (intro exI [of _ "[launchAttempt]"]) simp
  next
    case False
    then show ?thesis by (simp add: failedSeat_def attemptStoreOf_def attemptsOk_def lineage_def)
  qed
  then show ?thesis
    by (simp add: launchOk_def attemptsInOrder_def)
      (simp add: failedSeat_def freshSeat_def emptyService_def preparedForOwners_def demoPrepared_def ownersAgree_def failedRun_facts launchPlan_fields)
qed

lemma restart_failedSeat:
  "restart (retryHost (Inr sandbox)) demoOwner ''run_1'' None failedSeat
     = (Inr \<lparr>rpRunId = ''run_1'', rpAttemptId = retryId, rpStatus = Active\<rparr>, afterRetry failedSeat)"
  using demo_retry [OF failedSeat_failed, of "Inr sandbox"] by (simp add: restart_def)

theorem restarts_follow_the_reducer_witness:
  "\<exists>s. lwStarted (afterRetry failedSeat) = lwStarted failedSeat @ [s] \<and> siParent (atInput s) = Some ''attempt_1''"
proof -
  have "ownedRun (owId demoOwner) ''run_1'' failedSeat = Inr failedRun"
    by (simp add: ownedRun_def failedSeat_def demoOwner_def failedRun_facts)
  then show ?thesis
    using restarts_follow_the_reducer [OF restart_failedSeat, of "planSandbox launchPlan"]
    by (auto simp: failedRun_facts launchPlan_fields)
qed

subsection \<open>After a start that failed\<close>

definition latestIs :: "(string \<Rightarrow> string) \<Rightarrow> StartInput \<Rightarrow> 'g LaunchWorld \<Rightarrow> bool" where
  "latestIs sha i w = (\<exists>r. latestAttempt sha (planRunId (siPlan i)) (lwStore w) = Inr (Some r) \<and> arAttemptId r = planAttemptId (siPlan i))"

definition attemptAbsent :: "StartInput \<Rightarrow> 'g LaunchWorld \<Rightarrow> bool" where
  "attemptAbsent i w = (map_of (awFiles (lwStore w) (planRunId (siPlan i))) (planAttemptId (siPlan i)) = None)"

text \<open>A step that leaves the attempts alone, or adds the one being started, which is then the latest.\<close>

definition leavesLatest :: "(string \<Rightarrow> string) \<Rightarrow> StartInput \<Rightarrow> 'g LaunchWorld \<Rightarrow> 'g LaunchWorld \<Rightarrow> bool" where
  "leavesLatest sha i w w' =
     (attemptsInOrder sha w \<longrightarrow> attemptsInOrder sha w' \<and> (sameAttempts w w' \<or> latestIs sha i w' \<and> attemptAbsent i w))"

lemma sameAttempts_latest: "sameAttempts w w' \<Longrightarrow> latestAttempt sha r (lwStore w') = latestAttempt sha r (lwStore w)"
  "sameAttempts w w' \<Longrightarrow> attemptsInOrder sha w' = attemptsInOrder sha w"
  "sameAttempts w w' \<Longrightarrow> attemptAbsent i w' = attemptAbsent i w"
  by (simp_all add: sameAttempts_def attemptAbsent_def latestAttempt_def listAttempts_def attemptsInOrder_def)

interpretation latest_kept: step_relation "leavesLatest sha i" for sha i
proof unfold_locales
  show "leavesLatest sha i s s" for s :: "'a LaunchWorld" by (simp add: leavesLatest_def sameAttempts_def)
next
  fix s t u :: "'a LaunchWorld"
  assume st: "leavesLatest sha i s t" and tu: "leavesLatest sha i t u"
  have "latestIs sha i t \<Longrightarrow> sameAttempts t u \<Longrightarrow> latestIs sha i u" using sameAttempts_latest(1) by (fastforce simp: latestIs_def)
  moreover have "sameAttempts s t \<Longrightarrow> sameAttempts t u \<Longrightarrow> sameAttempts s u" by (simp add: sameAttempts_def)
  moreover have "sameAttempts s t \<Longrightarrow> attemptAbsent i t \<Longrightarrow> attemptAbsent i s" using sameAttempts_latest(3) by blast
  ultimately show "leavesLatest sha i s u" using st tu unfolding leavesLatest_def by blast
qed

lemma latest_steps: "along sameAttempts m \<Longrightarrow> along (leavesLatest sha i) m"
  unfolding along_def leavesLatest_def using sameAttempts_latest(2) by blast

lemma latest_attemptRecord:
  assumes owner: "siOwnerId i = planOwnerId (siPlan i)" and sha: "lhSha h = sha"
  shows "along (leavesLatest sha i) (attemptRecordStep h lease i wt)"
proof -
  have "leavesLatest sha i w (snd (attemptRecordStep h lease i wt w))" for w
    unfolding leavesLatest_def
  proof (intro impI conjI)
    let ?w = "snd (attemptRecordStep h lease i wt w)" and ?c = "creationOf h i wt"
    assume ok: "attemptsInOrder sha w"
    show "attemptsInOrder sha ?w" using along_snd [OF quietly_attemptRecord [OF owner sha, of lease wt], of w] ok by (simp add: quiet_def)
    obtain rs where rs: "list_all2 (attemptFile sha (planRunId (siPlan i))) (awFiles (lwStore w) (planRunId (siPlan i))) rs" "lineage rs"
      using ok unfolding attemptsInOrder_def attemptsOk_def by blast
    obtain res st where c: "createAttempt sha lease ?c (lwStore w) = (res, st)" by fastforce
    have w: "lwStore ?w = st" using c sha by (simp add: attemptRecordStep_eq)
    have f: "aiPlan ?c = siPlan i" "aiOwnerId ?c = siOwnerId i" by (simp_all add: creationOf_def)
    from createAttempt_cases [of sha ?c "lwStore w" rs lease res st] rs owner c f
    have "st = lwStore w \<or> (\<exists>f r. r = attemptOf ?c \<and> lineage (rs @ [r]) \<and> attemptFile sha (planRunId (siPlan i)) (arAttemptId r, f) r
         \<and> st = lwStore w\<lparr>awFiles := (awFiles (lwStore w))(planRunId (siPlan i) := awFiles (lwStore w) (planRunId (siPlan i)) @ [(arAttemptId r, f)])\<rparr>)"
      by auto
    then show "sameAttempts w ?w \<or> latestIs sha i ?w \<and> attemptAbsent i w"
    proof (elim disjE exE conjE)
      fix f r
      assume r: "r = attemptOf ?c" "lineage (rs @ [r])" "attemptFile sha (planRunId (siPlan i)) (arAttemptId r, f) r"
        and st: "st = lwStore w\<lparr>awFiles := (awFiles (lwStore w))(planRunId (siPlan i) := awFiles (lwStore w) (planRunId (siPlan i)) @ [(arAttemptId r, f)])\<rparr>"
      have "list_all2 (attemptFile sha (planRunId (siPlan i))) (awFiles st (planRunId (siPlan i))) (rs @ [r])"
        using rs(1) r(3) st by (simp add: list_all2_appendI)
      moreover have "checkRunId (planRunId (siPlan i))" using r(3) by (auto simp: attemptFile_def checkAttemptRecord_def)
      ultimately have "latestAttempt sha (planRunId (siPlan i)) st = Inr (Some r)"
        using listAttempts_ok [OF _ r(2)] by (simp add: latestAttempt_def lastOpt_def)
      moreover have a: "arAttemptId r = planAttemptId (siPlan i)" using r(1) by (simp add: attemptOf_def creationOf_def)
      moreover have "attemptAbsent i w"
      proof -
        have "map fst (awFiles (lwStore w) (planRunId (siPlan i))) = map arAttemptId rs"
          using rs(1) by (induction rule: list_all2_induct) (auto simp: attemptFile_def)
        moreover have "planAttemptId (siPlan i) \<notin> set (map arAttemptId rs)" using r(2) a by (simp add: lineage_snoc)
        ultimately show ?thesis unfolding attemptAbsent_def map_of_eq_None_iff by (metis set_map)
      qed
      ultimately show ?thesis by (auto simp: latestIs_def w)
    qed (simp add: sameAttempts_def w)
  qed
  then show ?thesis by (simp add: along_def)
qed

lemma latest_start:
  assumes "siOwnerId i = planOwnerId (siPlan i)" and "lhSha h = sha"
  shows "along (leavesLatest sha i) (startAttempt h i)"
proof -
  have hand: "along (leavesLatest sha i) (handOver h lease i rd wt sn)" for lease rd wt sn
    by (rule latest_steps) (simp add: along_def sameAttempts_def handOver_def Let_def)
  have undo: "along (leavesLatest sha i) (undoSnapshot h lease sn)" for lease sn
    unfolding undoSnapshot_def
    by (auto intro!: latest_kept.catchS latest_kept.basic latest_steps [OF sameAttempts_steps(2)] split: option.splits)
  have drop: "along (leavesLatest sha i) (closeLease lease)" for lease
    by (rule latest_steps) (simp add: along_def sameAttempts_def closeLease_def)
  have "along (leavesLatest sha i) (startUnderLease h lease i)" for lease
    unfolding startUnderLease_def launchStep_def
    by (intro latest_kept.bindS latest_kept.catchS latest_kept.basic latest_attemptRecord [OF assms] hand undo
        latest_steps [OF sameAttempts_steps(4)] latest_steps [OF sameAttempts_more(1)] latest_steps [OF sameAttempts_more(2)]
        latest_steps [OF sameAttempts_more(3)])
  then show ?thesis
    unfolding startAttempt_def
    by (intro latest_kept.bindS latest_kept.catchS latest_kept.basic drop latest_steps [OF sameAttempts_steps(1)])
qed

lemma latest_present:
  assumes order: "attemptsInOrder sha w" and latest: "latestAttempt sha runId (lwStore w) = Inr (Some l)"
  shows "map_of (awFiles (lwStore w) runId) (arAttemptId l) \<noteq> None"
proof -
  obtain rs where rs: "list_all2 (attemptFile sha runId) (awFiles (lwStore w) runId) rs" "lineage rs"
    using order unfolding attemptsInOrder_def attemptsOk_def by blast
  have "checkRunId runId" using latest by (auto simp: latestAttempt_def listAttempts_def split: if_splits)
  then have "l \<in> set rs" using latest listAttempts_ok [OF rs] by (auto simp: latestAttempt_def lastOpt_def split: if_splits)
  moreover have "map fst (awFiles (lwStore w) runId) = map arAttemptId rs"
    using rs(1) by (induction rule: list_all2_induct) (auto simp: attemptFile_def)
  ultimately show ?thesis unfolding map_of_eq_None_iff by (metis image_eqI set_map)
qed

lemma restart_mismatch:
  assumes "ownedRun (owId owner) runId w = Inr run" and "currentAttempt h (avPlan run) (lwStore w) = Inl x"
  shows "\<exists>e. fst (restart h owner runId input w) = Inl e"
proof -
  have "\<nexists>i. retryInput h owner run w = Inr i" using assms(2) by (auto simp: retryInput_def retryGuards_def Let_def)
  moreover have "\<nexists>i. resumeInput h owner run y w = Inr i" for y using assms(2) by (auto simp: resumeInput_def Let_def)
  ultimately show ?thesis
    using assms(1)
    by (cases "retryInput h owner run w"; cases "resumeInput h owner run (the input) w"; cases "checkResumeInput (the input)"; cases input)
      (auto simp: restart_def retry_def resume_def bindS_def readS_def)
qed


definition noImage :: error where "noImage = Err ''no image''"


end
