(* ===== verification/LaunchOffers.thy ===== *)
theory LaunchOffers
  imports LaunchGuards
begin

section \<open>What is offered and what is answered (\<open>src/service.ts\<close>)\<close>

subsection \<open>A retry is offered when it would be started\<close>

lemma truncate_facts [simp]:
  "avStatus (ActiveRun.truncate run) = avStatus run" "avResult (ActiveRun.truncate run) = avResult run"
  "avPlan (ActiveRun.truncate run) = avPlan run"
  by (simp_all add: ActiveRun.defs)

definition retryOffered :: "int \<Rightarrow> LiveRun \<Rightarrow> AttemptRecord list \<Rightarrow> ServiceEvent list \<Rightarrow> bool" where
  "retryOffered now run attempts es =
     (isRetryable (ActiveRun.truncate run)
      \<and> (case retryAtOf (ActiveRun.truncate run) attempts es of None \<Rightarrow> True | Some t \<Rightarrow> t \<le> now))"

text \<open>The guards of a retry up to its plan: what is left is what the host shows and what the stores do.\<close>

definition retryAdmitted :: "('g, 'p) LaunchHost \<Rightarrow> LiveRun \<Rightarrow> AttemptStore \<Rightarrow> ServiceEvent list \<Rightarrow> bool" where
  "retryAdmitted h run st es =
     isOk (andThen (retryGuards h run st es) (\<lambda>(e, latest). retryPlan (lhSha h) (avPlan run) (exResult e) (arOrdinal latest + 1)))"

lemma budgetLeft_iff:
  assumes "avResult run = Some e"
  shows "budgetLeft run \<longleftrightarrow> (\<exists>l. remainingLimits m (planLimits (avPlan run)) (exResult e) = Inr l)"
  using assms
  by (cases "limitTotalTokens (planLimits (avPlan run))") (auto simp: budgetLeft_def Let_def remainingTotalTokens_def)

lemma retryPermitted_iff:
  "isOk (retryPermitted run) \<longleftrightarrow> avStatus run = Failed \<and> avResult run \<noteq> None
     \<and> (retryKindOf (ActiveRun.truncate run) = Some RetryManual \<or> retryKindOf (ActiveRun.truncate run) = Some RetryBackoff)
     \<and> handoffCommitOf (ActiveRun.truncate run) = None"
  by (auto simp: retryPermitted_def retryKindOf_def handoffCommitOf_def split: option.splits)

lemma retryPlan_iff:
  assumes "failure (exResult e) = Some f" and "failureRetry f = RetryManual \<or> failureRetry f = RetryBackoff"
    and "avResult run = Some e" and "case planOutputSchema (avPlan run) of None \<Rightarrow> True | Some v \<Rightarrow> plain_js v"
  shows "isOk (retryPlan sha (avPlan run) (exResult e) n) \<longleftrightarrow> retries (planLimits (avPlan run)) > 0 \<and> budgetLeft (ActiveRun.truncate run)"
proof
  assume "isOk (retryPlan sha (avPlan run) (exResult e) n)"
  then show "retries (planLimits (avPlan run)) > 0 \<and> budgetLeft (ActiveRun.truncate run)"
    using budgetLeft_iff [of "ActiveRun.truncate run" e "''retry run-wide budget exhausted''"] assms(3)
    by (auto simp: retryPlan_def isOk_iff simp del: remainingLimits_Inr split: if_splits)
next
  assume b: "retries (planLimits (avPlan run)) > 0 \<and> budgetLeft (ActiveRun.truncate run)"
  then obtain l where "remainingLimits ''retry run-wide budget exhausted'' (planLimits (avPlan run)) (exResult e) = Inr l"
    using budgetLeft_iff [of "ActiveRun.truncate run" e] assms(3) by auto
  from retryPlan_ok [OF _ assms(1,2) this assms(4)] b show "isOk (retryPlan sha (avPlan run) (exResult e) n)"
    by (auto simp: isOk_iff)
qed



subsection \<open>Control texts\<close>

definition receiptOf :: "string \<Rightarrow> string \<Rightarrow> 'g LaunchWorld \<Rightarrow> ReceiptState option" where
  "receiptOf runId operation w = Option.bind (map_of (lwRuns w) runId) (\<lambda>run. lvReceipts run operation)"

text \<open>An answered operation is answered again from its receipt, and nothing is delivered.\<close>

lemma claim_memory: "claimStep h c w = (y, w') \<Longrightarrow> lwRuns w' = lwRuns w \<and> lwDelivered w' = lwDelivered w"
  by (auto simp: claimStep_def split: prod.splits sum.splits claimError.splits)

lemma answered_again:
  assumes "receiptOf runId operation w = Some r" and "deliverControl h owner runId k accepts operation text w = (x, w')"
  shows "lwDelivered w' = lwDelivered w \<and> (\<forall>r'. x = Inr r' \<longrightarrow> r' = r)"
proof (cases "map_of (lwRuns w) runId")
  case (Some run)
  then have "lvReceipts run operation = Some r" using assms(1) by (simp add: receiptOf_def)
  then show ?thesis using assms(2) Some
    by (auto simp: deliverControl_def bindS_def checkS_def readS_def ownedRun_def answerControl_def
        split: sum.splits prod.splits if_splits dest: claim_memory)
qed (use assms in \<open>simp add: receiptOf_def\<close>)

lemma answered: "deliverControl h owner runId k accepts operation text w = (Inr r, w') \<Longrightarrow> receiptOf runId operation w' = Some r"
  by (auto simp: deliverControl_def answerControl_def receiptOf_def putRun_def update_conv' ownedRun_Inr
     split: option.splits sum.splits prod.splits if_splits dest!: claim_memory)

definition controlOperation :: OperationRecord where
  "controlOperation = operationOf launchHost ''owner'' ''c'' (replicate 64 CHR ''f'') ''run_1''"

lemma claim_control:
  assumes "lwOperations w ''ownerc'' = None \<or> lwOperations w ''ownerc'' = Some (stored 100 controlOperation)"
  shows "claimStep launchHost controlOperation w = (Inr (), w\<lparr>lwOperations := (lwOperations w)(''ownerc'' \<mapsto> stored 100 controlOperation)\<rparr>)"
proof -
  have key: "lhOperationKey launchHost (opOwnerId controlOperation) (opOperationId controlOperation) = ''ownerc''"
    "lhOperationBytes launchHost = 100" by (simp_all add: launchHost_def controlOperation_def operationOf_def)
  have "checkIdentity ''c''" by code_simp
  then have valid: "checkOperation controlOperation"
    by (simp add: checkOperation_def controlOperation_def operationOf_def demo_ids)
  have same: "(lwOperations w)(''ownerc'' \<mapsto> stored 100 controlOperation) = lwOperations w"
    if "lwOperations w ''ownerc'' = Some (stored 100 controlOperation)" using that by (simp add: fun_upd_idem)
  show ?thesis using assms
    by (auto simp: claimStep_def claimOperation_def key valid Let_def linkFile_def readOperation_def readEntry_def same
        OPERATION_MAX_RECORD_BYTES_def) (simp_all add: stored_def)
qed

definition liveRun :: "int \<Rightarrow> LiveRun \<Rightarrow> 'g LaunchWorld \<Rightarrow> bool" where
  "liveRun n run w = (lwRuns w = [(''run_1'', run)] \<and> avOwnerId run = ''owner'' \<and> avStatus run = Active \<and> avControl run
     \<and> lvReceipts run = (\<lambda>_. None) \<and> lvLease run = launchLease n \<and> planRunId (avPlan run) = ''run_1''
     \<and> awLeases (lwStore w) = leasesHeld n
     \<and> (lwOperations w ''ownerc'' = None \<or> lwOperations w ''ownerc'' = Some (stored 100 controlOperation)))"

definition steered :: "LiveRun \<Rightarrow> 'g LaunchWorld \<Rightarrow> 'g LaunchWorld" where
  "steered run w = w\<lparr>lwOperations := (lwOperations w)(''ownerc'' \<mapsto> stored 100 controlOperation),
     lwDelivered := lwDelivered w @ [\<lparr>dvRunId = ''run_1'', dvAttemptId = planAttemptId (avPlan run), dvOperationId = ''c'', dvText = ''go''\<rparr>],
     lwJournals := (lwJournals w)(''run_1'' := appended 0 (ControlAccepted ''c'') (lwJournals w ''run_1'')),
     lwRuns := [(''run_1'', run\<lparr>lvReceipts := [''c'' \<mapsto> AcceptedBySession]\<rparr>)]\<rparr>"

lemma demo_control:
  assumes "liveRun n run w"
  shows "deliverControl launchHost demoOwner ''run_1'' SteerText True ''c'' ''go'' w = (Inr AcceptedBySession, steered run w)"
proof -
  have l: "lwRuns w = [(''run_1'', run)]" "avOwnerId run = ''owner''" "avStatus run = Active" "avControl run" "lvReceipts run = (\<lambda>_. None)"
    "lvLease run = launchLease n" "planRunId (avPlan run) = ''run_1''" "awLeases (lwStore w) = leasesHeld n"
    "lwOperations w ''ownerc'' = None \<or> lwOperations w ''ownerc'' = Some (stored 100 controlOperation)"
    using assms by (simp_all add: liveRun_def)
  have c: "checkControl ''c'' ''go''" by code_simp
  have d: "controlDigest demoSha SteerText ''go'' = Inr (replicate 64 CHR ''f'')"
    unfolding controlDigest_def by (rule demoSha_plain) (rule plain_vobj, auto)
  have r: "lrRunId (launchLease n) = ''run_1''" "owId demoOwner = ''owner''" by (simp_all add: launchLease_def demoOwner_def)
  have e: "operationOf launchHost ''owner'' ''c'' (replicate 64 CHR ''f'') ''run_1'' = controlOperation" by (simp add: controlOperation_def)
  show ?thesis
    by (simp add: deliverControl_def bindS_def checkS_def c okS_def readS_def ownedRun_def l r host_facts d e claim_control [OF l(9)]
        answerControl_def deliverText_def catchS_def appendRun_def underLease_def lease_current putRun_def steered_def)
qed

lemma demo_settle:
  assumes "lwRuns w = [(''run_1'', r)]" and "lvLease r = launchLease n" and "lvWorktree r = None" and "awLeases (lwStore w) = leasesHeld n"
  shows "settleAttempt launchHost ''run_1'' failedExecution w = (Inr failedExecution,
     w\<lparr>lwStore := (lwStore w)\<lparr>awLeases := leasesFree n\<rparr>,
       lwJournals := (lwJournals w)(''run_1'' := snapshotted (snapshotOf failedExecution) (lwJournals w ''run_1'')),
       lwRuns := [(''run_1'', r\<lparr>avResult := Some failedExecution, avStatus := Failed, avLeaseHeld := False\<rparr>)],
       lwEmitted := lwEmitted w @ [(''run_1'', Failed)]\<rparr>)"
proof -
  have "lrRunId (launchLease n) = ''run_1''" by (simp add: launchLease_def)
  then show ?thesis using assms
    by (simp add: settleAttempt_def settledExecution_def failedExecution_facts failed_result bindS_def readS_def okS_def
        snapshotRun_def underLease_def lease_current closeLease_def lease_released announce_def putRun_def Let_def)
qed


end
