(* ===== verification/Artifacts.thy ===== *)
theory Artifacts
  imports RunLease "HOL-Library.AList"
begin

section \<open>The artifact store (\<open>src/artifacts/store.ts\<close>)\<close>

text \<open>
  Outputs of attempts, stored under the digest of their content within a limit per artifact and a
  limit on the whole store. The directory lists its blobs by digest, the name without \<open>.blob\<close>; a
  temporary file is not listed. The store is written under the lease of its run. \<open>sha\<close> is the
  digest function.
\<close>

record Blob =
  blobIsFile :: bool
  blobContent :: string

record ArtifactLimits =
  maxArtifactBytes :: int
  maxTotalBytes :: int

record ArtifactWorld =
  artifactLeases :: LeaseWorld
  blobs :: "Blob listing"

definition blobBytes :: "Blob \<Rightarrow> int" where
  "blobBytes b = int (length (blobContent b))"

definition checkStoreLimit :: "string \<Rightarrow> int \<Rightarrow> unit res" where
  "checkStoreLimit name v =
     require (safeInteger v \<and> 0 \<le> v) (Err (name @ '' must be a non-negative safe integer''))"

definition openArtifacts :: "RunLeaseRecord \<Rightarrow> ArtifactLimits \<Rightarrow> ArtifactWorld \<Rightarrow> ArtifactLimits res" where
  "openArtifacts lease limits w =
     andThen (checkStoreLimit ''maxArtifactBytes'' (maxArtifactBytes limits)) (\<lambda>_.
     andThen (checkStoreLimit ''maxTotalBytes'' (maxTotalBytes limits)) (\<lambda>_.
     andThen (require (maxArtifactBytes limits \<le> maxTotalBytes limits) (Err ''artifact limit exceeds total limit'')) (\<lambda>_.
     andThen (assertCurrent lease (artifactLeases w)) (\<lambda>_. Inr limits))))"

definition addBlob :: "int \<Rightarrow> string \<times> Blob \<Rightarrow> int \<Rightarrow> int res" where
  "addBlob limit entry acc =
     (if \<not> blobIsFile (snd entry) then Inl (Err (''invalid artifact entry: '' @ fst entry @ ''.blob''))
      else if acc + blobBytes (snd entry) > limit then Inl (Err ''artifact store exceeds total limit'')
      else Inr (acc + blobBytes (snd entry)))"

definition totalBytes :: "ArtifactLimits \<Rightarrow> Blob listing \<Rightarrow> int res" where
  "totalBytes limits d = foldRes (addBlob (maxTotalBytes limits)) d 0"

definition artifactRef :: "(string \<Rightarrow> string) \<Rightarrow> string \<Rightarrow> string \<Rightarrow> ArtifactRef" where
  "artifactRef sha content media =
     \<lparr>artifactId = ''artifact_'' @ sha content, artifactSha256 = sha content,
      artifactBytes = int (length content), mediaType = media\<rparr>"

text \<open>\<open>put\<close>. Puts of one store run one after the other; the lease is checked again before the rename.\<close>

definition putArtifact ::
  "(string \<Rightarrow> string) \<Rightarrow> ArtifactLimits \<Rightarrow> RunLeaseRecord \<Rightarrow> string \<times> string \<Rightarrow> ArtifactWorld
     \<Rightarrow> ArtifactRef res \<times> ArtifactWorld" where
  "putArtifact sha limits lease a w =
     (let content = fst a; bytes = int (length content); digest = sha content;
          ref = artifactRef sha content (snd a) in
      case andThen (assertCurrent lease (artifactLeases w)) (\<lambda>_.
             andThen (require (bytes \<le> maxArtifactBytes limits) (Err ''artifact exceeds byte limit'')) (\<lambda>_.
             require (checkArtifactRef ref) (Err ''invalid artifact metadata''))) of
        Inl e \<Rightarrow> (Inl e, w)
      | Inr _ \<Rightarrow>
          (case map_of (blobs w) digest of
             Some existing \<Rightarrow>
               (if blobBytes existing \<noteq> bytes then (Inl (Err ''artifact digest collision''), w)
                else if \<not> blobIsFile existing then (Inl (Err ''EISDIR''), w)
                else if sha (blobContent existing) \<noteq> digest
                then (Inl (Err ''existing artifact digest mismatch''), w)
                else (Inr ref, w))
           | None \<Rightarrow>
               (case andThen (totalBytes limits (blobs w)) (\<lambda>acc.
                      andThen (require (acc + bytes \<le> maxTotalBytes limits)
                        (Err ''artifact store total limit exceeded'')) (\<lambda>_.
                      assertCurrent lease (artifactLeases w))) of
                  Inl e \<Rightarrow> (Inl e, w)
                | Inr _ \<Rightarrow> (Inr ref, w\<lparr>blobs := AList.update digest
                               \<lparr>blobIsFile = True, blobContent = content\<rparr> (blobs w)\<rparr>))))"

definition exportArtifact :: "(string \<Rightarrow> string) \<Rightarrow> ArtifactRef \<Rightarrow> int \<Rightarrow> ArtifactWorld \<Rightarrow> (ArtifactRef \<times> string) res" where
  "exportArtifact sha ref maxBytes w =
     (if \<not> checkArtifactRef ref then Inl (Err ''invalid artifact reference'')
      else if \<not> safeInteger maxBytes \<or> maxBytes < 0 \<or> artifactBytes ref > maxBytes
      then Inl (Err ''artifact export exceeds byte limit'')
      else andThen (readEntry (artifactSha256 ref) (map_of (blobs w))) (\<lambda>b.
        if \<not> blobIsFile b \<or> blobBytes b \<noteq> artifactBytes ref then Inl (Err ''artifact size mismatch'')
        else if sha (blobContent b) \<noteq> artifactSha256 ref then Inl (Err ''artifact digest mismatch'')
        else Inr (ref, blobContent b)))"

interpretation artifacts: fenced_store "\<lambda>l w. leaseCurrent l (artifactLeases w)" "putArtifact sha limits"
  for sha limits
  by unfold_locales (auto simp: leaseCurrent_def isOk_iff putArtifact_def Let_def split: sum.splits)

subsection \<open>Limits and content addressing\<close>

definition artifactTotal :: "Blob listing \<Rightarrow> int" where
  "artifactTotal d = (\<Sum>e\<leftarrow>d. blobBytes (snd e))"

definition storeOk :: "(string \<Rightarrow> string) \<Rightarrow> ArtifactLimits \<Rightarrow> Blob listing \<Rightarrow> bool" where
  "storeOk sha limits d =
     (distinct (map fst d) \<and> artifactTotal d \<le> maxTotalBytes limits
      \<and> (\<forall>(name, b) \<in> set d. blobIsFile b \<and> name = sha (blobContent b) \<and> blobBytes b \<le> maxArtifactBytes limits))"

lemma blobBytes_nonneg [simp]: "0 \<le> blobBytes b"
  by (simp add: blobBytes_def)

lemma totalBytes_Inr:
  "totalBytes limits d = Inr acc \<Longrightarrow> acc = artifactTotal d"
proof -
  have "foldRes (addBlob l) d t = Inr acc \<Longrightarrow> acc = t + artifactTotal d" for l t
    by (induction d arbitrary: t) (fastforce simp: artifactTotal_def addBlob_def split: if_splits)+
  then show "totalBytes limits d = Inr acc \<Longrightarrow> acc = artifactTotal d"
    by (fastforce simp: totalBytes_def)
qed

lemma update_fresh: "map_of d k = None \<Longrightarrow> AList.update k v d = d @ [(k, v)]"
  by (induction d) (auto split: if_splits)

text \<open>What a put does: nothing, or append one blob that fits.\<close>

lemma put_cases:
  assumes "putArtifact sha limits lease a w = (res, w')"
  obtains "w' = w" "\<And>ref. res = Inr ref \<Longrightarrow> \<exists>b. map_of (blobs w) (sha (fst a)) = Some b \<and> blobIsFile b
      \<and> blobBytes b = int (length (fst a)) \<and> sha (blobContent b) = sha (fst a)"
  | "res = Inr (artifactRef sha (fst a) (snd a))" "map_of (blobs w) (sha (fst a)) = None"
    "int (length (fst a)) \<le> maxArtifactBytes limits"
    "artifactTotal (blobs w) + int (length (fst a)) \<le> maxTotalBytes limits"
    "w' = w\<lparr>blobs := blobs w @ [(sha (fst a), \<lparr>blobIsFile = True, blobContent = fst a\<rparr>)]\<rparr>"
proof (cases "map_of (blobs w) (sha (fst a))")
  case (Some b)
  with assms that(1) show ?thesis
    by (auto simp: putArtifact_def Let_def split: sum.splits if_splits)
next
  case None
  show ?thesis
  proof (cases "w' = w \<and> (\<forall>ref. res \<noteq> Inr ref)")
    case True
    then show ?thesis using that(1) by blast
  next
    case False
    with assms None show ?thesis
      by (intro that(2)) (auto simp: putArtifact_def Let_def update_fresh dest!: totalBytes_Inr
          split: sum.splits if_splits)
  qed
qed

lemma put_result:
  "putArtifact sha limits lease a w = (Inr ref, w') \<Longrightarrow> ref = artifactRef sha (fst a) (snd a) \<and> checkArtifactRef ref"
  by (auto simp: putArtifact_def Let_def split: sum.splits if_splits option.splits)

text \<open>The history of a store: puts under any leases, whatever happens to the leases in between.\<close>

definition artifactStep ::
  "(string \<Rightarrow> string) \<Rightarrow> ArtifactLimits \<Rightarrow> LeaseWorld \<times> RunLeaseRecord \<times> string \<times> string \<Rightarrow> ArtifactWorld \<Rightarrow> ArtifactWorld" where
  "artifactStep sha limits h w =
     (case h of (leases, lease, a) \<Rightarrow> snd (putArtifact sha limits lease a (w\<lparr>artifactLeases := leases\<rparr>)))"

lemma put_ok: "storeOk sha limits (blobs w) \<Longrightarrow> storeOk sha limits (blobs (snd (putArtifact sha limits lease a w)))"
proof -
  assume ok: "storeOk sha limits (blobs w)"
  obtain res w' where p: "putArtifact sha limits lease a w = (res, w')" by fastforce
  then show ?thesis
  proof (cases rule: put_cases)
    case 1
    then show ?thesis using ok p by simp
  next
    case 2
    then show ?thesis using ok p
      by (auto simp: storeOk_def artifactTotal_def blobBytes_def map_of_eq_None_iff image_iff)
  qed
qed

lemma put_keeps: "map_of (blobs w) k = Some b \<Longrightarrow> map_of (blobs (snd (putArtifact sha limits lease a w))) k = Some b"
proof -
  assume k: "map_of (blobs w) k = Some b"
  obtain res w' where p: "putArtifact sha limits lease a w = (res, w')" by fastforce
  then show ?thesis by (cases rule: put_cases) (use k p in \<open>auto simp: map_add_def\<close>)
qed

lemma storeOk_run: "storeOk sha limits (blobs w) \<Longrightarrow> storeOk sha limits (blobs (fold (artifactStep sha limits) hs w))"
  by (rule fold_invariant [where P = "\<lambda>w. storeOk sha limits (blobs w)"])
    (auto simp: artifactStep_def put_ok split: prod.split)

lemma run_keeps:
  "map_of (blobs w) k = Some b \<Longrightarrow> map_of (blobs (fold (artifactStep sha limits) hs w)) k = Some b"
  by (rule fold_invariant [where P = "\<lambda>w. map_of (blobs w) k = Some b"])
    (auto simp: artifactStep_def put_keeps split: prod.split)

text \<open>
  C33: The artifact store keeps its limits: whatever contents are put into an empty store, under
  whatever leases, the bytes of all its blobs together never exceed the total limit, no blob exceeds
  the limit of an artifact, and every blob is named by the digest of its content. A put that would
  break a limit is refused and changes nothing.
\<close>

theorem artifact_store_bounded:
  assumes "w = fold (artifactStep sha limits) hs \<lparr>artifactLeases = l0, blobs = []\<rparr>"
    and "0 \<le> maxTotalBytes limits"
  shows "artifactTotal (blobs w) \<le> maxTotalBytes limits
    \<and> (\<forall>(name, b) \<in> set (blobs w). name = sha (blobContent b) \<and> blobBytes b \<le> maxArtifactBytes limits)
    \<and> (maxArtifactBytes limits < int (length content)
         \<or> maxTotalBytes limits < artifactTotal (blobs w) + int (length content) \<and> map_of (blobs w) (sha content) = None
       \<longrightarrow> (\<exists>e. putArtifact sha limits lease (content, media) w = (Inl e, w)))"
proof -
  have ok: "storeOk sha limits (blobs w)"
    using storeOk_run [of sha limits "\<lparr>artifactLeases = l0, blobs = []\<rparr>" hs] assms
    by (simp add: storeOk_def artifactTotal_def)
  have "\<exists>e. putArtifact sha limits lease (content, media) w = (Inl e, w)"
    if over: "maxArtifactBytes limits < int (length content)
      \<or> maxTotalBytes limits < artifactTotal (blobs w) + int (length content) \<and> map_of (blobs w) (sha content) = None"
  proof -
    obtain res w' where p: "putArtifact sha limits lease (content, media) w = (res, w')" by fastforce
    have "\<not> (\<exists>ref. res = Inr ref)"
      using p over by (auto simp: putArtifact_def Let_def dest!: totalBytes_Inr split: sum.splits if_splits option.splits)
    moreover have "w' = w" using p
    proof (cases rule: put_cases)
      case 2
      then show ?thesis using calculation by blast
    qed
    ultimately show ?thesis using p by (cases res) auto
  qed
  then show ?thesis using ok by (auto simp: storeOk_def)
qed

text \<open>
  C34: What is put can be exported: after a put that succeeded, whatever else is put into the store,
  exporting the reference it returned, with a byte limit that admits it, gives back exactly the
  content, as long as the digest does not collide on it; and with any digest function the content
  exported has the digest and the length of the reference.
\<close>

theorem artifact_round_trip:
  assumes "putArtifact sha limits lease (content, media) w = (Inr ref, w')"
    and "storeOk sha limits (blobs w)" and "w'' = fold (artifactStep sha limits) hs w'"
    and "safeInteger n" and "int (length content) \<le> n"
  shows "\<exists>c. exportArtifact sha ref n w'' = Inr (ref, c) \<and> sha c = sha content \<and> length c = length content
    \<and> ((\<forall>c'. sha c' = sha content \<longrightarrow> c' = content) \<longrightarrow> c = content)"
proof -
  have ref: "ref = artifactRef sha content media" "checkArtifactRef ref" using put_result [OF assms(1)] by auto
  obtain b where b: "map_of (blobs w') (sha content) = Some b" "blobIsFile b"
      "blobBytes b = int (length content)" "sha (blobContent b) = sha content"
    using assms(1)
    by (cases rule: put_cases) (auto simp: blobBytes_def map_add_def)
  have "map_of (blobs w'') (sha content) = Some b" using run_keeps b(1) assms(3) by blast
  then have "exportArtifact sha ref n w'' = Inr (ref, blobContent b)"
    using ref b assms(4,5) by (simp add: exportArtifact_def artifactRef_def readEntry_def)
  then show ?thesis using b by (auto simp: blobBytes_def)
qed

definition demoArtifactSha :: "string \<Rightarrow> string" where
  "demoArtifactSha c = take 64 (c @ replicate 64 CHR ''0'')"

definition demoArtifactLease :: RunLeaseRecord where
  "demoArtifactLease = \<lparr>lrRunId = ''run_1'', lrLeaseId = ''l'', lrGeneration = 1, lrPort = 20000\<rparr>"

definition demoArtifactWorld :: ArtifactWorld where
  "demoArtifactWorld = \<lparr>artifactLeases = \<lparr>leasePorts = (\<lambda>_. None)(20000 \<mapsto> ''l''),
     leaseFiles = (\<lambda>_. None)(''run_1'' \<mapsto> \<lparr>fileSize = 100, fileIsFile = True, fileValue = encoded demoArtifactLease\<rparr>)\<rparr>,
     blobs = []\<rparr>"

definition demoArtifactLimits :: ArtifactLimits where
  "demoArtifactLimits = \<lparr>maxArtifactBytes = 2, maxTotalBytes = 3\<rparr>"

lemma demo_put: "putArtifact demoArtifactSha demoArtifactLimits demoArtifactLease (''ab'', ''text/plain'') demoArtifactWorld
  = (Inr (artifactRef demoArtifactSha ''ab'' ''text/plain''), demoArtifactWorld\<lparr>blobs :=
      [(demoArtifactSha ''ab'', \<lparr>blobIsFile = True, blobContent = ''ab''\<rparr>)]\<rparr>)"
  by (simp add: putArtifact_def Let_def demoArtifactWorld_def demoArtifactLimits_def artifactRef_def
      demoArtifactLease_def assertCurrent_def readLeaseRecord_def LEASE_MAX_RECORD_BYTES_def totalBytes_def
      checkArtifactRef_def checkSha256_def demoArtifactSha_def startsWith_def is_hex_def is_digit_def
      checkMediaType_def mediaPart_def mediaChar_def is_lower_def numeral_eq_Suc)

theorem artifact_store_bounded_witness:
  "artifactTotal (blobs (fold (artifactStep demoArtifactSha demoArtifactLimits)
     [(artifactLeases demoArtifactWorld, demoArtifactLease, ''ab'', ''text/plain'')] demoArtifactWorld)) = 2
   \<and> (\<exists>e. putArtifact demoArtifactSha demoArtifactLimits demoArtifactLease (''cd'', ''text/plain'')
        (fold (artifactStep demoArtifactSha demoArtifactLimits)
          [(artifactLeases demoArtifactWorld, demoArtifactLease, ''ab'', ''text/plain'')] demoArtifactWorld)
      = (Inl e, fold (artifactStep demoArtifactSha demoArtifactLimits)
          [(artifactLeases demoArtifactWorld, demoArtifactLease, ''ab'', ''text/plain'')] demoArtifactWorld))"
proof -
  have w: "fold (artifactStep demoArtifactSha demoArtifactLimits)
      [(artifactLeases demoArtifactWorld, demoArtifactLease, ''ab'', ''text/plain'')] demoArtifactWorld
    = demoArtifactWorld\<lparr>blobs := [(demoArtifactSha ''ab'', \<lparr>blobIsFile = True, blobContent = ''ab''\<rparr>)]\<rparr>"
    using demo_put by (simp add: artifactStep_def demoArtifactWorld_def)
  have "demoArtifactWorld = \<lparr>artifactLeases = artifactLeases demoArtifactWorld, blobs = []\<rparr>"
    by (simp add: demoArtifactWorld_def)
  from artifact_store_bounded [OF refl, of demoArtifactLimits demoArtifactSha
      "[(artifactLeases demoArtifactWorld, demoArtifactLease, ''ab'', ''text/plain'')]" "artifactLeases demoArtifactWorld"
      "''cd''" demoArtifactLease "''text/plain''", folded this] w
  show ?thesis
    by (simp add: artifactTotal_def blobBytes_def demoArtifactLimits_def demoArtifactSha_def demoArtifactWorld_def)
qed

theorem artifact_round_trip_witness:
  "\<exists>c. exportArtifact demoArtifactSha (artifactRef demoArtifactSha ''ab'' ''text/plain'') 2
      (snd (putArtifact demoArtifactSha demoArtifactLimits demoArtifactLease (''ab'', ''text/plain'') demoArtifactWorld))
    = Inr (artifactRef demoArtifactSha ''ab'' ''text/plain'', c) \<and> length c = 2"
proof -
  have "storeOk demoArtifactSha demoArtifactLimits (blobs demoArtifactWorld)"
    by (simp add: storeOk_def artifactTotal_def demoArtifactLimits_def demoArtifactWorld_def)
  moreover have "safeInteger 2" "int (length ''ab'') \<le> 2" by (simp_all add: safeInteger_def MAX_SAFE_INTEGER_def)
  ultimately obtain c where
    "exportArtifact demoArtifactSha (artifactRef demoArtifactSha ''ab'' ''text/plain'') 2
       (fold (artifactStep demoArtifactSha demoArtifactLimits) []
         (snd (putArtifact demoArtifactSha demoArtifactLimits demoArtifactLease (''ab'', ''text/plain'') demoArtifactWorld)))
     = Inr (artifactRef demoArtifactSha ''ab'' ''text/plain'', c)" "length c = length ''ab''"
    using artifact_round_trip [OF demo_put _ refl, of 2 "[]"] unfolding demo_put snd_conv by blast
  then show ?thesis by auto
qed

end
