(* ===== verification/WriteBudget.thy ===== *)
theory WriteBudget
  imports Contracts
begin

section \<open>The workspace write budget (\<open>src/sandbox/write-budget.ts\<close>)\<close>

text \<open>
  The hook that runs before every file operation of the guest on its workspace. It reserves the
  bytes of an operation, or refuses the operation and remembers that it did.
\<close>

datatype VfsOp = VfsWrite | VfsWriteFile | VfsTruncate | VfsOther string

record VfsHookContext =
  vfsOp :: VfsOp
  vfsPath :: "string option"
  vfsLength :: "int option"
  vfsData :: "string option"
  vfsSize :: "int option"

record WriteBudget =
  limitBytes :: int
  reservedBytes :: int
  refusals :: nat

record WorkspaceWriteBudgetError =
  requestedBytes :: int
  errorRemainingBytes :: int
  errorLimitBytes :: int
  errorPath :: "string option"

definition remainingBytes :: "WriteBudget \<Rightarrow> int" where
  "remainingBytes b = limitBytes b - reservedBytes b"

definition exhausted :: "WriteBudget \<Rightarrow> bool" where
  "exhausted b = (refusals b > 0)"

text \<open>The message of a refusal.\<close>

definition budgetErrorMessage :: "WorkspaceWriteBudgetError \<Rightarrow> string" where
  "budgetErrorMessage e =
     ''workspace write budget exceeded: requested='' @ showInt (requestedBytes e) @ '' remaining=''
       @ showInt (errorRemainingBytes e) @ '' limit='' @ showInt (errorLimitBytes e)
       @ (case errorPath e of None \<Rightarrow> [] | Some p \<Rightarrow> if p = [] then [] else '' path='' @ p)"

definition workspaceBudgetNotice :: "WriteBudget \<Rightarrow> string" where
  "workspaceBudgetNotice b =
     ''pi-subagent: workspace write budget exhausted (limit='' @ showInt (limitBytes b) @ '' bytes, reserved=''
       @ showInt (reservedBytes b) @ '' bytes, refusals='' @ showInt (int (refusals b))
       @ ''). Writes under /workspace now fail with EDQUOT (Disk quota exceeded); this is a budget refusal, not a disk failure. Package caches belong under $XDG_CACHE_HOME, outside /workspace.''"

definition operationBytes :: "VfsHookContext \<Rightarrow> int" where
  "operationBytes c =
     (case vfsOp c of
        VfsWrite \<Rightarrow> (case vfsLength c of None \<Rightarrow> 0 | Some n \<Rightarrow> n)
      | VfsWriteFile \<Rightarrow> (case vfsData c of None \<Rightarrow> 0 | Some d \<Rightarrow> int (length d))
      | VfsTruncate \<Rightarrow> (case vfsSize c of None \<Rightarrow> 0 | Some n \<Rightarrow> n)
      | VfsOther _ \<Rightarrow> 0)"

definition withWriteBudget :: "int \<Rightarrow> WriteBudget res" where
  "withWriteBudget limit =
     (if \<not> safeInteger limit \<or> limit < 0 then Inl (Err ''write budget must be a non-negative safe integer'')
      else Inr \<lparr>limitBytes = limit, reservedBytes = 0, refusals = 0\<rparr>)"

definition beforeOperation ::
  "VfsHookContext \<Rightarrow> WriteBudget \<Rightarrow> (WorkspaceWriteBudgetError + unit) \<times> WriteBudget" where
  "beforeOperation c b =
     (let bytes = operationBytes c in
      if bytes = 0 then (Inr (), b)
      else if bytes > limitBytes b - reservedBytes b
      then (Inl \<lparr>requestedBytes = bytes, errorRemainingBytes = limitBytes b - reservedBytes b,
              errorLimitBytes = limitBytes b,
              errorPath = (if vfsPath c = Some [] then None else vfsPath c)\<rparr>,
            b\<lparr>refusals := refusals b + 1\<rparr>)
      else (Inr (), b\<lparr>reservedBytes := reservedBytes b + bytes\<rparr>))"

text \<open>A run of operations: whether each was admitted, and the budget after them.\<close>

fun runOperations :: "VfsHookContext list \<Rightarrow> WriteBudget \<Rightarrow> bool list \<times> WriteBudget" where
  "runOperations [] b = ([], b)"
| "runOperations (c # cs) b =
     (let (r, b') = beforeOperation c b; (rs, b'') = runOperations cs b' in (isOk r # rs, b''))"

definition admittedBytes :: "VfsHookContext list \<Rightarrow> bool list \<Rightarrow> int" where
  "admittedBytes cs rs = (\<Sum>(c, ok)\<leftarrow>zip cs rs. if ok then operationBytes c else 0)"

lemma beforeOperation_facts:
  assumes "beforeOperation c b = (r, b')" and "0 \<le> operationBytes c"
  shows "limitBytes b' = limitBytes b"
    "reservedBytes b' = reservedBytes b + (if isOk r then operationBytes c else 0)"
    "reservedBytes b \<le> limitBytes b \<Longrightarrow> reservedBytes b' \<le> limitBytes b'"
    "refusals b' = refusals b + (if isOk r then 0 else 1)"
  using assms by (auto simp: beforeOperation_def Let_def split: if_splits)

lemma runOperations_facts:
  assumes "runOperations cs b = (rs, b')" and "\<forall>c \<in> set cs. 0 \<le> operationBytes c"
  shows "length rs = length cs \<and> limitBytes b' = limitBytes b
    \<and> reservedBytes b' = reservedBytes b + admittedBytes cs rs
    \<and> (reservedBytes b \<le> limitBytes b \<longrightarrow> reservedBytes b' \<le> limitBytes b')
    \<and> refusals b' = refusals b + length (filter Not rs)"
  using assms
proof (induction cs arbitrary: b rs)
  case Nil
  then show ?case by (simp add: admittedBytes_def)
next
  case (Cons c cs)
  obtain r b1 where c: "beforeOperation c b = (r, b1)" by fastforce
  obtain ss b2 where cs: "runOperations cs b1 = (ss, b2)" by fastforce
  have rs: "rs = isOk r # ss" "b' = b2" using Cons.prems(1) c cs by simp_all
  note f = beforeOperation_facts [OF c]
  have "reservedBytes b2 = reservedBytes b1 + admittedBytes cs ss" "limitBytes b2 = limitBytes b1"
    "reservedBytes b1 \<le> limitBytes b1 \<Longrightarrow> reservedBytes b2 \<le> limitBytes b2"
    "refusals b2 = refusals b1 + length (filter Not ss)" "length ss = length cs"
    using Cons.IH [of b1 ss] Cons.prems(2) cs rs(2) by auto
  moreover have "admittedBytes (c # cs) rs = (if isOk r then operationBytes c else 0) + admittedBytes cs ss"
    using rs by (simp add: admittedBytes_def)
  ultimately show ?case using f Cons.prems(2) rs by auto
qed

lemma runOperations_append:
  "runOperations (cs @ ds) b =
     (let (rs, b') = runOperations cs b; (ss, b'') = runOperations ds b' in (rs @ ss, b''))"
  by (induction cs arbitrary: b) (auto simp: Let_def split: prod.splits)

text \<open>
  The write budget is exact: whatever operations the guest attempts, with sizes that are not
  negative, the bytes reserved are the sum of the operations admitted and never exceed the limit;
  an operation is refused exactly when it asks for bytes and they do not fit in what the admitted
  ones left, a refused one reserves nothing, and the budget counts as exhausted exactly when
  something was refused.
\<close>

theorem write_budget_exact:
  assumes "withWriteBudget limit = Inr b0" and "\<forall>c \<in> set cs. 0 \<le> operationBytes c"
    and "runOperations cs b0 = (rs, b)"
  shows "reservedBytes b = admittedBytes cs rs \<and> reservedBytes b \<le> limit
    \<and> (exhausted b \<longleftrightarrow> False \<in> set rs)
    \<and> (\<forall>c. (isOk (fst (beforeOperation c b)) \<longleftrightarrow> operationBytes c = 0 \<or> operationBytes c \<le> limit - admittedBytes cs rs)
         \<and> (\<not> isOk (fst (beforeOperation c b)) \<longrightarrow> reservedBytes (snd (beforeOperation c b)) = reservedBytes b
              \<and> exhausted (snd (beforeOperation c b))))"
proof -
  have b0: "limitBytes b0 = limit" "reservedBytes b0 = 0" "refusals b0 = 0" "0 \<le> limit"
    using assms(1) by (auto simp: withWriteBudget_def split: if_splits)
  note f = runOperations_facts [OF assms(3,2)]
  have "exhausted b \<longleftrightarrow> False \<in> set rs"
    using f b0 by (auto simp: exhausted_def filter_empty_conv)
  moreover have "(isOk (fst (beforeOperation c b)) \<longleftrightarrow> operationBytes c = 0 \<or> operationBytes c \<le> limit - admittedBytes cs rs)
         \<and> (\<not> isOk (fst (beforeOperation c b)) \<longrightarrow> reservedBytes (snd (beforeOperation c b)) = reservedBytes b
              \<and> exhausted (snd (beforeOperation c b)))" for c
    using f b0 by (auto simp: beforeOperation_def Let_def exhausted_def)
  ultimately show ?thesis using f b0 by simp
qed

definition demoWrite :: "int \<Rightarrow> VfsHookContext" where
  "demoWrite n = \<lparr>vfsOp = VfsWrite, vfsPath = Some ''/workspace/f'', vfsLength = Some n, vfsData = None, vfsSize = None\<rparr>"

theorem write_budget_exact_witness:
  "let (rs, b) = runOperations [demoWrite 6, demoWrite 5, demoWrite 4] \<lparr>limitBytes = 10, reservedBytes = 0, refusals = 0\<rparr>
   in rs = [True, False, True] \<and> reservedBytes b = 10 \<and> exhausted b"
proof -
  have w: "withWriteBudget 10 = Inr \<lparr>limitBytes = 10, reservedBytes = 0, refusals = 0\<rparr>"
    by (simp add: withWriteBudget_def safeInteger_def MAX_SAFE_INTEGER_def)
  have r: "runOperations [demoWrite 6, demoWrite 5, demoWrite 4] \<lparr>limitBytes = 10, reservedBytes = 0, refusals = 0\<rparr>
    = ([True, False, True], \<lparr>limitBytes = 10, reservedBytes = 10, refusals = 1\<rparr>)"
    by (simp add: beforeOperation_def operationBytes_def demoWrite_def Let_def)
  show ?thesis using write_budget_exact [OF w _ r] unfolding r by (simp add: demoWrite_def operationBytes_def)
qed

end
