(* ===== verification/Sweep.thy ===== *)
theory Sweep
  imports Retention
begin

section \<open>The retention sweep (\<open>prune\<close> of \<open>src/persistence/retention.ts\<close>)\<close>

text \<open>
  Assessing the runs, selecting those to move and moving them. \<open>assess\<close> and \<open>selectRuns\<close> are the
  parts of \<open>prune\<close> that only compute; \<open>pruneSelected\<close> is its loop over the selected runs.
\<close>

record RetentionReport =
  rpRunId :: string
  rpStatus :: RunStatus
  rpBytes :: int
  rpTerminalAt :: "string option"
  rpReasons :: "string list"

record Assessed =
  asRun :: RetentionRun
  asPaths :: "StorePath list"
  asBytes :: int
  asTime :: "int option"

record SweepReport =
  srDryRun :: bool
  srBytesBefore :: int
  srBytesAfter :: int
  srProtected :: "RetentionReport list"
  srSelected :: "RetentionReport list"
  srPruned :: "RetentionReport list"
  srRecovered :: "string list"

record PruneOptions =
  poRuns :: "RetentionRun list"
  poDryRun :: bool
  poNow :: "int option"
  poMaxAgeMs :: "int option"
  poMaxBytes :: "int option"
  poSweepBusy :: bool                    \<comment> \<open>another process holds the retention lease\<close>
  poTrashName :: "string \<Rightarrow> string"      \<comment> \<open>the fresh directory for a run\<close>

fun checkRunDescriptors :: "RetentionWorld \<Rightarrow> string list \<Rightarrow> RetentionRun list \<Rightarrow> unit res" where
  "checkRunDescriptors w seen [] = Inr ()"
| "checkRunDescriptors w seen (run # runs) =
     (if \<not> checkRunId (rtRunId run) \<or> \<not> list_all checkAttemptId (rtAttempts run) \<or> length (rtAttempts run) > 32
         \<or> \<not> list_all checkAttemptId (rtWorktrees run) \<or> length (rtWorktrees run) > 32
         \<or> \<not> distinct (rtAttempts run) \<or> \<not> distinct (rtWorktrees run) \<or> rtRunId run \<in> set seen
      then Inl (Err ''invalid retention run descriptor'')
      else if \<not> pathExists (RunRecordFile (rtRunId run)) w then Inl (Err ''retention run root is missing'')
      else checkRunDescriptors w (rtRunId run # seen) runs)"

fun pathsBytes :: "StorePath list \<Rightarrow> RetentionWorld \<Rightarrow> (int \<times> int) list \<Rightarrow> int" where
  "pathsBytes [] w seen = 0"
| "pathsBytes (p # ps) w seen =
     (case rwTree w p of
        None \<Rightarrow> pathsBytes ps w seen
      | Some t \<Rightarrow> (let (n, seen') = treeBytes t seen in n + pathsBytes ps w seen'))"

definition terminalAt :: "RetentionRun \<Rightarrow> string option" where
  "terminalAt run = (if rtTerminalAt run = Some [] then None else rtTerminalAt run)"

definition assess :: "RetentionEnv \<Rightarrow> (string \<times> StorePath) list \<Rightarrow> RetentionWorld \<Rightarrow> RetentionRun \<Rightarrow> Assessed" where
  "assess env operations w run =
     (let paths = linkedPaths run (map snd (filter (\<lambda>e. fst e = rtRunId run) operations)) w
      in \<lparr>asRun = run, asPaths = paths, asBytes = pathsBytes paths w [],
          asTime = (case terminalAt run of None \<Rightarrow> None | Some t \<Rightarrow> reParseDate env t)\<rparr>)"

definition idOf :: "Assessed \<Rightarrow> string" where
  "idOf i = rtRunId (asRun i)"

definition protectionReasons :: "string list \<Rightarrow> Assessed \<Rightarrow> string list" where
  "protectionReasons pinned i =
     (if rtRunId (asRun i) \<in> set pinned then [''pinned''] else [])
     @ (if rtRetained (asRun i) then [''retained-worktree''] else [])
     @ (if rtStatus (asRun i) \<notin> set ORDINARY_TERMINAL then [''status:'' @ runStatusText (rtStatus (asRun i))] else [])
     @ (if asTime i = None then [''terminal-time-unknown''] else [])"

definition reportOf :: "Assessed \<Rightarrow> string list \<Rightarrow> RetentionReport" where
  "reportOf i reasons = \<lparr>rpRunId = rtRunId (asRun i), rpStatus = rtStatus (asRun i), rpBytes = asBytes i,
     rpTerminalAt = terminalAt (asRun i), rpReasons = reasons\<rparr>"

text \<open>Oldest first, then by the run id as \<open>localeCompare\<close> orders it (sorting is stable).\<close>

definition timeOf :: "Assessed \<Rightarrow> int" where
  "timeOf i = (case asTime i of None \<Rightarrow> 0 | Some t \<Rightarrow> t)"

definition ordinaryRuns :: "RetentionEnv \<Rightarrow> string list \<Rightarrow> Assessed list \<Rightarrow> Assessed list" where
  "ordinaryRuns env pinned items =
     sort_key timeOf (sort_key (\<lambda>i. reLocaleKey env (rtRunId (asRun i)))
       (filter (\<lambda>i. protectionReasons pinned i = []) items))"

definition tooOld :: "int \<Rightarrow> int \<Rightarrow> Assessed \<Rightarrow> bool" where
  "tooOld now maxAge i = (now - (case asTime i of None \<Rightarrow> now | Some t \<Rightarrow> t) \<ge> maxAge)"

definition sumBytes :: "Assessed list \<Rightarrow> int" where
  "sumBytes items = (\<Sum>i\<leftarrow>items. asBytes i)"

text \<open>The loop over the byte budget: \<open>aged\<close> are the ids selected by age.\<close>

fun selectBudget :: "int \<Rightarrow> string list \<Rightarrow> Assessed list \<Rightarrow> int \<Rightarrow> (string \<times> string) list \<times> int" where
  "selectBudget maxBytes aged [] after = ([], after)"
| "selectBudget maxBytes aged (i # is) after =
     (if after \<le> maxBytes then ([], after)
      else if idOf i \<in> set aged then selectBudget maxBytes aged is after
      else (let (sel, after') = selectBudget maxBytes aged is (after - asBytes i)
            in ((idOf i, ''budget'') # sel, after')))"

definition selectRuns :: "int \<Rightarrow> int \<Rightarrow> int \<Rightarrow> Assessed list \<Rightarrow> (string \<times> string) list \<times> int" where
  "selectRuns now maxAge maxBytes ordinary =
     (let aged = map idOf (filter (tooOld now maxAge) ordinary);
          (sel, after) = selectBudget maxBytes aged ordinary
            (sumBytes (filter (\<lambda>i. idOf i \<notin> set aged) ordinary))
      in (map (\<lambda>id. (id, ''age'')) aged @ sel, after))"

definition selectedReports :: "(string \<times> string) list \<Rightarrow> Assessed list \<Rightarrow> RetentionReport list" where
  "selectedReports selected ordinary =
     map (\<lambda>i. reportOf i (case map_of selected (idOf i) of None \<Rightarrow> [] | Some r \<Rightarrow> [r]))
       (filter (\<lambda>i. idOf i \<in> fst ` set selected) ordinary)"

record SweepState =
  ssWorld :: RetentionWorld
  ssProtected :: "RetentionReport list"
  ssAfter :: int
  ssPruned :: "RetentionReport list"

definition isWorktreeError :: "error \<Rightarrow> bool" where
  "isWorktreeError e = (case e of WorktreeErr _ \<Rightarrow> True | _ \<Rightarrow> False)"

definition inspectHandoffs :: "RetentionEnv \<Rightarrow> RetentionRun \<Rightarrow> RetentionWorld \<Rightarrow> HandoffRefTarget list res" where
  "inspectHandoffs env run w =
     andThen (runHandoffRefs env run w) (\<lambda>refs.
     andThen (mapRes (reInspectRef env) refs) (\<lambda>_. Inr refs))"

definition pruneOne :: "RetentionEnv \<Rightarrow> (string \<Rightarrow> string) \<Rightarrow> Assessed \<times> RetentionReport \<Rightarrow> SweepState \<Rightarrow> unit res \<times> SweepState" where
  "pruneOne env trashName ir s =
     (let i = fst ir; report = snd ir; run = asRun i in
      case acquireForRetention env (rtRunId run) (ssWorld s) of
        (Inl _, w) \<Rightarrow>
          (Inr (), s\<lparr>ssProtected := ssProtected s @ [report\<lparr>rpReasons := [''run-lease-unavailable'']\<rparr>],
             ssAfter := ssAfter s + asBytes i\<rparr>)
      | (Inr _, w) \<Rightarrow>
          (case inspectHandoffs env run w of
             Inl e \<Rightarrow>
               if isWorktreeError e
               then (Inr (), s\<lparr>ssWorld := w, ssProtected := ssProtected s @ [report\<lparr>rpReasons := [''handoff-ref-unremovable'']\<rparr>],
                      ssAfter := ssAfter s + asBytes i\<rparr>)
               else (Inl e, s\<lparr>ssWorld := w\<rparr>)
           | Inr refs \<Rightarrow>
               (let lease = LeaseFile (rtRunId run);
                    paths = asPaths i @ (if lease \<in> set (asPaths i) then [] else [lease])
                in case moveRunToTrash env (trashName (rtRunId run)) run paths refs w of
                     (Inl e, w) \<Rightarrow> (Inl e, s\<lparr>ssWorld := w\<rparr>)
                   | (Inr _, w) \<Rightarrow> (Inr (), s\<lparr>ssWorld := w, ssPruned := ssPruned s @ [report]\<rparr>))))"

fun pruneSelected ::
  "RetentionEnv \<Rightarrow> (string \<Rightarrow> string) \<Rightarrow> (Assessed \<times> RetentionReport) list \<Rightarrow> SweepState \<Rightarrow> unit res \<times> SweepState" where
  "pruneSelected env trashName [] s = (Inr (), s)"
| "pruneSelected env trashName (ir # irs) s =
     (case pruneOne env trashName ir s of
        (Inl e, s) \<Rightarrow> (Inl e, s)
      | (Inr _, s) \<Rightarrow> pruneSelected env trashName irs s)"

definition sweepRecovered :: "RetentionEnv \<Rightarrow> PruneOptions \<Rightarrow> RetentionWorld \<Rightarrow> string list res \<times> RetentionWorld" where
  "sweepRecovered env opts w = (if poDryRun opts then (Inr [], w) else recoverTrashIntents env w)"

text \<open>The part of \<open>prune\<close> between recovery and the loop: the ordinary runs, the protected and the selected ones.\<close>

definition planSweep ::
  "RetentionEnv \<Rightarrow> PruneOptions \<Rightarrow> int \<Rightarrow> int \<Rightarrow> string list \<Rightarrow> RetentionWorld
     \<Rightarrow> (Assessed list \<times> RetentionReport list \<times> (string \<times> string) list \<times> int) res" where
  "planSweep env opts maxAge maxBytes recovered w =
     (let candidates = filter (\<lambda>r. rtRunId r \<notin> set recovered) (poRuns opts) in
      andThen (checkRunDescriptors w [] candidates) (\<lambda>_.
      (case poNow opts of
         None \<Rightarrow> Inl (Err ''invalid retention clock'')
       | Some now \<Rightarrow>
           andThen (listPins None w) (\<lambda>pins.
           andThen (operationPathsByRun w) (\<lambda>operations.
             (let pinned = map pinRunId pins;
                  assessed = map (assess env operations w) candidates;
                  ordinary = ordinaryRuns env pinned assessed;
                  protectedRuns = map (\<lambda>i. reportOf i (protectionReasons pinned i))
                    (filter (\<lambda>i. protectionReasons pinned i \<noteq> []) assessed);
                  (selected, after) = selectRuns now maxAge maxBytes ordinary
              in Inr (ordinary, protectedRuns, selected, after)))))))"

definition prune :: "RetentionEnv \<Rightarrow> PruneOptions \<Rightarrow> RetentionWorld \<Rightarrow> SweepReport res \<times> RetentionWorld" where
  "prune env opts w =
     (let maxAge = (case poMaxAgeMs opts of None \<Rightarrow> DEFAULT_MAX_AGE_MS | Some n \<Rightarrow> n);
          maxBytes = (case poMaxBytes opts of None \<Rightarrow> DEFAULT_MAX_BYTES | Some n \<Rightarrow> n) in
      if \<not> safeInteger maxAge \<or> maxAge < 0 then (Inl (Err ''invalid retention max age''), w)
      else if \<not> safeInteger maxBytes \<or> maxBytes < 0 then (Inl (Err ''invalid retention byte budget''), w)
      else if poSweepBusy opts then (Inl (Err ''retention lease unavailable''), w)
      else (case sweepRecovered env opts w of
        (Inl e, w) \<Rightarrow> (Inl e, w)
      | (Inr recovered, w) \<Rightarrow>
          (case planSweep env opts maxAge maxBytes recovered w of
             Inl e \<Rightarrow> (Inl e, w)
           | Inr (ordinary, protectedRuns, selected, after) \<Rightarrow>
               (let reports = selectedReports selected ordinary;
                    items = filter (\<lambda>i. idOf i \<in> fst ` set selected) ordinary;
                    start = \<lparr>ssWorld = w, ssProtected = protectedRuns, ssAfter = after, ssPruned = []\<rparr>
                in case (if poDryRun opts then (Inr (), start)
                         else pruneSelected env (poTrashName opts) (zip items reports) start) of
                     (Inl e, s) \<Rightarrow> (Inl e, ssWorld s)
                   | (Inr _, s) \<Rightarrow>
                       (Inr \<lparr>srDryRun = poDryRun opts, srBytesBefore = sumBytes ordinary, srBytesAfter = ssAfter s,
                             srProtected = ssProtected s, srSelected = reports, srPruned = ssPruned s,
                             srRecovered = recovered\<rparr>, ssWorld s)))))"

subsection \<open>What is selected\<close>

text \<open>The longest tail of a list of runs, oldest first, that fits into the byte budget.\<close>

fun fittingTail :: "int \<Rightarrow> Assessed list \<Rightarrow> Assessed list" where
  "fittingTail maxBytes [] = []"
| "fittingTail maxBytes (i # is) =
     (if sumBytes (i # is) \<le> maxBytes then i # is else fittingTail maxBytes is)"

lemma sumBytes_simps [simp]: "sumBytes [] = 0" "sumBytes (i # is) = asBytes i + sumBytes is"
  by (simp_all add: sumBytes_def)

lemma fittingTail_sub: "set (fittingTail m items) \<subseteq> set items"
  by (induction items) auto

lemma fittingTail_fits: "0 \<le> m \<Longrightarrow> sumBytes (fittingTail m items) \<le> m"
  by (induction items) auto

lemma selectBudget_spec:
  assumes "distinct (map idOf items)" and "0 \<le> m"
    and "selectBudget m aged items (sumBytes (filter (\<lambda>i. idOf i \<notin> set aged) items)) = (sel, after)"
  shows "fst ` set sel \<subseteq> idOf ` set items
    \<and> filter (\<lambda>i. idOf i \<notin> set aged \<and> idOf i \<notin> fst ` set sel) items
        = fittingTail m (filter (\<lambda>i. idOf i \<notin> set aged) items)
    \<and> after = sumBytes (fittingTail m (filter (\<lambda>i. idOf i \<notin> set aged) items))
    \<and> (\<forall>x \<in> set sel. snd x = ''budget'')"
  using assms
proof (induction items arbitrary: sel)
  case Nil
  then show ?case by simp
next
  case (Cons i items)
  let ?rest = "\<lambda>items. filter (\<lambda>i. idOf i \<notin> set aged) items"
  show ?case
  proof (cases "sumBytes (?rest (i # items)) \<le> m")
    case True
    then have "sel = []" "after = sumBytes (?rest (i # items))"
      using Cons.prems(3) by (auto split: if_splits)
    moreover have "fittingTail m (?rest (i # items)) = ?rest (i # items)"
      using True by (cases "?rest (i # items)") auto
    ultimately show ?thesis by simp
  next
    case False
    show ?thesis
    proof (cases "idOf i \<in> set aged")
      case True
      then show ?thesis using Cons False by auto
    next
      case fresh: False
      then obtain sel' where sel': "sel = (idOf i, ''budget'') # sel'"
        "selectBudget m aged items (sumBytes (?rest items)) = (sel', after)"
        using Cons.prems(3) False by (auto split: prod.splits)
      have IH: "fst ` set sel' \<subseteq> idOf ` set items
        \<and> filter (\<lambda>i. idOf i \<notin> set aged \<and> idOf i \<notin> fst ` set sel') items = fittingTail m (?rest items)
        \<and> after = sumBytes (fittingTail m (?rest items)) \<and> (\<forall>x \<in> set sel'. snd x = ''budget'')"
        using Cons.IH [OF _ Cons.prems(2) sel'(2)] Cons.prems(1) by simp
      have "filter (\<lambda>j. idOf j \<notin> set aged \<and> idOf j \<notin> fst ` set sel) items
          = filter (\<lambda>j. idOf j \<notin> set aged \<and> idOf j \<notin> fst ` set sel') items"
        using Cons.prems(1) sel'(1) by (intro filter_cong) (auto simp: image_iff)
      then show ?thesis using IH sel'(1) fresh False by auto
    qed
  qed
qed

lemma selectRuns_spec:
  assumes "distinct (map idOf items)" and "0 \<le> m" and "selectRuns now maxAge m items = (sel, after)"
  shows "filter (\<lambda>i. idOf i \<notin> fst ` set sel) items = fittingTail m (filter (\<lambda>i. \<not> tooOld now maxAge i) items)
    \<and> after = sumBytes (fittingTail m (filter (\<lambda>i. \<not> tooOld now maxAge i) items))
    \<and> fst ` set sel \<subseteq> idOf ` set items"
proof -
  define aged where "aged = map idOf (filter (tooOld now maxAge) items)"
  have old: "idOf i \<in> set aged \<longleftrightarrow> tooOld now maxAge i" if "i \<in> set items" for i
    using that assms(1) by (auto simp: aged_def distinct_map inj_on_def)
  then have rest: "filter (\<lambda>i. idOf i \<notin> set aged) items = filter (\<lambda>i. \<not> tooOld now maxAge i) items"
    by (intro filter_cong) auto
  obtain sel' where b: "selectBudget m aged items (sumBytes (filter (\<lambda>i. idOf i \<notin> set aged) items)) = (sel', after)"
    "sel = map (\<lambda>id. (id, ''age'')) aged @ sel'"
    using assms(3) by (auto simp: selectRuns_def Let_def aged_def split: prod.splits)
  note s = selectBudget_spec [OF assms(1,2) b(1)]
  have "fst ` set sel = set aged \<union> fst ` set sel'" using b(2) by (simp add: image_Un image_image)
  moreover have "set aged \<subseteq> idOf ` set items" by (auto simp: aged_def)
  ultimately show ?thesis using s rest by simp
qed

lemma descriptors_distinct: "checkRunDescriptors w seen runs = Inr u \<Longrightarrow> distinct (map rtRunId runs)
    \<and> set (map rtRunId runs) \<inter> set seen = {}"
  by (induction runs arbitrary: seen) (fastforce split: if_splits)+

lemma protectionReasons_empty [simp]:
  "protectionReasons pinned i = [] \<longleftrightarrow> idOf i \<notin> set pinned \<and> \<not> rtRetained (asRun i)
     \<and> rtStatus (asRun i) \<in> set ORDINARY_TERMINAL \<and> asTime i \<noteq> None"
  by (auto simp: protectionReasons_def idOf_def)


subsection \<open>What is moved\<close>

text \<open>
  An entry of the store that is not a lease record is as it was, or it is gone and lies, as it was, in
  a completed directory of the trash of a run reported as pruned.
\<close>

definition inTrashOf :: "RetentionReport \<Rightarrow> StorePath \<Rightarrow> fsTree option \<Rightarrow> RetentionWorld \<Rightarrow> bool" where
  "inTrashOf r p t w = (\<exists>e \<in> set (rwTrash w). teCompleted (snd e) \<and> teMoved (snd e) p = t
     \<and> (\<exists>m. teManifest (snd e) = Some (encoded m) \<and> tmRunId m = rpRunId r))"

definition keptOrTrashed :: "RetentionWorld \<Rightarrow> RetentionReport list \<Rightarrow> RetentionWorld \<Rightarrow> StorePath \<Rightarrow> bool" where
  "keptOrTrashed w0 pruned w p =
     (rwTree w p = rwTree w0 p
      \<or> rwTree w p = None \<and> (\<exists>r \<in> set pruned. inTrashOf r p (rwTree w0 p) w))"

fun isLeaseFile :: "StorePath \<Rightarrow> bool" where
  "isLeaseFile (LeaseFile r) = True"
| "isLeaseFile _ = False"

lemma isLeaseFile_iff: "isLeaseFile p \<longleftrightarrow> (\<exists>r. p = LeaseFile r)"
  by (cases p) auto

lemma moveRunToTrash_ok:
  assumes "moveRunToTrash env name run paths refs w = (Inr u, w')"
  shows "rwTree w' p = (if p \<in> set paths then None else rwTree w p)"
    "set (rwTrash w) \<subseteq> set (rwTrash w')"
    "p \<in> set paths \<Longrightarrow> \<exists>e \<in> set (rwTrash w'). teCompleted (snd e) \<and> teMoved (snd e) p = rwTree w p
       \<and> (\<exists>m. teManifest (snd e) = Some (encoded m) \<and> tmRunId m = rtRunId run)"
proof -
  obtain v where "removeHandoffRefs env refs = Inr v" using assms by (auto simp: moveRunToTrash_def Let_def split: sum.splits)
  then have w': "w' = w\<lparr>rwTree := \<lambda>p. if p \<in> set paths then None else rwTree w p,
     rwTrash := rwTrash w @ [(name, \<lparr>teManifest = Some (encoded (trashManifest run paths refs)),
       teMoved = \<lambda>p. if p \<in> set paths then rwTree w p else None, teCompleted = True\<rparr>)]\<rparr>"
    using assms by (simp add: moveRunToTrash_def Let_def movedPrefix_eq trashManifest_def)
  show "rwTree w' p = (if p \<in> set paths then None else rwTree w p)" "set (rwTrash w) \<subseteq> set (rwTrash w')"
    by (auto simp: w')
  show "p \<in> set paths \<Longrightarrow> \<exists>e \<in> set (rwTrash w'). teCompleted (snd e) \<and> teMoved (snd e) p = rwTree w p
       \<and> (\<exists>m. teManifest (snd e) = Some (encoded m) \<and> tmRunId m = rtRunId run)"
    unfolding w' by (simp add: trashManifest_def)
qed

lemma pruneOne_ok:
  assumes "pruneOne env tn (i, report) s = (Inr u, s')" and "rpRunId report = idOf i" and "\<not> isLeaseFile p"
  shows "set (rwTrash (ssWorld s)) \<subseteq> set (rwTrash (ssWorld s'))
    \<and> set (ssPruned s) \<subseteq> set (ssPruned s') \<and> set (ssPruned s') \<subseteq> insert report (set (ssPruned s))
    \<and> (rwTree (ssWorld s') p = rwTree (ssWorld s) p
       \<or> rwTree (ssWorld s') p = None \<and> report \<in> set (ssPruned s')
         \<and> inTrashOf report p (rwTree (ssWorld s) p) (ssWorld s'))"
proof -
  obtain a w where acq: "acquireForRetention env (rtRunId (asRun i)) (ssWorld s) = (a, w)" by fastforce
  have tree: "rwTree w p = rwTree (ssWorld s) p" "rwTrash w = rwTrash (ssWorld s)"
    using acq assms(3) by (auto simp: acquireForRetention_def isLeaseFile_iff split: if_splits)
  show ?thesis
  proof (cases a)
    case (Inl e)
    then show ?thesis using assms(1) acq by (auto simp: pruneOne_def Let_def)
  next
    case (Inr x)
    show ?thesis
    proof (cases "inspectHandoffs env (asRun i) w")
      case (Inl e)
      then show ?thesis using assms(1) acq Inr tree by (auto simp: pruneOne_def Let_def split: if_splits)
    next
      case (Inr refs)
      let ?L = "LeaseFile (rtRunId (asRun i))"
      let ?paths = "asPaths i @ (if ?L \<in> set (asPaths i) then [] else [?L])"
      obtain w' v where m: "moveRunToTrash env (tn (rtRunId (asRun i))) (asRun i) ?paths refs w = (Inr v, w')"
        "s' = s\<lparr>ssWorld := w', ssPruned := ssPruned s @ [report]\<rparr>"
        using assms(1) acq \<open>a = Inr x\<close> Inr by (auto simp: pruneOne_def Let_def split: sum.splits prod.splits)
      note ok = moveRunToTrash_ok(1) [OF m(1), of p] moveRunToTrash_ok(2) [OF m(1)] moveRunToTrash_ok(3) [OF m(1), of p]
      have "inTrashOf report p (rwTree w p) w'" if "p \<in> set ?paths"
        using ok(3) [OF that] assms(2) by (simp add: inTrashOf_def idOf_def)
      then show ?thesis using m(2) ok tree by auto
    qed
  qed
qed

lemma inTrashOf_mono: "inTrashOf r p t w \<Longrightarrow> set (rwTrash w) \<subseteq> set (rwTrash w') \<Longrightarrow> inTrashOf r p t w'"
  by (auto simp: inTrashOf_def)

lemma pruneSelected_ok:
  assumes "pruneSelected env tn irs s = (Inr u, s')" and "\<forall>(i, report) \<in> set irs. rpRunId report = idOf i"
    and "\<not> isLeaseFile p" and "keptOrTrashed w0 (ssPruned s) (ssWorld s) p"
  shows "keptOrTrashed w0 (ssPruned s') (ssWorld s') p \<and> set (ssPruned s') \<subseteq> set (ssPruned s) \<union> snd ` set irs"
  using assms
proof (induction irs arbitrary: s)
  case Nil
  then show ?case by simp
next
  case (Cons ir irs)
  obtain i report where ir: "ir = (i, report)" by (cases ir)
  obtain v s1 where one: "pruneOne env tn (i, report) s = (Inr v, s1)" and rest: "pruneSelected env tn irs s1 = (Inr u, s')"
    using Cons.prems(1) ir by (auto split: sum.splits prod.splits)
  note ok = pruneOne_ok [OF one _ Cons.prems(3)]
  have id: "rpRunId report = idOf i" using Cons.prems(2) ir by auto
  have "keptOrTrashed w0 (ssPruned s1) (ssWorld s1) p"
    using Cons.prems(4) ok [OF id] unfolding keptOrTrashed_def
    by (elim disjE conjE bexE) (auto intro: inTrashOf_mono)
  with Cons.IH [OF rest _ Cons.prems(3)] Cons.prems(2) ok [OF id] ir show ?case by auto
qed

lemma recoverNames_idle:
  "\<forall>n \<in> set ns. \<forall>t. map_of (rwTrash w) n = Some t \<longrightarrow> teCompleted t \<or> teManifest t = None
     \<Longrightarrow> recoverNames env ns w = (Inr [], w)"
  by (induction ns) (auto simp: recoverIntent_def split: option.splits)


definition demoSweep :: PruneOptions where
  "demoSweep = \<lparr>poRuns = [demoRetentionRun], poDryRun = False, poNow = Some 5, poMaxAgeMs = Some 10, poMaxBytes = Some 0,
     poSweepBusy = False, poTrashName = (\<lambda>r. r)\<rparr>"

definition demoItem :: Assessed where
  "demoItem = \<lparr>asRun = demoRetentionRun, asPaths = demoRetentionPaths, asBytes = 10, asTime = Some 0\<rparr>"

lemma demo_assessed: "assess demoRetentionEnv [] demoRetentionWorld demoRetentionRun = demoItem"
  by (simp add: demoItem_def assess_def Let_def linkedPaths_def unique_def demoRetentionRun_def demoRetentionWorld_def
      demoRetentionPaths_def pathExists_def terminalAt_def demoRetentionEnv_def)

lemma demo_item:
  "idOf demoItem = ''run_1''" "asRun demoItem = demoRetentionRun" "\<not> rtRetained demoRetentionRun"
  "rtStatus demoRetentionRun = Completed" "asTime demoItem = Some 0" "asBytes demoItem = 10"
  "rtRunId demoRetentionRun = ''run_1''" "asPaths demoItem = demoRetentionPaths"
  by (simp_all add: demoItem_def idOf_def demoRetentionRun_def)

lemma demo_plan:
  "planSweep demoRetentionEnv demoSweep 10 0 [] demoRetentionWorld =
     Inr ([demoItem], [], [(''run_1'', ''budget'')], 0)"
proof -
  have "checkRunDescriptors demoRetentionWorld [] [demoRetentionRun] = Inr ()"
    by (simp add: demoRetentionRun_def demoRetentionWorld_def demoRetentionPaths_def pathExists_def checkRunId_def
        startsWith_def lowerAlnum_def is_digit_def)
  moreover have "listPins None demoRetentionWorld = Inr []" "operationPathsByRun demoRetentionWorld = Inr []"
    by (simp_all add: listPins_def operationPathsByRun_def demoRetentionWorld_def)
  moreover have old: "\<not> tooOld 5 10 demoItem" by (simp add: tooOld_def demo_item)
  have "protectionReasons [] demoItem = []" by (simp add: demo_item ORDINARY_TERMINAL_def)
  moreover from this have "ordinaryRuns demoRetentionEnv [] [demoItem] = [demoItem]"
    by (simp add: ordinaryRuns_def del: protectionReasons_empty)
  moreover have "selectRuns 5 10 0 [demoItem] = ([(''run_1'', ''budget'')], 0)"
    using old by (simp add: selectRuns_def demo_item)
  ultimately show ?thesis
    by (simp add: planSweep_def demoSweep_def demo_assessed Let_def del: protectionReasons_empty checkRunDescriptors.simps)
qed



end
