(* ===== verification/StoreRevision.thy ===== *)
theory StoreRevision
  imports Layout
begin

section \<open>The store-open revision gate (\<open>src/persistence/store-revision.ts\<close>)\<close>

text \<open>
  State of an older contract revision is moved to the quarantine before the store opens; state of a
  newer one refuses the start. The store is the list of its persisted files with the revision each
  declares, if any (\<open>None\<close> is a file the gate cannot classify), and the other entries, by their
  path; moving a directory moves the files in it. Ids do not contain a separator or an extension.
\<close>

definition MAX_PROBE_BYTES :: int where "MAX_PROBE_BYTES = 2 * 1024 * 1024"
definition MAX_LINE_BYTES :: nat where "MAX_LINE_BYTES = 128 * 1024"

subsection \<open>Probing one file\<close>

definition revisionOf :: "json \<Rightarrow> int option" where
  "revisionOf v =
     (case jget v ''contractRevision'' of
        Some (JNum r) \<Rightarrow> (if r = of_int (floor r) then Some (floor r) else None)
      | _ \<Rightarrow> None)"

definition firstLine :: "string \<Rightarrow> string option" where
  "firstLine content =
     (let s = take MAX_LINE_BYTES content in
      if newline \<in> set s then Some (takeWhile (\<lambda>c. c \<noteq> newline) s) else None)"

text \<open>A file is absent, not a regular file, or has a content; \<open>journal\<close> says that its name ends in \<open>.jsonl\<close>.\<close>

datatype probedFile = NoFile | NotRegular | RegularFile string

definition probeRevision :: "bool \<Rightarrow> probedFile \<Rightarrow> int option" where
  "probeRevision journal f =
     (case f of
        NoFile \<Rightarrow> None
      | NotRegular \<Rightarrow> None
      | RegularFile content \<Rightarrow>
          if journal then (case firstLine content of None \<Rightarrow> None
             | Some line \<Rightarrow> (case parse line of None \<Rightarrow> None | Some v \<Rightarrow> revisionOf v))
          else if int (length content) > MAX_PROBE_BYTES then None
          else (case parse content of None \<Rightarrow> None | Some v \<Rightarrow> revisionOf v))"

subsection \<open>Probing the store\<close>

record Store =
  storeFiles :: "(StorePath \<times> int option) list"     \<comment> \<open>persisted files and the revisions they declare\<close>
  storeOthers :: "StorePath list"                    \<comment> \<open>sessions, worktrees, snapshot trees, run directories\<close>
  storeQuarantine :: "(int \<times> string) list"          \<comment> \<open>what is in the quarantine: revision and relative path\<close>

text \<open>The run or attempt a probed file belongs to.\<close>

fun runOf :: "StorePath \<Rightarrow> string option" where
  "runOf (RunRecordFile r) = Some r"
| "runOf (LeaseFile r) = Some r"
| "runOf (JournalFile r) = Some r"
| "runOf (RunSnapshotFile r) = Some r"
| "runOf (AttemptRecordFile r a) = Some r"
| "runOf _ = None"

fun attemptScoped :: "StorePath \<Rightarrow> string option" where
  "attemptScoped (WorktreeRecordFile a) = Some a"
| "attemptScoped (SnapshotRecordFile a) = Some a"
| "attemptScoped _ = None"

fun looseFile :: "StorePath \<Rightarrow> bool" where
  "looseFile (OperationFile k) = True"
| "looseFile (PinFile k) = True"
| "looseFile _ = False"

definition probed :: "Store \<Rightarrow> (StorePath \<times> int) list" where
  "probed s = concat (map (\<lambda>(p, r). case r of None \<Rightarrow> [] | Some n \<Rightarrow> [(p, n)])
     (filter (\<lambda>(p, _). runOf p \<noteq> None \<or> attemptScoped p \<noteq> None \<or> looseFile p) (storeFiles s)))"

text \<open>A \<open>Map\<close> from ids to the least revision found under the id.\<close>

definition leastRevision :: "(StorePath \<Rightarrow> string option) \<Rightarrow> (StorePath \<times> int) list \<Rightarrow> string \<Rightarrow> int option" where
  "leastRevision scope fs k =
     (let rs = map snd (filter (\<lambda>(p, n). scope p = Some k) fs) in
      if rs = [] then None else Some (Min (set rs)))"

definition scopedIds :: "(StorePath \<Rightarrow> string option) \<Rightarrow> (StorePath \<times> int) list \<Rightarrow> string list" where
  "scopedIds scope fs = unique (concat (map (\<lambda>(p, n). case scope p of None \<Rightarrow> [] | Some k \<Rightarrow> [k]) fs))"

definition newestRevision :: "(StorePath \<times> int) list \<Rightarrow> int" where
  "newestRevision fs = fold (\<lambda>(p, n) m. max m n) fs CONTRACT_REVISION"

definition attemptIdsOf :: "Store \<Rightarrow> string \<Rightarrow> string list" where
  "attemptIdsOf s runId = concat (map (\<lambda>(p, _). case p of
     AttemptRecordFile r a \<Rightarrow> (if r = runId then [a] else []) | _ \<Rightarrow> []) (storeFiles s))"

subsection \<open>The moves\<close>

text \<open>\<open>add\<close>: an entry is moved once, under the least revision that claims it.\<close>

definition addMove :: "StorePath \<Rightarrow> int \<Rightarrow> (StorePath \<times> int) list \<Rightarrow> (StorePath \<times> int) list" where
  "addMove p n ms =
     (case map_of ms p of
        None \<Rightarrow> ms @ [(p, n)]
      | Some m \<Rightarrow> if n < m then map (\<lambda>e. if fst e = p then (p, n) else e) ms else ms)"

definition setAttempt :: "string \<Rightarrow> int \<Rightarrow> (string \<times> int) list \<Rightarrow> (string \<times> int) list" where
  "setAttempt a n m = (if a \<in> fst ` set m then map (\<lambda>e. if fst e = a then (a, n) else e) m else m @ [(a, n)])"

definition staleRuns :: "Store \<Rightarrow> (string \<times> int) list" where
  "staleRuns s = concat (map (\<lambda>r. case leastRevision runOf (probed s) r of
       None \<Rightarrow> [] | Some n \<Rightarrow> if n < CONTRACT_REVISION then [(r, n)] else []) (scopedIds runOf (probed s)))"

definition staleAttempts :: "Store \<Rightarrow> (string \<times> int) list" where
  "staleAttempts s =
     fold (\<lambda>(r, n) m. fold (\<lambda>a m. setAttempt a n m) (attemptIdsOf s r) m) (staleRuns s)
       (concat (map (\<lambda>a. case leastRevision attemptScoped (probed s) a of
          None \<Rightarrow> [] | Some n \<Rightarrow> if n < CONTRACT_REVISION then [(a, n)] else []) (scopedIds attemptScoped (probed s))))"

definition runEntries :: "string \<Rightarrow> StorePath list" where
  "runEntries r = [RunRecordFile r, LeaseFile r, RunDir r, AttemptRecordsDir r]"

definition attemptEntries :: "string \<Rightarrow> StorePath list" where
  "attemptEntries a = [SessionDir a, WorktreeRecordFile a, WorktreeDir a, SnapshotRecordFile a, SnapshotTree a]"

definition plannedMoves :: "Store \<Rightarrow> (StorePath \<times> int) list" where
  "plannedMoves s =
     fold (\<lambda>(p, n) ms. addMove p n ms)
       (concat (map (\<lambda>(r, n). map (\<lambda>p. (p, n)) (runEntries r)) (staleRuns s))
        @ concat (map (\<lambda>(a, n). map (\<lambda>p. (p, n)) (attemptEntries a)) (staleAttempts s))
        @ filter (\<lambda>(p, n). looseFile p \<and> n < CONTRACT_REVISION) (probed s)) []"

definition inStore :: "StorePath \<Rightarrow> Store \<Rightarrow> bool" where
  "inStore p s = (p \<in> set (map fst (storeFiles s)) \<or> p \<in> set (storeOthers s))"

text \<open>\<open>destination\<close>: the relative path, or the first of its numbered variants that is free.\<close>

fun freeName :: "nat \<Rightarrow> nat \<Rightarrow> (int \<times> string) list \<Rightarrow> int \<Rightarrow> string \<Rightarrow> string res" where
  "freeName 0 k q n base = Inl (Err ''quarantine destination is exhausted'')"
| "freeName (Suc fuel) k q n base =
     (let candidate = base @ ''.'' @ showNat k in
      if (n, candidate) \<notin> set q then Inr candidate else freeName fuel (Suc k) q n base)"

definition destination :: "(int \<times> string) list \<Rightarrow> int \<Rightarrow> StorePath \<Rightarrow> string res" where
  "destination q n p =
     (if (n, relativePath p) \<notin> set q then Inr (relativePath p) else freeName 998 2 q n (relativePath p))"

text \<open>Renaming an entry takes it and what it contains out of the store.\<close>

definition takeOut :: "StorePath \<Rightarrow> Store \<Rightarrow> Store" where
  "takeOut p s = s\<lparr>storeFiles := filter (\<lambda>(q, _). q \<noteq> p \<and> container q \<noteq> Some p) (storeFiles s),
     storeOthers := filter (\<lambda>q. q \<noteq> p \<and> container q \<noteq> Some p) (storeOthers s)\<rparr>"

fun performMoves :: "(StorePath \<times> int) list \<Rightarrow> Store \<Rightarrow> (StorePath \<times> int) list res \<times> Store" where
  "performMoves [] s = (Inr [], s)"
| "performMoves ((p, n) # ms) s =
     (if \<not> inStore p s then performMoves ms s
      else (case destination (storeQuarantine s) n p of
              Inl e \<Rightarrow> (Inl e, s)
            | Inr target \<Rightarrow>
                (let s' = takeOut p s in
                 case performMoves ms (s'\<lparr>storeQuarantine := storeQuarantine s @ [(n, target)]\<rparr>) of
                   (Inl e, s'') \<Rightarrow> (Inl e, s'')
                 | (Inr moved, s'') \<Rightarrow> (Inr ((p, n) # moved), s''))))"

record StoreQuarantine =
  quarantineRevisions :: "int list"
  quarantineEntries :: "string list"

definition quarantineStaleState :: "Store \<Rightarrow> StoreQuarantine option res \<times> Store" where
  "quarantineStaleState s =
     (if newestRevision (probed s) > CONTRACT_REVISION
      then (Inl (IncompatibleRevision (newestRevision (probed s))), s)
      else (case performMoves (sort_key (\<lambda>m. relativePath (fst m)) (plannedMoves s)) s of
              (Inl e, s') \<Rightarrow> (Inl e, s')
            | (Inr moved, s') \<Rightarrow>
                (Inr (if moved = [] then None
                   else Some \<lparr>quarantineRevisions = sort (unique (map snd moved)),
                              quarantineEntries = map (relativePath \<circ> fst) moved\<rparr>), s')))"

text \<open>\<open>describeQuarantine\<close>, the notice.\<close>

definition describeQuarantine :: "StoreQuarantine \<Rightarrow> string" where
  "describeQuarantine q =
     (let count = int (length (quarantineEntries q)) in
      ''pi-subagent quarantined '' @ showInt count @ '' persisted '' @ (if count = 1 then ''entry'' else ''entries'')
      @ '' from contract revision '' @ joinWith '' and '' (map showInt (quarantineRevisions q))
      @ '' into the subagent store's ''
      @ (case quarantineRevisions q of [r] \<Rightarrow> ''quarantine/'' @ showInt r | _ \<Rightarrow> ''quarantine'')
      @ '' directory: this build writes revision '' @ showInt CONTRACT_REVISION
      @ '' and does not read earlier state. Those runs are no longer listed; the service started with the remaining history.'')"

subsection \<open>What the gate leaves\<close>

definition scoped :: "StorePath \<Rightarrow> bool" where
  "scoped p = (runOf p \<noteq> None \<or> attemptScoped p \<noteq> None \<or> looseFile p)"

text \<open>The directory of a file in the store is there, and the quarantine holds a name once.\<close>

definition storeWf :: "Store \<Rightarrow> bool" where
  "storeWf s = ((\<forall>(p, _) \<in> set (storeFiles s). scoped p \<and> (\<forall>c. container p = Some c \<longrightarrow> c \<in> set (storeOthers s)))
     \<and> distinct (storeQuarantine s))"

text \<open>
  An id is old when a file of it declares an older revision; a file is doomed when its run is old, when
  it belongs to an old attempt or to an attempt of an old run, or when it stands alone and is old.
\<close>

definition oldId :: "(StorePath \<Rightarrow> string option) \<Rightarrow> Store \<Rightarrow> string \<Rightarrow> bool" where
  "oldId scope s k = (\<exists>(p, n) \<in> set (probed s). scope p = Some k \<and> n < CONTRACT_REVISION)"

definition doomed :: "Store \<Rightarrow> StorePath \<Rightarrow> bool" where
  "doomed s p =
     ((\<exists>r. runOf p = Some r \<and> oldId runOf s r)
      \<or> (\<exists>a. attemptScoped p = Some a \<and> (oldId attemptScoped s a \<or> (\<exists>r. oldId runOf s r \<and> a \<in> set (attemptIdsOf s r))))
      \<or> looseFile p \<and> (\<exists>n. (p, n) \<in> set (probed s) \<and> n < CONTRACT_REVISION))"

lemma probed_iff: "(p, n) \<in> set (probed s) \<longleftrightarrow> (p, Some n) \<in> set (storeFiles s) \<and> scoped p"
  by (auto simp: probed_def scoped_def split: option.splits)

lemma leastRevision_old:
  "(\<exists>n. leastRevision scope fs k = Some n \<and> n < c) \<longleftrightarrow> (\<exists>(p, n) \<in> set fs. scope p = Some k \<and> n < c)"
proof -
  let ?rs = "map snd (filter (\<lambda>(p, n). scope p = Some k) fs)"
  have "(\<exists>n. leastRevision scope fs k = Some n \<and> n < c) \<longleftrightarrow> ?rs \<noteq> [] \<and> Min (set ?rs) < c"
    by (simp add: leastRevision_def Let_def)
  also have "\<dots> \<longleftrightarrow> (\<exists>n \<in> set ?rs. n < c)"
  proof (cases "?rs = []")
    case True
    then show ?thesis by simp
  next
    case False
    then have "set ?rs \<noteq> {}" by (simp only: set_empty not_False_eq_True)
    then show ?thesis using False Min_less_iff [OF finite_set, of ?rs c] by simp
  qed
  finally show ?thesis by force
qed

lemma scopedIds_set: "set (scopedIds scope fs) = {k. \<exists>(p, n) \<in> set fs. scope p = Some k}"
  by (force simp: scopedIds_def split: option.splits)

text \<open>The keys of a list of pairs.\<close>

definition keys :: "('k \<times> 'v) list \<Rightarrow> 'k set" where
  "keys m = fst ` set m"

lemma keys_simps [simp]: "keys [] = {}" "keys ((k, v) # m) = insert k (keys m)" "keys (m @ m') = keys m \<union> keys m'"
  by (auto simp: keys_def)

lemma staleRuns_ids: "keys (staleRuns s) = {r. oldId runOf s r}"
proof -
  have "r \<in> keys (staleRuns s)
      \<longleftrightarrow> r \<in> set (scopedIds runOf (probed s)) \<and> (\<exists>n. leastRevision runOf (probed s) r = Some n \<and> n < CONTRACT_REVISION)" for r
    by (force simp: keys_def staleRuns_def split: option.splits)
  then show ?thesis unfolding leastRevision_old scopedIds_set oldId_def by blast
qed

lemma replaced_keys: "p \<in> keys ms \<Longrightarrow> keys (map (\<lambda>e. if fst e = p then (p, n) else e) ms) = keys ms"
  by (induction ms) (auto simp: keys_def image_iff)

lemma setAttempt_ids: "keys (setAttempt a n m) = insert a (keys m)"
  using replaced_keys [of a m n] by (auto simp: setAttempt_def keys_def [symmetric])

lemma setAttempts_ids: "keys (fold (\<lambda>a m. setAttempt a n m) as m) = set as \<union> keys m"
  by (induction as arbitrary: m) (simp_all add: setAttempt_ids)

lemma setRuns_ids:
  "keys (fold (\<lambda>(r, n) m. fold (\<lambda>a m. setAttempt a n m) (f r) m) rs m) = (\<Union>r \<in> keys rs. set (f r)) \<union> keys m"
  by (induction rs arbitrary: m) (auto simp: setAttempts_ids)

lemma staleAttempts_ids:
  "keys (staleAttempts s) = {a. oldId attemptScoped s a \<or> (\<exists>r. oldId runOf s r \<and> a \<in> set (attemptIdsOf s r))}"
proof -
  let ?own = "concat (map (\<lambda>a. case leastRevision attemptScoped (probed s) a of
          None \<Rightarrow> [] | Some n \<Rightarrow> if n < CONTRACT_REVISION then [(a, n)] else []) (scopedIds attemptScoped (probed s)))"
  have "a \<in> keys ?own
      \<longleftrightarrow> a \<in> set (scopedIds attemptScoped (probed s))
        \<and> (\<exists>n. leastRevision attemptScoped (probed s) a = Some n \<and> n < CONTRACT_REVISION)" for a
    by (force simp: keys_def split: option.splits)
  then have "keys ?own = {a. oldId attemptScoped s a}"
    unfolding leastRevision_old scopedIds_set oldId_def by blast
  then show ?thesis
    unfolding staleAttempts_def setRuns_ids staleRuns_ids by blast
qed

lemma map_of_keys: "map_of ms p \<noteq> None \<longleftrightarrow> p \<in> keys ms"
  by (simp add: keys_def map_of_eq_None_iff)

lemma addMove_paths: "keys (addMove p n ms) = insert p (keys ms)"
proof (cases "map_of ms p")
  case None
  then show ?thesis by (simp add: addMove_def)
next
  case (Some m)
  then have "p \<in> keys ms" unfolding map_of_keys [symmetric] by simp
  then show ?thesis using Some replaced_keys [of p ms n] by (simp add: addMove_def insert_absorb)
qed

lemma addMoves_paths: "keys (fold (\<lambda>(p, n) ms. addMove p n ms) adds ms) = keys adds \<union> keys ms"
  by (induction adds arbitrary: ms) (auto simp: addMove_paths)

lemma keys_tagged: "keys (map (\<lambda>p. (p, n)) ps) = set ps"
  by (induction ps) simp_all

lemma keys_products: "keys (concat (map (\<lambda>(r, n). map (\<lambda>p. (p, n)) (f r)) rs)) = (\<Union>r \<in> keys rs. set (f r))"
  by (induction rs) (auto simp: keys_tagged)

lemma plannedMoves_paths:
  "keys (plannedMoves s) =
     (\<Union>r \<in> {r. oldId runOf s r}. set (runEntries r))
     \<union> (\<Union>a \<in> keys (staleAttempts s). set (attemptEntries a))
     \<union> {p. looseFile p \<and> (\<exists>n. (p, n) \<in> set (probed s) \<and> n < CONTRACT_REVISION)}"
proof -
  have "keys (filter (\<lambda>(p, n). looseFile p \<and> n < CONTRACT_REVISION) (probed s))
      = {p. looseFile p \<and> (\<exists>n. (p, n) \<in> set (probed s) \<and> n < CONTRACT_REVISION)}"
    by (force simp: keys_def)
  then show ?thesis
    unfolding plannedMoves_def addMoves_paths keys_simps keys_products staleRuns_ids by blast
qed

text \<open>The planned moves take out exactly the doomed files.\<close>

lemma doomed_planned:
  assumes "scoped p"
  shows "doomed s p \<longleftrightarrow> p \<in> keys (plannedMoves s) \<or> (\<exists>c. container p = Some c \<and> c \<in> keys (plannedMoves s))"
  using assms unfolding plannedMoves_paths doomed_def staleAttempts_ids
  by (cases p) (auto simp: scoped_def runEntries_def attemptEntries_def)

subsection \<open>Performing the moves\<close>

lemma freeName_free: "freeName fuel k q n base = Inr t \<Longrightarrow> (n, t) \<notin> set q \<and> (\<exists>e. t = base @ e)"
  by (induction fuel arbitrary: k) (auto simp: Let_def split: if_splits)

lemma destination_free: "destination q n p = Inr t \<Longrightarrow> (n, t) \<notin> set q \<and> (\<exists>e. t = relativePath p @ e)"
  by (auto simp: destination_def dest: freeName_free split: if_splits)

lemma container_flat: "container p = Some c \<Longrightarrow> container c = None"
  by (cases p) auto

lemma takeOut_wf: "storeWf s \<Longrightarrow> storeWf (takeOut p s)"
  by (fastforce simp: storeWf_def takeOut_def dest: container_flat)

lemma performMoves_ok:
  assumes "performMoves ms s = (Inr moved, s')" and "storeWf s"
  shows "storeFiles s' = filter (\<lambda>(q, _). q \<notin> keys ms \<and> (\<forall>c. container q = Some c \<longrightarrow> c \<notin> keys ms)) (storeFiles s)
    \<and> distinct (storeQuarantine s') \<and> set (storeQuarantine s) \<subseteq> set (storeQuarantine s')
    \<and> set moved = {m \<in> set moved. inStore (fst m) s} \<and> set moved \<subseteq> set ms
    \<and> (\<forall>p n. (p, n) \<in> set moved \<longrightarrow> (\<exists>e. (n, relativePath p @ e) \<in> set (storeQuarantine s')))
    \<and> (\<forall>p \<in> keys ms. inStore p s \<longrightarrow> p \<in> keys moved \<or> (\<exists>c \<in> keys moved. container p = Some c))"
  using assms
proof (induction ms arbitrary: s moved)
  case Nil
  then show ?case by (auto simp: storeWf_def)
next
  case (Cons m ms)
  obtain p n where m: "m = (p, n)" by (cases m)
  show ?case
  proof (cases "inStore p s")
    case False
    then have "performMoves ms s = (Inr moved, s')" using Cons.prems(1) m by simp
    note IH = Cons.IH [OF this Cons.prems(2)]
    have not_in: "q \<noteq> p \<and> container q \<noteq> Some p" if "(q, r) \<in> set (storeFiles s)" for q r
      using that False Cons.prems(2) by (force simp: inStore_def storeWf_def)
    have "filter (\<lambda>(q, _). q \<notin> keys ms \<and> (\<forall>c. container q = Some c \<longrightarrow> c \<notin> keys ms)) (storeFiles s)
        = filter (\<lambda>(q, _). q \<notin> keys (m # ms) \<and> (\<forall>c. container q = Some c \<longrightarrow> c \<notin> keys (m # ms))) (storeFiles s)"
      using not_in unfolding m keys_simps by (intro filter_cong) auto
    then show ?thesis using IH False m by auto
  next
    case True
    let ?s1 = "takeOut p s"
    obtain target moved1 where t: "destination (storeQuarantine s) n p = Inr target"
      "performMoves ms (?s1\<lparr>storeQuarantine := storeQuarantine s @ [(n, target)]\<rparr>) = (Inr moved1, s')"
      "moved = (p, n) # moved1"
      using Cons.prems(1) m True by (auto simp: Let_def split: sum.splits prod.splits)
    have free: "(n, target) \<notin> set (storeQuarantine s)" "\<exists>e. target = relativePath p @ e"
      using destination_free [OF t(1)] by auto
    have "storeWf (?s1\<lparr>storeQuarantine := storeQuarantine s @ [(n, target)]\<rparr>)"
      using takeOut_wf [OF Cons.prems(2), of p] Cons.prems(2) free(1) by (simp add: storeWf_def)
    note IH = Cons.IH [OF t(2) this]
    have sub: "inStore q s" if "inStore q (?s1\<lparr>storeQuarantine := x\<rparr>)" for q x
      using that by (auto simp: inStore_def takeOut_def)
    have gone: "inStore q ?s1 \<or> q = p \<or> container q = Some p" if "inStore q s" for q
      using that by (force simp: inStore_def takeOut_def)
    have up: "inStore q (?s1\<lparr>storeQuarantine := x\<rparr>) \<longleftrightarrow> inStore q ?s1" for q x by (simp add: inStore_def)
    have "storeFiles s' = filter (\<lambda>(q, _). q \<notin> keys (m # ms) \<and> (\<forall>c. container q = Some c \<longrightarrow> c \<notin> keys (m # ms))) (storeFiles s)"
      using IH m by (auto simp: takeOut_def intro!: filter_cong)
    moreover have "\<exists>e. (n', relativePath p' @ e) \<in> set (storeQuarantine s')" if "(p', n') \<in> set moved" for p' n'
      using that IH t(3) free(2) by auto
    moreover have "q \<in> keys moved \<or> (\<exists>c \<in> keys moved. container q = Some c)"
      if "q \<in> keys (m # ms)" "inStore q s" for q
      using that gone [OF that(2)] IH t(3) m unfolding up by auto
    moreover have "set moved = {m \<in> set moved. inStore (fst m) s}" using IH t(3) True sub by auto
    ultimately show ?thesis using IH t(3) m by auto
  qed
qed

lemma newest_fold:
  fixes fs :: "(StorePath \<times> int) list" and c :: int
  shows "\<forall>(p, n) \<in> set fs. n \<le> fold (\<lambda>(p, n) m. max m n) fs c"
proof -
  have mono: "c \<le> fold (\<lambda>(p, n) m. max m n) fs c" for c :: int and fs :: "(StorePath \<times> int) list"
    by (induction fs arbitrary: c) (auto, metis max.bounded_iff)
  show ?thesis
  proof (induction fs arbitrary: c)
    case Nil
    then show ?case by simp
  next
    case (Cons x fs)
    obtain p n where "x = (p, n)" by (cases x)
    then show ?case using Cons [of "max c n"] mono [of "max c n" fs] by auto
  qed
qed


text \<open>A run of revision 12 with its journal, a run of this revision and a record the gate cannot read.\<close>

definition demoStore :: Store where
  "demoStore = \<lparr>storeFiles = [(RunRecordFile ''old'', Some 12), (JournalFile ''old'', None),
       (RunRecordFile ''new'', Some 13), (OperationFile ''k'', None)],
     storeOthers = [RunDir ''old''], storeQuarantine = [(12, ''runs/old'')]\<rparr>"


end
