(* ===== verification/Checkpoints.thy ===== *)
theory Checkpoints
  imports Canonical Files
begin

section \<open>Warm checkpoints (\<open>src/sandbox/checkpoints.ts\<close>)\<close>

text \<open>
  Disk images of warmed-up sandboxes on the host, one per key. A lock or a lease is a file that names
  the process that owns it, and counts while that process lives; of such a file the model keeps the
  process id that \<open>readOwner\<close> finds in it, if any. Operations that the code runs to the end
  without waiting for another process are functions of the store; how they interleave with those of
  other processes is the subject of theory \<open>CheckpointRaces\<close>.
\<close>

definition WARM_CHECKPOINT_SCHEMA :: string where
  "WARM_CHECKPOINT_SCHEMA = ''pi-subagent-warm-checkpoint/1''"

definition DEFAULT_CHECKPOINT_STORE_BYTES :: int where
  "DEFAULT_CHECKPOINT_STORE_BYTES = 20 * 1024 * 1024 * 1024"

definition WARMUP_FAILURE_RETRY_MS :: int where "WARMUP_FAILURE_RETRY_MS = 60 * 60000"
definition MAX_LOCKFILE_BYTES :: int where "MAX_LOCKFILE_BYTES = 64 * 1024 * 1024"
definition MAX_MANIFEST_BYTES :: int where "MAX_MANIFEST_BYTES = 1024 * 1024"

datatype WarmupFailureCode =
  BootFailed | BindFailed | InstallFailed | WarmupTimeout | CheckpointFailed | ResumeFailed

subsection \<open>Keys\<close>

record WarmCheckpointInputs =
  wiLockfile :: string
  wiWorkspaces :: jsval
  wiDependencies :: "string list"
  wiAssetBuildId :: string
  wiGondolin :: string
  wiRootfsPolicy :: string
  wiCacheHome :: string

definition inputsJs :: "WarmCheckpointInputs \<Rightarrow> jsval" where
  "inputsJs i = VObj [
     (''schema'', VStr WARM_CHECKPOINT_SCHEMA), (''installCommand'', VStr ''npm ci''),
     (''lockfileSha256'', VStr (wiLockfile i)), (''workspaces'', wiWorkspaces i),
     (''dependencies'', VArr (map VStr (wiDependencies i))), (''guestAssetBuildId'', VStr (wiAssetBuildId i)),
     (''gondolinVersion'', VStr (wiGondolin i)), (''rootfsPolicySha256'', VStr (wiRootfsPolicy i)),
     (''guestCacheHome'', VStr (wiCacheHome i))]"

definition warmCheckpointKey :: "(string \<Rightarrow> string) \<Rightarrow> WarmCheckpointInputs \<Rightarrow> string res" where
  "warmCheckpointKey sha i = canonicalSha256 sha (inputsJs i)"

subsection \<open>The project of a workspace\<close>

text \<open>What \<open>lstat\<close> and \<open>readFile\<close> find under a name: \<open>HostUnreadable\<close> is a regular file whose content cannot be read.\<close>

datatype hostFile = HostAbsent | HostOther | HostFile string | HostUnreadable int

datatype WarmProject = NpmProject string json | SkipProject string

definition regularFile :: "hostFile \<Rightarrow> int \<Rightarrow> bool" where
  "regularFile f maxBytes =
     (case f of HostFile c \<Rightarrow> int (length c) \<le> maxBytes | HostUnreadable n \<Rightarrow> n \<le> maxBytes | _ \<Rightarrow> False)"

definition OTHER_LOCKFILES :: "string list" where
  "OTHER_LOCKFILES = [''pnpm-lock.yaml'', ''yarn.lock'', ''bun.lockb'', ''bun.lock'']"

definition manifestWorkspaces :: "hostFile \<Rightarrow> json option" where
  "manifestWorkspaces manifest =
     (if \<not> regularFile manifest MAX_MANIFEST_BYTES then Some JNull
      else (case manifest of
        HostFile c \<Rightarrow> (case parse c of None \<Rightarrow> None
           | Some v \<Rightarrow> Some (case jget v ''workspaces'' of None \<Rightarrow> JNull | Some w \<Rightarrow> w))
      | _ \<Rightarrow> None))"

definition detectWarmProject :: "(string \<Rightarrow> string) \<Rightarrow> (string \<Rightarrow> hostFile) \<Rightarrow> WarmProject" where
  "detectWarmProject sha workspace =
     (let lockfile = workspace ''package-lock.json'' in
      if \<not> regularFile lockfile MAX_LOCKFILE_BYTES
      then (if \<exists>other \<in> set OTHER_LOCKFILES. regularFile (workspace other) MAX_LOCKFILE_BYTES
            then SkipProject ''unsupported-lockfile'' else SkipProject ''no-lockfile'')
      else (case lockfile of
        HostFile c \<Rightarrow> (case manifestWorkspaces (workspace ''package.json'') of
            None \<Rightarrow> SkipProject ''unreadable-lockfile''
          | Some ws \<Rightarrow> NpmProject (sha c) ws)
      | _ \<Rightarrow> SkipProject ''unreadable-lockfile''))"

subsection \<open>The store\<close>

type_synonym OwnerFile = "int option"

record CheckpointSidecar =
  csSchema :: string
  csKey :: string
  csInputs :: WarmCheckpointInputs
  csCreatedAt :: int
  csSizeBytes :: int

record CheckpointStore =
  ckFiles :: "(string \<times> int) list"                                    \<comment> \<open>key and size of each image\<close>
  ckSidecars :: "string \<Rightarrow> (CheckpointSidecar option \<times> int) option"  \<comment> \<open>what it parses to, and its time\<close>
  ckLocks :: "string \<Rightarrow> OwnerFile option"
  ckLeases :: "string \<Rightarrow> (string \<times> OwnerFile) list"
  ckFailures :: "string \<Rightarrow> (WarmupFailureCode \<times> int) option"
  ckTemps :: "(string \<times> int \<times> int) list"                             \<comment> \<open>name, size and time\<close>

record CheckpointEnv =
  ceAlive :: "int \<Rightarrow> bool"
  ceNow :: int

definition checkpointStore :: "int option \<Rightarrow> int res" where
  "checkpointStore maxBytes =
     (let n = (case maxBytes of None \<Rightarrow> DEFAULT_CHECKPOINT_STORE_BYTES | Some n \<Rightarrow> n) in
      if \<not> safeInteger n \<or> n < 0 then Inl (Err ''checkpoint store bound must be a non-negative integer'')
      else Inr n)"

definition ownedAlive :: "CheckpointEnv \<Rightarrow> OwnerFile \<Rightarrow> bool" where
  "ownedAlive env owner = (case owner of None \<Rightarrow> False | Some pid \<Rightarrow> ceAlive env pid)"

text \<open>A key is the digest of its inputs; any other name is refused.\<close>

definition fileOfKey :: "string \<Rightarrow> unit res" where
  "fileOfKey key = (if checkSha256 key then Inr () else Inl (Err ''invalid checkpoint key''))"

definition readSidecar :: "string \<Rightarrow> CheckpointStore \<Rightarrow> CheckpointSidecar option" where
  "readSidecar key s =
     (if \<not> isOk (fileOfKey key) then None
      else (case ckSidecars s key of
        Some (Some v, _) \<Rightarrow> (if csSchema v = WARM_CHECKPOINT_SCHEMA \<and> csKey v = key then Some v else None)
      | _ \<Rightarrow> None))"

definition failedRecently :: "CheckpointEnv \<Rightarrow> int \<Rightarrow> string \<Rightarrow> CheckpointStore \<Rightarrow> bool" where
  "failedRecently env retryMs key s =
     (isOk (fileOfKey key) \<and> (case ckFailures s key of None \<Rightarrow> False | Some (_, t) \<Rightarrow> ceNow env - t < retryMs))"

definition recordFailure :: "CheckpointEnv \<Rightarrow> string \<Rightarrow> WarmupFailureCode \<Rightarrow> CheckpointStore \<Rightarrow> unit res \<times> CheckpointStore" where
  "recordFailure env key code s =
     (case fileOfKey key of
        Inl e \<Rightarrow> (Inl e, s)
      | Inr _ \<Rightarrow> (Inr (), s\<lparr>ckFailures := (ckFailures s)(key \<mapsto> (code, ceNow env))\<rparr>))"

text \<open>Two rounds, as a lock whose owner is gone is removed once.\<close>

fun tryLockRounds :: "nat \<Rightarrow> CheckpointEnv \<Rightarrow> int \<Rightarrow> string \<Rightarrow> CheckpointStore \<Rightarrow> bool \<times> CheckpointStore" where
  "tryLockRounds 0 env pid key s = (False, s)"
| "tryLockRounds (Suc n) env pid key s =
     (case ckLocks s key of
        None \<Rightarrow> (True, s\<lparr>ckLocks := (ckLocks s)(key \<mapsto> Some pid)\<rparr>)
      | Some owner \<Rightarrow>
          if ownedAlive env owner then (False, s)
          else tryLockRounds n env pid key (s\<lparr>ckLocks := (ckLocks s)(key := None)\<rparr>))"

definition tryLock :: "CheckpointEnv \<Rightarrow> int \<Rightarrow> string \<Rightarrow> CheckpointStore \<Rightarrow> bool res \<times> CheckpointStore" where
  "tryLock env pid key s =
     (case fileOfKey key of
        Inl e \<Rightarrow> (Inl e, s)
      | Inr _ \<Rightarrow> (case tryLockRounds 2 env pid key s of (got, s) \<Rightarrow> (Inr got, s)))"

definition releaseLock :: "string \<Rightarrow> CheckpointStore \<Rightarrow> CheckpointStore" where
  "releaseLock key s = s\<lparr>ckLocks := (ckLocks s)(key := None)\<rparr>"

definition locked :: "CheckpointEnv \<Rightarrow> string \<Rightarrow> CheckpointStore \<Rightarrow> bool" where
  "locked env key s = (case ckLocks s key of None \<Rightarrow> False | Some owner \<Rightarrow> ownedAlive env owner)"

text \<open>Lease files of processes that are gone are removed in passing.\<close>

definition leased :: "CheckpointEnv \<Rightarrow> string \<Rightarrow> CheckpointStore \<Rightarrow> bool \<times> CheckpointStore" where
  "leased env key s =
     (list_ex (\<lambda>(_, owner). ownedAlive env owner) (ckLeases s key),
      s\<lparr>ckLeases := (ckLeases s)(key :=
          filter (\<lambda>(name, owner). ownedAlive env owner \<or> \<not> endsWith name ''.json'') (ckLeases s key))\<rparr>)"

definition dropLease :: "string \<Rightarrow> string \<Rightarrow> CheckpointStore \<Rightarrow> CheckpointStore" where
  "dropLease key name s =
     s\<lparr>ckLeases := (ckLeases s)(key := filter (\<lambda>l. fst l \<noteq> name) (ckLeases s key))\<rparr>"

text \<open>\<open>name\<close> is the fresh name of the lease file.\<close>

definition leaseCheckpoint ::
  "CheckpointEnv \<Rightarrow> int \<Rightarrow> string \<Rightarrow> string \<Rightarrow> CheckpointStore \<Rightarrow> bool res \<times> CheckpointStore" where
  "leaseCheckpoint env pid name key s =
     (case fileOfKey key of
        Inl e \<Rightarrow> (Inl e, s)
      | Inr _ \<Rightarrow>
          (let s = s\<lparr>ckLeases := (ckLeases s)(key := ckLeases s key @ [(name, Some pid)])\<rparr> in
           if readSidecar key s = None \<or> map_of (ckFiles s) key = None then (Inr False, dropLease key name s)
           else (Inr True, s\<lparr>ckSidecars := (ckSidecars s)(key := map_option (\<lambda>(v, _). (v, ceNow env)) (ckSidecars s key))\<rparr>)))"

definition putFile :: "string \<Rightarrow> int \<Rightarrow> (string \<times> int) list \<Rightarrow> (string \<times> int) list" where
  "putFile key n fs = (if key \<in> fst ` set fs then map (\<lambda>f. if fst f = key then (key, n) else f) fs else fs @ [(key, n)])"

definition publish ::
  "CheckpointEnv \<Rightarrow> string \<Rightarrow> string \<Rightarrow> WarmCheckpointInputs \<Rightarrow> CheckpointStore \<Rightarrow> unit res \<times> CheckpointStore" where
  "publish env key temporary inputs s =
     (case fileOfKey key of
        Inl e \<Rightarrow> (Inl e, s)
      | Inr _ \<Rightarrow>
          (case map_of (ckTemps s) temporary of
             None \<Rightarrow> (Inl Enoent, s)
           | Some (n, _) \<Rightarrow>
               (Inr (), s\<lparr>ckFiles := putFile key n (ckFiles s),
                  ckTemps := filter (\<lambda>t. fst t \<noteq> temporary) (ckTemps s),
                  ckSidecars := (ckSidecars s)(key \<mapsto>
                    (Some \<lparr>csSchema = WARM_CHECKPOINT_SCHEMA, csKey = key, csInputs = inputs,
                           csCreatedAt = ceNow env, csSizeBytes = n\<rparr>, ceNow env)),
                  ckFailures := (ckFailures s)(key := None)\<rparr>)))"

subsection \<open>Waiting for another warm-up\<close>

text \<open>
  \<open>wcStore t n\<close> is the store as the \<open>n\<close>th read of the round that starts \<open>t\<close> milliseconds after the
  call finds it; \<open>wcWake t d\<close> is the moment at which a timer of \<open>d\<close> milliseconds set in that round has
  fired and the next round starts.
\<close>

record WaitContext =
  wcStore :: "rat \<Rightarrow> nat \<Rightarrow> CheckpointStore"
  wcEnv :: "rat \<Rightarrow> CheckpointEnv"
  wcAborted :: "rat \<Rightarrow> string option"
  wcWake :: "rat \<Rightarrow> int \<Rightarrow> rat"
  wcRetryMs :: int
  wcTimeoutMs :: rat

datatype WaitOutcome = WaitReady | WaitFailed | WaitAbandoned | WaitTimeout

text \<open>\<open>None\<close> is a wait that has not ended within the fuel.\<close>

fun waitLoop :: "nat \<Rightarrow> WaitContext \<Rightarrow> string \<Rightarrow> rat \<Rightarrow> rat \<Rightarrow> WaitOutcome res option" where
  "waitLoop 0 c key pollMs t = None"
| "waitLoop (Suc fuel) c key pollMs t =
     (case wcAborted c t of
        Some reason \<Rightarrow> Some (Inl (Aborted reason))
      | None \<Rightarrow>
          if readSidecar key (wcStore c t 0) \<noteq> None then Some (Inr WaitReady)
          else if failedRecently (wcEnv c t) (wcRetryMs c) key (wcStore c t 1) then Some (Inr WaitFailed)
          else if \<not> isOk (fileOfKey key) then Some (Inl (Err ''invalid checkpoint key''))
          else if \<not> locked (wcEnv c t) key (wcStore c t 2)
          then Some (Inr (if readSidecar key (wcStore c t 3) \<noteq> None then WaitReady else WaitAbandoned))
          else if wcTimeoutMs c - t \<le> 0 then Some (Inr WaitTimeout)
          else waitLoop fuel c key (min 2000 (pollMs * 2)) (wcWake c t (timerDelay (min pollMs (wcTimeoutMs c - t)))))"

definition waitFor :: "nat \<Rightarrow> WaitContext \<Rightarrow> string \<Rightarrow> WaitOutcome res option" where
  "waitFor fuel c key = waitLoop fuel c key 500 0"

subsection \<open>Eviction\<close>

definition DAY_MS :: int where "DAY_MS = 24 * 60 * 60000"

definition usedAt :: "CheckpointStore \<Rightarrow> string \<Rightarrow> int" where
  "usedAt s key = (case ckSidecars s key of None \<Rightarrow> 0 | Some (_, t) \<Rightarrow> t)"

text \<open>The images, least recently used first.\<close>

definition candidates :: "CheckpointStore \<Rightarrow> (string \<times> int) list" where
  "candidates s = sort_key (\<lambda>f. usedAt s (fst f)) (filter (\<lambda>f. checkSha256 (fst f)) (ckFiles s))"

definition unlinkSidecar :: "string \<Rightarrow> CheckpointStore \<Rightarrow> CheckpointStore" where
  "unlinkSidecar key s = s\<lparr>ckSidecars := (ckSidecars s)(key := None)\<rparr>"

definition unlinkImage :: "string \<Rightarrow> CheckpointStore \<Rightarrow> CheckpointStore" where
  "unlinkImage key s = s\<lparr>ckFiles := filter (\<lambda>f. fst f \<noteq> key) (ckFiles s)\<rparr>"

fun evictLoop ::
  "CheckpointEnv \<Rightarrow> int \<Rightarrow> (string \<times> int) list \<Rightarrow> int \<Rightarrow> CheckpointStore
     \<Rightarrow> (string \<times> int) list \<times> CheckpointStore" where
  "evictLoop env maxBytes [] bytes s = ([], s)"
| "evictLoop env maxBytes (c # cs) bytes s =
     (if bytes \<le> maxBytes then ([], s)
      else (let (live, s) = leased env (fst c) s in
        if live \<or> locked env (fst c) s then evictLoop env maxBytes cs bytes s
        else (let s = unlinkSidecar (fst c) s; (live, s) = leased env (fst c) s in
          if live then evictLoop env maxBytes cs bytes s
          else (let (gone, s) = evictLoop env maxBytes cs (bytes - snd c) (unlinkImage (fst c) s)
                in (c # gone, s)))))"

text \<open>The result is the list of evicted images; the code returns their number and their bytes.\<close>

definition evictImages :: "CheckpointEnv \<Rightarrow> int \<Rightarrow> CheckpointStore \<Rightarrow> (string \<times> int) list \<times> CheckpointStore" where
  "evictImages env maxBytes s =
     (let s = s\<lparr>ckTemps := filter (\<lambda>(_, _, t). ceNow env - t \<le> DAY_MS) (ckTemps s)\<rparr>;
          cs = candidates s
      in evictLoop env maxBytes cs (\<Sum>c\<leftarrow>cs. snd c) s)"

definition evict :: "CheckpointEnv \<Rightarrow> int \<Rightarrow> CheckpointStore \<Rightarrow> (int \<times> int) \<times> CheckpointStore" where
  "evict env maxBytes s =
     (let (gone, s) = evictImages env maxBytes s in ((int (length gone), \<Sum>c\<leftarrow>gone. snd c), s))"


subsection \<open>What eviction keeps\<close>

definition liveLease :: "CheckpointEnv \<Rightarrow> CheckpointStore \<Rightarrow> string \<Rightarrow> bool" where
  "liveLease env s key = (\<exists>(name, owner) \<in> set (ckLeases s key). ownedAlive env owner)"

definition evictable :: "CheckpointEnv \<Rightarrow> CheckpointStore \<Rightarrow> string \<Rightarrow> bool" where
  "evictable env s key = (\<not> liveLease env s key \<and> \<not> locked env key s)"

lemma leased_live: "fst (leased env key s) = liveLease env s key"
  by (auto simp: leased_def liveLease_def list_ex_iff)

lemma leased_keeps [simp]:
  "ckFiles (snd (leased env key s)) = ckFiles s"
  "ckSidecars (snd (leased env key s)) = ckSidecars s"
  "liveLease env (snd (leased env key s)) k = liveLease env s k"
  "locked env k (snd (leased env key s)) = locked env k s"
  by (auto simp: leased_def liveLease_def locked_def)

lemma unlink_keeps [simp]:
  "liveLease env (unlinkSidecar key s) = liveLease env s"
  "liveLease env (unlinkImage key s) = liveLease env s"
  "locked env k (unlinkSidecar key s) = locked env k s"
  "locked env k (unlinkImage key s) = locked env k s"
  "ckFiles (unlinkSidecar key s) = ckFiles s"
  "ckSidecars (unlinkImage key s) = ckSidecars s"
  by (simp_all add: liveLease_def locked_def unlinkSidecar_def unlinkImage_def fun_eq_iff)

lemma evictable_leased [simp]: "evictable env (snd (leased env key s)) k = evictable env s k"
  by (simp add: evictable_def)

text \<open>One step of the loop: an image that may go goes with its sidecar, any other is passed over.\<close>

lemma evictLoop_Cons:
  "evictLoop env maxBytes (c # cs) bytes s =
     (if bytes \<le> maxBytes then ([], s)
      else if evictable env s (fst c)
      then (let s1 = unlinkImage (fst c) (snd (leased env (fst c) (unlinkSidecar (fst c) (snd (leased env (fst c) s)))));
                (gone, s') = evictLoop env maxBytes cs (bytes - snd c) s1 in (c # gone, s'))
      else evictLoop env maxBytes cs bytes (snd (leased env (fst c) s)))"
  by (auto simp: Let_def evictable_def case_prod_unfold leased_live)

lemma evictLoop_spec:
  assumes "evictLoop env maxBytes cs bytes s = (gone, s')"
  shows "\<exists>xs ys. cs = xs @ ys \<and> gone = filter (\<lambda>c. evictable env s (fst c)) xs
    \<and> (bytes - (\<Sum>c\<leftarrow>gone. snd c) \<le> maxBytes \<or> ys = [])
    \<and> (gone \<noteq> [] \<longrightarrow> maxBytes < bytes - (\<Sum>c\<leftarrow>butlast gone. snd c))
    \<and> ckFiles s' = filter (\<lambda>f. fst f \<notin> fst ` set gone) (ckFiles s)
    \<and> ckSidecars s' = (\<lambda>k. if k \<in> fst ` set gone then None else ckSidecars s k)
    \<and> (\<forall>k. evictable env s' k = evictable env s k)"
  using assms
proof (induction cs arbitrary: bytes s gone s')
  case Nil
  then show ?case by auto
next
  case (Cons c cs)
  consider (fits) "bytes \<le> maxBytes" | (goes) "\<not> bytes \<le> maxBytes" "evictable env s (fst c)"
    | (stays) "\<not> bytes \<le> maxBytes" "\<not> evictable env s (fst c)" by blast
  then show ?case
  proof cases
    case fits
    then have "gone = []" "s' = s" using Cons.prems by simp_all
    then show ?thesis using fits by (intro exI [of _ "[]"] exI [of _ "c # cs"]) auto
  next
    case goes
    let ?s1 = "unlinkImage (fst c) (snd (leased env (fst c) (unlinkSidecar (fst c) (snd (leased env (fst c) s)))))"
    obtain gone1 where g: "evictLoop env maxBytes cs (bytes - snd c) ?s1 = (gone1, s')" "gone = c # gone1"
      using Cons.prems goes unfolding evictLoop_Cons by (auto simp: Let_def split: prod.splits)
    obtain xs ys where IH: "cs = xs @ ys" "gone1 = filter (\<lambda>c. evictable env ?s1 (fst c)) xs"
      "bytes - snd c - (\<Sum>c\<leftarrow>gone1. snd c) \<le> maxBytes \<or> ys = []"
      "gone1 \<noteq> [] \<longrightarrow> maxBytes < bytes - snd c - (\<Sum>c\<leftarrow>butlast gone1. snd c)"
      "ckFiles s' = filter (\<lambda>f. fst f \<notin> fst ` set gone1) (ckFiles ?s1)"
      "ckSidecars s' = (\<lambda>k. if k \<in> fst ` set gone1 then None else ckSidecars ?s1 k)"
      "\<forall>k. evictable env s' k = evictable env ?s1 k"
      using Cons.IH [OF g(1)] by blast
    have ev: "evictable env ?s1 k = evictable env s k" for k by (simp add: evictable_def)
    have "ckFiles s' = filter (\<lambda>f. fst f \<notin> fst ` set gone) (ckFiles s)"
      unfolding IH(5) g(2) by (auto simp: unlinkImage_def intro!: filter_cong)
    moreover have "ckSidecars s' = (\<lambda>k. if k \<in> fst ` set gone then None else ckSidecars s k)"
      unfolding IH(6) g(2) by (auto simp: unlinkSidecar_def fun_eq_iff)
    moreover have "gone = filter (\<lambda>c. evictable env s (fst c)) (c # xs)" using g(2) IH(2) goes(2) ev by simp
    moreover have "bytes - (\<Sum>c\<leftarrow>gone. snd c) \<le> maxBytes \<or> ys = []" using IH(3) g(2) by (simp add: algebra_simps)
    moreover have "maxBytes < bytes - (\<Sum>c\<leftarrow>butlast gone. snd c)"
      using IH(4) g(2) goes(1) by (cases "gone1 = []") (simp_all add: algebra_simps)
    moreover have "c # cs = (c # xs) @ ys" using IH(1) by simp
    ultimately show ?thesis using IH(7) unfolding ev by blast
  next
    case stays
    then have "evictLoop env maxBytes cs bytes (snd (leased env (fst c) s)) = (gone, s')"
      using Cons.prems unfolding evictLoop_Cons by simp
    from Cons.IH [OF this] obtain xs ys where IH: "cs = xs @ ys"
      "gone = filter (\<lambda>c. evictable env s (fst c)) xs"
      "bytes - (\<Sum>c\<leftarrow>gone. snd c) \<le> maxBytes \<or> ys = []"
      "gone \<noteq> [] \<longrightarrow> maxBytes < bytes - (\<Sum>c\<leftarrow>butlast gone. snd c)"
      "ckFiles s' = filter (\<lambda>f. fst f \<notin> fst ` set gone) (ckFiles s)"
      "ckSidecars s' = (\<lambda>k. if k \<in> fst ` set gone then None else ckSidecars s k)"
      "\<forall>k. evictable env s' k = evictable env s k" unfolding evictable_leased leased_keeps by blast
    have "c # cs = (c # xs) @ ys" "gone = filter (\<lambda>c. evictable env s (fst c)) (c # xs)"
      using IH(1,2) stays(2) by simp_all
    then show ?thesis using IH(3-7) by blast
  qed
qed

text \<open>
  Eviction removes the least recently used images and no more than it must. It removes, with their
  sidecars, exactly the images that nobody has leased or locked in an initial part of the images
  ordered by their last use: the store then fits its bound, or every image that is left is leased or
  locked, and before the last image removed it did not fit. Leased and locked images stay with their
  sidecars, and an image that could have been removed and was kept was used no earlier than any
  that was removed.
\<close>

theorem eviction_is_lru:
  assumes "evictImages env maxBytes s = (gone, s')" and "\<forall>f \<in> set (ckFiles s). checkSha256 (fst f)"
  shows "ckFiles s' = filter (\<lambda>f. fst f \<notin> fst ` set gone) (ckFiles s)
    \<and> (\<forall>k. ckSidecars s' k = (if k \<in> fst ` set gone then None else ckSidecars s k))
    \<and> (\<forall>g \<in> set gone. g \<in> set (ckFiles s) \<and> evictable env s (fst g))
    \<and> ((\<Sum>f\<leftarrow>ckFiles s. snd f) - (\<Sum>g\<leftarrow>gone. snd g) \<le> maxBytes \<or> (\<forall>f \<in> set (ckFiles s'). \<not> evictable env s (fst f)))
    \<and> (gone \<noteq> [] \<longrightarrow> maxBytes < (\<Sum>f\<leftarrow>ckFiles s. snd f) - (\<Sum>g\<leftarrow>butlast gone. snd g))
    \<and> (\<forall>f \<in> set (ckFiles s'). evictable env s (fst f) \<longrightarrow> (\<forall>g \<in> set gone. usedAt s (fst g) \<le> usedAt s (fst f)))"
proof -
  let ?s0 = "s\<lparr>ckTemps := filter (\<lambda>(_, _, t). ceNow env - t \<le> DAY_MS) (ckTemps s)\<rparr>"
  let ?used = "\<lambda>f :: string \<times> int. usedAt s (fst f)"
  have ev: "evictable env ?s0 k = evictable env s k" "ckFiles ?s0 = ckFiles s" "ckSidecars ?s0 = ckSidecars s" for k
    by (simp_all add: evictable_def liveLease_def locked_def)
  have cs: "candidates ?s0 = sort_key ?used (ckFiles s)"
    using assms(2) by (simp add: candidates_def usedAt_def filter_True)
  have total: "(\<Sum>f\<leftarrow>sort_key ?used (ckFiles s). snd f) = (\<Sum>f\<leftarrow>ckFiles s. snd f)"
    by (simp flip: sum_mset_sum_list)
  have "evictLoop env maxBytes (sort_key ?used (ckFiles s)) (\<Sum>f\<leftarrow>ckFiles s. snd f) ?s0 = (gone, s')"
    using assms(1) unfolding evictImages_def Let_def cs total .
  from evictLoop_spec [OF this] obtain xs ys where spec:
    "sort_key ?used (ckFiles s) = xs @ ys" "gone = filter (\<lambda>c. evictable env s (fst c)) xs"
    "(\<Sum>f\<leftarrow>ckFiles s. snd f) - (\<Sum>g\<leftarrow>gone. snd g) \<le> maxBytes \<or> ys = []"
    "gone \<noteq> [] \<longrightarrow> maxBytes < (\<Sum>f\<leftarrow>ckFiles s. snd f) - (\<Sum>g\<leftarrow>butlast gone. snd g)"
    "ckFiles s' = filter (\<lambda>f. fst f \<notin> fst ` set gone) (ckFiles s)"
    "ckSidecars s' = (\<lambda>k. if k \<in> fst ` set gone then None else ckSidecars s k)"
    unfolding ev by blast
  have files: "set (ckFiles s) = set xs \<union> set ys" using spec(1) by (metis set_append set_sort)
  have "sorted (map ?used (xs @ ys))" using spec(1) by (metis sorted_sort_key)
  then have order: "?used x \<le> ?used y" if "x \<in> set xs" "y \<in> set ys" for x y
    using that by (auto simp: sorted_append)
  have left: "f \<in> set ys" if "f \<in> set (ckFiles s')" "evictable env s (fst f)" for f
    using that files unfolding spec(5) spec(2) by force
  have "\<forall>f \<in> set (ckFiles s'). evictable env s (fst f) \<longrightarrow> (\<forall>g \<in> set gone. ?used g \<le> ?used f)"
    using left order spec(2) by auto
  moreover have "\<forall>g \<in> set gone. g \<in> set (ckFiles s) \<and> evictable env s (fst g)"
    using files spec(2) by auto
  moreover have "(\<Sum>f\<leftarrow>ckFiles s. snd f) - (\<Sum>g\<leftarrow>gone. snd g) \<le> maxBytes
      \<or> (\<forall>f \<in> set (ckFiles s'). \<not> evictable env s (fst f))"
    using spec(3) left by fastforce
  ultimately show ?thesis using spec(4,5,6) by simp
qed

subsection \<open>Waiting ends\<close>

lemma waitLoop_ends:
  assumes "\<And>t d. t + of_int d \<le> wcWake c t d" and "nat \<lceil>wcTimeoutMs c - t\<rceil> < fuel"
  shows "\<exists>r. waitLoop fuel c key pollMs t = Some r
    \<and> (r = Inr WaitTimeout \<longrightarrow> (\<exists>t'. wcTimeoutMs c \<le> t' \<and> locked (wcEnv c t') key (wcStore c t' 2)
         \<and> readSidecar key (wcStore c t' 0) = None))"
  using assms(2)
proof (induction fuel arbitrary: pollMs t)
  case 0
  then show ?case by simp
next
  case (Suc fuel)
  let ?t' = "wcWake c t (timerDelay (min pollMs (wcTimeoutMs c - t)))"
  have "t + 1 \<le> ?t'"
  proof -
    have "t + 1 \<le> t + of_int (timerDelay (min pollMs (wcTimeoutMs c - t)))"
      using timerDelay_pos by simp
    then show ?thesis using assms(1) order_trans by blast
  qed
  then have "\<lceil>wcTimeoutMs c - ?t'\<rceil> \<le> \<lceil>wcTimeoutMs c - t - 1\<rceil>" by (intro ceiling_mono) simp
  then have later: "nat \<lceil>wcTimeoutMs c - ?t'\<rceil> < fuel" if "\<not> wcTimeoutMs c - t \<le> 0"
    using Suc.prems that by (simp add: ceiling_diff_one [symmetric] del: ceiling_diff_one) linarith
  show ?case
  proof (cases "wcAborted c t")
    case None
    then show ?thesis using Suc.IH [OF later] by (auto simp: not_le)
  qed simp
qed

text \<open>
  Waiting for another warm-up ends. When a timer never fires early, \<open>waitFor\<close> returns after at most
  one round per millisecond of its timeout, whatever other processes do to the store meanwhile; and it
  answers that the time is up only when that much time has passed with no checkpoint published in the
  last round and a live process still holding the lock.
\<close>

theorem wait_for_returns:
  assumes "\<And>t d. t + of_int d \<le> wcWake c t d" and "nat \<lceil>wcTimeoutMs c\<rceil> < fuel"
  shows "\<exists>r. waitFor fuel c key = Some r
    \<and> (r = Inr WaitTimeout \<longrightarrow> (\<exists>t. wcTimeoutMs c \<le> t \<and> locked (wcEnv c t) key (wcStore c t 2)
         \<and> readSidecar key (wcStore c t 0) = None))"
  using waitLoop_ends [where t = 0] assms by (simp add: waitFor_def)

definition emptyCheckpoints :: CheckpointStore where
  "emptyCheckpoints = \<lparr>ckFiles = [], ckSidecars = (\<lambda>_. None), ckLocks = (\<lambda>_. Some (Some 7)), ckLeases = (\<lambda>_. []),
     ckFailures = (\<lambda>_. None), ckTemps = []\<rparr>"

text \<open>A warm-up that never ends: the lock is held all the time.\<close>

definition demoWait :: WaitContext where
  "demoWait = \<lparr>wcStore = (\<lambda>_ _. emptyCheckpoints), wcEnv = (\<lambda>_. \<lparr>ceAlive = (\<lambda>p. p = 7), ceNow = 0\<rparr>), wcAborted = (\<lambda>_. None),
     wcWake = (\<lambda>t d. t + of_int d), wcRetryMs = WARMUP_FAILURE_RETRY_MS, wcTimeoutMs = 700\<rparr>"

definition demoKey :: "char \<Rightarrow> string" where
  "demoKey c = replicate 64 c"

theorem wait_for_returns_witness:
  "\<exists>r. waitFor 701 demoWait (demoKey (CHR ''a'')) = Some r"
  using wait_for_returns [where c = demoWait and fuel = 701 and key = "demoKey (CHR ''a'')"] by (auto simp: demoWait_def)

lemma demoWait_times_out: "waitFor 3 demoWait (demoKey (CHR ''a'')) = Some (Inr WaitTimeout)"
  by code_simp

text \<open>Three images, the oldest leased by a live process.\<close>

definition demoCheckpoints :: CheckpointStore where
  "demoCheckpoints = emptyCheckpoints\<lparr>
     ckFiles := [(demoKey (CHR ''a''), 10), (demoKey (CHR ''b''), 10), (demoKey (CHR ''c''), 10)],
     ckSidecars := [demoKey (CHR ''a'') \<mapsto> (None, 1), demoKey (CHR ''b'') \<mapsto> (None, 3), demoKey (CHR ''c'') \<mapsto> (None, 2)],
     ckLocks := (\<lambda>_. None),
     ckLeases := (\<lambda>k. if k = demoKey (CHR ''a'') then [(''l.json'', Some 7)] else [])\<rparr>"

theorem eviction_is_lru_witness:
  "\<exists>s'. evictImages \<lparr>ceAlive = (\<lambda>p. p = 7), ceNow = 0\<rparr> 25 demoCheckpoints = ([(demoKey (CHR ''c''), 10)], s')
    \<and> map fst (ckFiles s') = [demoKey (CHR ''a''), demoKey (CHR ''b'')]"
proof -
  let ?env = "\<lparr>ceAlive = (\<lambda>p. p = 7), ceNow = 0\<rparr>"
  have gone: "fst (evictImages ?env 25 demoCheckpoints) = [(demoKey (CHR ''c''), 10)]" by code_simp
  then obtain s' where r: "evictImages ?env 25 demoCheckpoints = ([(demoKey (CHR ''c''), 10)], s')"
    by (metis prod.collapse)
  have keys: "\<forall>f \<in> set (ckFiles demoCheckpoints). checkSha256 (fst f)" by code_simp
  have "ckFiles s' = filter (\<lambda>f. fst f \<notin> {demoKey (CHR ''c'')}) (ckFiles demoCheckpoints)"
    using eviction_is_lru [OF r keys] by simp
  moreover have "map fst (filter (\<lambda>f. fst f \<notin> {demoKey (CHR ''c'')}) (ckFiles demoCheckpoints))
      = [demoKey (CHR ''a''), demoKey (CHR ''b'')]" by code_simp
  ultimately show ?thesis using r by simp
qed

end
