(* ===== verification/CheckpointRaces.thy ===== *)
theory CheckpointRaces
  imports Main
begin

section \<open>Checkpoint operations of several processes (\<open>src/sandbox/checkpoints.ts\<close>)\<close>

text \<open>
  One key, and any number of operations on it that run at the same time in live processes: each awaited
  call of the file system is one step. An operation runs once; the one that leases stands for the lease
  file it writes, whose name is fresh.
\<close>

subsection \<open>Leasing, evicting and publishing\<close>

datatype phase =
    Idle                       \<comment> \<open>not started\<close>
  | Finished
  | LeaseWritten               \<comment> \<open>\<open>lease\<close>: its lease file is there\<close>
  | SidecarSeen bool           \<comment> \<open>and what \<open>readSidecar\<close> found\<close>
  | Holding                    \<comment> \<open>it returned the lease\<close>
  | Scanning "nat set"         \<comment> \<open>\<open>evict\<close>: the lease files still to read in \<open>leased\<close>\<close>
  | Unleased                   \<comment> \<open>none was live\<close>
  | Unlocked                   \<comment> \<open>nor was the lock\<close>
  | SidecarGone                \<comment> \<open>the sidecar is removed\<close>
  | Rescanning "nat set"       \<comment> \<open>\<open>leased\<close> is asked again\<close>
  | Condemned                  \<comment> \<open>none was live\<close>
  | Warming                    \<comment> \<open>the lock is taken\<close>
  | Renamed                    \<comment> \<open>\<open>publish\<close>: the image is in place, not yet its sidecar\<close>
  | Published

record KeyState =
  kySidecar :: bool
  kyImage :: bool
  kyLocked :: bool
  kyLeases :: "nat set"
  kyPhase :: "nat \<Rightarrow> phase"

definition enter :: "nat \<Rightarrow> phase \<Rightarrow> KeyState \<Rightarrow> KeyState" where
  "enter p ph s = s\<lparr>kyPhase := (kyPhase s)(p := ph)\<rparr>"

inductive leaseImageStep :: "nat \<Rightarrow> KeyState \<Rightarrow> KeyState \<Rightarrow> bool" where
  write_lease: "kyPhase s p = Idle \<Longrightarrow>
    leaseImageStep p s (enter p LeaseWritten (s\<lparr>kyLeases := insert p (kyLeases s)\<rparr>))"
| read_sidecar: "kyPhase s p = LeaseWritten \<Longrightarrow> leaseImageStep p s (enter p (SidecarSeen (kySidecar s)) s)"
| image_there: "kyPhase s p = SidecarSeen True \<Longrightarrow> kyImage s \<Longrightarrow> leaseImageStep p s (enter p Holding s)"
| give_up: "kyPhase s p = SidecarSeen b \<Longrightarrow> \<not> b \<or> \<not> kyImage s \<Longrightarrow>
    leaseImageStep p s (enter p Finished (s\<lparr>kyLeases := kyLeases s - {p}\<rparr>))"
| release: "kyPhase s p = Holding \<Longrightarrow> leaseImageStep p s (enter p Finished (s\<lparr>kyLeases := kyLeases s - {p}\<rparr>))"

inductive evictStep :: "nat \<Rightarrow> KeyState \<Rightarrow> KeyState \<Rightarrow> bool" where
  scan: "kyPhase s p = Idle \<Longrightarrow> evictStep p s (enter p (Scanning (kyLeases s)) s)"
| scan_gone: "kyPhase s p = Scanning L \<Longrightarrow> l \<in> L \<Longrightarrow> l \<notin> kyLeases s \<Longrightarrow> evictStep p s (enter p (Scanning (L - {l})) s)"
| scan_live: "kyPhase s p = Scanning L \<Longrightarrow> l \<in> L \<Longrightarrow> l \<in> kyLeases s \<Longrightarrow> evictStep p s (enter p Finished s)"
| scan_end: "kyPhase s p = Scanning {} \<Longrightarrow> evictStep p s (enter p Unleased s)"
| lock_live: "kyPhase s p = Unleased \<Longrightarrow> kyLocked s \<Longrightarrow> evictStep p s (enter p Finished s)"
| lock_free: "kyPhase s p = Unleased \<Longrightarrow> \<not> kyLocked s \<Longrightarrow> evictStep p s (enter p Unlocked s)"
| unlink_sidecar: "kyPhase s p = Unlocked \<Longrightarrow> evictStep p s (enter p SidecarGone (s\<lparr>kySidecar := False\<rparr>))"
| rescan: "kyPhase s p = SidecarGone \<Longrightarrow> evictStep p s (enter p (Rescanning (kyLeases s)) s)"
| rescan_gone: "kyPhase s p = Rescanning L \<Longrightarrow> l \<in> L \<Longrightarrow> l \<notin> kyLeases s \<Longrightarrow> evictStep p s (enter p (Rescanning (L - {l})) s)"
| rescan_live: "kyPhase s p = Rescanning L \<Longrightarrow> l \<in> L \<Longrightarrow> l \<in> kyLeases s \<Longrightarrow> evictStep p s (enter p Finished s)"
| rescan_end: "kyPhase s p = Rescanning {} \<Longrightarrow> evictStep p s (enter p Condemned s)"
| unlink_image: "kyPhase s p = Condemned \<Longrightarrow> evictStep p s (enter p Finished (s\<lparr>kyImage := False\<rparr>))"

inductive warmStep :: "nat \<Rightarrow> KeyState \<Rightarrow> KeyState \<Rightarrow> bool" where
  take_lock: "kyPhase s p = Idle \<Longrightarrow> \<not> kyLocked s \<Longrightarrow> warmStep p s (enter p Warming (s\<lparr>kyLocked := True\<rparr>))"
| rename_image: "kyPhase s p = Warming \<Longrightarrow> warmStep p s (enter p Renamed (s\<lparr>kyImage := True\<rparr>))"
| write_sidecar: "kyPhase s p = Renamed \<Longrightarrow> warmStep p s (enter p Published (s\<lparr>kySidecar := True\<rparr>))"
| drop_lock: "kyPhase s p = Published \<Longrightarrow> warmStep p s (enter p Finished (s\<lparr>kyLocked := False\<rparr>))"

definition keyStep :: "nat \<Rightarrow> KeyState \<Rightarrow> KeyState \<Rightarrow> bool" where
  "keyStep p s s' = (leaseImageStep p s s' \<or> evictStep p s s' \<or> warmStep p s s')"

definition startOf :: "bool \<Rightarrow> bool \<Rightarrow> KeyState" where
  "startOf sidecar img = \<lparr>kySidecar = sidecar, kyImage = img, kyLocked = False, kyLeases = {}, kyPhase = (\<lambda>_. Idle)\<rparr>"

text \<open>
  \<open>evicting\<close>: some eviction has removed the sidecar and not yet decided on the image. A calm step is any
  step but the publication of a sidecar at such a moment.
\<close>

definition evicting :: "KeyState \<Rightarrow> bool" where
  "evicting s = (\<exists>p. kyPhase s p = SidecarGone \<or> (\<exists>L. kyPhase s p = Rescanning L) \<or> kyPhase s p = Condemned)"

definition calmStep :: "KeyState \<Rightarrow> KeyState \<Rightarrow> bool" where
  "calmStep s s' = (\<exists>p. keyStep p s s' \<and> \<not> (evicting s \<and> kyPhase s p = Renamed))"

definition anyStep :: "KeyState \<Rightarrow> KeyState \<Rightarrow> bool" where
  "anyStep s s' = (\<exists>p. keyStep p s s')"

subsection \<open>A leased image stays\<close>

definition sees :: "phase \<Rightarrow> bool" where
  "sees ph = (ph = SidecarSeen True \<or> ph = Holding)"

fun leasing :: "phase \<Rightarrow> bool" where
  "leasing LeaseWritten = True"
| "leasing (SidecarSeen b) = True"
| "leasing Holding = True"
| "leasing ph = False"

definition leasesHold :: "KeyState \<Rightarrow> bool" where
  "leasesHold s =
     ((\<forall>p. leasing (kyPhase s p) \<longrightarrow> p \<in> kyLeases s)
      \<and> (\<forall>p. kyPhase s p = Holding \<longrightarrow> kyImage s)
      \<and> (evicting s \<longrightarrow> \<not> kySidecar s)
      \<and> (\<forall>p q L. kyPhase s p = Rescanning L \<longrightarrow> sees (kyPhase s q) \<longrightarrow> q \<in> L)
      \<and> (\<forall>p q. kyPhase s p = Condemned \<longrightarrow> \<not> sees (kyPhase s q)))"

lemma leasesHoldI:
  assumes "\<And>p. leasing (kyPhase s p) \<Longrightarrow> p \<in> kyLeases s" "\<And>p. kyPhase s p = Holding \<Longrightarrow> kyImage s"
    and "evicting s \<Longrightarrow> \<not> kySidecar s"
    and "\<And>p q L. kyPhase s p = Rescanning L \<Longrightarrow> sees (kyPhase s q) \<Longrightarrow> q \<in> L"
    and "\<And>p q. kyPhase s p = Condemned \<Longrightarrow> \<not> sees (kyPhase s q)"
  shows "leasesHold s"
  using assms unfolding leasesHold_def by blast

lemma leasesHoldD:
  assumes "leasesHold s"
  shows "leasing (kyPhase s p) \<Longrightarrow> p \<in> kyLeases s" "kyPhase s p = Holding \<Longrightarrow> kyImage s"
    and "kyPhase s p = SidecarGone \<Longrightarrow> \<not> kySidecar s" "kyPhase s p = Rescanning L \<Longrightarrow> \<not> kySidecar s"
    and "kyPhase s p = Condemned \<Longrightarrow> \<not> kySidecar s"
    and "kyPhase s p = Rescanning L \<Longrightarrow> sees (kyPhase s q) \<Longrightarrow> q \<in> L"
    and "kyPhase s p = Condemned \<Longrightarrow> \<not> sees (kyPhase s q)"
  using assms unfolding leasesHold_def evicting_def by blast+

lemma enter_simps [simp]:
  "kyPhase (enter p ph s) = (kyPhase s)(p := ph)"
  "kySidecar (enter p ph s) = kySidecar s" "kyImage (enter p ph s) = kyImage s"
  "kyLocked (enter p ph s) = kyLocked s" "kyLeases (enter p ph s) = kyLeases s"
  by (simp_all add: enter_def)

lemma sees_simps [simp]:
  "sees (SidecarSeen b) = b" "sees Holding" "\<not> sees Idle" "\<not> sees Finished" "\<not> sees LeaseWritten"
  "\<not> sees (Scanning L)" "\<not> sees Unleased" "\<not> sees Unlocked" "\<not> sees SidecarGone" "\<not> sees (Rescanning L)"
  "\<not> sees Condemned" "\<not> sees Warming" "\<not> sees Renamed" "\<not> sees Published"
  by (simp_all add: sees_def)

lemma sees_leasing: "sees ph \<Longrightarrow> leasing ph"
  by (cases ph) auto

lemma leaseImageStep_holds: "leaseImageStep p s s' \<Longrightarrow> leasesHold s \<Longrightarrow> leasesHold s'"
proof (induction rule: leaseImageStep.induct)
  case (write_lease s p)
  show ?case using leasesHoldD [OF write_lease(2)] by (intro leasesHoldI) (auto simp: evicting_def split: if_splits)
next
  case (read_sidecar s p)
  show ?case using leasesHoldD [OF read_sidecar(2)] read_sidecar(1)
    by (intro leasesHoldI) (auto simp: evicting_def split: if_splits)
next
  case (image_there s p)
  have "kyPhase s q \<noteq> Condemned" for q using leasesHoldD(7) [OF image_there(3), of q p] image_there(1) by auto
  then show ?case using leasesHoldD [OF image_there(3)] image_there(1,2)
    by (intro leasesHoldI) (auto simp: evicting_def split: if_splits)
next
  case (give_up s p b)
  show ?case using leasesHoldD [OF give_up(3)] by (intro leasesHoldI) (auto simp: evicting_def split: if_splits)
next
  case (release s p)
  show ?case using leasesHoldD [OF release(2)] by (intro leasesHoldI) (auto simp: evicting_def split: if_splits)
qed

text \<open>A step into a phase of which the invariant says nothing.\<close>

definition neutral :: "phase \<Rightarrow> bool" where
  "neutral ph = (\<not> leasing ph \<and> ph \<noteq> SidecarGone \<and> (\<forall>L. ph \<noteq> Rescanning L) \<and> ph \<noteq> Condemned)"

lemma neutral_simps [simp]:
  "neutral Finished" "neutral (Scanning L)" "neutral Unleased" "neutral Unlocked" "neutral Warming" "neutral Renamed"
  "neutral Published"
  by (simp_all add: neutral_def)

lemma neutral_sees: "neutral ph \<Longrightarrow> \<not> sees ph"
  using sees_leasing unfolding neutral_def by blast

lemma neutral_holds: "leasesHold s \<Longrightarrow> neutral ph \<Longrightarrow> leasesHold (enter p ph s)"
  using leasesHoldD [of s] neutral_sees [of ph] unfolding neutral_def
  by (intro leasesHoldI) (auto simp: evicting_def split: if_splits)

lemma locked_holds [simp]: "leasesHold (s\<lparr>kyLocked := b\<rparr>) = leasesHold s"
  by (simp add: leasesHold_def evicting_def)

lemma evictStep_holds: "evictStep p s s' \<Longrightarrow> leasesHold s \<Longrightarrow> leasesHold s'"
proof (induction rule: evictStep.induct)
  case (unlink_sidecar s p)
  show ?case using leasesHoldD [OF unlink_sidecar(2)] by (intro leasesHoldI) (auto simp: evicting_def split: if_splits)
next
  case (rescan s p)
  show ?case using leasesHoldD [OF rescan(2)] rescan(1) sees_leasing
    by (intro leasesHoldI) (auto simp: evicting_def split: if_splits)
next
  case (rescan_gone s p L l)
  show ?case using leasesHoldD [OF rescan_gone(4)] rescan_gone(1-3) sees_leasing
    by (intro leasesHoldI) (auto simp: evicting_def split: if_splits)
next
  case (rescan_end s p)
  have "\<not> sees (kyPhase s q)" for q using leasesHoldD(6) [OF rescan_end(2,1), of q] by auto
  then show ?case using leasesHoldD [OF rescan_end(2)] rescan_end(1)
    by (intro leasesHoldI) (auto simp: evicting_def split: if_splits)
next
  case (unlink_image s p)
  show ?case using leasesHoldD [OF unlink_image(2)] unlink_image(1)
    by (intro leasesHoldI) (auto simp: evicting_def sees_def split: if_splits)
qed (simp_all add: neutral_holds)

lemma warmStep_holds:
  "warmStep p s s' \<Longrightarrow> leasesHold s \<Longrightarrow> \<not> (evicting s \<and> kyPhase s p = Renamed) \<Longrightarrow> leasesHold s'"
proof (induction rule: warmStep.induct)
  case (rename_image s p)
  have "leasesHold (s\<lparr>kyImage := True\<rparr>)" using rename_image(2) by (simp add: leasesHold_def evicting_def)
  then show ?case by (simp add: neutral_holds)
next
  case (write_sidecar s p)
  then have "leasesHold (s\<lparr>kySidecar := True\<rparr>)" by (simp add: leasesHold_def evicting_def)
  then show ?case by (simp add: neutral_holds)
qed (simp_all add: neutral_holds)

lemma calm_holds: "calmStep\<^sup>*\<^sup>* (startOf sc img) s \<Longrightarrow> leasesHold s"
proof (induction rule: rtranclp_induct)
  case base
  show ?case by (intro leasesHoldI) (auto simp: startOf_def evicting_def)
next
  case (step s s')
  then obtain p where "keyStep p s s'" "\<not> (evicting s \<and> kyPhase s p = Renamed)" by (auto simp: calmStep_def)
  then show ?case using step.IH leaseImageStep_holds evictStep_holds warmStep_holds unfolding keyStep_def by blast
qed

text \<open>
  A leased image is not evicted. Whatever operations of live processes on one key run at the same
  time, each step of one between steps of the others: while an operation holds a lease it was given,
  the image of the key is there, and the lease file that protects it is there; this for every run in
  which no warm-up writes the key's sidecar between an eviction's removal of the sidecar and its
  decision on the image.
\<close>

theorem leased_image_stays:
  assumes "calmStep\<^sup>*\<^sup>* (startOf sc img) s" and "kyPhase s p = Holding"
  shows "kyImage s \<and> p \<in> kyLeases s"
  using leasesHoldD(1,2) [OF calm_holds [OF assms(1)]] assms(2) by (metis leasing.simps(3))

text \<open>An operation that leases the image of a key while nothing else happens.\<close>

definition leasedState :: KeyState where
  "leasedState = enter 0 Holding (enter 0 (SidecarSeen True) (enter 0 LeaseWritten ((startOf True True)\<lparr>kyLeases := {0}\<rparr>)))"

lemma lease_run: "calmStep\<^sup>*\<^sup>* (startOf True True) leasedState"
proof -
  define s0 s1 s2 where s: "s0 = startOf True True" "s1 = enter 0 LeaseWritten (s0\<lparr>kyLeases := {0}\<rparr>)"
    "s2 = enter 0 (SidecarSeen True) s1"
  have calm: "calmStep s s'" if "leaseImageStep p s s'" "kyPhase s p \<noteq> Renamed" for s s' p
    using that unfolding calmStep_def keyStep_def by blast
  have "calmStep s0 s1" using write_lease [of s0 0] by (intro calm) (simp_all add: s startOf_def)
  moreover have "calmStep s1 s2" using read_sidecar [of s1 0] by (intro calm) (simp_all add: s startOf_def)
  moreover have "calmStep s2 leasedState" using image_there [of s2 0]
    by (intro calm) (simp_all add: s leasedState_def startOf_def)
  ultimately show ?thesis unfolding s(1) [symmetric]
    by (meson rtranclp.rtrancl_into_rtrancl rtranclp.rtrancl_refl)
qed

theorem leased_image_stays_witness:
  "\<exists>s. calmStep\<^sup>*\<^sup>* (startOf True True) s \<and> kyPhase s 0 = Holding \<and> kyImage s \<and> 0 \<in> kyLeases s"
proof -
  have h: "kyPhase leasedState 0 = Holding" by (simp add: leasedState_def)
  show ?thesis using leased_image_stays [OF lease_run h] lease_run h by blast
qed

text \<open>
  C36: Without that restriction a leased image can be evicted, although the store says that a leased
  checkpoint never is: an eviction that has found the key unleased and unlocked removes the sidecar; a
  warm-up takes the lock and publishes the key anew; an operation leases it; and the eviction, which
  asked for leases before that and does not ask for the lock again, removes the image.
\<close>

theorem leased_image_evicted:
  "\<exists>s. anyStep\<^sup>*\<^sup>* (startOf True True) s \<and> kyPhase s 2 = Holding \<and> \<not> kyImage s"
proof -
  define s0 a1 a2 a3 a4 a5 a6 w1 w2 w3 l1 l2 l3 a7 where s: "s0 = startOf True True"
    "a1 = enter 0 (Scanning {}) s0" "a2 = enter 0 Unleased a1" "a3 = enter 0 Unlocked a2"
    "a4 = enter 0 SidecarGone (a3\<lparr>kySidecar := False\<rparr>)" "a5 = enter 0 (Rescanning {}) a4" "a6 = enter 0 Condemned a5"
    "w1 = enter 1 Warming (a6\<lparr>kyLocked := True\<rparr>)" "w2 = enter 1 Renamed (w1\<lparr>kyImage := True\<rparr>)"
    "w3 = enter 1 Published (w2\<lparr>kySidecar := True\<rparr>)"
    "l1 = enter 2 LeaseWritten (w3\<lparr>kyLeases := insert 2 (kyLeases w3)\<rparr>)" "l2 = enter 2 (SidecarSeen True) l1"
    "l3 = enter 2 Holding l2" "a7 = enter 0 Finished (l3\<lparr>kyImage := False\<rparr>)"
  have lease: "anyStep s s'" if "leaseImageStep p s s'" for s s' p using that unfolding anyStep_def keyStep_def by blast
  have evict: "anyStep s s'" if "evictStep p s s'" for s s' p using that unfolding anyStep_def keyStep_def by blast
  have warm: "anyStep s s'" if "warmStep p s s'" for s s' p using that unfolding anyStep_def keyStep_def by blast
  have "anyStep s0 a1" using scan [of s0 0] by (intro evict) (simp add: s startOf_def)
  moreover have "anyStep a1 a2" using scan_end [of a1 0] by (intro evict) (simp add: s)
  moreover have "anyStep a2 a3" using lock_free [of a2 0] by (intro evict) (simp add: s startOf_def)
  moreover have "anyStep a3 a4" using unlink_sidecar [of a3 0] by (intro evict) (simp add: s)
  moreover have "anyStep a4 a5" using rescan [of a4 0] by (intro evict) (simp add: s startOf_def)
  moreover have "anyStep a5 a6" using rescan_end [of a5 0] by (intro evict) (simp add: s)
  moreover have "anyStep a6 w1" using take_lock [of a6 1] by (intro warm) (simp add: s startOf_def)
  moreover have "anyStep w1 w2" using rename_image [of w1 1] by (intro warm) (simp add: s)
  moreover have "anyStep w2 w3" using write_sidecar [of w2 1] by (intro warm) (simp add: s)
  moreover have "anyStep w3 l1" using write_lease [of w3 2] by (intro lease) (simp add: s startOf_def)
  moreover have "anyStep l1 l2" using read_sidecar [of l1 2] by (intro lease) (simp add: s)
  moreover have "anyStep l2 l3" using image_there [of l2 2] by (intro lease) (simp add: s)
  moreover have "anyStep l3 a7" using unlink_image [of l3 0] by (intro evict) (simp add: s)
  ultimately have "anyStep\<^sup>*\<^sup>* s0 a7" by (meson rtranclp.rtrancl_into_rtrancl rtranclp.rtrancl_refl)
  moreover have "kyPhase a7 2 = Holding" "\<not> kyImage a7" by (simp_all add: s)
  ultimately show ?thesis unfolding s(1) by blast
qed

subsection \<open>The lock of a warm-up\<close>

datatype lockPhase =
    LockIdle
  | Linking nat            \<comment> \<open>about to link its lock file, in this round\<close>
  | ReadingOwner nat       \<comment> \<open>the link was refused\<close>
  | Unlinking nat          \<comment> \<open>no live owner was found\<close>
  | HoldsLock
  | LockOver

text \<open>The process that the lock file names, if there is one; all processes live.\<close>

record LockState =
  lkOwner :: "nat option"
  lkPhase :: "nat \<Rightarrow> lockPhase"

definition goto :: "nat \<Rightarrow> lockPhase \<Rightarrow> LockState \<Rightarrow> LockState" where
  "goto p ph s = s\<lparr>lkPhase := (lkPhase s)(p := ph)\<rparr>"

inductive lockStep :: "LockState \<Rightarrow> LockState \<Rightarrow> bool" where
  lock_start: "lkPhase s p = LockIdle \<Longrightarrow> lockStep s (goto p (Linking 0) s)"
| lock_linked: "lkPhase s p = Linking r \<Longrightarrow> lkOwner s = None \<Longrightarrow> lockStep s (goto p HoldsLock (s\<lparr>lkOwner := Some p\<rparr>))"
| lock_taken: "lkPhase s p = Linking r \<Longrightarrow> lkOwner s \<noteq> None \<Longrightarrow> lockStep s (goto p (ReadingOwner r) s)"
| owner_live: "lkPhase s p = ReadingOwner r \<Longrightarrow> lkOwner s \<noteq> None \<Longrightarrow> lockStep s (goto p LockOver s)"
| owner_unknown: "lkPhase s p = ReadingOwner r \<Longrightarrow> lkOwner s = None \<Longrightarrow> lockStep s (goto p (Unlinking r) s)"
| lock_unlinked: "lkPhase s p = Unlinking r \<Longrightarrow>
    lockStep s (goto p (if r = 0 then Linking 1 else LockOver) (s\<lparr>lkOwner := None\<rparr>))"
| lock_released: "lkPhase s p = HoldsLock \<Longrightarrow> lockStep s (goto p LockOver (s\<lparr>lkOwner := None\<rparr>))"

lemma goto_simps [simp]: "lkPhase (goto p ph s) = (lkPhase s)(p := ph)" "lkOwner (goto p ph s) = lkOwner s"
  by (simp_all add: goto_def)

text \<open>
  The warm-up lock is not exclusive, although \<open>tryLock\<close> says that it gives nothing while another live
  process holds the lock. A process whose link was refused, and which finds the lock file gone when it
  reads the owner, takes the lock for an abandoned one and unlinks whatever file has that name by then:
  the lock that a third process has taken meanwhile. Both then hold it. All processes live and every
  one of them follows the code.
\<close>

theorem warmup_lock_not_exclusive:
  "\<exists>s. lockStep\<^sup>*\<^sup>* \<lparr>lkOwner = None, lkPhase = (\<lambda>_. LockIdle)\<rparr> s \<and> lkPhase s 1 = HoldsLock \<and> lkPhase s 2 = HoldsLock"
proof -
  define s0 a1 a2 b1 b2 a3 b3 c1 c2 b4 b5 where s: "s0 = \<lparr>lkOwner = None, lkPhase = (\<lambda>_. LockIdle)\<rparr>"
    "a1 = goto 0 (Linking 0) s0" "a2 = goto 0 HoldsLock (a1\<lparr>lkOwner := Some 0\<rparr>)"
    "b1 = goto 1 (Linking 0) a2" "b2 = goto 1 (ReadingOwner 0) b1"
    "a3 = goto 0 LockOver (b2\<lparr>lkOwner := None\<rparr>)" "b3 = goto 1 (Unlinking 0) a3"
    "c1 = goto 2 (Linking 0) b3" "c2 = goto 2 HoldsLock (c1\<lparr>lkOwner := Some 2\<rparr>)"
    "b4 = goto 1 (Linking 1) (c2\<lparr>lkOwner := None\<rparr>)" "b5 = goto 1 HoldsLock (b4\<lparr>lkOwner := Some 1\<rparr>)"
  have "lockStep s0 a1" using lock_start [of s0 0] by (simp add: s)
  moreover have "lockStep a1 a2" using lock_linked [of a1 0 0] by (simp add: s)
  moreover have "lockStep a2 b1" using lock_start [of a2 1] by (simp add: s)
  moreover have "lockStep b1 b2" using lock_taken [of b1 1 0] by (simp add: s)
  moreover have "lockStep b2 a3" using lock_released [of b2 0] by (simp add: s)
  moreover have "lockStep a3 b3" using owner_unknown [of a3 1 0] by (simp add: s)
  moreover have "lockStep b3 c1" using lock_start [of b3 2] by (simp add: s)
  moreover have "lockStep c1 c2" using lock_linked [of c1 2 0] by (simp add: s)
  moreover have "lockStep c2 b4" using lock_unlinked [of c2 1 0] by (simp add: s)
  moreover have "lockStep b4 b5" using lock_linked [of b4 1 1] by (simp add: s)
  ultimately have "lockStep\<^sup>*\<^sup>* s0 b5" by (meson rtranclp.rtrancl_into_rtrancl rtranclp.rtrancl_refl)
  moreover have "lkPhase b5 1 = HoldsLock" "lkPhase b5 2 = HoldsLock" by (simp_all add: s)
  ultimately show ?thesis unfolding s(1) by blast
qed

end
