(* ===== verification/Dependencies.thy ===== *)
theory Dependencies
  imports Paths Json
begin

section \<open>Dependency directories (\<open>src/sandbox/dependencies.ts\<close>)\<close>

text \<open>
  Which \<open>node_modules\<close> directories of a workspace are bound onto the root disk of a sandbox. The
  workspace is what \<open>lstat\<close> finds at each relative path, what \<open>readdir\<close> lists for a directory and what
  \<open>git check-ignore\<close> answers (\<open>None\<close> when it fails).
\<close>

definition GUEST_DEPENDENCY_ROOT :: string where "GUEST_DEPENDENCY_ROOT = ''/var/lib/pi-subagent/deps''"
definition MAX_DEPENDENCY_DIRECTORIES :: nat where "MAX_DEPENDENCY_DIRECTORIES = 64"
definition MAX_PACKAGE_JSON_BYTES :: int where "MAX_PACKAGE_JSON_BYTES = 1024 * 1024"

datatype DependencySkipReason =
    NotIgnored | IgnoreCheckFailed | SkipSymlink | NotADirectory
  | AbsentInReadOnlyWorkspace | UnsupportedPattern | SkipLimit

record DependencyDirectoryPlan =
  dpBound :: "string list"
  dpSkipped :: "(string \<times> DependencySkipReason) list"

text \<open>\<open>NodeDenied\<close>: \<open>lstat\<close> fails although something may be there.\<close>

datatype wsNode = NodeAbsent | NodeDenied | NodeDir | NodeFile "string option" | NodeSymlink | NodeOther

record DepWorkspace =
  dwNode :: "string \<Rightarrow> wsNode"
  dwEntries :: "string \<Rightarrow> string list option"
  dwIgnored :: "string \<Rightarrow> bool option"

definition guestDependencyPath :: "(string \<Rightarrow> string) \<Rightarrow> string \<Rightarrow> string" where
  "guestDependencyPath sha relative = GUEST_DEPENDENCY_ROOT @ ''/'' @ take 32 (sha relative)"

text \<open>A regular file's content is \<open>None\<close> when it cannot be read.\<close>

definition readRootManifest :: "DepWorkspace \<Rightarrow> json option" where
  "readRootManifest w =
     (case dwNode w ''package.json'' of
        NodeFile (Some c) \<Rightarrow>
          (if int (length c) > MAX_PACKAGE_JSON_BYTES then None
           else (case parse c of Some (JObj ms) \<Rightarrow> Some (JObj ms) | _ \<Rightarrow> None))
      | _ \<Rightarrow> None)"

definition workspacePatterns :: "json \<Rightarrow> string list" where
  "workspacePatterns manifest =
     (let items = (case jget manifest ''workspaces'' of
          Some (JArr vs) \<Rightarrow> Some (JArr vs)
        | Some (JObj ms) \<Rightarrow> jget (JObj ms) ''packages''
        | _ \<Rightarrow> None)
      in (case items of
          Some (JArr vs) \<Rightarrow> concat (map (\<lambda>v. case v of JStr s \<Rightarrow> [s] | _ \<Rightarrow> []) vs)
        | _ \<Rightarrow> []))"

text \<open>\<open>segmentPattern\<close>: every character stands for itself but the star, which stands for any run of non-slashes.\<close>

fun matchSegment :: "string \<Rightarrow> string \<Rightarrow> bool" where
  "matchSegment [] s = (s = [])"
| "matchSegment (p # ps) [] = (p = CHR ''*'' \<and> matchSegment ps [])"
| "matchSegment (p # ps) (c # s) =
     (if p = CHR ''*'' then matchSegment ps (c # s) \<or> (c \<noteq> slash \<and> matchSegment (p # ps) s)
      else p = c \<and> matchSegment ps s)"

definition realDirectory :: "DepWorkspace \<Rightarrow> string \<Rightarrow> bool" where
  "realDirectory w p = (dwNode w p = NodeDir)"

text \<open>One segment of the pattern, for one directory reached so far.\<close>

definition expandSegment :: "DepWorkspace \<Rightarrow> string \<Rightarrow> string \<Rightarrow> string list" where
  "expandSegment w segment base =
     (if CHR ''*'' \<notin> set segment
      then filter (realDirectory w) [posixJoin base segment]
      else (case dwEntries w base of
          None \<Rightarrow> []
        | Some entries \<Rightarrow> filter (realDirectory w) (map (posixJoin base)
            (filter (\<lambda>e. matchSegment segment e \<and> \<not> startsWith e ''.'') (sort entries)))))"

definition unsupported :: "string \<Rightarrow> bool" where
  "unsupported normalized =
     (normalized = [] \<or> normalized = ''.'' \<or> startsWith normalized ''/'' \<or> startsWith normalized ''!''
      \<or> list_ex (\<lambda>p. p = ''..'' \<or> p = ''**'') (splitOn slash normalized))"

definition expandPattern :: "DepWorkspace \<Rightarrow> string \<Rightarrow> string list option" where
  "expandPattern w pat =
     (let normalized = posixNormalize (List.rev (dropWhile (\<lambda>c. c = slash) (List.rev pat))) in
      if unsupported normalized then None
      else Some (fold (\<lambda>segment current. concat (map (expandSegment w segment) current))
        (splitOn slash normalized) [[]]))"

definition isPackage :: "DepWorkspace \<Rightarrow> string \<Rightarrow> bool" where
  "isPackage w member = (case dwNode w (posixJoin member ''package.json'') of NodeFile _ \<Rightarrow> True | _ \<Rightarrow> False)"

text \<open>The members found so far and the patterns refused.\<close>

definition addPattern ::
  "DepWorkspace \<Rightarrow> string \<Rightarrow> string list \<times> (string \<times> DependencySkipReason) list
     \<Rightarrow> string list \<times> (string \<times> DependencySkipReason) list" where
  "addPattern w pat st =
     (case expandPattern w pat of
        None \<Rightarrow> (fst st, snd st @ [(pat, UnsupportedPattern)])
      | Some expanded \<Rightarrow> (fst st @ filter (isPackage w) expanded, snd st))"

definition skipDir :: "string \<Rightarrow> DependencySkipReason \<Rightarrow> DependencyDirectoryPlan \<Rightarrow> DependencyDirectoryPlan" where
  "skipDir p reason plan = plan\<lparr>dpSkipped := dpSkipped plan @ [(p, reason)]\<rparr>"

definition bindDir :: "string \<Rightarrow> DependencyDirectoryPlan \<Rightarrow> DependencyDirectoryPlan" where
  "bindDir p plan = plan\<lparr>dpBound := dpBound plan @ [p]\<rparr>"

definition mkdirIn :: "string \<Rightarrow> DepWorkspace \<Rightarrow> DepWorkspace res" where
  "mkdirIn p w = (if dwNode w p = NodeAbsent then Inr (w\<lparr>dwNode := (dwNode w)(p := NodeDir)\<rparr>)
     else Inl (Err ''mkdir failed''))"

definition planMember ::
  "bool \<Rightarrow> string \<Rightarrow> DependencyDirectoryPlan \<times> DepWorkspace \<Rightarrow> (DependencyDirectoryPlan \<times> DepWorkspace) res" where
  "planMember createMountpoints member st =
     (let plan = fst st; w = snd st; p = posixJoin member ''node_modules''; node = dwNode w p;
          exists = (node = NodeDir) in
      if length (dpBound plan) \<ge> MAX_DEPENDENCY_DIRECTORIES then Inr (skipDir p SkipLimit plan, w)
      else if node = NodeSymlink then Inr (skipDir p SkipSymlink plan, w)
      else if node \<noteq> NodeDir \<and> node \<noteq> NodeAbsent \<and> node \<noteq> NodeDenied then Inr (skipDir p NotADirectory plan, w)
      else (case dwIgnored w p of
          None \<Rightarrow> Inr (skipDir p IgnoreCheckFailed plan, w)
        | Some ignored \<Rightarrow>
            if \<not> ignored then Inr (skipDir p NotIgnored plan, w)
            else if exists then Inr (bindDir p plan, w)
            else if \<not> createMountpoints then Inr (skipDir p AbsentInReadOnlyWorkspace plan, w)
            else andThen (mkdirIn p w) (\<lambda>w. Inr (bindDir p plan, w))))"

definition planDependencyDirectories :: "bool \<Rightarrow> DepWorkspace \<Rightarrow> (DependencyDirectoryPlan \<times> DepWorkspace) res" where
  "planDependencyDirectories createMountpoints w =
     (case readRootManifest w of
        None \<Rightarrow> Inr (\<lparr>dpBound = [], dpSkipped = []\<rparr>, w)
      | Some manifest \<Rightarrow>
          (let (members, skipped) = fold (addPattern w) (workspacePatterns manifest) ([[]], [])
           in foldRes (planMember createMountpoints) (sort (unique members)) (\<lparr>dpBound = [], dpSkipped = skipped\<rparr>, w)))"

definition dependencyBindCommands :: "(string \<Rightarrow> string) \<Rightarrow> DependencyDirectoryPlan \<Rightarrow> string \<Rightarrow> string list list" where
  "dependencyBindCommands sha plan guestWorkspace =
     concat (map (\<lambda>relative. [[''/bin/mkdir'', ''-p'', guestDependencyPath sha relative],
        [''/bin/mount'', ''--bind'', guestDependencyPath sha relative, posixJoin guestWorkspace relative]])
      (dpBound plan))"

subsection \<open>Only ignored directories inside the workspace are bound\<close>

text \<open>\<open>readdir\<close> lists names of entries.\<close>

definition properNames :: "DepWorkspace \<Rightarrow> bool" where
  "properNames w = (\<forall>d es. dwEntries w d = Some es \<longrightarrow> (\<forall>e \<in> set es. properName e))"

lemma expandSegment_inside:
  assumes "base = [] \<or> inside base" and "properName segment"
    and "properNames w"
    and "p \<in> set (expandSegment w segment base)"
  shows "inside p"
proof -
  have "\<exists>c. properName c \<and> p = posixJoin base c"
  proof (cases "CHR ''*'' \<in> set segment")
    case True
    then obtain es where "dwEntries w base = Some es"
      using assms(4) by (cases "dwEntries w base") (auto simp: expandSegment_def)
    then show ?thesis using assms(3,4) True by (auto simp: expandSegment_def properNames_def)
  next
    case False
    then show ?thesis using assms(2,4) by (auto simp: expandSegment_def split: if_splits)
  qed
  then show ?thesis using join_inside(2) [OF assms(1)] inside_name by auto
qed

lemma ifNone_Some: "(if b then None else Some x) = Some y \<longleftrightarrow> \<not> b \<and> x = y"
  by simp

lemma not_list_ex: "\<not> list_ex (\<lambda>p. p = a \<or> p = b) xs \<Longrightarrow> a \<notin> set xs"
  by (auto simp: list_ex_iff)

lemma supported:
  assumes "\<not> unsupported n"
  shows "n \<noteq> ''.''" "''..'' \<notin> set (splitOn slash n)" "hd n \<noteq> slash"
proof -
  note parts = assms [unfolded unsupported_def de_Morgan_disj]
  show "n \<noteq> ''.''" by (rule parts [THEN conjunct2, THEN conjunct1])
  show "''..'' \<notin> set (splitOn slash n)"
    by (rule not_list_ex, rule parts [THEN conjunct2, THEN conjunct2, THEN conjunct2, THEN conjunct2])
  have "n \<noteq> []" "\<not> startsWith n ''/''"
    by (rule parts [THEN conjunct1], rule parts [THEN conjunct2, THEN conjunct2, THEN conjunct1])
  then show "hd n \<noteq> slash" by (cases n) (simp_all add: startsWith_def)
qed

lemma expandPattern_inside:
  assumes names: "properNames w"
    and "expandPattern w pat = Some ps" and "p \<in> set ps"
  shows "p = [] \<or> inside p"
proof -
  let ?s = "List.rev (dropWhile (\<lambda>c. c = slash) (List.rev pat))"
  let ?n = "posixNormalize ?s"
  have both: "\<not> unsupported ?n
    \<and> fold (\<lambda>segment current. concat (map (expandSegment w segment) current)) (splitOn slash ?n) [[]] = ps"
    using assms(2) unfolding expandPattern_def Let_def ifNone_Some .
  note ok = both [THEN conjunct1] and ps = both [THEN conjunct2, symmetric]
  note n = supported [OF ok]
  have "?s \<noteq> []" using n(1) posixNormalize_Nil by metis
  then have last: "List.last ?s \<noteq> slash"
    using hd_dropWhile [of "\<lambda>c. c = slash" "List.rev pat"] by (simp add: last_rev)
  have "inside ?n" using normalized_inside [OF refl n(1) n(3) last n(2)] .
  then have segs: "\<forall>c \<in> set (splitOn slash ?n). properName c" by (simp add: inside_def)
  have "\<forall>p \<in> set ps. p = [] \<or> inside p" unfolding ps
  proof (rule fold_invariant [where P = "\<lambda>current. \<forall>p \<in> set current. p = [] \<or> inside p"])
    fix seg current
    assume "seg \<in> set (splitOn slash ?n)" "\<forall>p \<in> set current. p = [] \<or> inside p"
    then show "\<forall>p \<in> set (concat (map (expandSegment w seg) current)). p = [] \<or> inside p"
      using segs expandSegment_inside [OF _ _ names] by fastforce
  qed simp
  then show ?thesis using assms(3) by blast
qed

lemma addPattern_inside:
  assumes "properNames w"
    and "\<forall>m \<in> set (fst st). m = [] \<or> inside m"
  shows "\<forall>m \<in> set (fst (addPattern w pat st)). m = [] \<or> inside m"
proof (cases "expandPattern w pat")
  case None
  then show ?thesis using assms(2) by (simp add: addPattern_def)
next
  case (Some ps)
  then show ?thesis using assms(2) expandPattern_inside [OF assms(1) Some] by (auto simp: addPattern_def)
qed

lemma nodeModules_inside: "member = [] \<or> inside member \<Longrightarrow> inside (posixJoin member ''node_modules'')"
  by (rule join_inside(2)) (simp_all add: inside_name properName_def)

text \<open>What is true of the plan and the workspace after each member, seen from the workspace \<open>w0\<close> before.\<close>

definition planOk :: "bool \<Rightarrow> DepWorkspace \<Rightarrow> DependencyDirectoryPlan \<times> DepWorkspace \<Rightarrow> bool" where
  "planOk createMountpoints w0 st =
     (let plan = fst st; w = snd st in
      length (dpBound plan) \<le> MAX_DEPENDENCY_DIRECTORIES
      \<and> dwIgnored w = dwIgnored w0
      \<and> (\<forall>p \<in> set (dpBound plan). inside p \<and> dwIgnored w0 p = Some True \<and> dwNode w p = NodeDir
           \<and> (dwNode w0 p = NodeDir \<or> dwNode w0 p = NodeAbsent \<and> createMountpoints))
      \<and> (\<forall>p. dwNode w p \<noteq> dwNode w0 p \<longrightarrow> p \<in> set (dpBound plan) \<and> createMountpoints))"

lemma planOk_skip: "planOk cm w0 (plan, w) \<Longrightarrow> planOk cm w0 (skipDir p r plan, w)"
  by (simp add: planOk_def skipDir_def)

lemma planOk_bind:
  assumes "planOk cm w0 (plan, w)" "length (dpBound plan) < MAX_DEPENDENCY_DIRECTORIES"
    and "inside p" "dwIgnored w p = Some True" "dwNode w p = NodeDir"
  shows "planOk cm w0 (bindDir p plan, w)"
  using assms unfolding planOk_def bindDir_def Let_def by (cases "dwNode w0 p = NodeDir") auto

lemma planMember_ok:
  assumes "planMember cm member st = Inr st'" and "planOk cm w0 st" and "member = [] \<or> inside member"
  shows "planOk cm w0 st'"
proof -
  obtain plan w where st: "st = (plan, w)" by (cases st)
  let ?p = "posixJoin member ''node_modules''"
  have p: "inside ?p" by (rule nodeModules_inside [OF assms(3)])
  have ok: "planOk cm w0 (plan, w)" using assms(2) st by simp
  consider (skip) r where "st' = (skipDir ?p r plan, w)"
    | (bind) "length (dpBound plan) < MAX_DEPENDENCY_DIRECTORIES" "dwIgnored w ?p = Some True" "dwNode w ?p = NodeDir"
        "st' = (bindDir ?p plan, w)"
    | (create) "length (dpBound plan) < MAX_DEPENDENCY_DIRECTORIES" "dwIgnored w ?p = Some True" "cm"
        "dwNode w ?p = NodeAbsent" "st' = (bindDir ?p plan, w\<lparr>dwNode := (dwNode w)(?p := NodeDir)\<rparr>)"
    using assms(1) unfolding st planMember_def mkdirIn_def Let_def
    by (fastforce split: if_splits option.splits bool.splits)
  then show ?thesis
  proof cases
    case skip
    then show ?thesis using planOk_skip ok by simp
  next
    case bind
    then show ?thesis using planOk_bind [OF ok _ p] by simp
  next
    case create
    then show ?thesis using ok p unfolding planOk_def bindDir_def Let_def by (auto split: if_splits)
  qed
qed

text \<open>
  C35: Only ignored directories inside the workspace are bound. A plan binds at most 64 directories;
  each lies inside the workspace, by a relative path without \<open>..\<close>, is ignored by the workspace's own
  Git and is a directory and no symbolic link, there already or, if mount points may be created,
  created empty because nothing was there. Nothing else in the workspace changes, and nothing at all
  where mount points may not be created.
\<close>

theorem only_ignored_directories_bound:
  assumes "properNames w"
    and "planDependencyDirectories cm w = Inr (plan, w')"
  shows "length (dpBound plan) \<le> 64
    \<and> (\<forall>p \<in> set (dpBound plan). inside p \<and> dwIgnored w p = Some True \<and> dwNode w' p = NodeDir
         \<and> (dwNode w p = NodeDir \<or> dwNode w p = NodeAbsent \<and> cm))
    \<and> (\<forall>p. dwNode w' p \<noteq> dwNode w p \<longrightarrow> p \<in> set (dpBound plan) \<and> cm)"
proof -
  have "planOk cm w (plan, w')"
  proof (cases "readRootManifest w")
    case None
    then show ?thesis using assms(2) by (auto simp: planDependencyDirectories_def planOk_def)
  next
    case (Some manifest)
    obtain members skipped where m: "fold (addPattern w) (workspacePatterns manifest) ([[]], []) = (members, skipped)"
      by fastforce
    have "\<forall>m \<in> set (fst (fold (addPattern w) (workspacePatterns manifest) ([[]], []))). m = [] \<or> inside m"
      by (rule fold_invariant [where P = "\<lambda>st. \<forall>m \<in> set (fst st). m = [] \<or> inside m"])
        (rule addPattern_inside [OF assms(1)], assumption, simp)
    then have members: "\<forall>m \<in> set members. m = [] \<or> inside m" using m by simp
    have "foldRes (planMember cm) (sort (unique members)) (\<lparr>dpBound = [], dpSkipped = skipped\<rparr>, w) = Inr (plan, w')"
      using assms(2) Some m by (simp add: planDependencyDirectories_def)
    then show ?thesis
    proof (rule foldRes_invariant [where P = "planOk cm w"])
      show "planOk cm w (\<lparr>dpBound = [], dpSkipped = skipped\<rparr>, w)" by (simp add: planOk_def)
    qed (use members planMember_ok in auto)
  qed
  then show ?thesis unfolding planOk_def Let_def MAX_DEPENDENCY_DIRECTORIES_def fst_conv snd_conv by blast
qed

text \<open>A workspace with one member, whose dependency directory is absent, and a tracked root directory.\<close>

definition demoManifest :: json where
  "demoManifest = JObj [(''workspaces'', JArr [JStr ''a/*'', JStr ''../x''])]"

definition demoDeps :: DepWorkspace where
  "demoDeps = \<lparr>dwNode = (\<lambda>p. if p = ''package.json'' then NodeFile (Some (stringify demoManifest))
       else if p = ''a'' \<or> p = ''a/b'' \<or> p = ''node_modules'' then NodeDir
       else if p = ''a/b/package.json'' then NodeFile None else NodeAbsent),
     dwEntries = (\<lambda>d. if d = ''a'' then Some [''b'', ''.c''] else None),
     dwIgnored = (\<lambda>p. Some (p = ''a/b/node_modules''))\<rparr>"

lemma demoDeps_manifest: "readRootManifest demoDeps = Some demoManifest"
proof -
  have "parse (stringify demoManifest) = Some demoManifest"
    by (rule parse_stringify) (simp add: demoManifest_def)
  moreover have "int (length (stringify demoManifest)) \<le> MAX_PACKAGE_JSON_BYTES" by code_simp
  ultimately show ?thesis by (simp add: readRootManifest_def demoDeps_def) (simp add: demoManifest_def)
qed

theorem only_ignored_directories_bound_witness:
  "\<exists>plan w'. planDependencyDirectories True demoDeps = Inr (plan, w')
    \<and> plan = \<lparr>dpBound = [''a/b/node_modules''], dpSkipped = [(''../x'', UnsupportedPattern), (''node_modules'', NotIgnored)]\<rparr>
    \<and> dwNode w' ''a/b/node_modules'' = NodeDir"
proof -
  let ?plan = "\<lparr>dpBound = [''a/b/node_modules''], dpSkipped = [(''../x'', UnsupportedPattern), (''node_modules'', NotIgnored)]\<rparr>"
  have names: "properNames demoDeps"
    by (simp add: demoDeps_def properNames_def properName_def)
  have members: "fold (addPattern demoDeps) (workspacePatterns demoManifest) ([[]], []) = ([[], ''a/b''], [(''../x'', UnsupportedPattern)])"
    by code_simp
  have "map_sum id fst (foldRes (planMember True) (sort (unique [[], ''a/b'']))
      (\<lparr>dpBound = [], dpSkipped = [(''../x'', UnsupportedPattern)]\<rparr>, demoDeps)) = Inr ?plan"
    by code_simp
  then obtain w' where r: "planDependencyDirectories True demoDeps = Inr (?plan, w')"
    unfolding planDependencyDirectories_def demoDeps_manifest
    by (cases "foldRes (planMember True) (sort (unique [[], ''a/b'']))
      (\<lparr>dpBound = [], dpSkipped = [(''../x'', UnsupportedPattern)]\<rparr>, demoDeps)") (auto simp: members)
  show ?thesis using only_ignored_directories_bound [OF names r] r by simp
qed

end
