(* ===== verification/Spec2Isabelle.thy ===== *)
theory Spec2Isabelle
  imports ServiceQueries LaunchOffers Projections Process ServiceRuns Worktrees Attempt Lifecycle Capacity Journal Lineage Compile Artifacts WriteBudget Sweep StoreRevision Checkpoints CheckpointRaces Dependencies
begin

text \<open>
  A model of pi-subagent: delegated agent runs in sandboxed virtual machines.
\<close>

end
